(* ===== verification/Daemon_Base.thy ===== *)
theory Daemon_Base
  imports Main "HOL-Library.Word"
begin

text \<open>
  The prelude of the development: the vocabulary every component of the daemon shares.
  It models what the sources use of the Rust standard library and nothing of the program
  itself.

  \<^item> \<open>Result\<close> is the sum type \<open>'e + 'a\<close> (\<open>Inl\<close> for \<open>Err\<close>, \<open>Inr\<close> for \<open>Ok\<close>); \<open>and_then\<close>,
    \<open>ok_or\<close> and \<open>map_err\<close> are the combinators the sources use.
  \<^item> \<open>u16\<close>, \<open>u32\<close> and \<open>u64\<close> are words; \<open>checked_add\<close> is the addition that reports overflow.
  \<^item> \<open>Mutex\<close> and \<open>RwLock\<close> of the standard library are a value that may be poisoned, which is
    the one way their \<open>lock\<close>, \<open>read\<close> and \<open>write\<close> fail.
  \<^item> The outside world is a file store and a list of the answers its next operations give;
    an exhausted list answers with success. Quantifying over the list covers every pattern
    of I/O failures.
  \<^item> Two locales state contracts that several components satisfy: a step function that keeps
    an invariant, and a pool of permits.
\<close>

named_theorems result_simps \<open>how a composed result can be Ok or Err\<close>
named_theorems lock_simps \<open>what locking and updating a possibly poisoned lock gives\<close>

section \<open>Results\<close>

type_synonym ('e, 'a) result = "'e + 'a"

fun and_then :: "('e, 'a) result \<Rightarrow> ('a \<Rightarrow> ('e, 'b) result) \<Rightarrow> ('e, 'b) result" where
  "and_then (Inl e) f = Inl e"
| "and_then (Inr x) f = f x"

definition ok_or :: "'e \<Rightarrow> 'a option \<Rightarrow> ('e, 'a) result" where
  "ok_or e x = (case x of None \<Rightarrow> Inl e | Some a \<Rightarrow> Inr a)"

fun map_err :: "('e \<Rightarrow> 'f) \<Rightarrow> ('e, 'a) result \<Rightarrow> ('f, 'a) result" where
  "map_err f (Inl e) = Inl (f e)"
| "map_err f (Inr x) = Inr x"

fun result_ok :: "('e, 'a) result \<Rightarrow> 'a option" where
  "result_ok (Inl e) = None"
| "result_ok (Inr x) = Some x"

fun result_err :: "('e, 'a) result \<Rightarrow> 'e option" where
  "result_err (Inl e) = Some e"
| "result_err (Inr x) = None"

abbreviation is_ok :: "('e, 'a) result \<Rightarrow> bool" where
  "is_ok \<equiv> \<lambda>r. \<not> isl r"

lemma and_then_Inr [result_simps]: "and_then r f = Inr y \<longleftrightarrow> (\<exists>x. r = Inr x \<and> f x = Inr y)"
  by (cases r) auto

lemma and_then_Inl [result_simps]:
  "and_then r f = Inl e \<longleftrightarrow> r = Inl e \<or> (\<exists>x. r = Inr x \<and> f x = Inl e)"
  by (cases r) auto

lemma ok_or_simps [simp]: "ok_or e (Some a) = Inr a" "ok_or e None = Inl e"
  by (simp_all add: ok_or_def)

lemma ok_or_Inr [result_simps]: "ok_or e x = Inr a \<longleftrightarrow> x = Some a"
  by (cases x) (auto simp: ok_or_def)

lemma ok_or_Inl [result_simps]: "ok_or e x = Inl e' \<longleftrightarrow> x = None \<and> e' = e"
  by (cases x) (auto simp: ok_or_def)

lemma map_err_Inr [result_simps]: "map_err f r = Inr a \<longleftrightarrow> r = Inr a"
  by (cases r) auto

lemma map_err_Inl [result_simps]: "map_err f r = Inl e \<longleftrightarrow> (\<exists>e'. r = Inl e' \<and> e = f e')"
  by (cases r) auto

lemma result_err_None [result_simps]: "result_err r = None \<longleftrightarrow> is_ok r"
  by (cases r) auto

lemma isl_map_err [simp]: "isl (map_err f r) = isl r"
  by (cases r) auto

lemma not_isl_unit: "is_ok r \<longleftrightarrow> r = Inr ()" for r :: "('e, unit) result"
  by (cases r) auto

text \<open>
  A fallible operation on a state returns its result and the new state; \<open>st_then\<close> is the
  question mark operator: the state changes made so far stay when an error is returned.
\<close>

fun st_then ::
  "('e, 'a) result \<times> 's \<Rightarrow> ('a \<Rightarrow> 's \<Rightarrow> ('e, 'b) result \<times> 's) \<Rightarrow> ('e, 'b) result \<times> 's" where
  "st_then (Inl e, s) f = (Inl e, s)"
| "st_then (Inr a, s) f = f a s"

lemma st_then_Inr [result_simps]:
  "st_then rs f = (Inr b, s') \<longleftrightarrow> (\<exists>a s. rs = (Inr a, s) \<and> f a s = (Inr b, s'))"
  by (cases rs; cases "fst rs") auto

lemma st_then_Inl [result_simps]:
  "st_then rs f = (Inl e, s') \<longleftrightarrow>
     rs = (Inl e, s') \<or> (\<exists>a s. rs = (Inr a, s) \<and> f a s = (Inl e, s'))"
  by (cases rs; cases "fst rs") auto

text \<open>\<open>map_err\<close> on such an operation.\<close>

fun st_map_err :: "('e \<Rightarrow> 'f) \<Rightarrow> ('e, 'a) result \<times> 's \<Rightarrow> ('f, 'a) result \<times> 's" where
  "st_map_err f (r, s) = (map_err f r, s)"

lemma st_map_err_Inr [result_simps]: "st_map_err f rs = (Inr a, s) \<longleftrightarrow> rs = (Inr a, s)"
  by (cases rs) (auto simp: result_simps)

lemma st_map_err_Inl [result_simps]:
  "st_map_err f rs = (Inl e, s) \<longleftrightarrow> (\<exists>e'. rs = (Inl e', s) \<and> e = f e')"
  by (cases rs) (auto simp: result_simps)

text \<open>A \<open>match\<close> on the result of such an operation, both branches going on.\<close>

fun st_match ::
  "('e, 'a) result \<times> 's \<Rightarrow> ('e \<Rightarrow> 's \<Rightarrow> ('f, 'b) result \<times> 's) \<Rightarrow> ('a \<Rightarrow> 's \<Rightarrow> ('f, 'b) result \<times> 's)
   \<Rightarrow> ('f, 'b) result \<times> 's" where
  "st_match (Inl e, s) f g = f e s"
| "st_match (Inr a, s) f g = g a s"

lemma st_match_eq [result_simps]:
  "st_match rs f g = out \<longleftrightarrow>
     (\<exists>e s. rs = (Inl e, s) \<and> f e s = out) \<or> (\<exists>a s. rs = (Inr a, s) \<and> g a s = out)"
  by (cases rs; cases "fst rs") auto

text \<open>Case analysis on the first of two operations in sequence.\<close>

lemma st_then_rule:
  assumes "\<And>e s. rs = (Inl e, s) \<Longrightarrow> Q (Inl e, s)" and "\<And>a s. rs = (Inr a, s) \<Longrightarrow> Q (f a s)"
  shows "Q (st_then rs f)"
  using assms by (cases rs; cases "fst rs") auto

lemma st_match_rule:
  assumes "\<And>e s. rs = (Inl e, s) \<Longrightarrow> Q (f e s)" and "\<And>a s. rs = (Inr a, s) \<Longrightarrow> Q (g a s)"
  shows "Q (st_match rs f g)"
  using assms by (cases rs; cases "fst rs") auto

section \<open>Machine integers\<close>

type_synonym u8 = "8 word"
type_synonym u16 = "16 word"
type_synonym u32 = "32 word"
type_synonym u64 = "64 word"

definition checked_add :: "'a::len word \<Rightarrow> 'a word \<Rightarrow> 'a word option" where
  "checked_add a b = (if unat a + unat b < 2 ^ LENGTH('a) then Some (a + b) else None)"

lemma checked_add_Some:
  "checked_add a b = Some c \<longleftrightarrow>
     unat a + unat b < 2 ^ LENGTH('a) \<and> unat c = unat a + unat b"
  for a b c :: "'a::len word"
proof -
  have "unat (a + b) = unat a + unat b" if "unat a + unat b < 2 ^ LENGTH('a)"
    using that by (simp add: unat_word_ariths)
  then show ?thesis
    by (auto simp: checked_add_def word_unat_eq_iff)
qed

lemma checked_add_None:
  "checked_add a b = None \<longleftrightarrow> 2 ^ LENGTH('a) \<le> unat a + unat b" for a b :: "'a::len word"
  by (auto simp: checked_add_def)

section \<open>Locks of the standard library\<close>

datatype 'a lock = Sound 'a | Poisoned 'a

text \<open>\<open>lock()\<close>, \<open>read()\<close> and \<open>write()\<close> give the content, or fail on a poisoned lock.\<close>

fun locked :: "'a lock \<Rightarrow> 'a option" where
  "locked (Sound x) = Some x"
| "locked (Poisoned x) = None"

text \<open>What the lock holds whether poisoned or not: for statements, never for the model.\<close>

fun content :: "'a lock \<Rightarrow> 'a" where
  "content (Sound x) = x"
| "content (Poisoned x) = x"

lemma locked_Some [lock_simps]: "locked l = Some x \<longleftrightarrow> l = Sound x"
  by (cases l) auto

lemma locked_None [lock_simps]: "locked l = None \<longleftrightarrow> (\<exists>x. l = Poisoned x)"
  by (cases l) auto

section \<open>The outside world\<close>

text \<open>
  \<open>files\<close> is the file store, by path; \<open>answers\<close> lists what the next fallible operations
  outside the program answer: \<open>None\<close> for success, \<open>Some e\<close> for the I/O error \<open>e\<close>. When the
  list is used up every further operation succeeds.
\<close>

datatype io_kind = NotFound | WouldBlock | InvalidData | InvalidInput | UnexpectedEof | OtherIo

type_synonym path = string

record world =
  files :: "path \<Rightarrow> string option"
  answers :: "io_kind option list"

definition ask :: "world \<Rightarrow> io_kind option \<times> world" where
  "ask w = (case answers w of [] \<Rightarrow> (None, w) | a # as \<Rightarrow> (a, w\<lparr>answers := as\<rparr>))"

lemma files_ask [simp]: "files (snd (ask w)) = files w"
  by (simp add: ask_def split: list.split)

text \<open>One fallible operation, its error converted by \<open>conv\<close>.\<close>

definition io_step :: "(io_kind \<Rightarrow> 'e) \<Rightarrow> world \<Rightarrow> ('e, unit) result \<times> world" where
  "io_step conv w =
     (let (a, w') = ask w in (case a of None \<Rightarrow> Inr () | Some k \<Rightarrow> Inl (conv k), w'))"

lemma files_io_step [simp]: "files (snd (io_step conv w)) = files w"
  using files_ask [of w] by (cases "ask w") (simp add: io_step_def)

lemma files_io_stepD: "io_step conv w = (r, w') \<Longrightarrow> files w' = files w"
  using files_io_step [of conv w] by simp

lemma io_step_quiet: "answers w = [] \<Longrightarrow> io_step conv w = (Inr (), w)"
  by (simp add: io_step_def ask_def)

lemma ask_cases:
  obtains a as where "answers w = a # as" "ask w = (a, w\<lparr>answers := as\<rparr>)"
  | "answers w = []" "ask w = (None, w)"
  by (cases "answers w") (auto simp: ask_def)

section \<open>Shared contracts\<close>

text \<open>
  A deterministic component: \<open>step\<close> performs one operation and \<open>inv\<close> is kept by each. A run
  of any operations keeps it.
\<close>

locale stepper =
  fixes step :: "'s \<Rightarrow> 'op \<Rightarrow> 's"
    and inv :: "'s \<Rightarrow> bool"
  assumes step_inv: "inv s \<Longrightarrow> inv (step s a)"
begin

lemma run_inv: "inv s \<Longrightarrow> inv (foldl step s as)"
  by (induction as arbitrary: s) (auto intro: step_inv)

lemma run_inv_prefix: "inv s \<Longrightarrow> as = bs @ cs \<Longrightarrow> inv (foldl step s bs)"
  by (rule run_inv)

end

text \<open>
  A pool of permits, the contract of \<open>Semaphore::try_acquire_owned\<close> and of dropping the
  permit: \<open>acquire\<close> fails exactly when no permit is available, and changes nothing then;
  \<open>release\<close> returns one that is in use. However requests and releases interleave, the pool is
  never overdrawn, and a failed request means that all permits were in use.
\<close>

locale permit_pool =
  fixes acquire :: "'p \<Rightarrow> 'p option"
    and release :: "'p \<Rightarrow> 'p"
    and available :: "'p \<Rightarrow> nat"
    and in_use :: "'p \<Rightarrow> nat"
    and capacity :: nat
  assumes acquire_None: "acquire p = None \<longleftrightarrow> available p = 0"
    and acquire_Some:
      "acquire p = Some q \<Longrightarrow> available p = Suc (available q) \<and> in_use q = Suc (in_use p)"
    and release_idle: "in_use p = 0 \<Longrightarrow> release p = p"
    and release_one:
      "0 < in_use p \<Longrightarrow> available (release p) = Suc (available p) \<and> in_use p = Suc (in_use (release p))"
begin

definition pool_ok :: "'p \<Rightarrow> bool" where
  "pool_ok p \<longleftrightarrow> available p + in_use p = capacity"

definition pool_step :: "'p \<Rightarrow> bool \<Rightarrow> 'p" where
  "pool_step p request =
     (if request then (case acquire p of None \<Rightarrow> p | Some q \<Rightarrow> q) else release p)"

lemma acquire_ok: "pool_ok p \<Longrightarrow> acquire p = Some q \<Longrightarrow> pool_ok q"
  using acquire_Some [of p q] by (simp add: pool_ok_def)

lemma release_ok: "pool_ok p \<Longrightarrow> pool_ok (release p)"
  using release_idle [of p] release_one [of p] by (cases "in_use p = 0") (auto simp: pool_ok_def)

lemma pool_step_ok: "pool_ok p \<Longrightarrow> pool_ok (pool_step p request)"
  by (cases "acquire p") (auto simp: pool_step_def acquire_ok release_ok)

lemma acquire_full: "pool_ok p \<Longrightarrow> acquire p = None \<longleftrightarrow> in_use p = capacity"
  by (auto simp: pool_ok_def acquire_None)

lemma acquire_after_release: "0 < in_use p \<Longrightarrow> acquire (release p) \<noteq> None"
  using release_one [of p] by (simp add: acquire_None)

end

sublocale permit_pool \<subseteq> pool: stepper pool_step pool_ok
  by unfold_locales (rule pool_step_ok)

context permit_pool begin

lemma pool_never_overdrawn:
  "pool_ok p \<Longrightarrow> in_use (foldl pool_step p requests) \<le> capacity"
  using pool.run_inv [of p requests] by (simp add: pool_ok_def)

end

section \<open>Bounded logs\<close>

definition take_last :: "nat \<Rightarrow> 'a list \<Rightarrow> 'a list" where
  "take_last n xs = drop (length xs - n) xs"

lemma length_take_last: "length (take_last n xs) = min n (length xs)"
  by (auto simp: take_last_def)

lemma take_last_short [simp]: "length xs \<le> n \<Longrightarrow> take_last n xs = xs"
  by (simp add: take_last_def)

lemma take_last_append: "take_last n (take_last n xs @ ys) = take_last n (xs @ ys)"
proof (cases "length xs \<le> n")
  case False
  then have "drop (n + length ys - n) (drop (length xs - n) xs) = drop (length xs + length ys - n) xs"
    by (simp add: add.commute)
  then show ?thesis
    using False by (simp add: take_last_def)
qed simp

text \<open>
  A log that keeps its newest \<open>capacity\<close> entries: \<open>push\<close> adds an entry at the end and drops the
  oldest one when it is full. After any number of entries the log shows the last of them, in
  their order.
\<close>

locale bounded_log =
  fixes push :: "'e \<Rightarrow> 'r \<Rightarrow> 'r"
    and entries :: "'r \<Rightarrow> 'e list"
    and capacity :: nat
  assumes push_entries:
    "length (entries r) \<le> capacity \<Longrightarrow> entries (push e r) = take_last capacity (entries r @ [e])"
begin

lemma push_bounded: "length (entries r) \<le> capacity \<Longrightarrow> length (entries (push e r)) \<le> capacity"
  by (simp add: push_entries length_take_last)

lemma push_all:
  "length (entries r) \<le> capacity \<Longrightarrow>
     entries (foldl (\<lambda>r e. push e r) r es) = take_last capacity (entries r @ es)"
proof (induction es arbitrary: r)
  case (Cons e es)
  then have "entries (foldl (\<lambda>r e. push e r) (push e r) es) =
      take_last capacity (entries (push e r) @ es)"
    by (intro Cons.IH push_bounded)
  with Cons.prems show ?case
    by (simp add: push_entries take_last_append)
qed simp

lemma push_newest: "length (entries r) \<le> capacity \<Longrightarrow> 0 < capacity \<Longrightarrow> last (entries (push e r)) = e"
  by (simp add: push_entries take_last_def last_drop)

end

end
