(* ===== verification/Daemon_Text.thy ===== *)
theory Daemon_Text
  imports Daemon_Base
begin

text \<open>
  Strings and numbers as text. A Rust \<open>String\<close> is the list of its UTF-8 bytes, a \<open>char\<close> of HOL
  being a byte, so that \<open>length\<close> is \<open>len()\<close>. Functions of the standard library that look at
  Unicode scalar values (\<open>trim\<close>, \<open>Path::to_str\<close>) are written on the UTF-8 encoding of these
  values. The lemmas give \<open>trim\<close> on ASCII text, the printing of numbers and its inverse,
  and the splitting of a string at a separator with its inverse.
\<close>

named_theorems ascii_simps \<open>the ASCII classification of bytes, unfolded\<close>

section \<open>Bytes and strings\<close>

definition is_ascii :: "char \<Rightarrow> bool" where
  "is_ascii c \<longleftrightarrow> (of_char c :: nat) < 128"

definition is_ascii_digit :: "char \<Rightarrow> bool" where
  "is_ascii_digit c \<longleftrightarrow> 48 \<le> (of_char c :: nat) \<and> (of_char c :: nat) \<le> 57"

definition is_ascii_lowercase :: "char \<Rightarrow> bool" where
  "is_ascii_lowercase c \<longleftrightarrow> 97 \<le> (of_char c :: nat) \<and> (of_char c :: nat) \<le> 122"

definition is_ascii_uppercase :: "char \<Rightarrow> bool" where
  "is_ascii_uppercase c \<longleftrightarrow> 65 \<le> (of_char c :: nat) \<and> (of_char c :: nat) \<le> 90"

definition is_ascii_alphabetic :: "char \<Rightarrow> bool" where
  "is_ascii_alphabetic c \<longleftrightarrow> is_ascii_lowercase c \<or> is_ascii_uppercase c"

definition is_ascii_alphanumeric :: "char \<Rightarrow> bool" where
  "is_ascii_alphanumeric c \<longleftrightarrow> is_ascii_alphabetic c \<or> is_ascii_digit c"

lemmas ascii_class_defs [ascii_simps] =
  is_ascii_def is_ascii_digit_def is_ascii_lowercase_def is_ascii_uppercase_def
  is_ascii_alphabetic_def is_ascii_alphanumeric_def

definition to_ascii_lowercase_byte :: "char \<Rightarrow> char" where
  "to_ascii_lowercase_byte c = (if is_ascii_uppercase c then char_of (of_char c + 32 :: nat) else c)"

definition to_ascii_lowercase :: "string \<Rightarrow> string" where
  "to_ascii_lowercase s = map to_ascii_lowercase_byte s"

definition eq_ignore_ascii_case :: "string \<Rightarrow> string \<Rightarrow> bool" where
  "eq_ignore_ascii_case a b \<longleftrightarrow> to_ascii_lowercase a = to_ascii_lowercase b"

lemma length_to_ascii_lowercase [simp]: "length (to_ascii_lowercase s) = length s"
  by (simp add: to_ascii_lowercase_def)

lemma of_char_lt_256: "(of_char c :: nat) < 256"
  by simp

lemma ascii_lowercase_fixed: "is_ascii_lowercase (to_ascii_lowercase_byte c) \<longleftrightarrow> is_ascii_alphabetic c"
  by (auto simp: to_ascii_lowercase_byte_def ascii_simps)

text \<open>
  \<open>str::trim\<close> removes the Unicode \<open>White_Space\<close> characters at both ends. \<open>ws1\<close>, \<open>ws2\<close> and
  \<open>ws3\<close> recognise the UTF-8 encodings of these characters by their length: U+0009 to U+000D
  and U+0020; U+0085 and U+00A0; U+1680, U+2000 to U+200A, U+2028, U+2029, U+202F, U+205F and
  U+3000.
\<close>

definition ws1 :: "char \<Rightarrow> bool" where
  "ws1 a \<longleftrightarrow> 9 \<le> (of_char a :: nat) \<and> (of_char a :: nat) \<le> 13 \<or> (of_char a :: nat) = 32"

definition ws2 :: "char \<Rightarrow> char \<Rightarrow> bool" where
  "ws2 a b \<longleftrightarrow> (of_char a :: nat) = 194 \<and> ((of_char b :: nat) = 133 \<or> (of_char b :: nat) = 160)"

definition ws3 :: "char \<Rightarrow> char \<Rightarrow> char \<Rightarrow> bool" where
  "ws3 a b c \<longleftrightarrow>
     (let a = of_char a :: nat; b = of_char b :: nat; c = of_char c :: nat in
        a = 225 \<and> b = 154 \<and> c = 128
      \<or> a = 226 \<and> b = 128 \<and> (128 \<le> c \<and> c \<le> 138 \<or> c = 168 \<or> c = 169 \<or> c = 175)
      \<or> a = 226 \<and> b = 129 \<and> c = 159
      \<or> a = 227 \<and> b = 128 \<and> c = 128)"

text \<open>The bytes of the white-space character a string starts with, or ends with; 0 for none.\<close>

fun ws_lead :: "string \<Rightarrow> nat" where
  "ws_lead (a # b # c # s) = (if ws1 a then 1 else if ws2 a b then 2 else if ws3 a b c then 3 else 0)"
| "ws_lead [a, b] = (if ws1 a then 1 else if ws2 a b then 2 else 0)"
| "ws_lead [a] = (if ws1 a then 1 else 0)"
| "ws_lead [] = 0"

fun ws_trail :: "string \<Rightarrow> nat" where
  "ws_trail (c # b # a # s) = (if ws1 c then 1 else if ws2 b c then 2 else if ws3 a b c then 3 else 0)"
| "ws_trail [c, b] = (if ws1 c then 1 else if ws2 b c then 2 else 0)"
| "ws_trail [c] = (if ws1 c then 1 else 0)"
| "ws_trail [] = 0"

function drop_ws :: "(string \<Rightarrow> nat) \<Rightarrow> string \<Rightarrow> string" where
  "drop_ws ws s = (if s = [] \<or> ws s = 0 then s else drop_ws ws (drop (ws s) s))"
  by pat_completeness auto
termination
  by (relation "measure (\<lambda>(ws, s). length s)") auto

declare drop_ws.simps [simp del]

definition trim :: "string \<Rightarrow> string" where
  "trim s = rev (drop_ws ws_trail (rev (drop_ws ws_lead s)))"

lemma drop_ws_Nil [simp]: "drop_ws ws [] = []"
  by (simp add: drop_ws.simps)

lemma drop_ws_unit: "ws s = 0 \<Longrightarrow> drop_ws ws s = s"
  by (subst drop_ws.simps) simp

lemma length_drop_ws: "length (drop_ws ws s) \<le> length s"
proof (induction ws s rule: drop_ws.induct)
  case (1 ws s)
  show ?case
  proof (cases "s = [] \<or> ws s = 0")
    case True
    then show ?thesis by (auto simp: drop_ws.simps)
  next
    case False
    with 1 have "length (drop_ws ws (drop (ws s) s)) \<le> length s" by fastforce
    with False show ?thesis by (subst drop_ws.simps) simp
  qed
qed

lemma length_trim: "length (trim s) \<le> length s"
  using length_drop_ws [of ws_trail "rev (drop_ws ws_lead s)"] length_drop_ws [of ws_lead s]
  by (simp add: trim_def)

text \<open>On ASCII text, a leading or trailing white-space character is a white-space byte.\<close>

lemma ws2_ascii: "is_ascii a \<Longrightarrow> \<not> ws2 a b" "is_ascii b \<Longrightarrow> \<not> ws2 a b"
  by (auto simp: ws2_def is_ascii_def)

lemma ws3_ascii: "is_ascii a \<Longrightarrow> \<not> ws3 a b c" "is_ascii c \<Longrightarrow> \<not> ws3 a b c"
  by (auto simp: ws3_def is_ascii_def)

lemma ws_lead_ascii: "list_all is_ascii (a # s) \<Longrightarrow> ws_lead (a # s) = (if ws1 a then 1 else 0)"
  by (cases "a # s" rule: ws_lead.cases) (auto simp: ws2_ascii ws3_ascii)

lemma ws_trail_ascii: "list_all is_ascii (a # s) \<Longrightarrow> ws_trail (a # s) = (if ws1 a then 1 else 0)"
  by (cases "a # s" rule: ws_trail.cases) (auto simp: ws2_ascii ws3_ascii)

lemma drop_ws_ascii:
  assumes ascii: "list_all is_ascii s"
    and ws: "\<And>a s. list_all is_ascii (a # s) \<Longrightarrow> ws (a # s) = (if ws1 a then 1 else 0)"
  shows "drop_ws ws s = dropWhile ws1 s"
  using ascii
proof (induction s)
  case (Cons a s)
  then show ?case
    using ws [of a s] by (subst drop_ws.simps) auto
qed simp

lemma list_all_dropWhile: "list_all P s \<Longrightarrow> list_all P (dropWhile Q s)"
  using set_dropWhileD by (fastforce simp: list_all_iff)

lemma trim_ascii:
  assumes "list_all is_ascii s"
  shows "trim s = rev (dropWhile ws1 (rev (dropWhile ws1 s)))"
proof -
  have lead: "drop_ws ws_lead s = dropWhile ws1 s"
    by (rule drop_ws_ascii [OF assms ws_lead_ascii])
  have "list_all is_ascii (rev (dropWhile ws1 s))"
    using list_all_dropWhile [OF assms] by simp
  then have "drop_ws ws_trail (rev (dropWhile ws1 s)) = dropWhile ws1 (rev (dropWhile ws1 s))"
    by (rule drop_ws_ascii) (rule ws_trail_ascii)
  with lead show ?thesis by (simp add: trim_def)
qed

text \<open>A string is its own trim exactly when neither end is white space.\<close>

lemma dropWhile_eq_self: "dropWhile P s = s \<longleftrightarrow> s = [] \<or> \<not> P (hd s)"
proof (cases s)
  case (Cons a t)
  moreover have "length (dropWhile P t) \<le> length t" by (rule length_dropWhile_le)
  ultimately show ?thesis by (auto dest: arg_cong [where f = length])
qed simp

lemma trim_ascii_self:
  assumes "list_all is_ascii s"
  shows "trim s = s \<longleftrightarrow> s = [] \<or> \<not> ws1 (hd s) \<and> \<not> ws1 (last s)"
proof -
  let ?d = "dropWhile ws1 s"
  have eq: "trim s = rev (dropWhile ws1 (rev ?d))"
    by (rule trim_ascii) (rule assms)
  have "trim s = s \<longleftrightarrow> ?d = s \<and> dropWhile ws1 (rev s) = rev s"
  proof
    assume t: "trim s = s"
    then have "length s \<le> length ?d"
      using eq length_dropWhile_le [of ws1 "rev ?d"] by (metis length_rev)
    then have "length (takeWhile ws1 s) = 0"
      by (metis add_le_same_cancel2 le_zero_eq length_append takeWhile_dropWhile_id)
    then have "?d = s"
      by (metis append_self_conv2 length_0_conv takeWhile_dropWhile_id)
    with t eq show "?d = s \<and> dropWhile ws1 (rev s) = rev s"
      by (metis rev_rev_ident)
  qed (simp add: eq)
  then show ?thesis
    by (auto simp: dropWhile_eq_self hd_rev)
qed

section \<open>Prefixes and splitting\<close>

fun strip_prefix :: "'a list \<Rightarrow> 'a list \<Rightarrow> 'a list option" where
  "strip_prefix [] s = Some s"
| "strip_prefix (p # ps) [] = None"
| "strip_prefix (p # ps) (c # s) = (if p = c then strip_prefix ps s else None)"

lemma strip_prefix_Some: "strip_prefix ps s = Some t \<longleftrightarrow> s = ps @ t"
  by (induction ps s rule: strip_prefix.induct) auto

text \<open>
  \<open>split(sep)\<close>: the pieces between the separators, always at least one. \<open>join\<close> puts them back.
\<close>

fun split_by :: "('a \<Rightarrow> bool) \<Rightarrow> 'a list \<Rightarrow> 'a list list" where
  "split_by sep [] = [[]]"
| "split_by sep (c # s) =
     (if sep c then [] # split_by sep s
      else case split_by sep s of [] \<Rightarrow> [[c]] | p # ps \<Rightarrow> (c # p) # ps)"

fun join :: "'a list \<Rightarrow> 'a list list \<Rightarrow> 'a list" where
  "join sep [] = []"
| "join sep [p] = p"
| "join sep (p # q # ps) = p @ sep @ join sep (q # ps)"

lemma split_by_nonempty [simp]: "split_by sep s \<noteq> []"
  by (induction s) (auto split: list.split)

lemma split_by_pieces: "p \<in> set (split_by sep s) \<Longrightarrow> c \<in> set p \<Longrightarrow> \<not> sep c \<and> c \<in> set s"
proof (induction s arbitrary: p)
  case (Cons a s)
  obtain q qs where "split_by sep s = q # qs"
    by (cases "split_by sep s") auto
  with Cons show ?case by (fastforce split: if_splits)
qed simp

lemma join_Cons: "ps \<noteq> [] \<Longrightarrow> join sep (p # ps) = p @ sep @ join sep ps"
  by (cases ps) auto

lemma join_split_by: "join [d] (split_by (\<lambda>c. c = d) s) = s"
proof (induction s)
  case (Cons a s)
  obtain q qs where "split_by (\<lambda>c. c = d) s = q # qs"
    by (cases "split_by (\<lambda>c. c = d) s") auto
  with Cons show ?case by (cases qs) auto
qed simp

lemma split_by_no_sep: "(\<And>c. c \<in> set p \<Longrightarrow> \<not> sep c) \<Longrightarrow> split_by sep p = [p]"
  by (induction p) auto

lemma split_by_append_sep:
  "(\<And>c. c \<in> set p \<Longrightarrow> \<not> sep c) \<Longrightarrow> sep d \<Longrightarrow> split_by sep (p @ d # s) = p # split_by sep s"
  by (induction p) auto

section \<open>Numbers as text\<close>

definition digit_byte :: "nat \<Rightarrow> char" where
  "digit_byte d = char_of (48 + d)"

fun show_nat :: "nat \<Rightarrow> string" where
  "show_nat n = (if n < 10 then [digit_byte n] else show_nat (n div 10) @ [digit_byte (n mod 10)])"

declare show_nat.simps [simp del]

text \<open>
  The loop of \<open>str::parse\<close> for an unsigned type with largest value \<open>bnd\<close>: it stops with an
  error at the first byte that is no digit and at the first overflow.
\<close>

fun parse_digits :: "nat \<Rightarrow> nat \<Rightarrow> string \<Rightarrow> nat option" where
  "parse_digits bnd acc [] = Some acc"
| "parse_digits bnd acc (c # s) =
     (if is_ascii_digit c
      then let acc' = acc * 10 + (of_char c - 48) in
        if acc' \<le> bnd then parse_digits bnd acc' s else None
      else None)"

definition parse_unsigned :: "nat \<Rightarrow> string \<Rightarrow> nat option" where
  "parse_unsigned bnd s =
     (if s = [] then None
      else if hd s = CHR ''+'' then (if tl s = [] then None else parse_digits bnd 0 (tl s))
      else parse_digits bnd 0 s)"

definition usize_max :: nat where
  "usize_max = 18446744073709551615"

lemma digit_byte_digit: "d < 10 \<Longrightarrow> is_ascii_digit (digit_byte d) \<and> of_char (digit_byte d) = 48 + d"
  by (simp add: digit_byte_def is_ascii_digit_def)

lemma parse_digits_append:
  "parse_digits bnd acc (s @ t) =
     (case parse_digits bnd acc s of None \<Rightarrow> None | Some acc' \<Rightarrow> parse_digits bnd acc' t)"
  by (induction bnd acc s rule: parse_digits.induct) (auto simp: Let_def)

lemma parse_digits_bound: "parse_digits bnd acc s = Some n \<Longrightarrow> acc \<le> bnd \<Longrightarrow> n \<le> bnd"
  by (induction bnd acc s rule: parse_digits.induct) (auto simp: Let_def split: if_splits)

lemma parse_unsigned_bound: "parse_unsigned bnd s = Some n \<Longrightarrow> n \<le> bnd"
  by (auto simp: parse_unsigned_def dest: parse_digits_bound split: if_splits)

lemma show_nat_nonempty: "show_nat n \<noteq> []"
  by (subst show_nat.simps) simp

lemma show_nat_digits: "list_all is_ascii_digit (show_nat n)"
proof (induction n rule: show_nat.induct)
  case (1 n)
  show ?case
  proof (cases "n < 10")
    case True
    then show ?thesis by (subst show_nat.simps) (simp add: digit_byte_digit)
  next
    case False
    with 1 show ?thesis by (subst show_nat.simps) (simp add: digit_byte_digit)
  qed
qed

lemma parse_digits_show_nat: "n \<le> bnd \<Longrightarrow> parse_digits bnd 0 (show_nat n) = Some n"
proof (induction n rule: show_nat.induct)
  case (1 n)
  show ?case
  proof (cases "n < 10")
    case True
    with "1.prems" show ?thesis
      by (subst show_nat.simps) (simp add: digit_byte_digit Let_def)
  next
    case False
    moreover have "n div 10 \<le> bnd" using "1.prems" by (meson div_le_dividend le_trans)
    ultimately have "parse_digits bnd 0 (show_nat (n div 10)) = Some (n div 10)"
      using "1.IH" by simp
    with False "1.prems" show ?thesis
      by (subst show_nat.simps) (simp add: digit_byte_digit Let_def parse_digits_append)
  qed
qed

lemma parse_unsigned_show_nat: "n \<le> bnd \<Longrightarrow> parse_unsigned bnd (show_nat n) = Some n"
proof -
  assume n: "n \<le> bnd"
  obtain c s where s: "show_nat n = c # s"
    using show_nat_nonempty by (cases "show_nat n") auto
  then have "is_ascii_digit c" using show_nat_digits [of n] by simp
  then have "c \<noteq> CHR ''+''" by (auto simp: is_ascii_digit_def)
  with s parse_digits_show_nat [OF n] show ?thesis by (simp add: parse_unsigned_def)
qed

section \<open>Validity of UTF-8\<close>

text \<open>
  \<open>OsStr::to_str\<close> succeeds when the bytes are well-formed UTF-8: the table of well-formed byte
  sequences of the Unicode standard, lead byte by lead byte.
\<close>

definition utf8_cont :: "char \<Rightarrow> bool" where
  "utf8_cont c \<longleftrightarrow> 128 \<le> (of_char c :: nat) \<and> (of_char c :: nat) \<le> 191"

definition utf8_second :: "char \<Rightarrow> char \<Rightarrow> bool" where
  "utf8_second a b \<longleftrightarrow>
     (let a = of_char a :: nat; b = of_char b :: nat in
        if a = 224 then 160 \<le> b \<and> b \<le> 191
        else if a = 237 then 128 \<le> b \<and> b \<le> 159
        else if a = 240 then 144 \<le> b \<and> b \<le> 191
        else if a = 244 then 128 \<le> b \<and> b \<le> 143
        else 128 \<le> b \<and> b \<le> 191)"

definition utf8_width :: "char \<Rightarrow> nat" where
  "utf8_width a =
     (let a = of_char a :: nat in
        if a < 128 then 1
        else if 194 \<le> a \<and> a \<le> 223 then 2
        else if 224 \<le> a \<and> a \<le> 239 then 3
        else if 240 \<le> a \<and> a \<le> 244 then 4
        else 0)"

function utf8_valid :: "string \<Rightarrow> bool" where
  "utf8_valid [] = True"
| "utf8_valid (a # s) =
     (let w = utf8_width a in
        w \<noteq> 0 \<and> w \<le> Suc (length s)
      \<and> (2 \<le> w \<longrightarrow> utf8_second a (s ! 0))
      \<and> list_all utf8_cont (take (w - 2) (drop 1 s))
      \<and> utf8_valid (drop (w - 1) s))"
  by pat_completeness auto
termination
  by (relation "measure length") auto

lemma utf8_valid_ascii: "list_all is_ascii s \<Longrightarrow> utf8_valid s"
  by (induction s) (auto simp: utf8_width_def is_ascii_def)

end
