(* ===== verification/Daemon_Path.thy ===== *)
theory Daemon_Path
  imports Daemon_Text
begin

text \<open>
  The queries of \<open>std::path::Path\<close> that the daemon makes, on the Windows target it is built
  for: \<open>is_absolute\<close>, \<open>file_name\<close>, \<open>extension\<close>, \<open>to_str\<close> and whether \<open>parent\<close> is there. A
  path is the list of bytes of its \<open>OsStr\<close>. The lemmas say what a drive-rooted path answers
  and which paths are relative; the validators of the configuration and the executor rest
  on these queries.
\<close>

definition is_verbatim_sep :: "char \<Rightarrow> bool" where
  "is_verbatim_sep c \<longleftrightarrow> c = CHR 0x5C"

definition is_sep_byte :: "char \<Rightarrow> bool" where
  "is_sep_byte c \<longleftrightarrow> c = CHR 0x5C \<or> c = CHR ''/''"

text \<open>\<open>Prefix\<close>, with the number of bytes it takes; only the parts the queries use.\<close>

datatype path_prefix =
    VerbatimUNC nat
  | VerbatimDisk nat
  | Verbatim nat
  | DeviceNS nat
  | UNC nat
  | Disk nat

fun prefix_len :: "path_prefix \<Rightarrow> nat" where
  "prefix_len (VerbatimUNC n) = n"
| "prefix_len (VerbatimDisk n) = n"
| "prefix_len (Verbatim n) = n"
| "prefix_len (DeviceNS n) = n"
| "prefix_len (UNC n) = n"
| "prefix_len (Disk n) = n"

fun is_verbatim :: "path_prefix \<Rightarrow> bool" where
  "is_verbatim (VerbatimUNC n) = True"
| "is_verbatim (VerbatimDisk n) = True"
| "is_verbatim (Verbatim n) = True"
| "is_verbatim (DeviceNS n) = False"
| "is_verbatim (UNC n) = False"
| "is_verbatim (Disk n) = False"

fun has_implicit_root :: "path_prefix \<Rightarrow> bool" where
  "has_implicit_root (Disk n) = False"
| "has_implicit_root p = True"

text \<open>\<open>parse_next_component\<close>: up to the first separator, and what follows it.\<close>

fun next_component :: "bool \<Rightarrow> path \<Rightarrow> path \<times> path" where
  "next_component verbatim [] = ([], [])"
| "next_component verbatim (c # s) =
     (if (if verbatim then is_verbatim_sep c else is_sep_byte c) then ([], s)
      else (let (a, b) = next_component verbatim s in (c # a, b)))"

fun parse_drive :: "path \<Rightarrow> bool" where
  "parse_drive (d # c # s) = (is_ascii_alphabetic d \<and> c = CHR '':'')"
| "parse_drive s = False"

definition parse_drive_exact :: "path \<Rightarrow> bool" where
  "parse_drive_exact s \<longleftrightarrow> (length s \<le> 2 \<or> is_sep_byte (s ! 2)) \<and> parse_drive s"

definition share_len :: "path \<Rightarrow> nat" where
  "share_len share = (if share = [] then 0 else Suc (length share))"

text \<open>\<open>parse_prefix\<close>. Slashes in the first eight bytes are read as backslashes.\<close>

definition parse_prefix :: "path \<Rightarrow> path_prefix option" where
  "parse_prefix p =
     (let norm = map (\<lambda>c. if c = CHR ''/'' then CHR 0x5C else c) (take 8 p) @ drop 8 p in
      case strip_prefix [CHR 0x5C, CHR 0x5C] norm of
        Some rest \<Rightarrow>
          (case strip_prefix [CHR ''?'', CHR 0x5C] rest of
             Some rest' \<Rightarrow>
               if CHR ''/'' \<notin> set (take 4 p)
               then (case strip_prefix [CHR ''U'', CHR ''N'', CHR ''C'', CHR 0x5C] rest' of
                   Some unc \<Rightarrow>
                     (let (server, more) = next_component True (drop 8 p);
                          (share, _) = next_component True more
                      in Some (VerbatimUNC (8 + length server + share_len share)))
                 | None \<Rightarrow>
                     if parse_drive_exact (drop 4 p) then Some (VerbatimDisk 6)
                     else Some (Verbatim (4 + length (fst (next_component True (drop 4 p))))))
               else (let (server, more) = next_component False (drop 2 p);
                         (share, _) = next_component False more
                     in if server \<noteq> [] \<and> share \<noteq> []
                        then Some (UNC (2 + length server + share_len share)) else None)
           | None \<Rightarrow>
               (case strip_prefix [CHR ''.'', CHR 0x5C] rest of
                  Some _ \<Rightarrow> Some (DeviceNS (4 + length (fst (next_component False (drop 4 p)))))
                | None \<Rightarrow>
                    (let (server, more) = next_component False (drop 2 p);
                         (share, _) = next_component False more
                     in if server \<noteq> [] \<and> share \<noteq> []
                        then Some (UNC (2 + length server + share_len share)) else None)))
      | None \<Rightarrow> if parse_drive p then Some (Disk 2) else None)"

definition path_body :: "path \<Rightarrow> path" where
  "path_body p = (case parse_prefix p of None \<Rightarrow> p | Some x \<Rightarrow> drop (prefix_len x) p)"

definition has_root :: "path \<Rightarrow> bool" where
  "has_root p \<longleftrightarrow>
     (path_body p \<noteq> [] \<and> is_sep_byte (hd (path_body p)))
   \<or> (case parse_prefix p of None \<Rightarrow> False | Some x \<Rightarrow> has_implicit_root x)"

definition path_is_absolute :: "path \<Rightarrow> bool" where
  "path_is_absolute p \<longleftrightarrow> has_root p \<and> parse_prefix p \<noteq> None"

text \<open>
  The components after the prefix, as \<open>Components\<close> yields them from the back: pieces between
  separators, empty ones and (outside verbatim paths) single dots left out.
\<close>

definition prefix_verbatim :: "path \<Rightarrow> bool" where
  "prefix_verbatim p = (case parse_prefix p of None \<Rightarrow> False | Some x \<Rightarrow> is_verbatim x)"

definition path_pieces :: "path \<Rightarrow> path list" where
  "path_pieces p =
     filter (\<lambda>c. c \<noteq> [] \<and> (prefix_verbatim p \<or> c \<noteq> ''.''))
       (split_by (if prefix_verbatim p then is_verbatim_sep else is_sep_byte) (path_body p))"

definition path_file_name :: "path \<Rightarrow> path option" where
  "path_file_name p =
     (if path_pieces p = [] then None
      else let l = last (path_pieces p) in if l = ''..'' \<or> l = ''.'' then None else Some l)"

text \<open>\<open>rsplit_file_at_dot\<close> and \<open>extension\<close>: what follows the last dot, if something precedes it.\<close>

definition file_extension :: "path \<Rightarrow> path option" where
  "file_extension f =
     (if f = ''..'' then None
      else let ps = split_by (\<lambda>c. c = CHR ''.'') f in
        if length ps < 2 then None
        else if join ''.'' (butlast ps) = [] then None
        else Some (last ps))"

definition path_extension :: "path \<Rightarrow> path option" where
  "path_extension p = Option.bind (path_file_name p) file_extension"

definition path_to_str :: "path \<Rightarrow> string option" where
  "path_to_str p = (if utf8_valid p then Some p else None)"

text \<open>
  \<open>parent()\<close> is \<open>Some\<close> when the last component is a name, a dot or two dots; a relative path
  that is nothing but a leading dot has the dot as its component.
\<close>

definition path_has_parent :: "path \<Rightarrow> bool" where
  "path_has_parent p \<longleftrightarrow>
     path_pieces p \<noteq> []
   \<or> (\<not> has_root p
      \<and> (case path_body p of
            [] \<Rightarrow> False | a # s \<Rightarrow> a = CHR ''.'' \<and> (s = [] \<or> is_sep_byte (hd s))))"

definition extension_is :: "string \<Rightarrow> path \<Rightarrow> bool" where
  "extension_is ext p \<longleftrightarrow>
     (case Option.bind (path_extension p) path_to_str of
        None \<Rightarrow> False | Some e \<Rightarrow> eq_ignore_ascii_case e ext)"

text \<open>\<open>extension().and_then(to_str).map(str::to_ascii_lowercase)\<close>\<close>

definition path_extension_lower :: "path \<Rightarrow> string option" where
  "path_extension_lower p =
     map_option to_ascii_lowercase (Option.bind (path_extension p) path_to_str)"

lemma to_ascii_lowercase_fixed: "list_all is_ascii_lowercase s \<Longrightarrow> to_ascii_lowercase s = s"
  by (induction s) (auto simp: to_ascii_lowercase_def to_ascii_lowercase_byte_def ascii_simps)

lemma path_extension_lower_iff:
  assumes "to_ascii_lowercase ext = ext"
  shows "path_extension_lower p = Some ext \<longleftrightarrow> extension_is ext p"
  using assms
  by (cases "Option.bind (path_extension p) path_to_str")
    (auto simp: path_extension_lower_def extension_is_def eq_ignore_ascii_case_def)

section \<open>Drive-rooted and relative paths\<close>

lemma parse_prefix_drive:
  assumes "is_ascii_alphabetic d"
  shows "parse_prefix (d # CHR '':'' # s) = Some (Disk 2)"
proof -
  have "d \<noteq> CHR 0x5C" "d \<noteq> CHR ''/''"
    using assms by (auto simp: ascii_simps)
  with assms show ?thesis
    by (auto simp: parse_prefix_def Let_def take_Cons' split: option.split)
qed

lemma drive_rooted_absolute:
  assumes "is_ascii_alphabetic d" and "is_sep_byte c"
  shows "path_is_absolute (d # CHR '':'' # c # s)"
  using assms by (simp add: path_is_absolute_def has_root_def path_body_def parse_prefix_drive)

lemma drive_relative_not_absolute:
  assumes "is_ascii_alphabetic d" and "s = [] \<or> \<not> is_sep_byte (hd s)"
  shows "\<not> path_is_absolute (d # CHR '':'' # s)"
  using assms by (auto simp: path_is_absolute_def has_root_def path_body_def parse_prefix_drive)

lemma plain_relative_not_absolute:
  assumes "s = [] \<or> \<not> is_sep_byte (hd s)" and "\<not> parse_drive s"
  shows "\<not> path_is_absolute s"
proof -
  have "strip_prefix [CHR 0x5C, CHR 0x5C]
      (map (\<lambda>c. if c = CHR ''/'' then CHR 0x5C else c) (take 8 s) @ drop 8 s) = None"
    using assms(1) by (cases s) (auto simp: is_sep_byte_def)
  then show ?thesis
    using assms(2) by (simp add: path_is_absolute_def parse_prefix_def Let_def)
qed

text \<open>What the validators of the source's tests rely on, evaluated.\<close>

lemma path_examples:
  "path_is_absolute ''C:/Apps/player.exe''"
  "path_extension ''C:/Apps/player.exe'' = Some ''exe''"
  "path_file_name ''C:/Windows/pwsh.EXE'' = Some ''pwsh.EXE''"
  "extension_is ''exe'' ''C:/Windows/pwsh.EXE''"
  "path_extension ''C:/Apps/.exe'' = None"
  "\<not> path_is_absolute ''player.exe''"
  "path_is_absolute ([CHR 0x5C, CHR 0x5C] @ ''pc'' @ [CHR 0x5C] @ ''share'')"
  by (code_simp)+

end
