(* ===== verification/Daemon_Domain.thy ===== *)
theory Daemon_Domain
  imports Daemon_Path
begin

text \<open>
  The domain module (daemon/src/domain.rs): request and action identifiers, media commands,
  configured actions, voice commands, and the validators of what arrives from outside. Each
  validator is the code's sequence of checks. The lemmas characterise every validator: the
  identifiers by their grammar, the voice command loop with its two hash sets by a
  declarative specification, the time check over 64-bit words by its arithmetic.
\<close>

section \<open>Limits\<close>

definition BODY_LIMIT :: nat where "BODY_LIMIT = 512"
definition REQUEST_LIFETIME_MS :: u64 where "REQUEST_LIFETIME_MS = 5000"
definition MAX_FUTURE_SKEW_MS :: u64 where "MAX_FUTURE_SKEW_MS = 5000"
definition MAX_REMEMBERED_IDS :: nat where "MAX_REMEMBERED_IDS = 128"
definition VOICE_CONFIG_SCHEMA :: u16 where "VOICE_CONFIG_SCHEMA = 1"
definition VOICE_CONFIG_LIMIT :: nat where "VOICE_CONFIG_LIMIT = 3072"
definition MAX_VOICE_ACTIONS :: nat where "MAX_VOICE_ACTIONS = 12"
definition MAX_VOICE_PHRASE_BYTES :: nat where "MAX_VOICE_PHRASE_BYTES = 63"

lemmas limit_defs =
  BODY_LIMIT_def REQUEST_LIFETIME_MS_def MAX_FUTURE_SKEW_MS_def MAX_REMEMBERED_IDS_def
  VOICE_CONFIG_SCHEMA_def VOICE_CONFIG_LIMIT_def MAX_VOICE_ACTIONS_def MAX_VOICE_PHRASE_BYTES_def

section \<open>Data\<close>

datatype validation_error =
    VInvalidId
  | VInvalidActionId
  | VInvalidTime
  | VInvalidVoiceConfig
  | VExpired
  | VClockSkew
  | VTooLarge
  | VInvalidJson

datatype request_id = RequestId (request_id_str: string)

datatype action_id = ActionId (action_id_str: string)

datatype media_command = Play | Pause | Next | Previous | Mute | Unmute

record media_request =
  mr_id :: request_id
  mr_cmd :: media_command
  mr_issued_at_ms :: u64
  mr_expires_at_ms :: u64

record custom_action_request =
  cr_id :: request_id
  cr_action_id :: action_id
  cr_voice_revision :: u64
  cr_issued_at_ms :: u64
  cr_expires_at_ms :: u64

record voice_command =
  vc_phrase :: string
  vc_action_id :: action_id

record published_voice_config =
  pv_schema :: u16
  pv_revision :: u64
  pv_actions_revision :: u64
  pv_commands :: "voice_command list"

record voice_config_ack_request =
  va_revision :: u64

text \<open>\<open>ConfiguredAction\<close>, the fields in the source's order.\<close>

datatype configured_action =
    Media media_command
  | Launch path "string list" "path option" bool
  | Batch path "string list" "path option"
  | PowerShell path path "string list" "path option"

record custom_action =
  ca_id :: action_id
  ca_name :: string
  ca_enabled :: bool
  ca_phrase :: "string option"
  ca_action :: configured_action

fun media_command_str :: "media_command \<Rightarrow> string" where
  "media_command_str Play = ''play''"
| "media_command_str Pause = ''pause''"
| "media_command_str Next = ''next''"
| "media_command_str Previous = ''previous''"
| "media_command_str Mute = ''mute''"
| "media_command_str Unmute = ''unmute''"

fun validation_error_str :: "validation_error \<Rightarrow> string" where
  "validation_error_str VInvalidId = ''invalid request id''"
| "validation_error_str VInvalidActionId = ''invalid action id''"
| "validation_error_str VInvalidTime = ''invalid request time''"
| "validation_error_str VInvalidVoiceConfig = ''invalid voice configuration''"
| "validation_error_str VExpired = ''request expired''"
| "validation_error_str VClockSkew = ''request clock is too far ahead''"
| "validation_error_str VTooLarge = ''request body too large''"
| "validation_error_str VInvalidJson = ''invalid request body''"

section \<open>Identifiers and batch literals\<close>

text \<open>
  \<open>is_safe_batch_literal\<close> looks at characters; every character it accepts is ASCII, and no
  byte of the encoding of another character is ASCII, so the test on bytes is the same.
\<close>

definition batch_punctuation :: string where
  "batch_punctuation = '' ._-/'' @ [CHR 0x5C] @ '':,+()[]=''"

definition is_safe_batch_literal :: "string \<Rightarrow> bool" where
  "is_safe_batch_literal v \<longleftrightarrow>
     v \<noteq> []
   \<and> \<not> list_ex (\<lambda>ch. ch \<in> {CHR 0x22, CHR ''%'', CHR ''!'', CHR 0x0D, CHR 0x0A, CHR 0x00}) v
   \<and> list_all (\<lambda>ch. is_ascii_alphanumeric ch \<or> ch \<in> set batch_punctuation) v"

definition is_lower_hex :: "char \<Rightarrow> bool" where
  "is_lower_hex b \<longleftrightarrow> is_ascii_digit b \<or> (97 \<le> (of_char b :: nat) \<and> (of_char b :: nat) \<le> 102)"

definition parse_request_id :: "string \<Rightarrow> (validation_error, request_id) result" where
  "parse_request_id v =
     (if length v \<noteq> 32 \<or> \<not> list_all is_lower_hex v then Inl VInvalidId
      else Inr (RequestId v))"

definition action_id_byte :: "char \<Rightarrow> bool" where
  "action_id_byte b \<longleftrightarrow> is_ascii_lowercase b \<or> is_ascii_digit b \<or> b = CHR ''_''"

definition parse_action_id :: "string \<Rightarrow> (validation_error, action_id) result" where
  "parse_action_id v =
     (let valid = 1 \<le> length v \<and> length v \<le> 64
                \<and> is_ascii_lowercase (hd v)
                \<and> list_all action_id_byte v
      in if valid then Inr (ActionId v) else Inl VInvalidActionId)"

text \<open>
  The conversions that serde uses for the two identifiers: the writers hand out the string, the
  readers parse it. The string of a deserializer is a parameter, \<open>Inl\<close> its own error; a refused
  identifier becomes a custom error.
\<close>

datatype 'e decode_error = OwnError 'e | CustomError validation_error

definition request_id_serialize :: "(string \<Rightarrow> 'a) \<Rightarrow> request_id \<Rightarrow> 'a" where
  "request_id_serialize serialize_str i = serialize_str (request_id_str i)"

definition request_id_deserialize :: "('e, string) result \<Rightarrow> ('e decode_error, request_id) result" where
  "request_id_deserialize v =
     and_then (map_err OwnError v) (\<lambda>v. map_err CustomError (parse_request_id v))"

definition action_id_try_from :: "string \<Rightarrow> (validation_error, action_id) result" where
  "action_id_try_from v = parse_action_id v"

definition action_id_into :: "action_id \<Rightarrow> string" where
  "action_id_into i = action_id_str i"

section \<open>Voice commands\<close>

definition reserved_phrases :: "string list" where
  "reserved_phrases =
     [''jarvis'', ''wake'', ''play'', ''pause'', ''next'', ''back'', ''mute'', ''unmute'', ''update'']"

text \<open>\<open>windows(2).any(|pair| pair == b"  ")\<close>\<close>

fun has_double_space :: "string \<Rightarrow> bool" where
  "has_double_space (a # b # s) = (a = CHR '' '' \<and> b = CHR '' '' \<or> has_double_space (b # s))"
| "has_double_space s = False"

definition phrase_rejected :: "string \<Rightarrow> bool" where
  "phrase_rejected phrase \<longleftrightarrow>
     \<not> (2 \<le> length phrase \<and> length phrase \<le> MAX_VOICE_PHRASE_BYTES)
   \<or> trim phrase \<noteq> phrase
   \<or> \<not> list_all is_ascii phrase
   \<or> \<not> list_all (\<lambda>byte. is_ascii_alphabetic byte \<or> byte = CHR '' '') phrase
   \<or> has_double_space phrase"

text \<open>
  The loop of \<open>validate_voice_command_drafts\<close>; \<open>phrases\<close> and \<open>action_ids\<close> are its two hash
  sets, and \<open>insert\<close> answering false is membership before the insertion.
\<close>

fun voice_drafts_loop ::
  "string set \<Rightarrow> string set \<Rightarrow> voice_command list \<Rightarrow> (validation_error, unit) result" where
  "voice_drafts_loop phrases action_ids [] = Inr ()"
| "voice_drafts_loop phrases action_ids (command # commands) =
     (if phrase_rejected (vc_phrase command) then Inl VInvalidVoiceConfig
      else let normalized = to_ascii_lowercase (vc_phrase command);
               action_id = action_id_str (vc_action_id command)
        in if normalized \<in> set reserved_phrases
            \<or> normalized \<in> phrases
            \<or> action_id \<in> action_ids
           then Inl VInvalidVoiceConfig
           else voice_drafts_loop (insert normalized phrases) (insert action_id action_ids) commands)"

definition validate_voice_command_drafts :: "voice_command list \<Rightarrow> (validation_error, unit) result" where
  "validate_voice_command_drafts commands = voice_drafts_loop {} {} commands"

definition validate_voice_commands :: "voice_command list \<Rightarrow> (validation_error, unit) result" where
  "validate_voice_commands commands =
     (if length commands > MAX_VOICE_ACTIONS then Inl VInvalidVoiceConfig
      else validate_voice_command_drafts commands)"

section \<open>Request bodies and times\<close>

text \<open>
  \<open>from_slice\<close> stands for \<open>serde_json::from_slice\<close> at the request's type, a function of the
  bytes that may fail.
\<close>

definition parse_request :: "(string \<Rightarrow> 'r option) \<Rightarrow> string \<Rightarrow> (validation_error, 'r) result" where
  "parse_request from_slice body =
     (if length body > BODY_LIMIT then Inl VTooLarge
      else ok_or VInvalidJson (from_slice body))"

definition validate_time :: "u64 \<Rightarrow> u64 \<Rightarrow> u64 \<Rightarrow> (validation_error, unit) result" where
  "validate_time issued_ms expires_ms now_ms =
     and_then (ok_or VInvalidTime (checked_add issued_ms REQUEST_LIFETIME_MS))
       (\<lambda>expected_expiry.
          if expires_ms \<noteq> expected_expiry then Inl VInvalidTime
          else if now_ms \<ge> expires_ms then Inl VExpired
          else if issued_ms > now_ms \<and> issued_ms - now_ms > MAX_FUTURE_SKEW_MS then Inl VClockSkew
          else Inr ())"

section \<open>Identifiers: the grammar\<close>

definition wf_request_id :: "request_id \<Rightarrow> bool" where
  "wf_request_id r \<longleftrightarrow> length (request_id_str r) = 32 \<and> list_all is_lower_hex (request_id_str r)"

definition wf_action_id :: "action_id \<Rightarrow> bool" where
  "wf_action_id a \<longleftrightarrow>
     (case action_id_str a of
        [] \<Rightarrow> False
      | c # s \<Rightarrow> is_ascii_lowercase c \<and> length s < 64 \<and> list_all action_id_byte s)"

lemma parse_request_id_Inr [result_simps]:
  "parse_request_id v = Inr r \<longleftrightarrow> request_id_str r = v \<and> wf_request_id r"
  by (cases r) (auto simp: parse_request_id_def wf_request_id_def)

lemma parse_request_id_Inl:
  "parse_request_id v = Inl e \<longleftrightarrow> e = VInvalidId \<and> \<not> wf_request_id (RequestId v)"
  by (auto simp: parse_request_id_def wf_request_id_def)

lemma parse_action_id_Inr [result_simps]:
  "parse_action_id v = Inr a \<longleftrightarrow> action_id_str a = v \<and> wf_action_id a"
proof (cases v)
  case (Cons c s)
  then show ?thesis
    by (cases a) (auto simp: parse_action_id_def wf_action_id_def action_id_byte_def)
qed (cases a, auto simp: parse_action_id_def wf_action_id_def)

text \<open>
  Whatever a client sends, the identifiers that are decoded are well formed, and a well-formed one
  survives being written and read.
\<close>

lemma decoded_ids_wf:
  "request_id_deserialize v = Inr i \<Longrightarrow> wf_request_id i"
  "action_id_try_from w = Inr a \<Longrightarrow> wf_action_id a"
  by (auto simp: request_id_deserialize_def action_id_try_from_def result_simps)

lemma ids_round_trip:
  "wf_request_id i \<Longrightarrow> request_id_deserialize (request_id_serialize Inr i) = Inr i"
  "wf_action_id a \<Longrightarrow> action_id_try_from (action_id_into a) = Inr a"
  by (auto simp: request_id_deserialize_def request_id_serialize_def action_id_try_from_def action_id_into_def
      result_simps)

lemma is_lower_hex_ascii: "is_lower_hex b \<Longrightarrow> is_ascii b"
  by (auto simp: is_lower_hex_def ascii_simps)

section \<open>Batch literals: what can never be in one\<close>

definition cmd_metacharacters :: "char set" where
  "cmd_metacharacters =
     {CHR 0x22, CHR ''%'', CHR ''!'', CHR ''&'', CHR ''|'', CHR ''<'', CHR ''>'', CHR ''^'',
      CHR 0x0D, CHR 0x0A, CHR 0x00}"

lemma safe_batch_byte:
  assumes "is_safe_batch_literal v" and "c \<in> set v"
  shows "c \<notin> cmd_metacharacters" and "is_ascii c" and "32 \<le> (of_char c :: nat)"
proof -
  have c: "is_ascii_alphanumeric c \<or> c \<in> set batch_punctuation"
    using assms by (auto simp: is_safe_batch_literal_def list_all_iff)
  then show "is_ascii c" "32 \<le> (of_char c :: nat)"
    by (auto simp: batch_punctuation_def ascii_simps)
  from c show "c \<notin> cmd_metacharacters"
    by (auto simp: cmd_metacharacters_def batch_punctuation_def ascii_simps)
qed

section \<open>Voice phrases: words of letters with single spaces between them\<close>

definition letter_word :: "string \<Rightarrow> bool" where
  "letter_word w \<longleftrightarrow> w \<noteq> [] \<and> list_all is_ascii_alphabetic w"

definition voice_phrase :: "string \<Rightarrow> bool" where
  "voice_phrase p \<longleftrightarrow>
     2 \<le> length p \<and> length p \<le> 63
   \<and> (\<exists>ws. ws \<noteq> [] \<and> list_all letter_word ws \<and> p = join '' '' ws)"

abbreviation is_space :: "char \<Rightarrow> bool" where
  "is_space \<equiv> \<lambda>c. c = CHR '' ''"

lemma split_first_empty: "hd (split_by sep s) = [] \<longleftrightarrow> s = [] \<or> sep (hd s)"
  by (cases s) (auto split: list.split)

lemma split_later_empty:
  "[] \<in> set (tl (split_by is_space s)) \<longleftrightarrow> has_double_space s \<or> s \<noteq> [] \<and> last s = CHR '' ''"
proof (induction s rule: has_double_space.induct)
  case (1 a b s)
  have hd: "[] \<in> set (split_by is_space (b # s)) \<longleftrightarrow>
      b = CHR '' '' \<or> [] \<in> set (tl (split_by is_space (b # s)))"
    using split_first_empty [of is_space "b # s"]
    by (cases "split_by is_space (b # s)") (auto simp del: split_by.simps)
  show ?case
  proof (cases "a = CHR '' ''")
    case True
    then have "tl (split_by is_space (a # b # s)) = split_by is_space (b # s)" by simp
    with True "1" hd show ?thesis by auto
  next
    case False
    then have "tl (split_by is_space (a # b # s)) = tl (split_by is_space (b # s))"
      by (cases "split_by is_space (b # s)") (simp_all del: split_by.simps add: split_by.simps(2) [of _ a])
    with False "1" show ?thesis by simp
  qed
qed auto

lemma words_nonempty:
  "[] \<notin> set (split_by is_space s) \<longleftrightarrow>
     s \<noteq> [] \<and> hd s \<noteq> CHR '' '' \<and> last s \<noteq> CHR '' '' \<and> \<not> has_double_space s"
  using split_later_empty [of s] split_first_empty [of is_space s]
  by (cases "split_by is_space s") auto

lemma letter_not_space: "is_ascii_alphabetic c \<Longrightarrow> c \<noteq> CHR '' ''"
  by (auto simp: ascii_simps)

lemma split_join_words:
  assumes "ws \<noteq> []" and "list_all letter_word ws"
  shows "split_by is_space (join '' '' ws) = ws"
  using assms
proof (induction "'' ''" ws rule: join.induct)
  case (2 p)
  then show ?case
    by (auto simp: letter_word_def list_all_iff intro!: split_by_no_sep dest: letter_not_space)
next
  case (3 p q ps)
  then have "\<not> is_space c" if "c \<in> set p" for c
    using that by (auto simp: letter_word_def list_all_iff dest: letter_not_space)
  with 3 show ?case by (simp add: split_by_append_sep)
qed simp

lemma join_split_words: "join '' '' (split_by is_space s) = s"
  by (rule join_split_by)

lemma voice_phrase_split:
  "voice_phrase p \<longleftrightarrow>
     2 \<le> length p \<and> length p \<le> 63 \<and> list_all letter_word (split_by is_space p)"
  unfolding voice_phrase_def
  by (metis join_split_words split_by_nonempty split_join_words)

lemma set_join: "set (join sep ps) \<subseteq> set sep \<union> \<Union> (set ` set ps)"
  by (induction sep ps rule: join.induct) auto

lemma split_covers: "c \<in> set p \<Longrightarrow> c = CHR '' '' \<or> (\<exists>w \<in> set (split_by is_space p). c \<in> set w)"
  using set_join [of "'' ''" "split_by is_space p"] by (auto simp: join_split_words)

lemma letters_split:
  "list_all letter_word (split_by is_space p) \<longleftrightarrow>
     [] \<notin> set (split_by is_space p) \<and> list_all (\<lambda>b. is_ascii_alphabetic b \<or> b = CHR '' '') p"
  (is "?l \<longleftrightarrow> ?n \<and> ?a")
proof
  assume ?l
  then show "?n \<and> ?a"
    using split_covers [of _ p] by (fastforce simp: list_all_iff letter_word_def)
next
  assume "?n \<and> ?a"
  moreover have "c \<in> set p \<and> c \<noteq> CHR '' ''" if "w \<in> set (split_by is_space p)" "c \<in> set w" for w c
    using split_by_pieces [OF that] by auto
  ultimately show ?l
    by (fastforce simp: list_all_iff letter_word_def)
qed

lemma phrase_trim:
  assumes "list_all (\<lambda>b. is_ascii_alphabetic b \<or> b = CHR '' '') p" and "p \<noteq> []"
  shows "trim p = p \<longleftrightarrow> hd p \<noteq> CHR '' '' \<and> last p \<noteq> CHR '' ''"
proof -
  have ascii: "list_all is_ascii p"
    using assms(1) by (auto simp: list_all_iff ascii_simps)
  have ws: "ws1 c \<longleftrightarrow> c = CHR '' ''" if "c \<in> set p" for c
    using assms(1) that by (auto simp: list_all_iff ascii_simps ws1_def)
  show ?thesis
    using assms(2) by (simp add: trim_ascii_self [OF ascii] ws)
qed

lemma phrase_rejected_iff: "phrase_rejected p \<longleftrightarrow> \<not> voice_phrase p"
proof (cases "list_all (\<lambda>b. is_ascii_alphabetic b \<or> b = CHR '' '') p \<and> p \<noteq> []")
  case True
  then have "list_all is_ascii p"
    by (auto simp: list_all_iff ascii_simps)
  with True show ?thesis
    unfolding phrase_rejected_def voice_phrase_split letters_split words_nonempty
    using phrase_trim [of p] by (simp add: MAX_VOICE_PHRASE_BYTES_def) blast
next
  case False
  then show ?thesis
    unfolding phrase_rejected_def voice_phrase_split letters_split by auto
qed

section \<open>The voice command validators\<close>

text \<open>The specification: well-formed, distinct, non-reserved phrases and distinct actions.\<close>

definition normalized_phrase :: "voice_command \<Rightarrow> string" where
  "normalized_phrase c = to_ascii_lowercase (vc_phrase c)"

definition voice_drafts_ok :: "voice_command list \<Rightarrow> bool" where
  "voice_drafts_ok cs \<longleftrightarrow>
     list_all (\<lambda>c. voice_phrase (vc_phrase c) \<and> normalized_phrase c \<notin> set reserved_phrases) cs
   \<and> distinct (map normalized_phrase cs)
   \<and> distinct (map vc_action_id cs)"

lemma voice_drafts_loop_iff:
  "voice_drafts_loop phrases ids cs = Inr () \<longleftrightarrow>
     voice_drafts_ok cs
   \<and> normalized_phrase ` set cs \<inter> phrases = {}
   \<and> (action_id_str \<circ> vc_action_id) ` set cs \<inter> ids = {}"
proof (induction cs arbitrary: phrases ids)
  case Nil
  then show ?case by (simp add: voice_drafts_ok_def)
next
  case (Cons c cs)
  have "action_id_str x = action_id_str y \<longleftrightarrow> x = y" for x y
    by (cases x; cases y) simp
  then have inj: "action_id_str (vc_action_id c) \<in> (action_id_str \<circ> vc_action_id) ` set cs \<longleftrightarrow>
      vc_action_id c \<in> vc_action_id ` set cs"
    by auto
  show ?case
    using Cons.IH [of "insert (normalized_phrase c) phrases" "insert (action_id_str (vc_action_id c)) ids"] inj
    by (auto simp: voice_drafts_ok_def phrase_rejected_iff normalized_phrase_def Let_def)
qed

lemma voice_drafts_loop_error:
  "voice_drafts_loop phrases ids cs = Inl e \<Longrightarrow> e = VInvalidVoiceConfig"
  by (induction phrases ids cs rule: voice_drafts_loop.induct) (auto simp: Let_def split: if_splits)

lemma validate_drafts_iff: "validate_voice_command_drafts cs = Inr () \<longleftrightarrow> voice_drafts_ok cs"
  by (simp add: validate_voice_command_drafts_def voice_drafts_loop_iff)

lemma validate_drafts_cases:
  "validate_voice_command_drafts cs = (if voice_drafts_ok cs then Inr () else Inl VInvalidVoiceConfig)"
  using validate_drafts_iff [of cs]
  by (cases "validate_voice_command_drafts cs")
    (auto simp: validate_voice_command_drafts_def dest: voice_drafts_loop_error)

lemma validate_voice_commands_cases:
  "validate_voice_commands cs =
     (if length cs \<le> 12 \<and> voice_drafts_ok cs then Inr () else Inl VInvalidVoiceConfig)"
  by (auto simp: validate_voice_commands_def validate_drafts_cases MAX_VOICE_ACTIONS_def)

text \<open>A subsequence of valid drafts is valid.\<close>

lemma distinct_map_filter_of: "distinct (map f xs) \<Longrightarrow> distinct (map f (filter P xs))"
  by (induction xs) auto

lemma voice_drafts_ok_filter: "voice_drafts_ok cs \<Longrightarrow> voice_drafts_ok (filter P cs)"
  by (auto simp: voice_drafts_ok_def distinct_map_filter_of list_all_iff)

section \<open>The time check\<close>

lemma validate_time_cases:
  "validate_time issued expires now =
     (if unat expires \<noteq> unat issued + 5000 then Inl VInvalidTime
      else if unat expires \<le> unat now then Inl VExpired
      else if unat now + 5000 < unat issued then Inl VClockSkew
      else Inr ())"
proof (cases "checked_add issued REQUEST_LIFETIME_MS")
  case None
  then have "unat expires \<noteq> unat issued + 5000"
    using unsigned_less [of expires, where ?'a = nat]
    by (auto simp: checked_add_None REQUEST_LIFETIME_MS_def)
  with None show ?thesis by (simp add: validate_time_def ok_or_def)
next
  case (Some e)
  then have e: "unat e = unat issued + 5000"
    by (auto simp: checked_add_Some REQUEST_LIFETIME_MS_def)
  have skew: "issued > now \<and> issued - now > MAX_FUTURE_SKEW_MS \<longleftrightarrow> unat now + 5000 < unat issued"
    by (auto simp: MAX_FUTURE_SKEW_MS_def word_less_nat_alt unat_sub_if')
  from Some e show ?thesis
    by (simp add: validate_time_def ok_or_def word_unat_eq_iff [of expires] word_le_nat_alt skew)
qed

lemma validate_time_Inr [result_simps]:
  "validate_time issued expires now = Inr () \<longleftrightarrow>
     unat expires = unat issued + 5000 \<and> unat now < unat expires \<and> unat issued \<le> unat now + 5000"
  by (auto simp: validate_time_cases)

lemma validate_time_live: "validate_time issued expires now = Inr () \<Longrightarrow> now < expires"
  by (simp add: result_simps word_less_nat_alt)

text \<open>A request is accepted at most ten seconds before it expires.\<close>

lemma validate_time_window:
  "validate_time issued expires now = Inr () \<Longrightarrow> unat expires \<le> unat now + 10000"
  by (simp add: result_simps)

lemma parse_request_Inr [result_simps]:
  "parse_request from_slice body = Inr r \<longleftrightarrow> length body \<le> 512 \<and> from_slice body = Some r"
  by (auto simp: parse_request_def result_simps BODY_LIMIT_def)

lemma parse_request_Inl:
  "parse_request from_slice body = Inl e \<longleftrightarrow>
     512 < length body \<and> e = VTooLarge \<or> length body \<le> 512 \<and> from_slice body = None \<and> e = VInvalidJson"
  by (auto simp: parse_request_def result_simps BODY_LIMIT_def)

section \<open>Properties\<close>

text \<open>\<open>validate_voice_commands\<close> accepts exactly the tables of at most twelve commands whose
  phrases follow the grammar and are not reserved, with no phrase (compared without case) and no
  action used twice; every other table gets the one error of a voice configuration.\<close>

theorem voice_commands_decided:
  "validate_voice_commands cs =
     (if length cs \<le> 12
       \<and> list_all (\<lambda>c. voice_phrase (vc_phrase c)
                  \<and> to_ascii_lowercase (vc_phrase c) \<notin> set reserved_phrases) cs
       \<and> distinct (map (\<lambda>c. to_ascii_lowercase (vc_phrase c)) cs)
       \<and> distinct (map vc_action_id cs)
      then Inr () else Inl VInvalidVoiceConfig)"
  using validate_voice_commands_cases [of cs]
  by (simp add: voice_drafts_ok_def normalized_phrase_def [abs_def])

text \<open>A phrase passes the byte checks of the validator exactly when it is two to 63 bytes of
  words of ASCII letters with single spaces between them.\<close>

theorem phrase_grammar:
  "\<not> phrase_rejected p \<longleftrightarrow>
     2 \<le> length p \<and> length p \<le> 63
   \<and> (\<exists>ws. ws \<noteq> [] \<and> list_all letter_word ws \<and> p = join '' '' ws)"
  by (auto simp: phrase_rejected_iff voice_phrase_def)

text \<open>The time check in the integers, with no wrap-around: the lifetime must be exactly five
  seconds (an expiry that would overflow is invalid), a request is expired from its expiry on,
  and its issue may be at most five seconds ahead of the clock.\<close>

theorem request_time_decided:
  "validate_time issued expires now =
     (if unat expires \<noteq> unat issued + 5000 then Inl VInvalidTime
      else if unat expires \<le> unat now then Inl VExpired
      else if unat now + 5000 < unat issued then Inl VClockSkew
      else Inr ())"
  by (rule validate_time_cases)

end
