(* ===== verification/Daemon_Config.thy ===== *)
theory Daemon_Config
  imports Daemon_Domain
begin

text \<open>
  The configuration module (daemon/src/config.rs): the application's configuration, its
  default, its validation, the publication of the voice table, and its loading and saving.
  \<open>validate\<close> is the code's sequence of checks with the messages of its errors; the lemmas give
  the specification \<open>config_ok\<close> it decides, and what publication and saving establish.
\<close>

section \<open>Internet addresses\<close>

text \<open>\<open>IpAddr\<close>: the four octets of a version 4 address, the 128 bits of a version 6 one.\<close>

datatype ip_addr = V4 u8 u8 u8 u8 | V6 "128 word"

fun is_private :: "ip_addr \<Rightarrow> bool" where
  "is_private (V4 a b c d) =
     (a = 10 \<or> (a = 172 \<and> 16 \<le> b \<and> b \<le> 31) \<or> (a = 192 \<and> b = 168))"
| "is_private (V6 x) = False"

fun is_loopback :: "ip_addr \<Rightarrow> bool" where
  "is_loopback (V4 a b c d) = (a = 127)"
| "is_loopback (V6 x) = (x = 1)"

fun is_link_local :: "ip_addr \<Rightarrow> bool" where
  "is_link_local (V4 a b c d) = (a = 169 \<and> b = 254)"
| "is_link_local (V6 x) = False"

fun is_ipv4 :: "ip_addr \<Rightarrow> bool" where
  "is_ipv4 (V4 a b c d) = True"
| "is_ipv4 (V6 x) = False"

section \<open>The configuration\<close>

definition CONFIG_VERSION :: u32 where "CONFIG_VERSION = 1"
definition MAX_ACTIONS :: nat where "MAX_ACTIONS = 128"

record app_config =
  ac_version :: u32
  ac_listener_enabled :: bool
  ac_bind_address :: ip_addr
  ac_port :: u16
  ac_start_after_login :: bool
  ac_actions :: "custom_action list"
  ac_actions_revision :: u64
  ac_published_voice :: "published_voice_config option"
  ac_acknowledged_voice_revision :: "u64 option"

definition default_config :: app_config where
  "default_config =
     \<lparr>ac_version = CONFIG_VERSION, ac_listener_enabled = False, ac_bind_address = V4 127 0 0 1,
      ac_port = 8443, ac_start_after_login = False, ac_actions = [], ac_actions_revision = 0,
      ac_published_voice = None, ac_acknowledged_voice_revision = None\<rparr>"

datatype config_error = Invalid string | Io io_kind | Json

section \<open>Validation\<close>

text \<open>The voice command of an action that has a phrase.\<close>

definition action_voice :: "custom_action \<Rightarrow> voice_command option" where
  "action_voice a =
     map_option (\<lambda>phrase. \<lparr>vc_phrase = phrase, vc_action_id = ca_id a\<rparr>) (ca_phrase a)"

definition too_many_args :: "string list \<Rightarrow> bool" where
  "too_many_args args \<longleftrightarrow> length args > 64 \<or> list_ex (\<lambda>arg. length arg > 1024) args"

fun validate_configured_action :: "configured_action \<Rightarrow> (config_error, unit) result" where
  "validate_configured_action (Media command) = Inr ()"
| "validate_configured_action (Launch program args working_dir run_as_admin) =
     (if \<not> path_is_absolute program
       \<or> (run_as_admin \<and> \<not> extension_is ''exe'' program)
       \<or> too_many_args args
      then Inl (Invalid ''program path must be absolute'') else Inr ())"
| "validate_configured_action (Batch script args working_dir) =
     (if too_many_args args
       \<or> \<not> path_is_absolute script
       \<or> \<not> (case path_to_str script of None \<Rightarrow> False | Some s \<Rightarrow> is_safe_batch_literal s)
       \<or> \<not> list_all is_safe_batch_literal args
       \<or> path_extension_lower script
           \<notin> {Some ''bat'', Some ''cmd''}
      then Inl (Invalid ''batch action needs an absolute .bat or .cmd path'') else Inr ())"
| "validate_configured_action (PowerShell interpreter script args working_dir) =
     (if \<not> path_is_absolute interpreter
       \<or> \<not> (case Option.bind (path_file_name interpreter) path_to_str of
              None \<Rightarrow> False
            | Some name \<Rightarrow> eq_ignore_ascii_case name ''powershell.exe''
                        \<or> eq_ignore_ascii_case name ''pwsh.exe'')
       \<or> \<not> path_is_absolute script
       \<or> too_many_args args
       \<or> path_extension_lower script
           \<noteq> Some ''ps1''
      then Inl (Invalid ''PowerShell action needs absolute interpreter and .ps1 paths'')
      else Inr ())"

text \<open>The loop over the actions; \<open>ids\<close> is its hash set.\<close>

fun validate_actions_loop :: "string set \<Rightarrow> custom_action list \<Rightarrow> (config_error, unit) result" where
  "validate_actions_loop ids [] = Inr ()"
| "validate_actions_loop ids (action # actions) =
     (if trim (ca_name action) = []
       \<or> length (ca_name action) > 80
       \<or> action_id_str (ca_id action) \<in> ids
      then Inl (Invalid ''invalid or duplicate action'')
      else and_then (validate_configured_action (ca_action action))
        (\<lambda>_. validate_actions_loop (insert (action_id_str (ca_id action)) ids) actions))"

definition validate_published ::
  "u64 \<Rightarrow> published_voice_config option \<Rightarrow> (config_error, unit) result" where
  "validate_published actions_revision published =
     (case published of
        None \<Rightarrow> Inr ()
      | Some p \<Rightarrow>
          if pv_schema p \<noteq> VOICE_CONFIG_SCHEMA
           \<or> pv_revision p = 0
           \<or> pv_actions_revision p > actions_revision
          then Inl (Invalid ''invalid published voice configuration'')
          else map_err (\<lambda>_. Invalid ''invalid published voice configuration'')
                 (validate_voice_commands (pv_commands p)))"

definition acknowledgment_invalid :: "app_config \<Rightarrow> bool" where
  "acknowledgment_invalid c =
     (case ac_acknowledged_voice_revision c of
        None \<Rightarrow> False
      | Some revision \<Rightarrow>
          revision = 0
        \<or> (case ac_published_voice c of None \<Rightarrow> True | Some p \<Rightarrow> revision > pv_revision p))"

definition validate :: "app_config \<Rightarrow> (config_error, unit) result" where
  "validate c =
     (if ac_version c \<noteq> CONFIG_VERSION
       \<or> ac_port c = 0
       \<or> length (ac_actions c) > MAX_ACTIONS
       \<or> \<not> (is_ipv4 (ac_bind_address c)
             \<and> (is_private (ac_bind_address c) \<or> is_loopback (ac_bind_address c)
                \<or> is_link_local (ac_bind_address c)))
      then Inl (Invalid ''unsupported config version or limits'')
      else if length (filter (\<lambda>a. ca_enabled a \<and> ca_phrase a \<noteq> None) (ac_actions c))
              > MAX_VOICE_ACTIONS
      then Inl (Invalid ''too many enabled voice commands'')
      else and_then
        (map_err (\<lambda>_. Invalid ''invalid voice command'')
          (validate_voice_command_drafts (List.map_filter action_voice (ac_actions c))))
        (\<lambda>_. and_then (validate_published (ac_actions_revision c) (ac_published_voice c))
          (\<lambda>_. if acknowledgment_invalid c then Inl (Invalid ''invalid voice acknowledgment'')
            else validate_actions_loop {} (ac_actions c))))"

section \<open>Publication of the voice table\<close>

text \<open>
  \<open>publish_voice_config\<close> works on \<open>&mut self\<close>: the result comes with the configuration as it
  is left, also when the last validation fails.
\<close>

definition next_voice_revision :: "app_config \<Rightarrow> u64 option" where
  "next_voice_revision c =
     (case ac_published_voice c of None \<Rightarrow> Some 1 | Some p \<Rightarrow> checked_add (pv_revision p) 1)"

definition publish_voice_config :: "app_config \<Rightarrow> (config_error, unit) result \<times> app_config" where
  "publish_voice_config c =
     (case ok_or (Invalid ''voice revision exhausted'') (next_voice_revision c) of
        Inl e \<Rightarrow> (Inl e, c)
      | Inr revision \<Rightarrow>
          let commands = List.map_filter action_voice (filter ca_enabled (ac_actions c)) in
          (case map_err (\<lambda>_. Invalid ''invalid voice command'') (validate_voice_commands commands) of
             Inl e \<Rightarrow> (Inl e, c)
           | Inr _ \<Rightarrow>
               let c' = c\<lparr>ac_published_voice :=
                 Some \<lparr>pv_schema = VOICE_CONFIG_SCHEMA, pv_revision = revision,
                       pv_actions_revision = ac_actions_revision c, pv_commands = commands\<rparr>\<rparr>
               in (validate c', c')))"

section \<open>Loading and saving\<close>

text \<open>
  \<open>encode\<close> is \<open>serde_json::to_writer_pretty\<close> (the text, or \<open>None\<close> for a serialization error)
  and \<open>decode\<close> is \<open>serde_json::from_slice\<close>, both at type \<open>AppConfig\<close>. The temporary file
  beside the target is deleted when it is dropped before \<open>persist\<close>, so the store shows the
  target only: its old content until the last step, the new content after it.
\<close>

definition read_file :: "path \<Rightarrow> world \<Rightarrow> (config_error, string) result \<times> world" where
  "read_file p w =
     st_then (io_step Io w)
       (\<lambda>_ w. (ok_or (Io NotFound) (files w p), w))"

definition load :: "(string \<Rightarrow> app_config option) \<Rightarrow> path \<Rightarrow> world
    \<Rightarrow> (config_error, app_config) result \<times> world" where
  "load decode p w =
     st_then (read_file p w)
       (\<lambda>bytes w.
          (and_then (ok_or Json (decode bytes))
            (\<lambda>config. and_then (validate config) (\<lambda>_. Inr config)), w))"

definition save :: "(app_config \<Rightarrow> string option) \<Rightarrow> path \<Rightarrow> app_config \<Rightarrow> world
    \<Rightarrow> (config_error, unit) result \<times> world" where
  "save encode p config w =
     st_then (validate config, w) (\<lambda>_ w.
     if \<not> path_has_parent p then (Inl (Invalid ''config path needs a parent directory''), w)
     else
       st_then (io_step Io w) (\<lambda>_ w.    \<comment> \<open>create_dir_all\<close>
       st_then (io_step Io w) (\<lambda>_ w.    \<comment> \<open>NamedTempFile::new_in\<close>
       st_then (ok_or Json (encode config), w) (\<lambda>text w.
       st_then (io_step (\<lambda>_. Json) w) (\<lambda>_ w.    \<comment> \<open>to_writer_pretty\<close>
       st_then (io_step Io w) (\<lambda>_ w.    \<comment> \<open>write_all\<close>
       st_then (io_step Io w) (\<lambda>_ w.    \<comment> \<open>sync_all\<close>
       st_then (io_step Io w) (\<lambda>_ w.    \<comment> \<open>persist\<close>
         (Inr (), w\<lparr>files := (files w)(p \<mapsto> text @ [CHR 0x0A])\<rparr>)))))))))"

section \<open>The specification of a valid configuration\<close>

definition bind_allowed :: "ip_addr \<Rightarrow> bool" where
  "bind_allowed a \<longleftrightarrow> is_ipv4 a \<and> (is_private a \<or> is_loopback a \<or> is_link_local a)"

definition args_ok :: "string list \<Rightarrow> bool" where
  "args_ok args \<longleftrightarrow> length args \<le> 64 \<and> list_all (\<lambda>a. length a \<le> 1024) args"

fun action_kind_ok :: "configured_action \<Rightarrow> bool" where
  "action_kind_ok (Media command) = True"
| "action_kind_ok (Launch program args working_dir run_as_admin) =
     (path_is_absolute program \<and> args_ok args \<and> (if run_as_admin then extension_is ''exe'' program else True))"
| "action_kind_ok (Batch script args working_dir) =
     (path_is_absolute script \<and> args_ok args \<and> is_safe_batch_literal script \<and> utf8_valid script
      \<and> list_all is_safe_batch_literal args
      \<and> (extension_is ''bat'' script \<or> extension_is ''cmd'' script))"
| "action_kind_ok (PowerShell interpreter script args working_dir) =
     (path_is_absolute interpreter \<and> path_is_absolute script \<and> args_ok args
      \<and> extension_is ''ps1'' script
      \<and> (case Option.bind (path_file_name interpreter) path_to_str of
           None \<Rightarrow> False
         | Some name \<Rightarrow> to_ascii_lowercase name \<in> {''powershell.exe'', ''pwsh.exe''}))"

definition action_ok :: "custom_action \<Rightarrow> bool" where
  "action_ok a \<longleftrightarrow>
     trim (ca_name a) \<noteq> [] \<and> length (ca_name a) \<le> 80 \<and> action_kind_ok (ca_action a)"

definition actions_ok :: "custom_action list \<Rightarrow> bool" where
  "actions_ok actions \<longleftrightarrow>
     length actions \<le> 128
   \<and> list_all action_ok actions
   \<and> distinct (map ca_id actions)
   \<and> voice_drafts_ok (List.map_filter action_voice actions)
   \<and> length (List.map_filter action_voice (filter ca_enabled actions)) \<le> 12"

definition published_ok :: "u64 \<Rightarrow> published_voice_config \<Rightarrow> bool" where
  "published_ok actions_revision p \<longleftrightarrow>
     pv_schema p = 1 \<and> 0 < pv_revision p \<and> pv_actions_revision p \<le> actions_revision
   \<and> length (pv_commands p) \<le> 12 \<and> voice_drafts_ok (pv_commands p)"

text \<open>An acknowledgment is of a revision that was published.\<close>

definition acknowledged_ok :: "app_config \<Rightarrow> bool" where
  "acknowledged_ok c \<longleftrightarrow>
     pred_option (\<lambda>r. 0 < r \<and> r \<le> (case ac_published_voice c of None \<Rightarrow> 0 | Some p \<Rightarrow> pv_revision p))
       (ac_acknowledged_voice_revision c)"

definition config_ok :: "app_config \<Rightarrow> bool" where
  "config_ok c \<longleftrightarrow>
     ac_version c = 1 \<and> ac_port c \<noteq> 0 \<and> bind_allowed (ac_bind_address c)
   \<and> actions_ok (ac_actions c)
   \<and> pred_option (published_ok (ac_actions_revision c)) (ac_published_voice c)
   \<and> acknowledged_ok c"

section \<open>The validator decides it\<close>

lemma acknowledged_ok_iff: "acknowledged_ok c \<longleftrightarrow> \<not> acknowledgment_invalid c"
  by (auto simp: acknowledged_ok_def acknowledgment_invalid_def not_less word_neq_0_conv split: option.splits)

lemma kind_extension [simp]:
  "path_extension_lower p = Some ''bat'' \<longleftrightarrow> extension_is ''bat'' p"
  "path_extension_lower p = Some ''cmd'' \<longleftrightarrow> extension_is ''cmd'' p"
  "path_extension_lower p = Some ''ps1'' \<longleftrightarrow> extension_is ''ps1'' p"
  by (rule path_extension_lower_iff, code_simp)+

lemma kind_interpreter:
  "eq_ignore_ascii_case name ''powershell.exe'' \<longleftrightarrow> to_ascii_lowercase name = ''powershell.exe''"
  "eq_ignore_ascii_case name ''pwsh.exe'' \<longleftrightarrow> to_ascii_lowercase name = ''pwsh.exe''"
proof -
  have "to_ascii_lowercase ''powershell.exe'' = ''powershell.exe''"
    "to_ascii_lowercase ''pwsh.exe'' = ''pwsh.exe''"
    by code_simp+
  then show "eq_ignore_ascii_case name ''powershell.exe'' \<longleftrightarrow> to_ascii_lowercase name = ''powershell.exe''"
    "eq_ignore_ascii_case name ''pwsh.exe'' \<longleftrightarrow> to_ascii_lowercase name = ''pwsh.exe''"
    by (simp_all only: eq_ignore_ascii_case_def)
qed

lemma too_many_args_iff: "too_many_args args \<longleftrightarrow> \<not> args_ok args"
  by (auto simp: too_many_args_def args_ok_def list_ex_iff list_all_iff not_le)

lemma validate_configured_action_iff:
  "validate_configured_action a = Inr () \<longleftrightarrow> action_kind_ok a"
proof (cases a)
  case (Batch script args wd)
  then show ?thesis
    by (cases "utf8_valid script")
      (auto simp: too_many_args_iff path_to_str_def simp del: map_option_eq_Some split: if_splits)
next
  case (PowerShell interpreter script args wd)
  then show ?thesis
    by (auto simp: too_many_args_iff kind_interpreter split: option.splits if_splits)
qed (auto simp: too_many_args_iff)

lemma validate_actions_loop_iff:
  "validate_actions_loop ids actions = Inr () \<longleftrightarrow>
     list_all action_ok actions \<and> distinct (map ca_id actions)
   \<and> (action_id_str \<circ> ca_id) ` set actions \<inter> ids = {}"
proof (induction actions arbitrary: ids)
  case (Cons a actions)
  have "action_id_str x = action_id_str y \<longleftrightarrow> x = y" for x y
    by (cases x; cases y) simp
  then have inj: "action_id_str (ca_id a) \<in> (action_id_str \<circ> ca_id) ` set actions \<longleftrightarrow>
      ca_id a \<in> ca_id ` set actions"
    by auto
  show ?case
    using Cons.IH [of "insert (action_id_str (ca_id a)) ids"] inj
    by (auto simp: action_ok_def result_simps validate_configured_action_iff not_less)
qed simp

lemma validate_published_iff:
  "validate_published r published = Inr () \<longleftrightarrow> pred_option (published_ok r) published"
  by (cases published)
    (auto simp: validate_published_def published_ok_def result_simps validate_voice_commands_cases
      VOICE_CONFIG_SCHEMA_def word_neq_0_conv not_less)

lemma map_filter_length: "length (List.map_filter f xs) = length (filter (\<lambda>x. f x \<noteq> None) xs)"
  by (simp add: List.map_filter_def)

lemma action_voice_None [simp]: "action_voice a = None \<longleftrightarrow> ca_phrase a = None"
  by (simp add: action_voice_def)

lemma enabled_phrases_length:
  "length (List.map_filter action_voice (filter ca_enabled actions)) =
     length (filter (\<lambda>a. ca_enabled a \<and> ca_phrase a \<noteq> None) actions)"
  by (simp add: map_filter_length conj_commute cong: filter_cong)

theorem validate_iff: "validate c = Inr () \<longleftrightarrow> config_ok c"
  unfolding validate_def config_ok_def acknowledged_ok_iff actions_ok_def bind_allowed_def
  by (auto simp: result_simps validate_drafts_cases validate_published_iff validate_actions_loop_iff
      enabled_phrases_length CONFIG_VERSION_def MAX_ACTIONS_def MAX_VOICE_ACTIONS_def
      split: if_splits)

lemma validate_ok: "is_ok (validate c) \<longleftrightarrow> config_ok c"
  by (simp add: not_isl_unit validate_iff)

lemma validate_InlD: "validate c = Inl e \<Longrightarrow> \<not> config_ok c"
  by (auto simp flip: validate_iff)

lemma validate_cases:
  obtains "config_ok c" "validate c = Inr ()" | e where "\<not> config_ok c" "validate c = Inl e"
  by (cases "validate c") (auto simp: validate_iff dest: validate_InlD)

section \<open>The default and the publication\<close>

lemma default_config_ok: "config_ok default_config"
  by (simp add: config_ok_def default_config_def CONFIG_VERSION_def bind_allowed_def actions_ok_def
      acknowledged_ok_def voice_drafts_ok_def)

definition published_commands :: "app_config \<Rightarrow> voice_command list" where
  "published_commands c = List.map_filter action_voice (filter ca_enabled (ac_actions c))"

definition published_of :: "app_config \<Rightarrow> u64 \<Rightarrow> published_voice_config" where
  "published_of c revision =
     \<lparr>pv_schema = VOICE_CONFIG_SCHEMA, pv_revision = revision,
      pv_actions_revision = ac_actions_revision c, pv_commands = published_commands c\<rparr>"

lemma map_filter_filter_swap:
  "List.map_filter f (filter P xs) = map (the \<circ> f) (filter P (filter (\<lambda>x. f x \<noteq> None) xs))"
  by (simp add: List.map_filter_def conj_commute)

lemma drafts_ok_map_filter: "voice_drafts_ok (map g xs) \<Longrightarrow> voice_drafts_ok (map g (filter P xs))"
  by (auto simp: voice_drafts_ok_def list_all_iff distinct_map_filter_of)

lemma drafts_ok_enabled:
  assumes "voice_drafts_ok (List.map_filter action_voice actions)"
  shows "voice_drafts_ok (List.map_filter action_voice (filter P actions))"
  unfolding map_filter_filter_swap
  by (rule drafts_ok_map_filter) (use assms in \<open>simp add: List.map_filter_def\<close>)

lemma published_commands_ok:
  "config_ok c \<Longrightarrow> length (published_commands c) \<le> 12 \<and> voice_drafts_ok (published_commands c)"
  by (auto simp: config_ok_def actions_ok_def published_commands_def intro: drafts_ok_enabled)

lemma next_voice_revision_Some:
  "next_voice_revision c = Some r \<Longrightarrow>
     (case ac_published_voice c of None \<Rightarrow> unat r = 1 | Some p \<Rightarrow> unat r = Suc (unat (pv_revision p)))"
  by (auto simp: next_voice_revision_def checked_add_Some split: option.splits)

lemma next_voice_revision_pos: "next_voice_revision c = Some r \<Longrightarrow> 0 < r"
  using next_voice_revision_Some [of c r]
  by (auto simp: word_less_nat_alt split: option.splits)

lemma acknowledged_below_next:
  assumes "\<not> acknowledgment_invalid c" and "next_voice_revision c = Some r"
    and "ac_acknowledged_voice_revision c = Some a"
  shows "a < r" and "0 < a"
  using assms next_voice_revision_Some [OF assms(2)]
  by (auto simp: acknowledgment_invalid_def word_less_nat_alt word_le_nat_alt word_neq_0_conv
      split: option.splits)

lemma publish_config_ok:
  assumes "config_ok c" and "next_voice_revision c = Some r"
  shows "config_ok (c\<lparr>ac_published_voice := Some (published_of c r)\<rparr>)"
proof -
  have "\<not> acknowledgment_invalid (c\<lparr>ac_published_voice := Some (published_of c r)\<rparr>)"
    using acknowledged_below_next [OF _ assms(2)] assms(1)
    by (fastforce simp: config_ok_def acknowledged_ok_iff acknowledgment_invalid_def published_of_def split: option.splits)
  then show ?thesis
    using assms published_commands_ok [OF assms(1)] next_voice_revision_pos [OF assms(2)]
    by (simp add: config_ok_def acknowledged_ok_iff published_ok_def published_of_def VOICE_CONFIG_SCHEMA_def)
qed

lemma publish_success:
  assumes "config_ok c" and "next_voice_revision c = Some r"
  shows "publish_voice_config c = (Inr (), c\<lparr>ac_published_voice := Some (published_of c r)\<rparr>)"
  using assms published_commands_ok [OF assms(1)]
    publish_config_ok [OF assms, folded validate_iff]
  by (simp add: publish_voice_config_def ok_or_def validate_voice_commands_cases Let_def
      published_commands_def published_of_def)

lemma publish_exhausted:
  "next_voice_revision c = None \<Longrightarrow>
     publish_voice_config c = (Inl (Invalid ''voice revision exhausted''), c)"
  by (simp add: publish_voice_config_def ok_or_def)

lemma publish_Inr:
  assumes "publish_voice_config c = (Inr (), c')"
  obtains r where "next_voice_revision c = Some r" "config_ok c'"
    "c' = c\<lparr>ac_published_voice := Some (published_of c r)\<rparr>"
proof -
  obtain r where r: "next_voice_revision c = Some r"
    using assms by (cases "next_voice_revision c") (auto simp: publish_exhausted)
  with assms have "c' = c\<lparr>ac_published_voice := Some (published_of c r)\<rparr> \<and> validate c' = Inr ()"
    by (auto simp: publish_voice_config_def ok_or_def Let_def published_of_def
        published_commands_def split: sum.splits)
  with r that show ?thesis by (auto simp: validate_iff)
qed

section \<open>What loading and saving do to the store\<close>

lemma read_file_files: "read_file p w = (r, w') \<Longrightarrow> files w' = files w"
  by (cases r) (auto simp: read_file_def result_simps dest: files_io_stepD)

lemma read_file_Inr:
  "read_file p w = (Inr s, w') \<Longrightarrow> files w p = Some s \<and> files w' = files w"
  by (auto simp: read_file_def result_simps dest: files_io_stepD)

lemma load_files: "load decode p w = (r, w') \<Longrightarrow> files w' = files w"
  by (cases r) (auto simp: load_def result_simps dest: read_file_files)

lemma load_Inr:
  "load decode p w = (Inr c, w') \<Longrightarrow>
     config_ok c \<and> (\<exists>s. files w p = Some s \<and> decode s = Some c)"
  by (auto simp: load_def result_simps validate_iff dest: read_file_Inr)

lemma save_Inl_files: "save encode p c w = (Inl e, w') \<Longrightarrow> files w' = files w"
  by (auto simp: save_def result_simps dest!: files_io_stepD split: if_splits)

lemma save_Inr:
  assumes "save encode p c w = (Inr (), w')"
  shows "config_ok c"
    and "\<exists>text. encode c = Some text \<and> files w' = (files w)(p \<mapsto> text @ [CHR 0x0A])"
  using assms
  by (auto simp: save_def result_simps validate_iff dest!: files_io_stepD split: if_splits)

lemma save_invalid: "\<not> config_ok c \<Longrightarrow> \<exists>e. save encode p c w = (Inl e, w)"
  by (cases c rule: validate_cases) (auto simp: save_def)

lemma save_quiet:
  assumes "config_ok c" and "path_has_parent p" and "encode c = Some text" and "answers w = []"
  shows "save encode p c w = (Inr (), w\<lparr>files := (files w)(p \<mapsto> text @ [CHR 0x0A])\<rparr>)"
  using assms by (simp add: save_def io_step_quiet flip: validate_iff)

lemma load_saved:
  assumes "files w p = Some (text @ [CHR 0x0A])" and "decode (text @ [CHR 0x0A]) = Some c"
    and "config_ok c" and "answers w = []"
  shows "load decode p w = (Inr c, w)"
  using assms by (simp add: load_def read_file_def io_step_quiet ok_or_def flip: validate_iff)

section \<open>Properties\<close>

text \<open>A configuration with one published action, for the instances below.\<close>

definition example_id :: action_id where "example_id = ActionId ''notes''"

definition example_action :: custom_action where
  "example_action =
     \<lparr>ca_id = example_id, ca_name = ''Notes'', ca_enabled = True, ca_phrase = Some ''open notes'',
      ca_action = Launch (''C:'' @ [CHR 0x5C] @ ''notes.exe'') [] None False\<rparr>"

definition example_config :: app_config where
  "example_config =
     default_config\<lparr>ac_actions := [example_action], ac_actions_revision := 1\<rparr>"

definition example_published :: app_config where
  "example_published =
     example_config\<lparr>ac_published_voice := Some \<lparr>pv_schema = 1, pv_revision = 1, pv_actions_revision = 1,
       pv_commands = [\<lparr>vc_phrase = ''open notes'', vc_action_id = example_id\<rparr>]\<rparr>\<rparr>"

lemma example_config_ok: "config_ok example_config"
proof -
  have "validate example_config = Inr ()" by code_simp
  then show ?thesis by (simp add: validate_iff)
qed

lemma example_published_ok: "config_ok example_published"
proof -
  have "validate example_published = Inr ()" by code_simp
  then show ?thesis by (simp add: validate_iff)
qed

text \<open>C17: \<open>validate\<close> decides the specification \<open>config_ok\<close>: version and port, the private or
  local IPv4 address, at most 128 actions with distinct ids, names, programs and arguments within
  their limits, the phrases of all actions and the published table well formed, and an
  acknowledgment only of a revision that was published.\<close>

theorem validation_decides: "is_ok (validate c) \<longleftrightarrow> config_ok c"
  by (rule validate_ok)

text \<open>Publishing a valid configuration fails exactly when the 64-bit revision is used up;
  otherwise the result is valid, its revision is the next one, it is bound to the current
  revision of the actions, its commands are those of the enabled actions with a phrase in their
  order, and nothing else changes.\<close>

theorem publication:
  assumes "config_ok c"
  shows "(case publish_voice_config c of
      (Inl e, c') \<Rightarrow> c' = c \<and> (\<exists>p. ac_published_voice c = Some p \<and> unat (pv_revision p) = 2 ^ 64 - 1)
    | (Inr _, c') \<Rightarrow>
        \<exists>p. c' = c\<lparr>ac_published_voice := Some p\<rparr> \<and> config_ok c'
          \<and> unat (pv_revision p) =
              (case ac_published_voice c of None \<Rightarrow> 1 | Some q \<Rightarrow> unat (pv_revision q) + 1)
          \<and> pv_actions_revision p = ac_actions_revision c
          \<and> pv_commands p = List.map_filter action_voice (filter ca_enabled (ac_actions c)))"
proof (cases "next_voice_revision c")
  case None
  then obtain p where p: "ac_published_voice c = Some p" and "checked_add (pv_revision p) 1 = None"
    by (auto simp: next_voice_revision_def split: option.splits)
  then have "unat (pv_revision p) = 2 ^ 64 - 1"
    using unsigned_less [of "pv_revision p", where ?'a = nat] by (simp add: checked_add_None)
  then show ?thesis using p by (simp add: publish_exhausted [OF None])
next
  case (Some r)
  then show ?thesis
    using publish_success [OF assms Some] publish_config_ok [OF assms Some] next_voice_revision_Some [OF Some]
    by (auto simp: published_of_def published_commands_def split: option.splits)
qed

theorem publication_witness:
  "case publish_voice_config example_config of
      (Inl e, c') \<Rightarrow> c' = example_config \<and> (\<exists>p. ac_published_voice example_config = Some p \<and> unat (pv_revision p) = 2 ^ 64 - 1)
    | (Inr _, c') \<Rightarrow>
        \<exists>p. c' = example_config\<lparr>ac_published_voice := Some p\<rparr> \<and> config_ok c'
          \<and> unat (pv_revision p) =
              (case ac_published_voice example_config of None \<Rightarrow> 1 | Some q \<Rightarrow> unat (pv_revision q) + 1)
          \<and> pv_actions_revision p = ac_actions_revision example_config
          \<and> pv_commands p = List.map_filter action_voice (filter ca_enabled (ac_actions example_config))"
  using publication [OF example_config_ok] .

text \<open>Whatever the file system answers, \<open>save\<close> either fails and leaves every file as it was,
  or the configuration was valid and the target alone has changed, to its encoding and a newline.\<close>

theorem save_all_or_nothing:
  "case save encode p c w of
     (Inl e, w') \<Rightarrow> files w' = files w
   | (Inr _, w') \<Rightarrow>
       config_ok c
     \<and> (\<exists>s. encode c = Some s \<and> files w' = (files w)(p \<mapsto> s @ [CHR 0x0A]))"
proof (cases "save encode p c w")
  case (Pair r w')
  show ?thesis
  proof (cases r)
    case (Inl e)
    then show ?thesis using Pair save_Inl_files [of encode p c w] by simp
  next
    case (Inr u)
    then show ?thesis using Pair save_Inr [of encode p c w w'] by simp
  qed
qed

text \<open>What \<open>save\<close> stored is what \<open>load\<close> gives back, with a decoder that reads what the
  encoder wrote.\<close>

theorem load_after_save:
  assumes "save encode p c w = (Inr (), w')" and "answers w' = []"
    and "\<And>s. encode c = Some s \<Longrightarrow> decode (s @ [CHR 0x0A]) = Some c"
  shows "load decode p w' = (Inr c, w')"
proof -
  obtain s where "encode c = Some s" "files w' = (files w)(p \<mapsto> s @ [CHR 0x0A])"
    using save_Inr(2) [OF assms(1)] by blast
  then show ?thesis using save_Inr(1) [OF assms(1)] assms(2,3) by (simp add: load_saved)
qed

theorem load_after_save_witness:
  "load (\<lambda>s. if s = ''cfg'' @ [CHR 0x0A] then Some example_config else None) ''C:/d/config.json''
     \<lparr>files = [''C:/d/config.json'' \<mapsto> ''cfg'' @ [CHR 0x0A]], answers = []\<rparr> =
   (Inr example_config, \<lparr>files = [''C:/d/config.json'' \<mapsto> ''cfg'' @ [CHR 0x0A]], answers = []\<rparr>)"
proof (rule load_after_save)
  show "save (\<lambda>c. Some ''cfg'') ''C:/d/config.json'' example_config \<lparr>files = Map.empty, answers = []\<rparr> =
      (Inr (), \<lparr>files = [''C:/d/config.json'' \<mapsto> ''cfg'' @ [CHR 0x0A]], answers = []\<rparr>)"
  proof -
    have "path_has_parent ''C:/d/config.json''" by code_simp
    then show ?thesis by (simp add: save_quiet [OF example_config_ok])
  qed
qed simp_all

end
