(* ===== verification/Daemon_Dispatch.thy ===== *)
theory Daemon_Dispatch
  imports Daemon_Config
begin

text \<open>
  The dispatcher of the application module (daemon/src/application.rs): the cache of request
  ids that guards against replays, the ring of diagnostic events, and the operations that
  validate a request, execute its action and record the outcome.

  Each asynchronous operation is given in the two parts its one await point separates:
  \<open>_admit\<close> is what runs before the executor is awaited and returns the action to execute,
  \<open>_complete\<close> is what runs with the executor's answer. The operation itself puts them
  together around an executor \<open>exec\<close>, which is a parameter: a function of its own state and
  the action, as the trait \<open>ActionExecutor\<close> leaves it open. The theory Daemon\_Async
  interleaves the parts of concurrent operations. The argument \<open>free\<close> is the answer of
  \<open>try_read\<close> on the asynchronous lifecycle lock.
\<close>

section \<open>Data\<close>

datatype executor_error = ExFailed | ExFailedWithReason string | ExBusy | ExCancelled

record diagnostic_event =
  de_request_id :: "string option"
  de_action_id :: "string option"
  de_category :: string
  de_reason :: "string option"

datatype dispatch_status = Executed | Dispatched

datatype dispatch_error =
    InvalidTime
  | Expired
  | ClockSkew
  | Duplicate
  | Busy
  | UnknownAction
  | DisabledAction
  | StaleVoiceConfig
  | Execution
  | ExecutionWithReason string
  | ExecutionCancelled
  | ExecutionBusy
  | Configuration

section \<open>The duplicate cache\<close>

record reservation =
  rs_id :: request_id
  rs_expires_at_ms :: u64

type_synonym duplicate_cache = "reservation list"

definition cache_reserve ::
  "request_id \<Rightarrow> u64 \<Rightarrow> u64 \<Rightarrow> duplicate_cache \<Rightarrow> (dispatch_error, unit) result \<times> duplicate_cache" where
  "cache_reserve rid expires_at_ms now_ms entries =
     (let kept = filter (\<lambda>entry. rs_expires_at_ms entry > now_ms) entries in
        if list_ex (\<lambda>entry. rs_id entry = rid) kept then (Inl Duplicate, kept)
        else if length kept \<ge> MAX_REMEMBERED_IDS then (Inl Busy, kept)
        else (Inr (), kept @ [\<lparr>rs_id = rid, rs_expires_at_ms = expires_at_ms\<rparr>]))"

section \<open>The dispatcher\<close>

record dispatcher =
  dp_config :: "app_config lock"
  dp_seen :: "duplicate_cache lock"
  dp_diagnostics :: "diagnostic_event list lock"

definition new_dispatcher :: "app_config \<Rightarrow> (dispatch_error, dispatcher) result" where
  "new_dispatcher config =
     and_then (map_err (\<lambda>_. Configuration) (validate config))
       (\<lambda>_. Inr \<lparr>dp_config = Sound config, dp_seen = Sound [], dp_diagnostics = Sound []\<rparr>)"

text \<open>\<open>replace_config\<close>: the validation before the write lock is awaited, and the assignment.\<close>

definition replace_config_admit :: "app_config \<Rightarrow> (dispatch_error, unit) result" where
  "replace_config_admit config = map_err (\<lambda>_. Configuration) (validate config)"

definition replace_config_commit ::
  "app_config \<Rightarrow> dispatcher \<Rightarrow> (dispatch_error, unit) result \<times> dispatcher" where
  "replace_config_commit config d =
     (case dp_config d of
        Poisoned _ \<Rightarrow> (Inl Configuration, d)
      | Sound _ \<Rightarrow> (Inr (), d\<lparr>dp_config := Sound config\<rparr>))"

definition replace_config ::
  "app_config \<Rightarrow> dispatcher \<Rightarrow> (dispatch_error, unit) result \<times> dispatcher" where
  "replace_config config d =
     st_then (replace_config_admit config, d) (\<lambda>_ d. replace_config_commit config d)"

text \<open>\<open>record\<close>: the ring drops its oldest event when 128 are kept.\<close>

definition push_event :: "diagnostic_event \<Rightarrow> diagnostic_event list \<Rightarrow> diagnostic_event list" where
  "push_event event events = (if length events = 128 then tl events else events) @ [event]"

definition record_event ::
  "string option \<Rightarrow> string option \<Rightarrow> string \<Rightarrow> string option \<Rightarrow> dispatcher \<Rightarrow> dispatcher" where
  "record_event request_id action_id category reason d =
     (case dp_diagnostics d of
        Poisoned _ \<Rightarrow> d
      | Sound events \<Rightarrow>
          d\<lparr>dp_diagnostics := Sound (push_event
              \<lparr>de_request_id = request_id, de_action_id = action_id, de_category = category,
               de_reason = reason\<rparr> events)\<rparr>)"

definition diagnostics :: "dispatcher \<Rightarrow> diagnostic_event list" where
  "diagnostics d = (case locked (dp_diagnostics d) of None \<Rightarrow> [] | Some events \<Rightarrow> events)"

definition reserve ::
  "request_id \<Rightarrow> u64 \<Rightarrow> u64 \<Rightarrow> dispatcher \<Rightarrow> (dispatch_error, unit) result \<times> dispatcher" where
  "reserve rid expiry now d =
     (case dp_seen d of
        Poisoned _ \<Rightarrow> (Inl Configuration, d)
      | Sound cache \<Rightarrow>
          let (r, cache') = cache_reserve rid expiry now cache
          in (r, d\<lparr>dp_seen := Sound cache'\<rparr>))"

fun execution_error :: "executor_error \<Rightarrow> dispatch_error" where
  "execution_error ExFailed = Execution"
| "execution_error (ExFailedWithReason reason) = ExecutionWithReason reason"
| "execution_error ExBusy = ExecutionBusy"
| "execution_error ExCancelled = ExecutionCancelled"

fun diagnostic_reason :: "dispatch_error option \<Rightarrow> string option" where
  "diagnostic_reason (Some (ExecutionWithReason reason)) = Some reason"
| "diagnostic_reason (Some ExecutionBusy) = Some ''Action executor is busy''"
| "diagnostic_reason _ = None"

fun time_error :: "validation_error \<Rightarrow> dispatch_error" where
  "time_error VExpired = Expired"
| "time_error VClockSkew = ClockSkew"
| "time_error _ = InvalidTime"

definition validate_request_time :: "u64 \<Rightarrow> u64 \<Rightarrow> u64 \<Rightarrow> (dispatch_error, unit) result" where
  "validate_request_time issued expires now = map_err time_error (validate_time issued expires now)"

definition try_read :: "bool \<Rightarrow> (dispatch_error, unit) result" where
  "try_read free = (if free then Inr () else Inl Busy)"

section \<open>Media commands\<close>

definition media_admit ::
  "media_request \<Rightarrow> u64 \<Rightarrow> bool \<Rightarrow> dispatcher
   \<Rightarrow> (dispatch_error, configured_action) result \<times> dispatcher" where
  "media_admit request now_ms free d =
     st_then (validate_request_time (mr_issued_at_ms request) (mr_expires_at_ms request) now_ms, d)
       (\<lambda>_ d. st_then (try_read free, d)
       (\<lambda>_ d. st_then (reserve (mr_id request) (mr_expires_at_ms request) now_ms d)
       (\<lambda>_ d. (Inr (Media (mr_cmd request)), d))))"

definition media_complete ::
  "media_request \<Rightarrow> (executor_error, unit) result \<Rightarrow> dispatcher
   \<Rightarrow> (dispatch_error, dispatch_status) result \<times> dispatcher" where
  "media_complete request answer d =
     (let result = map_err execution_error answer;
          d' = record_event (Some (request_id_str (mr_id request))) None
                 (if is_ok result then ''media_executed'' else ''media_failed'')
                 (diagnostic_reason (result_err result)) d
      in (and_then result (\<lambda>_. Inr Executed), d'))"

section \<open>Local tests of an action\<close>

definition test_action_admit ::
  "action_id \<Rightarrow> bool \<Rightarrow> dispatcher \<Rightarrow> (dispatch_error, configured_action) result" where
  "test_action_admit aid free d =
     and_then (try_read free) (\<lambda>_.
     and_then (ok_or Configuration (locked (dp_config d))) (\<lambda>config.
     and_then (ok_or UnknownAction (List.find (\<lambda>action. ca_id action = aid) (ac_actions config)))
       (\<lambda>action. if \<not> ca_enabled action then Inl DisabledAction else Inr (ca_action action))))"

definition test_action_complete ::
  "action_id \<Rightarrow> (executor_error, unit) result \<Rightarrow> dispatcher
   \<Rightarrow> (dispatch_error, unit) result \<times> dispatcher" where
  "test_action_complete aid answer d =
     (let result = map_err execution_error answer
      in (result,
          record_event None (Some (action_id_str aid))
            (case result of
               Inr _ \<Rightarrow> ''local_test_dispatched''
             | Inl e \<Rightarrow> if e = ExecutionCancelled then ''local_test_cancelled'' else ''local_test_failed'')
            (diagnostic_reason (result_err result)) d))"

section \<open>Custom actions\<close>

text \<open>The block that reads the configuration and copies the action out of it.\<close>

definition custom_snapshot ::
  "custom_action_request \<Rightarrow> dispatcher \<Rightarrow> (dispatch_error, configured_action) result" where
  "custom_snapshot request d =
     and_then (ok_or Configuration (locked (dp_config d))) (\<lambda>config.
     and_then (ok_or StaleVoiceConfig (ac_published_voice config)) (\<lambda>published.
     if pv_revision published \<noteq> cr_voice_revision request
      \<or> pv_actions_revision published \<noteq> ac_actions_revision config
      \<or> \<not> list_ex (\<lambda>command. vc_action_id command = cr_action_id request) (pv_commands published)
     then Inl StaleVoiceConfig
     else
       and_then
         (ok_or UnknownAction
           (List.find (\<lambda>action. ca_id action = cr_action_id request) (ac_actions config)))
         (\<lambda>action. if \<not> ca_enabled action then Inl DisabledAction else Inr (ca_action action))))"

definition custom_admit ::
  "custom_action_request \<Rightarrow> u64 \<Rightarrow> bool \<Rightarrow> dispatcher
   \<Rightarrow> (dispatch_error, configured_action) result \<times> dispatcher" where
  "custom_admit request now_ms free d =
     st_then (validate_request_time (cr_issued_at_ms request) (cr_expires_at_ms request) now_ms, d)
       (\<lambda>_ d. st_then (try_read free, d)
       (\<lambda>_ d. st_then (custom_snapshot request d, d)
       (\<lambda>action d. st_then (reserve (cr_id request) (cr_expires_at_ms request) now_ms d)
       (\<lambda>_ d. (Inr action, d)))))"

definition custom_complete ::
  "custom_action_request \<Rightarrow> (executor_error, unit) result \<Rightarrow> dispatcher
   \<Rightarrow> (dispatch_error, dispatch_status) result \<times> dispatcher" where
  "custom_complete request answer d =
     (let result = map_err execution_error answer;
          d' = record_event (Some (request_id_str (cr_id request)))
                 (Some (action_id_str (cr_action_id request)))
                 (case result of
                    Inr _ \<Rightarrow> ''action_dispatched''
                  | Inl e \<Rightarrow> if e = ExecutionCancelled then ''action_cancelled'' else ''action_failed'')
                 (diagnostic_reason (result_err result)) d
      in (and_then result (\<lambda>_. Inr Dispatched), d'))"

section \<open>The operations around an executor\<close>

type_synonym 'x executor =
  "configured_action \<Rightarrow> 'x \<Rightarrow> (executor_error, unit) result \<times> 'x"

definition with_executor ::
  "'x executor \<Rightarrow> (dispatch_error, configured_action) result \<times> dispatcher
   \<Rightarrow> ((executor_error, unit) result \<Rightarrow> dispatcher \<Rightarrow> (dispatch_error, 'a) result \<times> dispatcher)
   \<Rightarrow> 'x \<Rightarrow> (dispatch_error, 'a) result \<times> dispatcher \<times> 'x" where
  "with_executor exec admitted complete x =
     (case admitted of
        (Inl e, d) \<Rightarrow> (Inl e, d, x)
      | (Inr action, d) \<Rightarrow>
          let (answer, x') = exec action x; (r, d') = complete answer d in (r, d', x'))"

definition dispatch_media ::
  "'x executor \<Rightarrow> media_request \<Rightarrow> u64 \<Rightarrow> bool \<Rightarrow> dispatcher \<times> 'x
   \<Rightarrow> (dispatch_error, dispatch_status) result \<times> dispatcher \<times> 'x" where
  "dispatch_media exec request now_ms free = (\<lambda>(d, x).
     with_executor exec (media_admit request now_ms free d) (media_complete request) x)"

definition test_action ::
  "'x executor \<Rightarrow> action_id \<Rightarrow> bool \<Rightarrow> dispatcher \<times> 'x
   \<Rightarrow> (dispatch_error, unit) result \<times> dispatcher \<times> 'x" where
  "test_action exec aid free = (\<lambda>(d, x).
     with_executor exec (test_action_admit aid free d, d) (test_action_complete aid) x)"

definition dispatch_custom ::
  "'x executor \<Rightarrow> custom_action_request \<Rightarrow> u64 \<Rightarrow> bool \<Rightarrow> dispatcher \<times> 'x
   \<Rightarrow> (dispatch_error, dispatch_status) result \<times> dispatcher \<times> 'x" where
  "dispatch_custom exec request now_ms free = (\<lambda>(d, x).
     with_executor exec (custom_admit request now_ms free d) (custom_complete request) x)"

section \<open>The replay guard\<close>

text \<open>
  What the dispatcher relies on in its cache: an accepted id is remembered with its expiry;
  as long as the clock has not reached that expiry, whatever else is reserved, the entry is
  kept and the id is refused.
\<close>

locale replay_guard =
  fixes guard_reserve :: "'i \<Rightarrow> 't::linorder \<Rightarrow> 't \<Rightarrow> 'c \<Rightarrow> bool \<times> 'c"
    and remembered :: "'c \<Rightarrow> 'i \<Rightarrow> 't \<Rightarrow> bool"
  assumes accepted_remembered: "guard_reserve i e n c = (True, c') \<Longrightarrow> remembered c' i e"
    and live_kept: "remembered c i e \<Longrightarrow> n < e \<Longrightarrow> remembered (snd (guard_reserve j x n c)) i e"
    and live_refused: "remembered c i e \<Longrightarrow> n < e \<Longrightarrow> \<not> fst (guard_reserve i x n c)"
begin

definition attempt :: "'c \<Rightarrow> 'i \<times> 't \<times> 't \<Rightarrow> 'c" where
  "attempt c = (\<lambda>(i, e, n). snd (guard_reserve i e n c))"

lemma kept_through:
  "remembered c i e \<Longrightarrow> list_all (\<lambda>(j, x, n). n < e) as \<Longrightarrow> remembered (foldl attempt c as) i e"
proof (induction as arbitrary: c)
  case (Cons a as)
  then show ?case by (cases a) (simp add: attempt_def live_kept)
qed simp

lemma refused_while_live:
  assumes "guard_reserve i e n c = (True, c')" and "list_all (\<lambda>(j, x, n). n < e) as" and "m < e"
  shows "\<not> fst (guard_reserve i x m (foldl attempt c' as))"
  using kept_through [OF accepted_remembered [OF assms(1)] assms(2)] assms(3)
  by (rule live_refused)

end

definition remembers :: "duplicate_cache \<Rightarrow> request_id \<Rightarrow> u64 \<Rightarrow> bool" where
  "remembers cache i e \<longleftrightarrow> \<lparr>rs_id = i, rs_expires_at_ms = e\<rparr> \<in> set cache"

definition cache_attempt :: "request_id \<Rightarrow> u64 \<Rightarrow> u64 \<Rightarrow> duplicate_cache \<Rightarrow> bool \<times> duplicate_cache" where
  "cache_attempt i e n cache = (let (r, cache') = cache_reserve i e n cache in (is_ok r, cache'))"

interpretation guard: replay_guard cache_attempt remembers
proof unfold_locales
  show "remembers c' i e" if "cache_attempt i e n c = (True, c')" for i e n c c'
    using that by (auto simp: cache_attempt_def cache_reserve_def remembers_def Let_def split: if_splits)
  show "remembers (snd (cache_attempt j x n c)) i e" if "remembers c i e" "n < e" for c i e n j x
    using that by (auto simp: cache_attempt_def cache_reserve_def remembers_def Let_def)
  show "\<not> fst (cache_attempt i x n c)" if "remembers c i e" "n < e" for c i e n x
  proof -
    have "list_ex (\<lambda>entry. rs_id entry = i) (filter (\<lambda>entry. rs_expires_at_ms entry > n) c)"
      using that by (force simp: list_ex_iff remembers_def)
    then show ?thesis by (simp add: cache_attempt_def cache_reserve_def Let_def)
  qed
qed

text \<open>The bound and the distinctness of the remembered ids.\<close>

definition cache_ok :: "duplicate_cache \<Rightarrow> bool" where
  "cache_ok cache \<longleftrightarrow> length cache \<le> 128 \<and> distinct (map rs_id cache)"

definition cache_step :: "duplicate_cache \<Rightarrow> request_id \<times> u64 \<times> u64 \<Rightarrow> duplicate_cache" where
  "cache_step cache = (\<lambda>(i, e, n). snd (cache_reserve i e n cache))"

lemma length_filter_bound: "length xs \<le> n \<Longrightarrow> length (filter P xs) \<le> n"
  by (rule le_trans [OF length_filter_le])

lemma cache_reserve_ok: "cache_ok cache \<Longrightarrow> cache_ok (snd (cache_reserve i e n cache))"
  by (auto simp: cache_ok_def cache_reserve_def Let_def length_filter_bound distinct_map_filter_of
      list_ex_iff MAX_REMEMBERED_IDS_def not_le)

interpretation cache: stepper cache_step cache_ok
  by unfold_locales (auto simp: cache_step_def cache_reserve_ok split: prod.split)

lemma cache_reserve_cases:
  "cache_reserve i e n cache = (r, cache') \<longleftrightarrow>
     (let kept = filter (\<lambda>x. n < rs_expires_at_ms x) cache in
        if i \<in> rs_id ` set kept then r = Inl Duplicate \<and> cache' = kept
        else if 128 \<le> length kept then r = Inl Busy \<and> cache' = kept
        else r = Inr () \<and> cache' = kept @ [\<lparr>rs_id = i, rs_expires_at_ms = e\<rparr>])"
  by (auto simp: cache_reserve_def Let_def list_ex_iff MAX_REMEMBERED_IDS_def)

section \<open>The diagnostics ring\<close>

interpretation ring: bounded_log push_event "\<lambda>r. r" 128
proof unfold_locales
  fix e :: diagnostic_event and r :: "diagnostic_event list"
  assume "length r \<le> 128"
  then show "push_event e r = take_last 128 (r @ [e])"
    by (cases r) (auto simp: push_event_def take_last_def)
qed

lemma record_event_frame [simp]:
  "dp_config (record_event i a c r d) = dp_config d"
  "dp_seen (record_event i a c r d) = dp_seen d"
  by (simp_all add: record_event_def split: lock.split)

section \<open>The dispatcher's invariant\<close>

definition dispatcher_ok :: "dispatcher \<Rightarrow> bool" where
  "dispatcher_ok d \<longleftrightarrow>
     config_ok (content (dp_config d))
   \<and> cache_ok (content (dp_seen d))
   \<and> length (content (dp_diagnostics d)) \<le> 128"

lemma new_dispatcher_ok: "new_dispatcher c = Inr d \<Longrightarrow> dispatcher_ok d"
  by (auto simp: new_dispatcher_def result_simps validate_iff dispatcher_ok_def cache_ok_def)

lemma record_event_ok: "dispatcher_ok d \<Longrightarrow> dispatcher_ok (record_event i a c r d)"
  using ring.push_bounded
  by (auto simp: dispatcher_ok_def record_event_def split: lock.split)

lemma reserve_ok: "dispatcher_ok d \<Longrightarrow> dispatcher_ok (snd (reserve i e n d))"
  using cache_reserve_ok [of "content (dp_seen d)" i e n]
  by (auto simp: dispatcher_ok_def reserve_def split: lock.split prod.split)

lemma reserve_frame [simp]:
  "dp_config (snd (reserve i e n d)) = dp_config d"
  "dp_diagnostics (snd (reserve i e n d)) = dp_diagnostics d"
  by (auto simp: reserve_def split: lock.split prod.split)

lemma replace_config_admit_iff: "replace_config_admit c = Inr () \<longleftrightarrow> config_ok c"
  by (simp add: replace_config_admit_def result_simps validate_iff)

lemma replace_config_commit_ok:
  "dispatcher_ok d \<Longrightarrow> config_ok c \<Longrightarrow> dispatcher_ok (snd (replace_config_commit c d))"
  by (auto simp: dispatcher_ok_def replace_config_commit_def split: lock.split)

lemma replace_config_Inr:
  "replace_config c d = (Inr (), d') \<longleftrightarrow>
     config_ok c \<and> (\<exists>old. dp_config d = Sound old) \<and> d' = d\<lparr>dp_config := Sound c\<rparr>"
  by (auto simp: replace_config_def result_simps replace_config_admit_iff replace_config_commit_def
      split: lock.splits)

lemma replace_config_Inl: "replace_config c d = (Inl e, d') \<Longrightarrow> e = Configuration \<and> d' = d"
  by (auto simp: replace_config_def result_simps replace_config_admit_def replace_config_commit_def
      split: lock.splits)

lemma replace_config_ok: "dispatcher_ok d \<Longrightarrow> dispatcher_ok (snd (replace_config c d))"
proof (cases "replace_config c d")
  case (Pair r d')
  assume d: "dispatcher_ok d"
  have "dispatcher_ok d'"
  proof (cases r)
    case (Inl e)
    with Pair d show ?thesis by (auto dest: replace_config_Inl)
  next
    case (Inr u)
    with Pair d show ?thesis by (auto simp: replace_config_Inr dispatcher_ok_def)
  qed
  with Pair show ?thesis by simp
qed

section \<open>What admission reads and changes\<close>

text \<open>The errors that are decided before the request id is reserved.\<close>

definition before_reserve :: "dispatch_error \<Rightarrow> bool" where
  "before_reserve e \<longleftrightarrow>
     e \<in> {InvalidTime, Expired, ClockSkew, StaleVoiceConfig, UnknownAction, DisabledAction}"

lemma reserve_Inr:
  "reserve i e n d = (Inr (), d') \<longleftrightarrow>
     (\<exists>cache. dp_seen d = Sound cache
        \<and> i \<notin> rs_id ` {x \<in> set cache. n < rs_expires_at_ms x}
        \<and> length (filter (\<lambda>x. n < rs_expires_at_ms x) cache) < 128
        \<and> d' = d\<lparr>dp_seen := Sound (filter (\<lambda>x. n < rs_expires_at_ms x) cache
                    @ [\<lparr>rs_id = i, rs_expires_at_ms = e\<rparr>])\<rparr>)"
  by (cases "dp_seen d")
    (auto simp: reserve_def cache_reserve_def Let_def list_ex_iff MAX_REMEMBERED_IDS_def)

lemma reserve_Inl:
  "reserve i e n d = (Inl err, d') \<Longrightarrow> err \<in> {Configuration, Duplicate, Busy}"
  by (cases "dp_seen d") (auto simp: reserve_def cache_reserve_def Let_def split: if_splits)

lemma try_read_results [result_simps]:
  "try_read free = Inr u \<longleftrightarrow> free"
  "try_read free = Inl e \<longleftrightarrow> \<not> free \<and> e = Busy"
  by (auto simp: try_read_def)

lemma validate_request_time_Inl:
  "validate_request_time i e n = Inl err \<Longrightarrow> err \<in> {InvalidTime, Expired, ClockSkew}"
proof -
  have "time_error v \<in> {InvalidTime, Expired, ClockSkew}" for v by (cases v) simp_all
  then show ?thesis if "validate_request_time i e n = Inl err"
    using that by (auto simp: validate_request_time_def result_simps)
qed

lemma media_admit_Inr:
  "media_admit q n free d = (Inr action, d') \<longleftrightarrow>
     validate_time (mr_issued_at_ms q) (mr_expires_at_ms q) n = Inr () \<and> free
   \<and> reserve (mr_id q) (mr_expires_at_ms q) n d = (Inr (), d')
   \<and> action = Media (mr_cmd q)"
  by (auto simp: media_admit_def result_simps validate_request_time_def)

lemma custom_snapshot_Inr:
  "custom_snapshot q d = Inr action \<longleftrightarrow>
     (\<exists>config published entry.
        dp_config d = Sound config \<and> ac_published_voice config = Some published
      \<and> pv_revision published = cr_voice_revision q
      \<and> pv_actions_revision published = ac_actions_revision config
      \<and> list_ex (\<lambda>command. vc_action_id command = cr_action_id q) (pv_commands published)
      \<and> List.find (\<lambda>a. ca_id a = cr_action_id q) (ac_actions config) = Some entry
      \<and> ca_enabled entry \<and> action = ca_action entry)"
  by (auto simp: custom_snapshot_def result_simps lock_simps split: if_splits)

lemma custom_snapshot_Inl:
  "custom_snapshot q d = Inl e \<Longrightarrow>
     e \<in> {Configuration, StaleVoiceConfig, UnknownAction, DisabledAction}"
  by (auto simp: custom_snapshot_def result_simps split: if_splits)

lemma custom_admit_Inr:
  "custom_admit q n free d = (Inr action, d') \<longleftrightarrow>
     validate_time (cr_issued_at_ms q) (cr_expires_at_ms q) n = Inr () \<and> free
   \<and> custom_snapshot q d = Inr action
   \<and> reserve (cr_id q) (cr_expires_at_ms q) n d = (Inr (), d')"
  by (auto simp: custom_admit_def result_simps validate_request_time_def)

lemma media_admit_Inl:
  assumes "media_admit q n free d = (Inl e, d')"
  shows "d' = d \<and> (before_reserve e \<or> e = Busy)
    \<or> reserve (mr_id q) (mr_expires_at_ms q) n d = (Inl e, d')"
  using assms
  by (auto simp: media_admit_def result_simps before_reserve_def dest!: validate_request_time_Inl)

lemma custom_admit_Inl:
  assumes "custom_admit q n free d = (Inl e, d')"
  shows "d' = d \<and> (before_reserve e \<or> e \<in> {Busy, Configuration})
    \<or> reserve (cr_id q) (cr_expires_at_ms q) n d = (Inl e, d')"
  using assms
  by (auto simp: custom_admit_def result_simps before_reserve_def
      dest!: validate_request_time_Inl custom_snapshot_Inl)

lemma reserve_okD: "reserve i e n d = (r, d') \<Longrightarrow> dispatcher_ok d \<Longrightarrow> dispatcher_ok d'"
  using reserve_ok [of d i e n] by simp

lemma reserve_frameD:
  "reserve i e n d = (r, d') \<Longrightarrow> dp_config d' = dp_config d \<and> dp_diagnostics d' = dp_diagnostics d"
  using reserve_frame [of i e n d] by simp

lemma media_admit_step:
  assumes "media_admit q n free d = (r, d')"
  shows "dp_config d' = dp_config d \<and> dp_diagnostics d' = dp_diagnostics d
    \<and> (dispatcher_ok d \<longrightarrow> dispatcher_ok d')"
proof (cases r)
  case (Inl e)
  then show ?thesis
    using assms media_admit_Inl reserve_okD reserve_frameD by metis
next
  case (Inr a)
  then show ?thesis
    using assms media_admit_Inr reserve_okD reserve_frameD by metis
qed

lemma custom_admit_step:
  assumes "custom_admit q n free d = (r, d')"
  shows "dp_config d' = dp_config d \<and> dp_diagnostics d' = dp_diagnostics d
    \<and> (dispatcher_ok d \<longrightarrow> dispatcher_ok d')"
proof (cases r)
  case (Inl e)
  then show ?thesis
    using assms custom_admit_Inl reserve_okD reserve_frameD by metis
next
  case (Inr a)
  then show ?thesis
    using assms custom_admit_Inr reserve_okD reserve_frameD by metis
qed

lemma complete_state:
  "snd (media_complete q answer d) = record_event (Some (request_id_str (mr_id q))) None
     (if is_ok answer then ''media_executed'' else ''media_failed'')
     (diagnostic_reason (result_err (map_err execution_error answer))) d"
  "snd (test_action_complete aid answer d) = record_event None (Some (action_id_str aid))
     (if is_ok answer then ''local_test_dispatched''
       else if answer = Inl ExCancelled then ''local_test_cancelled'' else ''local_test_failed'')
     (diagnostic_reason (result_err (map_err execution_error answer))) d"
  "snd (custom_complete cq answer d) = record_event (Some (request_id_str (cr_id cq)))
     (Some (action_id_str (cr_action_id cq)))
     (if is_ok answer then ''action_dispatched''
       else if answer = Inl ExCancelled then ''action_cancelled'' else ''action_failed'')
     (diagnostic_reason (result_err (map_err execution_error answer))) d"
proof -
  have cancelled: "execution_error e = ExecutionCancelled \<longleftrightarrow> e = ExCancelled" for e
    by (cases e) auto
  show "snd (media_complete q answer d) = record_event (Some (request_id_str (mr_id q))) None
     (if is_ok answer then ''media_executed'' else ''media_failed'')
     (diagnostic_reason (result_err (map_err execution_error answer))) d"
    by (cases answer) (simp_all add: media_complete_def Let_def)
  show "snd (test_action_complete aid answer d) = record_event None (Some (action_id_str aid))
     (if is_ok answer then ''local_test_dispatched''
       else if answer = Inl ExCancelled then ''local_test_cancelled'' else ''local_test_failed'')
     (diagnostic_reason (result_err (map_err execution_error answer))) d"
    by (cases answer) (simp_all add: test_action_complete_def Let_def cancelled)
  show "snd (custom_complete cq answer d) = record_event (Some (request_id_str (cr_id cq)))
     (Some (action_id_str (cr_action_id cq)))
     (if is_ok answer then ''action_dispatched''
       else if answer = Inl ExCancelled then ''action_cancelled'' else ''action_failed'')
     (diagnostic_reason (result_err (map_err execution_error answer))) d"
    by (cases answer) (simp_all add: custom_complete_def Let_def cancelled)
qed

lemma complete_ok:
  "dispatcher_ok d \<Longrightarrow> dispatcher_ok (snd (media_complete q answer d))"
  "dispatcher_ok d \<Longrightarrow> dispatcher_ok (snd (test_action_complete aid answer d))"
  "dispatcher_ok d \<Longrightarrow> dispatcher_ok (snd (custom_complete cq answer d))"
  by (simp_all only: complete_state record_event_ok)

lemma complete_frame:
  "dp_config (snd (media_complete q answer d)) = dp_config d"
  "dp_config (snd (test_action_complete aid answer d)) = dp_config d"
  "dp_config (snd (custom_complete cq answer d)) = dp_config d"
  "dp_seen (snd (media_complete q answer d)) = dp_seen d"
  "dp_seen (snd (test_action_complete aid answer d)) = dp_seen d"
  "dp_seen (snd (custom_complete cq answer d)) = dp_seen d"
  by (simp_all only: complete_state record_event_frame)

lemma with_executor_Inl_admit:
  "with_executor exec (Inl e, d) complete x = (Inl e, d, x)"
  by (simp add: with_executor_def)

text \<open>A dispatch that succeeded selected an action, and the executor carried it out.\<close>

lemma dispatch_custom_Inr:
  assumes "dispatch_custom exec q now free (d, x) = (Inr status, d', x')"
  shows "status = Dispatched \<and> (\<exists>action. custom_snapshot q d = Inr action \<and> exec action x = (Inr (), x'))"
proof -
  obtain r d1 where admit: "custom_admit q now free d = (r, d1)" by fastforce
  then obtain action where action: "r = Inr action"
    using assms by (cases r) (auto simp: dispatch_custom_def with_executor_def)
  obtain answer x1 where run: "exec action x = (answer, x1)" by fastforce
  have "answer = Inr ()" and "x1 = x'" and "status = Dispatched"
    using assms admit action run
    by (cases answer; auto simp: dispatch_custom_def with_executor_def custom_complete_def Let_def)+
  then show ?thesis using admit action run by (auto simp: custom_admit_Inr)
qed

section \<open>Properties\<close>

text \<open>After any requests at any times, the cache remembers at most 128 ids, each once.\<close>

theorem cache_always_bounded:
  "length (foldl cache_step [] requests) \<le> 128 \<and> distinct (map rs_id (foldl cache_step [] requests))"
  using cache.run_inv [of "[]" requests] by (simp add: cache_ok_def)

text \<open>An id that was accepted with expiry \<open>e\<close> is refused at every later request as long as the
  clocks read have not reached \<open>e\<close>, whatever requests come between, and also when the cache is
  full: a live entry is never evicted.\<close>

theorem live_id_refused:
  assumes "cache_reserve i e n cache = (Inr (), cache')"
    and "list_all (\<lambda>(j, x, n). n < e) requests" and "m < e"
  shows "fst (cache_reserve i x m (foldl cache_step cache' requests)) = Inl Duplicate"
proof -
  have attempt: "guard.attempt = cache_step"
    by (auto simp: fun_eq_iff guard.attempt_def cache_step_def cache_attempt_def split: prod.split)
  have "cache_attempt i e n cache = (True, cache')" using assms(1) by (simp add: cache_attempt_def)
  then have kept: "remembers (foldl cache_step cache' requests) i e"
    using guard.kept_through [OF guard.accepted_remembered assms(2)] attempt by simp
  then have "list_ex (\<lambda>entry. rs_id entry = i)
      (filter (\<lambda>entry. rs_expires_at_ms entry > m) (foldl cache_step cache' requests))"
    using assms(3) by (force simp: remembers_def list_ex_iff)
  then show ?thesis by (simp add: cache_reserve_def Let_def)
qed

theorem live_id_refused_witness:
  "fst (cache_reserve (RequestId ''a'') 9000 5999
     (foldl cache_step [\<lparr>rs_id = RequestId ''a'', rs_expires_at_ms = 6000\<rparr>] [(RequestId ''b'', 7000, 2000)])) =
   Inl Duplicate"
  by (rule live_id_refused [of "RequestId ''a''" 6000 1000 "[]"]) (simp_all add: cache_reserve_def MAX_REMEMBERED_IDS_def)

text \<open>A custom request that succeeds was acted on exactly once, with the action that the current
  configuration holds for its id; that action is enabled, belongs to the published voice table of
  the revision the request names, and the table is the one of the current actions.\<close>

theorem custom_runs_published_action:
  assumes "dispatch_custom exec q now free (d, x) = (Inr status, d', x')"
  shows "status = Dispatched
    \<and> (\<exists>config published entry.
         dp_config d = Sound config \<and> ac_published_voice config = Some published
       \<and> pv_revision published = cr_voice_revision q
       \<and> pv_actions_revision published = ac_actions_revision config
       \<and> cr_action_id q \<in> set (map vc_action_id (pv_commands published))
       \<and> entry \<in> set (ac_actions config) \<and> ca_id entry = cr_action_id q \<and> ca_enabled entry
       \<and> exec (ca_action entry) x = (Inr (), x'))"
proof -
  from dispatch_custom_Inr [OF assms] obtain action where
    "status = Dispatched" "custom_snapshot q d = Inr action" "exec action x = (Inr (), x')" by blast
  then show ?thesis by (force simp: custom_snapshot_Inr find_Some_iff list_ex_iff)
qed

definition example_dispatcher :: dispatcher where
  "example_dispatcher =
     \<lparr>dp_config = Sound example_published, dp_seen = Sound [], dp_diagnostics = Sound []\<rparr>"

definition example_request :: custom_action_request where
  "example_request =
     \<lparr>cr_id = RequestId ''0123456789abcdef0123456789abcdef'', cr_action_id = example_id,
      cr_voice_revision = 1, cr_issued_at_ms = 1000, cr_expires_at_ms = 6000\<rparr>"

definition example_exec :: "nat executor" where
  "example_exec action n = (Inr (), n + 1)"

lemmas example_simps =
  example_dispatcher_def example_request_def example_published_def example_config_def
  example_action_def example_id_def default_config_def

lemma example_reserve:
  "reserve i e now example_dispatcher =
     (Inr (), example_dispatcher\<lparr>dp_seen := Sound [\<lparr>rs_id = i, rs_expires_at_ms = e\<rparr>]\<rparr>)"
  by (simp add: reserve_Inr example_dispatcher_def)

lemma example_snapshot:
  "custom_snapshot example_request example_dispatcher = Inr (ca_action example_action)"
  by (simp add: custom_snapshot_Inr example_simps)

lemma example_admit:
  "custom_admit example_request 2000 True example_dispatcher =
     (Inr (ca_action example_action), example_dispatcher\<lparr>dp_seen := Sound
        [\<lparr>rs_id = cr_id example_request, rs_expires_at_ms = cr_expires_at_ms example_request\<rparr>]\<rparr>)"
  unfolding custom_admit_Inr
  by (simp add: example_snapshot example_reserve) (simp add: example_request_def validate_time_Inr)

lemma example_dispatch:
  "fst (dispatch_custom example_exec example_request 2000 True (example_dispatcher, 0)) = Inr Dispatched"
  by (simp add: dispatch_custom_def with_executor_def example_admit example_exec_def custom_complete_def)

theorem custom_runs_published_action_witness:
  "\<exists>d' x'. dispatch_custom example_exec example_request 2000 True (example_dispatcher, 0) = (Inr Dispatched, d', x')
    \<and> (\<exists>config published entry.
         dp_config example_dispatcher = Sound config \<and> ac_published_voice config = Some published
       \<and> pv_revision published = cr_voice_revision example_request
       \<and> pv_actions_revision published = ac_actions_revision config
       \<and> cr_action_id example_request \<in> set (map vc_action_id (pv_commands published))
       \<and> entry \<in> set (ac_actions config) \<and> ca_id entry = cr_action_id example_request \<and> ca_enabled entry
       \<and> example_exec (ca_action entry) 0 = (Inr (), x'))"
proof -
  obtain d' x' where run:
    "dispatch_custom example_exec example_request 2000 True (example_dispatcher, 0) = (Inr Dispatched, d', x')"
    using example_dispatch by (metis prod.collapse)
  from run custom_runs_published_action [OF run] show ?thesis by blast
qed

text \<open>A request refused for its time, for a stale voice revision, or for an unknown or disabled
  action leaves no trace: no reserved id, no diagnostic, no call of the executor.\<close>

theorem refused_leaves_no_trace:
  assumes "dispatch_custom exec q now free (d, x) = (Inl e, d', x')" and "before_reserve e"
  shows "d' = d \<and> x' = x"
proof -
  obtain r d1 where admit: "custom_admit q now free d = (r, d1)" by fastforce
  show ?thesis
  proof (cases r)
    case (Inl e1)
    then have "e1 = e" "d' = d1" "x' = x" using assms(1) admit by (auto simp: dispatch_custom_def with_executor_def)
    then show ?thesis
      using custom_admit_Inl [OF admit [unfolded Inl]] assms(2) reserve_Inl
      by (fastforce simp: before_reserve_def)
  next
    case (Inr action)
    obtain answer x1 where "exec action x = (answer, x1)" by fastforce
    then have "\<exists>v. e = execution_error v"
      using assms(1) admit Inr
      by (cases answer) (auto simp: dispatch_custom_def with_executor_def custom_complete_def Let_def)
    then show ?thesis using assms(2) by (auto simp: before_reserve_def elim!: execution_error.elims)
  qed
qed

theorem refused_leaves_no_trace_witness:
  "\<exists>d' x'. dispatch_custom example_exec (example_request\<lparr>cr_voice_revision := 2\<rparr>) 2000 True
      (example_dispatcher, 0) = (Inl StaleVoiceConfig, d', x') \<and> d' = example_dispatcher \<and> x' = 0"
proof -
  have "fst (dispatch_custom example_exec (example_request\<lparr>cr_voice_revision := 2\<rparr>) 2000 True
      (example_dispatcher, 0)) = Inl StaleVoiceConfig"
    by (simp add: dispatch_custom_def with_executor_def custom_admit_def validate_request_time_def
        validate_time_Inr [THEN iffD2] try_read_def custom_snapshot_def example_simps)
  then obtain d' x' where run: "dispatch_custom example_exec (example_request\<lparr>cr_voice_revision := 2\<rparr>) 2000 True
      (example_dispatcher, 0) = (Inl StaleVoiceConfig, d', x')" by (metis prod.collapse)
  then show ?thesis using refused_leaves_no_trace [OF run] by (simp add: before_reserve_def)
qed

text \<open>A media request that succeeds had the executor run its command once, was within its time,
  and is recorded as executed at the end of the diagnostics; its id is reserved from then on.\<close>

theorem media_dispatch_effects:
  assumes "dispatch_media exec q now free (d, x) = (Inr status, d', x')"
  shows "status = Executed \<and> exec (Media (mr_cmd q)) x = (Inr (), x')
    \<and> validate_time (mr_issued_at_ms q) (mr_expires_at_ms q) now = Inr ()
    \<and> dp_config d' = dp_config d
    \<and> remembers (content (dp_seen d')) (mr_id q) (mr_expires_at_ms q)
    \<and> d' = record_event (Some (request_id_str (mr_id q))) None ''media_executed'' None
             (snd (reserve (mr_id q) (mr_expires_at_ms q) now d))"
proof -
  obtain r d1 where admit: "media_admit q now free d = (r, d1)" by fastforce
  then obtain action where action: "r = Inr action"
    using assms by (cases r) (auto simp: dispatch_media_def with_executor_def)
  then have steps: "validate_time (mr_issued_at_ms q) (mr_expires_at_ms q) now = Inr ()"
    "reserve (mr_id q) (mr_expires_at_ms q) now d = (Inr (), d1)" "action = Media (mr_cmd q)"
    using admit by (auto simp: media_admit_Inr)
  obtain answer x1 where run: "exec action x = (answer, x1)" by fastforce
  have answer: "answer = Inr ()" and x1: "x1 = x'" and status: "status = Executed"
    and d': "d' = snd (media_complete q answer d1)"
    using assms admit action run
    by (cases answer; auto simp: dispatch_media_def with_executor_def media_complete_def Let_def)+
  have "d' = record_event (Some (request_id_str (mr_id q))) None ''media_executed'' None d1"
    using d' answer by (simp add: complete_state)
  moreover have "remembers (content (dp_seen d1)) (mr_id q) (mr_expires_at_ms q)"
    using steps(2) by (auto simp: reserve_Inr remembers_def)
  ultimately show ?thesis
    using steps run answer x1 status reserve_frame(1) [of "mr_id q" "mr_expires_at_ms q" now d] by simp
qed

theorem media_dispatch_effects_witness:
  "\<exists>d' x'. dispatch_media example_exec \<lparr>mr_id = RequestId ''a'', mr_cmd = Play, mr_issued_at_ms = 1000,
       mr_expires_at_ms = 6000\<rparr> 2000 True (example_dispatcher, 0) = (Inr Executed, d', x')
    \<and> example_exec (Media Play) 0 = (Inr (), x') \<and> remembers (content (dp_seen d')) (RequestId ''a'') 6000"
proof -
  let ?q = "\<lparr>mr_id = RequestId ''a'', mr_cmd = Play, mr_issued_at_ms = 1000, mr_expires_at_ms = 6000\<rparr>"
  have "fst (dispatch_media example_exec ?q 2000 True (example_dispatcher, 0)) = Inr Executed"
    by (simp add: dispatch_media_def with_executor_def media_admit_def validate_request_time_def
        validate_time_Inr [THEN iffD2] try_read_def example_reserve example_exec_def media_complete_def)
  then obtain d' x' where run: "dispatch_media example_exec ?q 2000 True (example_dispatcher, 0) = (Inr Executed, d', x')"
    by (metis prod.collapse)
  from media_dispatch_effects [OF run] have "example_exec (Media Play) 0 = (Inr (), x')"
    "remembers (content (dp_seen d')) (RequestId ''a'') 6000"
    unfolding media_request.simps by blast+
  with run show ?thesis by blast
qed

end
