(* ===== verification/Daemon_Async.thy ===== *)
theory Daemon_Async
  imports Daemon_Dispatch
begin

text \<open>
  Concurrent dispatches and configuration changes (daemon/src/application.rs), as a step
  relation. A dispatch holds a read guard of the asynchronous lifecycle lock from its
  admission until its future ends; \<open>replace_config\<close> waits for the write guard. What is used of
  tokio's lock is its documented exclusion: the write guard is given only when no read guard
  is held, and \<open>try_read\<close> fails only while a writer waits or writes. Whether it fails while a
  writer waits is left open, so the relation covers both answers.

  A dispatch ends in one of two ways: the executor answers (\<open>EvFinish\<close>), or its future is
  dropped at the await (\<open>EvCancel\<close>), as the HTTP layer does when its timeout fires.
\<close>

section \<open>Jobs\<close>

datatype job =
    MediaJob media_request
  | TestJob action_id
  | CustomJob custom_action_request

fun job_admit ::
  "job \<Rightarrow> u64 \<Rightarrow> bool \<Rightarrow> dispatcher \<Rightarrow> (dispatch_error, configured_action) result \<times> dispatcher" where
  "job_admit (MediaJob q) now free d = media_admit q now free d"
| "job_admit (TestJob i) now free d = (test_action_admit i free d, d)"
| "job_admit (CustomJob q) now free d = custom_admit q now free d"

fun job_complete :: "job \<Rightarrow> (executor_error, unit) result \<Rightarrow> dispatcher \<Rightarrow> dispatcher" where
  "job_complete (MediaJob q) answer d = snd (media_complete q answer d)"
| "job_complete (TestJob i) answer d = snd (test_action_complete i answer d)"
| "job_complete (CustomJob q) answer d = snd (custom_complete q answer d)"

text \<open>The request id a job reserves and how long it is remembered.\<close>

fun job_reservation :: "job \<Rightarrow> (request_id \<times> u64) option" where
  "job_reservation (MediaJob q) = Some (mr_id q, mr_expires_at_ms q)"
| "job_reservation (TestJob i) = None"
| "job_reservation (CustomJob q) = Some (cr_id q, cr_expires_at_ms q)"

section \<open>The step relation\<close>

record async_state =
  as_dispatcher :: dispatcher
  as_tasks :: "nat \<Rightarrow> (job \<times> configured_action) option"
  as_writers :: "app_config list"

datatype event =
    EvAdmit nat job u64
  | EvRefuse job u64 dispatch_error
  | EvFinish nat job "(executor_error, unit) result"
  | EvCancel nat job
  | EvQueue app_config
  | EvReject app_config
  | EvCommit app_config
  | EvDropWriter app_config

inductive astep :: "async_state \<Rightarrow> event \<Rightarrow> async_state \<Rightarrow> bool" where
  admit: "astep s (EvAdmit t j now)
      (s\<lparr>as_dispatcher := d', as_tasks := (as_tasks s)(t \<mapsto> (j, action))\<rparr>)"
    if "as_tasks s t = None" "free \<or> as_writers s \<noteq> []"
      "job_admit j now free (as_dispatcher s) = (Inr action, d')"
| refuse: "astep s (EvRefuse j now e) (s\<lparr>as_dispatcher := d'\<rparr>)"
    if "free \<or> as_writers s \<noteq> []" "job_admit j now free (as_dispatcher s) = (Inl e, d')"
| finish: "astep s (EvFinish t j answer)
      (s\<lparr>as_dispatcher := job_complete j answer (as_dispatcher s),
         as_tasks := (as_tasks s)(t := None)\<rparr>)"
    if "as_tasks s t = Some (j, action)"
| cancel: "astep s (EvCancel t j) (s\<lparr>as_tasks := (as_tasks s)(t := None)\<rparr>)"
    if "as_tasks s t = Some (j, action)"
| queue: "astep s (EvQueue c) (s\<lparr>as_writers := as_writers s @ [c]\<rparr>)"
    if "replace_config_admit c = Inr ()"
| reject: "astep s (EvReject c) s" if "replace_config_admit c = Inl e"
| commit: "astep s (EvCommit c) (s\<lparr>as_dispatcher := d', as_writers := cs\<rparr>)"
    if "as_writers s = c # cs" "as_tasks s = Map.empty"
      "replace_config_commit c (as_dispatcher s) = (r, d')"
| drop_writer: "astep s (EvDropWriter c) (s\<lparr>as_writers := cs @ cs'\<rparr>)"
    if "as_writers s = cs @ c # cs'"

inductive_cases astep_admitE: "astep s (EvAdmit t j now) s'"
inductive_cases astep_refuseE: "astep s (EvRefuse j now e) s'"
inductive_cases astep_finishE: "astep s (EvFinish t j answer) s'"
inductive_cases astep_cancelE: "astep s (EvCancel t j) s'"
inductive_cases astep_commitE: "astep s (EvCommit c) s'"

inductive_simps astep_finish_iff: "astep s (EvFinish t j answer) s'"
inductive_simps astep_commit_iff: "astep s (EvCommit c) s'"

text \<open>A run performs the events of a trace in order.\<close>

inductive arun :: "async_state \<Rightarrow> event list \<Rightarrow> async_state \<Rightarrow> bool" where
  nothing: "arun s [] s"
| more: "arun s (ev # tr) s''" if "astep s ev s'" "arun s' tr s''"

inductive_cases arun_NilE: "arun s [] s'"
inductive_cases arun_ConsE: "arun s (ev # tr) s'"

lemma arun_append: "arun s (tr @ tr') s'' \<longleftrightarrow> (\<exists>s'. arun s tr s' \<and> arun s' tr' s'')"
proof (induction tr arbitrary: s)
  case Nil
  then show ?case by (auto intro: arun.nothing elim: arun_NilE)
next
  case (Cons ev tr)
  have "arun s ((ev # tr) @ tr') s'' \<longleftrightarrow>
      (\<exists>s1 s'. astep s ev s1 \<and> arun s1 tr s' \<and> arun s' tr' s'')"
    using Cons.IH by (auto intro: arun.more elim!: arun_ConsE)
  also have "\<dots> \<longleftrightarrow> (\<exists>s'. arun s (ev # tr) s' \<and> arun s' tr' s'')"
    by (blast intro: arun.more elim: arun_ConsE)
  finally show ?case .
qed

lemma arun_one: "astep s ev s' \<Longrightarrow> arun s [ev] s'"
  by (auto intro: arun.intros)

definition async_start :: "dispatcher \<Rightarrow> async_state" where
  "async_start d = \<lparr>as_dispatcher = d, as_tasks = Map.empty, as_writers = []\<rparr>"

section \<open>What single steps do to the dispatcher\<close>

lemma job_admit_step:
  assumes "job_admit j now free d = (r, d')"
  shows "dp_config d' = dp_config d \<and> dp_diagnostics d' = dp_diagnostics d
    \<and> (dispatcher_ok d \<longrightarrow> dispatcher_ok d')"
  using assms
  by (cases j) (auto dest: media_admit_step custom_admit_step)

lemma job_admit_seen:
  assumes "job_admit j now free d = (r, d')"
  shows "d' = d \<or> (\<exists>i e. job_reservation j = Some (i, e) \<and> d' = snd (reserve i e now d)
    \<and> (\<forall>x. r = Inr x \<longrightarrow> reserve i e now d = (Inr (), d')))"
proof (cases j; cases r)
  fix q e assume "j = MediaJob q" "r = Inl e"
  then show ?thesis using assms media_admit_Inl [of q now free d e d'] by force
next
  fix q a assume "j = MediaJob q" "r = Inr a"
  then show ?thesis using assms by (auto simp: media_admit_Inr)
next
  fix q e assume "j = CustomJob q" "r = Inl e"
  then show ?thesis using assms custom_admit_Inl [of q now free d e d'] by force
next
  fix q a assume "j = CustomJob q" "r = Inr a"
  then show ?thesis using assms by (auto simp: custom_admit_Inr)
qed (use assms in auto)

lemma job_admit_accepted:
  assumes "job_admit j now free d = (Inr action, d')" and "job_reservation j = Some (i, e)"
  shows "reserve i e now d = (Inr (), d')"
  using assms by (cases j) (auto simp: media_admit_Inr custom_admit_Inr)

lemma job_complete_ok: "dispatcher_ok d \<Longrightarrow> dispatcher_ok (job_complete j answer d)"
  by (cases j) (auto intro: complete_ok)

lemma job_complete_frame:
  "dp_config (job_complete j answer d) = dp_config d"
  "dp_seen (job_complete j answer d) = dp_seen d"
  by (cases j; simp add: complete_frame)+

lemma custom_snapshot_config: "dp_config d = dp_config d' \<Longrightarrow> custom_snapshot q d = custom_snapshot q d'"
  by (simp add: custom_snapshot_def)

lemma test_action_config: "dp_config d = dp_config d' \<Longrightarrow> test_action_admit i free d = test_action_admit i free d'"
  by (simp add: test_action_admit_def)

section \<open>The invariant of every reachable state\<close>

text \<open>The action a job runs, read from the configuration that is current now.\<close>

fun job_action :: "job \<Rightarrow> dispatcher \<Rightarrow> (dispatch_error, configured_action) result" where
  "job_action (MediaJob q) d = Inr (Media (mr_cmd q))"
| "job_action (TestJob i) d = test_action_admit i True d"
| "job_action (CustomJob q) d = custom_snapshot q d"

lemma job_action_config: "dp_config d = dp_config d' \<Longrightarrow> job_action j d = job_action j d'"
  by (cases j) (auto intro: custom_snapshot_config test_action_config)

lemma test_action_admit_free: "test_action_admit i free d = Inr a \<Longrightarrow> test_action_admit i True d = Inr a"
  by (cases free) (auto simp: test_action_admit_def result_simps)

lemma job_admit_action: "job_admit j now free d = (Inr action, d') \<Longrightarrow> job_action j d = Inr action"
  by (cases j) (auto simp: media_admit_Inr custom_admit_Inr dest: test_action_admit_free)

definition locks_sound :: "dispatcher \<Rightarrow> bool" where
  "locks_sound d \<longleftrightarrow> locked (dp_config d) \<noteq> None \<and> locked (dp_seen d) \<noteq> None
     \<and> locked (dp_diagnostics d) \<noteq> None"

definition async_ok :: "async_state \<Rightarrow> bool" where
  "async_ok s \<longleftrightarrow>
     dispatcher_ok (as_dispatcher s)
   \<and> locks_sound (as_dispatcher s)
   \<and> list_all config_ok (as_writers s)
   \<and> finite (dom (as_tasks s))
   \<and> (\<forall>t j action. as_tasks s t = Some (j, action) \<longrightarrow> job_action j (as_dispatcher s) = Inr action)"

lemma record_event_sound: "locks_sound d \<Longrightarrow> locks_sound (record_event i a c r d)"
  by (auto simp: locks_sound_def record_event_def split: lock.split)

lemma job_complete_sound: "locks_sound d \<Longrightarrow> locks_sound (job_complete j answer d)"
  by (cases j) (simp_all add: complete_state record_event_sound)

lemma reserve_sound: "locks_sound d \<Longrightarrow> locks_sound (snd (reserve i e n d))"
  by (auto simp: locks_sound_def reserve_def split: lock.split prod.split)

lemma job_admit_sound: "job_admit j now free d = (r, d') \<Longrightarrow> locks_sound d \<Longrightarrow> locks_sound d'"
  using job_admit_seen [of j now free d r d'] by (auto intro: reserve_sound)

lemma replace_config_commit_sound:
  "replace_config_commit c d = (r, d') \<Longrightarrow> locks_sound d \<Longrightarrow>
     r = Inr () \<and> d' = d\<lparr>dp_config := Sound c\<rparr> \<and> locks_sound d'"
  by (auto simp: replace_config_commit_def locks_sound_def lock_simps split: lock.splits)

lemma astep_ok: "astep s ev s' \<Longrightarrow> async_ok s \<Longrightarrow> async_ok s'"
proof (induction rule: astep.induct)
  case (admit s t free j now action d')
  from admit.prems admit.hyps(3) show ?case
    using job_admit_step [OF admit.hyps(3)] job_action_config [of d' "as_dispatcher s"]
    by (auto simp: async_ok_def job_admit_sound job_admit_action)
next
  case (refuse free s j now e d')
  from refuse.prems refuse.hyps(2) show ?case
    using job_admit_step [OF refuse.hyps(2)] job_action_config [of d' "as_dispatcher s"]
    by (auto simp: async_ok_def job_admit_sound)
next
  case (finish s t j action answer)
  then show ?case
    using job_action_config [OF job_complete_frame(1) [of j answer "as_dispatcher s"]]
    by (auto simp: async_ok_def job_complete_ok job_complete_sound)
next
  case (commit s c cs r d')
  then show ?case
    using replace_config_commit_sound [OF commit.hyps(3)]
    by (auto simp: async_ok_def dispatcher_ok_def)
qed (auto simp: async_ok_def replace_config_admit_iff)

lemma arun_ok: "arun s tr s' \<Longrightarrow> async_ok s \<Longrightarrow> async_ok s'"
  by (induction rule: arun.induct) (auto intro: astep_ok)

lemma async_start_ok: "dispatcher_ok d \<Longrightarrow> locks_sound d \<Longrightarrow> async_ok (async_start d)"
  by (simp add: async_ok_def async_start_def)

lemma new_dispatcher_sound: "new_dispatcher c = Inr d \<Longrightarrow> locks_sound d"
  by (auto simp: new_dispatcher_def result_simps locks_sound_def)

lemma reachable_ok: "new_dispatcher c = Inr d \<Longrightarrow> arun (async_start d) tr s \<Longrightarrow> async_ok s"
  by (blast intro: arun_ok async_start_ok new_dispatcher_ok new_dispatcher_sound)

section \<open>Replays\<close>

text \<open>The clock a step read, if it read one.\<close>

fun event_clock :: "event \<Rightarrow> u64 option" where
  "event_clock (EvAdmit t j now) = Some now"
| "event_clock (EvRefuse j now e) = Some now"
| "event_clock _ = None"

definition clock_before :: "u64 \<Rightarrow> event \<Rightarrow> bool" where
  "clock_before e ev = (case event_clock ev of None \<Rightarrow> True | Some now \<Rightarrow> now < e)"

lemma reserve_remembers:
  assumes "remembers (content (dp_seen d)) i e" and "now < e"
  shows "remembers (content (dp_seen (snd (reserve j x now d)))) i e"
  using guard.live_kept [OF assms, of j x] assms
  by (cases "dp_seen d") (auto simp: reserve_def cache_attempt_def split: prod.splits)

lemma reserve_accepted:
  assumes "reserve i e now d = (Inr (), d')"
  shows "remembers (content (dp_seen d')) i e"
  using assms by (auto simp: reserve_Inr remembers_def)

lemma reserve_refused:
  assumes "remembers (content (dp_seen d)) i e" and "now < e"
  shows "reserve i x now d \<noteq> (Inr (), d')"
  using assms by (force simp: reserve_Inr remembers_def)

lemma astep_remembers:
  assumes "astep s ev s'" and "remembers (content (dp_seen (as_dispatcher s))) i e"
    and "clock_before e ev"
  shows "remembers (content (dp_seen (as_dispatcher s'))) i e"
  using assms
proof (induction rule: astep.induct)
  case (admit s t free j now action d')
  then show ?case
    using job_admit_seen [OF admit.hyps(3)]
    by (auto simp: clock_before_def reserve_remembers)
next
  case (refuse free s j now err d')
  then show ?case
    using job_admit_seen [OF refuse.hyps(2)]
    by (auto simp: clock_before_def reserve_remembers)
next
  case (commit s c cs r d')
  then show ?case
    by (auto simp: replace_config_commit_def split: lock.splits)
qed (auto simp: job_complete_frame)

lemma arun_remembers:
  assumes "arun s tr s'" and "remembers (content (dp_seen (as_dispatcher s))) i e"
    and "list_all (clock_before e) tr"
  shows "remembers (content (dp_seen (as_dispatcher s'))) i e"
  using assms by (induction rule: arun.induct) (auto intro: astep_remembers)

lemma admit_remembers:
  assumes "astep s (EvAdmit t j now) s'" and "job_reservation j = Some (i, e)"
  shows "remembers (content (dp_seen (as_dispatcher s'))) i e"
  using assms
  by (auto elim!: astep_admitE dest!: job_admit_accepted dest: reserve_accepted)

lemma admit_not_remembered:
  assumes "astep s (EvAdmit t j now) s'" and "job_reservation j = Some (i, x)"
    and "remembers (content (dp_seen (as_dispatcher s))) i e"
  shows "e \<le> now"
proof (rule ccontr)
  assume "\<not> e \<le> now"
  then have "now < e" by simp
  then show False
    using assms by (auto elim!: astep_admitE dest!: job_admit_accepted dest: reserve_refused)
qed

section \<open>The diagnostics of a run\<close>

text \<open>
  The specification of the log: the event an ended dispatch leaves, and the events of a trace.
  Only the dispatches that finished leave one.
\<close>

fun outcome_event :: "job \<Rightarrow> (executor_error, unit) result \<Rightarrow> diagnostic_event" where
  "outcome_event (MediaJob q) answer =
     \<lparr>de_request_id = Some (request_id_str (mr_id q)), de_action_id = None,
      de_category = (if is_ok answer then ''media_executed'' else ''media_failed''),
      de_reason = diagnostic_reason (result_err (map_err execution_error answer))\<rparr>"
| "outcome_event (TestJob i) answer =
     \<lparr>de_request_id = None, de_action_id = Some (action_id_str i),
      de_category = (if is_ok answer then ''local_test_dispatched''
        else if answer = Inl ExCancelled then ''local_test_cancelled'' else ''local_test_failed''),
      de_reason = diagnostic_reason (result_err (map_err execution_error answer))\<rparr>"
| "outcome_event (CustomJob q) answer =
     \<lparr>de_request_id = Some (request_id_str (cr_id q)),
      de_action_id = Some (action_id_str (cr_action_id q)),
      de_category = (if is_ok answer then ''action_dispatched''
        else if answer = Inl ExCancelled then ''action_cancelled'' else ''action_failed''),
      de_reason = diagnostic_reason (result_err (map_err execution_error answer))\<rparr>"

fun event_outcome :: "event \<Rightarrow> diagnostic_event list" where
  "event_outcome (EvFinish t j answer) = [outcome_event j answer]"
| "event_outcome _ = []"

lemma diagnostics_record:
  "locks_sound d \<Longrightarrow> diagnostics (record_event i a c r d) = push_event
     \<lparr>de_request_id = i, de_action_id = a, de_category = c, de_reason = r\<rparr> (diagnostics d)"
  by (cases "dp_diagnostics d") (auto simp: diagnostics_def record_event_def locks_sound_def)

lemma diagnostics_complete:
  "locks_sound d \<Longrightarrow>
     diagnostics (job_complete j answer d) = push_event (outcome_event j answer) (diagnostics d)"
  by (cases j; cases answer) (simp_all add: complete_state diagnostics_record)

lemma diagnostics_bounded: "dispatcher_ok d \<Longrightarrow> length (diagnostics d) \<le> 128"
  by (cases "dp_diagnostics d") (auto simp: diagnostics_def dispatcher_ok_def)

lemma astep_diagnostics:
  assumes "astep s ev s'" and "async_ok s"
  shows "diagnostics (as_dispatcher s') =
    take_last 128 (diagnostics (as_dispatcher s) @ event_outcome ev)"
proof -
  have bound: "length (diagnostics (as_dispatcher s)) \<le> 128"
    using assms(2) by (simp add: async_ok_def diagnostics_bounded)
  have same: "diagnostics d' = diagnostics (as_dispatcher s)"
    if "dp_diagnostics d' = dp_diagnostics (as_dispatcher s)" for d'
    using that by (simp add: diagnostics_def)
  from assms(1) show ?thesis
  proof cases
    case (admit t free j now action d')
    with same [of d'] job_admit_step [OF admit(5)]
    show ?thesis by (simp del: take_last_short add: take_last_short [OF bound])
  next
    case (refuse free j now e d')
    with same [of d'] job_admit_step [OF refuse(4)]
    show ?thesis by (simp del: take_last_short add: take_last_short [OF bound])
  next
    case (finish t j action answer)
    have "push_event (outcome_event j answer) (diagnostics (as_dispatcher s)) =
        take_last 128 (diagnostics (as_dispatcher s) @ [outcome_event j answer])"
      using bound by (rule ring.push_entries)
    with finish assms(2) show ?thesis by (simp add: async_ok_def diagnostics_complete)
  next
    case (commit c cs r d')
    then show ?thesis
      using bound by (auto simp: replace_config_commit_def diagnostics_def split: lock.splits)
  qed (use bound in simp_all)
qed

lemma arun_diagnostics:
  assumes "arun s tr s'" and "async_ok s"
  shows "diagnostics (as_dispatcher s') =
    take_last 128 (diagnostics (as_dispatcher s) @ concat (map event_outcome tr))"
  using assms
proof (induction rule: arun.induct)
  case (nothing s)
  then show ?case by (simp add: async_ok_def diagnostics_bounded)
next
  case (more s ev s' tr s'')
  then show ?case by (simp add: astep_ok astep_diagnostics take_last_append)
qed

section \<open>A configuration that waits\<close>

text \<open>
  tokio documents its lock as fair: no read guard is given while a write request is queued. In the
  runs with that promise a dispatch is admitted only while no configuration waits.
\<close>

fun granted :: "async_state \<Rightarrow> event \<Rightarrow> bool" where
  "granted s (EvAdmit t j now) = (as_writers s = [])"
| "granted s _ = True"

inductive fair_run :: "async_state \<Rightarrow> event list \<Rightarrow> async_state \<Rightarrow> bool" where
  stay: "fair_run s [] s"
| step: "fair_run s (ev # tr) s''" if "astep s ev s'" "granted s ev" "fair_run s' tr s''"

lemma fair_run_arun: "fair_run s tr s' \<Longrightarrow> arun s tr s'"
  by (induction rule: fair_run.induct) (auto intro: arun.intros)

definition in_flight :: "async_state \<Rightarrow> nat" where
  "in_flight s = card (dom (as_tasks s))"

fun ends_dispatch :: "event \<Rightarrow> bool" where
  "ends_dispatch (EvFinish t j answer) = True"
| "ends_dispatch (EvCancel t j) = True"
| "ends_dispatch _ = False"

lemma card_end: "finite (dom m) \<Longrightarrow> m t = Some x \<Longrightarrow> Suc (card (dom m - {t})) = card (dom m)"
  by (metis card.remove domI)

lemma waiting_step:
  assumes "astep s ev s'" and "granted s ev" and "as_writers s = c # cs" and "finite (dom (as_tasks s))"
    and "ev \<noteq> EvCommit c" and "ev \<noteq> EvDropWriter c"
  shows "\<exists>cs'. as_writers s' = c # cs'" and "in_flight s' + (if ends_dispatch ev then 1 else 0) = in_flight s"
  using assms
  by (induction rule: astep.induct)
    (auto simp: in_flight_def Cons_eq_append_conv card_end)

lemma waiting_run:
  assumes "fair_run s tr s'" and "async_ok s" and "as_writers s = c # cs"
    and "EvCommit c \<notin> set tr" and "EvDropWriter c \<notin> set tr"
  shows "(\<exists>cs'. as_writers s' = c # cs') \<and> in_flight s' + length (filter ends_dispatch tr) = in_flight s
    \<and> \<not> (\<exists>t j now. EvAdmit t j now \<in> set tr)"
  using assms
proof (induction arbitrary: cs rule: fair_run.induct)
  case (stay s)
  then show ?case by simp
next
  case (step s ev s1 tr s2)
  have fin: "finite (dom (as_tasks s))" using step.prems(1) by (simp add: async_ok_def)
  have ev: "ev \<noteq> EvCommit c" "ev \<noteq> EvDropWriter c" using step.prems(3,4) by auto
  obtain cs1 where cs1: "as_writers s1 = c # cs1"
    using waiting_step(1) [OF step.hyps(1,2) step.prems(2) fin ev] by blast
  have "\<not> (\<exists>t j now. ev = EvAdmit t j now)" using step.hyps(2) step.prems(2) by auto
  then show ?case
    using step.IH [OF astep_ok [OF step.hyps(1) step.prems(1)] cs1] step.prems(3,4)
      waiting_step(2) [OF step.hyps(1,2) step.prems(2) fin ev] by auto
qed

section \<open>Properties\<close>

text \<open>A run with one custom dispatch in flight and one configuration waiting, for the instances below.\<close>

definition example_started :: dispatcher where
  "example_started = example_dispatcher\<lparr>dp_seen := Sound
     [\<lparr>rs_id = cr_id example_request, rs_expires_at_ms = cr_expires_at_ms example_request\<rparr>]\<rparr>"

definition example_flight :: async_state where
  "example_flight =
     \<lparr>as_dispatcher = example_started,
      as_tasks = [0 \<mapsto> (CustomJob example_request, ca_action example_action)], as_writers = []\<rparr>"

lemma example_new: "new_dispatcher example_published = Inr example_dispatcher"
  using example_published_ok
  by (simp add: new_dispatcher_def example_dispatcher_def flip: validate_iff)

lemma example_flight_step:
  "astep (async_start example_dispatcher) (EvAdmit 0 (CustomJob example_request) 2000) example_flight"
proof -
  have "astep (async_start example_dispatcher) (EvAdmit 0 (CustomJob example_request) 2000)
      ((async_start example_dispatcher)\<lparr>as_dispatcher := example_started,
         as_tasks := (as_tasks (async_start example_dispatcher))(0 \<mapsto> (CustomJob example_request, ca_action example_action))\<rparr>)"
    by (rule astep.admit [where free = True])
      (simp_all add: async_start_def example_admit example_started_def)
  then show ?thesis by (simp add: async_start_def example_flight_def)
qed

lemma example_waiting_run:
  "arun (async_start example_dispatcher) [EvAdmit 0 (CustomJob example_request) 2000, EvQueue default_config]
     (example_flight\<lparr>as_writers := [default_config]\<rparr>)"
proof -
  have "astep example_flight (EvQueue default_config)
      (example_flight\<lparr>as_writers := as_writers example_flight @ [default_config]\<rparr>)"
    by (rule astep.queue) (simp add: replace_config_admit_iff default_config_ok)
  then show ?thesis
    using example_flight_step by (auto simp: example_flight_def intro: arun.intros)
qed

text \<open>C12: in every state that concurrent dispatches, timeouts and configuration changes can reach, the
  action of a custom dispatch in flight, one whose executor call has neither returned nor been dropped by
  the timeout, is the one the current configuration still holds for its request, and the configuration is
  valid at all times. It says nothing of an action that goes on after its dispatch: a script after it was
  started, or anything after the timeout.\<close>

theorem running_action_is_current:
  assumes "new_dispatcher c = Inr d" and "arun (async_start d) tr s"
    and "as_tasks s t = Some (CustomJob q, action)"
  shows "custom_snapshot q (as_dispatcher s) = Inr action \<and> config_ok (content (dp_config (as_dispatcher s)))"
proof -
  have "async_ok s" by (rule reachable_ok [OF assms(1,2)])
  then have "job_action (CustomJob q) (as_dispatcher s) = Inr action" "dispatcher_ok (as_dispatcher s)"
    using assms(3) unfolding async_ok_def by blast+
  then show ?thesis by (simp add: dispatcher_ok_def)
qed

theorem running_action_is_current_witness:
  "custom_snapshot example_request example_started = Inr (ca_action example_action)
   \<and> config_ok (content (dp_config example_started))"
  using running_action_is_current [OF example_new arun_one [OF example_flight_step], of 0]
  by (simp add: example_flight_def)

text \<open>C8: no replay before the expiry. In a run of any concurrent operations, after a request id was
  admitted with expiry \<open>e\<close> no request with that id is admitted while no clock that was read has reached
  \<open>e\<close>; after that it may be admitted again.\<close>

theorem no_replay:
  assumes "arun s (EvAdmit t j n # tr @ [EvAdmit t' j' n']) s'"
    and "job_reservation j = Some (i, e)" and "job_reservation j' = Some (i, e')"
    and "list_all (clock_before e) tr"
  shows "e \<le> n'"
proof -
  obtain s1 s2 s3 where first: "astep s (EvAdmit t j n) s1" and mid: "arun s1 tr s2"
    and second: "astep s2 (EvAdmit t' j' n') s3"
    using assms(1) by (auto simp: arun_append elim!: arun_ConsE)
  have "remembers (content (dp_seen (as_dispatcher s2))) i e"
    using arun_remembers [OF mid admit_remembers [OF first assms(2)] assms(4)] .
  then show ?thesis by (rule admit_not_remembered [OF second assms(3)])
qed

text \<open>The same id with fresh times, once the first request has expired.\<close>

definition example_again :: custom_action_request where
  "example_again = example_request\<lparr>cr_issued_at_ms := 6000, cr_expires_at_ms := 11000\<rparr>"

lemma example_again_admit:
  "custom_admit example_again 7000 True example_started =
     (Inr (ca_action example_action), example_started\<lparr>dp_seen := Sound
        [\<lparr>rs_id = cr_id example_request, rs_expires_at_ms = 11000\<rparr>]\<rparr>)"
proof -
  have "reserve (cr_id example_request) 11000 7000 example_started =
      (Inr (), example_started\<lparr>dp_seen := Sound [\<lparr>rs_id = cr_id example_request, rs_expires_at_ms = 11000\<rparr>]\<rparr>)"
    unfolding reserve_Inr by (auto simp: example_started_def example_request_def)
  moreover have "custom_snapshot example_again example_started = Inr (ca_action example_action)"
    by (simp add: custom_snapshot_Inr example_again_def example_started_def example_simps)
  ultimately show ?thesis
    unfolding custom_admit_Inr by (simp add: example_again_def validate_time_Inr)
qed

theorem no_replay_witness:
  "\<exists>s. arun (async_start example_dispatcher)
      (EvAdmit 0 (CustomJob example_request) 2000 # [] @ [EvAdmit 1 (CustomJob example_again) 7000]) s
    \<and> cr_expires_at_ms example_request \<le> 7000"
proof -
  have "\<exists>s. astep example_flight (EvAdmit 1 (CustomJob example_again) 7000) s"
    using astep.admit [of example_flight 1 True "CustomJob example_again" 7000] example_again_admit
    by (fastforce simp: example_flight_def)
  then obtain s where "astep example_flight (EvAdmit 1 (CustomJob example_again) 7000) s" by blast
  then have run: "arun (async_start example_dispatcher)
      (EvAdmit 0 (CustomJob example_request) 2000 # [] @ [EvAdmit 1 (CustomJob example_again) 7000]) s"
    using example_flight_step by (auto intro: arun.intros)
  then have "cr_expires_at_ms example_request \<le> 7000"
    by (rule no_replay) (simp_all add: example_again_def)
  with run show ?thesis by blast
qed

text \<open>C25: the diagnostics are, at every point of a run, the newest 128 outcomes of the dispatches that
  have finished, in their order, each with the ids of its request or action, the category of its
  outcome and the reason of a failure.\<close>

theorem diagnostics_are_newest_outcomes:
  assumes "new_dispatcher c = Inr d" and "arun (async_start d) tr s"
  shows "diagnostics (as_dispatcher s) = take_last 128 (concat (map event_outcome tr))"
proof -
  have "async_ok (async_start d)"
    using assms(1) by (intro async_start_ok new_dispatcher_ok new_dispatcher_sound)
  moreover have "diagnostics d = []"
    using assms(1) by (auto simp: new_dispatcher_def result_simps diagnostics_def)
  ultimately show ?thesis using arun_diagnostics [OF assms(2)] by (simp add: async_start_def)
qed

definition example_finished :: async_state where
  "example_finished = example_flight\<lparr>as_dispatcher := job_complete (CustomJob example_request) (Inl ExBusy) example_started,
     as_tasks := Map.empty\<rparr>"

lemma example_finish_step:
  "astep example_flight (EvFinish 0 (CustomJob example_request) (Inl ExBusy)) example_finished"
proof -
  have "astep example_flight (EvFinish 0 (CustomJob example_request) (Inl ExBusy))
      (example_flight\<lparr>as_dispatcher := job_complete (CustomJob example_request) (Inl ExBusy) (as_dispatcher example_flight),
         as_tasks := (as_tasks example_flight)(0 := None)\<rparr>)"
    by (rule astep.finish) (simp add: example_flight_def)
  then show ?thesis by (simp add: example_finished_def example_flight_def)
qed

theorem diagnostics_are_newest_outcomes_witness:
  "diagnostics (as_dispatcher example_finished) =
     [\<lparr>de_request_id = Some ''0123456789abcdef0123456789abcdef'', de_action_id = Some ''notes'',
       de_category = ''action_failed'', de_reason = Some ''Action executor is busy''\<rparr>]"
proof -
  have "arun (async_start example_dispatcher) [EvAdmit 0 (CustomJob example_request) 2000,
      EvFinish 0 (CustomJob example_request) (Inl ExBusy)] example_finished"
    using example_flight_step example_finish_step by (auto intro: arun.intros)
  from diagnostics_are_newest_outcomes [OF example_new this] show ?thesis
    by (simp add: example_request_def example_id_def)
qed





end
