(* ===== verification/Daemon_Token.thy ===== *)
theory Daemon_Token
  imports Daemon_Text Daemon_Base
begin

text \<open>
  The pairing token of the application module (\<open>ApiToken\<close> in daemon/src/application.rs): 64
  lowercase hexadecimal bytes. The random source and the constant time comparison of the crate
  subtle are parameters; what is used of the comparison is \<open>ct_eq_exact\<close>.
\<close>

section \<open>The token\<close>

datatype api_token = ApiToken (token_bytes: string)

definition HEX :: string where "HEX = ''0123456789abcdef''"

definition token_hex_byte :: "char \<Rightarrow> bool" where
  "token_hex_byte b \<longleftrightarrow> is_ascii_digit b \<or> (97 \<le> (of_char b :: nat) \<and> (of_char b :: nat) \<le> 102)"

text \<open>\<open>generate\<close>, from the 32 random bytes.\<close>

definition generate :: "u8 list \<Rightarrow> api_token" where
  "generate random =
     ApiToken (concat (map (\<lambda>byte. [HEX ! unat (drop_bit 4 byte), HEX ! unat (and byte 0x0f)]) random))"

text \<open>\<open>parse\<close> of the token.\<close>

definition parse_token :: "string \<Rightarrow> api_token option" where
  "parse_token v =
     (if length v \<noteq> 64 \<or> \<not> list_all token_hex_byte v then None else Some (ApiToken v))"

text \<open>\<open>expose_for_pairing\<close>; \<open>None\<close> is the panic of \<open>expect\<close>.\<close>

definition expose_for_pairing :: "api_token \<Rightarrow> string option" where
  "expose_for_pairing t = (if utf8_valid (token_bytes t) then Some (token_bytes t) else None)"

definition verify_header :: "(string \<Rightarrow> string \<Rightarrow> bool) \<Rightarrow> api_token \<Rightarrow> string option \<Rightarrow> bool" where
  "verify_header ct_eq t hdr =
     (let supplied = (case Option.bind hdr (strip_prefix ''Bearer '') of None \<Rightarrow> [] | Some s \<Rightarrow> s);
          copied = min (length supplied) 64;
          padded = take copied supplied @ replicate (64 - copied) (CHR 0x00);
          length_matches = (length supplied = length (token_bytes t))
      in length_matches \<and> ct_eq padded (token_bytes t))"

section \<open>Lemmas\<close>

definition wf_token :: "api_token \<Rightarrow> bool" where
  "wf_token t \<longleftrightarrow> length (token_bytes t) = 64 \<and> list_all token_hex_byte (token_bytes t)"

definition ct_eq_exact :: "(string \<Rightarrow> string \<Rightarrow> bool) \<Rightarrow> bool" where
  "ct_eq_exact ct_eq \<longleftrightarrow> (\<forall>a b. length a = 64 \<longrightarrow> length b = 64 \<longrightarrow> ct_eq a b = (a = b))"

lemma ct_eq_exact_eq [simp]: "ct_eq_exact (=)"
  by (simp add: ct_eq_exact_def)

lemma parse_token_Some: "parse_token v = Some t \<longleftrightarrow> wf_token t \<and> token_bytes t = v"
  by (cases t) (auto simp: parse_token_def wf_token_def)

lemma HEX_digits: "n < 16 \<Longrightarrow> token_hex_byte (HEX ! n)"
proof -
  have "list_all (\<lambda>n. token_hex_byte (HEX ! n)) [0..<16]" by code_simp
  then show "n < 16 \<Longrightarrow> token_hex_byte (HEX ! n)" by (simp add: list_all_iff)
qed

lemma nibbles: "unat (drop_bit 4 b) < 16" "unat (and b 0x0f) < 16" for b :: u8
proof -
  have "unat b < 256" using unsigned_less [of b, where ?'a = nat] by simp
  then show "unat (drop_bit 4 b) < 16"
    by (simp add: unat_drop_bit_eq flip: drop_bit_eq_div) (simp add: drop_bit_eq_div)
  have "and b 0x0f = take_bit 4 b"
    by (simp add: take_bit_eq_mask mask_eq_exp_minus_1)
  then have "unat (and b 0x0f) = take_bit 4 (unat b)"
    by (simp only: unsigned_take_bit_eq)
  then show "unat (and b 0x0f) < 16"
    by (simp add: take_bit_eq_mod)
qed

lemma generate_wf: "length random = 32 \<Longrightarrow> wf_token (generate random)"
proof -
  have "length (token_bytes (generate random)) = 2 * length random"
    by (induction random) (simp_all add: generate_def)
  moreover have "list_all token_hex_byte (token_bytes (generate random))"
    by (induction random) (simp_all add: generate_def HEX_digits nibbles)
  ultimately show "length random = 32 \<Longrightarrow> wf_token (generate random)"
    by (simp add: wf_token_def)
qed

lemma expose_wf: "wf_token t \<Longrightarrow> expose_for_pairing t = Some (token_bytes t)"
proof -
  assume "wf_token t"
  then have "list_all is_ascii (token_bytes t)"
    by (auto simp: wf_token_def list_all_iff token_hex_byte_def ascii_simps)
  then show ?thesis by (simp add: expose_for_pairing_def utf8_valid_ascii)
qed

lemma verify_header_wf:
  assumes "wf_token t" and "ct_eq_exact ct_eq"
  shows "verify_header ct_eq t hdr \<longleftrightarrow> hdr = Some (''Bearer '' @ token_bytes t)"
proof -
  have len: "length (token_bytes t) = 64" using assms(1) by (simp add: wf_token_def)
  show ?thesis
  proof (cases "Option.bind hdr (strip_prefix ''Bearer '')")
    case None
    then have "hdr \<noteq> Some (''Bearer '' @ token_bytes t)"
      by (auto simp: strip_prefix_Some simp flip: not_Some_eq)
    with None len show ?thesis by (simp add: verify_header_def)
  next
    case (Some s)
    then have hdr: "hdr = Some (''Bearer '' @ s)"
      by (cases hdr) (simp_all only: bind.simps strip_prefix_Some option.simps)
    then show ?thesis
      using Some len assms(2) by (auto simp: verify_header_def ct_eq_exact_def Let_def)
  qed
qed

section \<open>Properties\<close>

text \<open>C16: a request is authenticated exactly by the header \<open>Bearer\<close>, one space and the 64 characters of
  the token: no shorter or padded token, no other scheme, no missing header.\<close>

theorem header_verified_exactly:
  assumes "parse_token v = Some t" and "ct_eq_exact ct_eq"
  shows "verify_header ct_eq t hdr \<longleftrightarrow> hdr = Some (''Bearer '' @ v)"
  using assms verify_header_wf by (auto simp: parse_token_Some)

theorem header_verified_exactly_witness:
  "verify_header (=) (ApiToken (replicate 64 CHR ''a'')) (Some (''Bearer '' @ replicate 64 CHR ''a''))
   \<and> \<not> verify_header (=) (ApiToken (replicate 64 CHR ''a'')) (Some (''Bearer '' @ replicate 63 CHR ''a''))"
proof -
  have parse: "parse_token (replicate 64 CHR ''a'') = Some (ApiToken (replicate 64 CHR ''a''))" by code_simp
  have "verify_header (=) (ApiToken (replicate 64 CHR ''a'')) hdr \<longleftrightarrow>
      hdr = Some (''Bearer '' @ replicate 64 CHR ''a'')" for hdr
    by (rule header_verified_exactly [OF parse ct_eq_exact_eq])
  then show ?thesis by (simp add: numeral_eq_Suc)
qed

text \<open>A generated token can be shown for pairing (the \<open>expect\<close> never panics), and what is shown
  parses back to the same token.\<close>

theorem generated_token_round_trip:
  assumes "length random = 32"
  shows "\<exists>v. expose_for_pairing (generate random) = Some v \<and> parse_token v = Some (generate random)"
  using expose_wf [OF generate_wf [OF assms]] generate_wf [OF assms] by (simp add: parse_token_Some)

theorem generated_token_round_trip_witness:
  "\<exists>v. expose_for_pairing (generate (replicate 32 0xa5)) = Some v
    \<and> parse_token v = Some (generate (replicate 32 0xa5))"
  by (rule generated_token_round_trip) simp

end
