(* ===== verification/Daemon_Http.thy ===== *)
theory Daemon_Http
  imports Daemon_Async Daemon_Token
begin

text \<open>
  The HTTPS interface (daemon/src/http.rs): the checks of a request's head, the four handlers,
  the responses they build, the connection limit, and the acknowledgment's writes to disk and
  to memory.

  The JSON and header libraries are the fields of \<open>http_lib\<close>: \<open>from_slice\<close> at the three request
  types, \<open>to_vec\<close> of a reply, the encoding of the configuration that \<open>config::save\<close> writes, and
  \<open>HeaderValue::from_str\<close>. A header map is what its two queries answer. A handler gives
  \<open>None\<close> when building its error response never ends, since \<open>json_limited\<close> answers a failure by
  calling \<open>error\<close>, which calls \<open>json_limited\<close> again.
\<close>

section \<open>State, requests and responses\<close>

record http_state =
  hs_dispatcher :: dispatcher
  hs_token :: api_token
  hs_config :: "app_config lock"
  hs_config_path :: "path option"

record header_map =
  contains_key :: "string \<Rightarrow> bool"
  get_str :: "string \<Rightarrow> string option"

datatype reply =
    StatusReply string string
  | ErrorReply string
  | VoiceAckReply u64 string
  | PublishedReply published_voice_config

record http_response =
  rp_status :: nat
  rp_content_type :: "string option"
  rp_content_length :: "string option"
  rp_body :: string

record http_lib =
  lb_ct_eq :: "string \<Rightarrow> string \<Rightarrow> bool"
  lb_media :: "string \<Rightarrow> media_request option"
  lb_custom :: "string \<Rightarrow> custom_action_request option"
  lb_ack :: "string \<Rightarrow> voice_config_ack_request option"
  lb_to_vec :: "reply \<Rightarrow> string option"
  lb_encode :: "app_config \<Rightarrow> string option"
  lb_header_value :: "string \<Rightarrow> string option"

section \<open>The head of a request\<close>

definition authorized :: "http_lib \<Rightarrow> http_state \<Rightarrow> header_map \<Rightarrow> bool" where
  "authorized lib state headers =
     verify_header (lb_ct_eq lib) (hs_token state) (get_str headers ''authorization'')"

definition valid_framing :: "header_map \<Rightarrow> string \<Rightarrow> bool" where
  "valid_framing headers body \<longleftrightarrow>
     \<not> contains_key headers ''transfer-encoding''
   \<and> (case Option.bind (get_str headers ''content-length'') (parse_unsigned usize_max) of
        None \<Rightarrow> False
      | Some n \<Rightarrow> n = length body \<and> n \<le> BODY_LIMIT)"

definition json_content_type :: "header_map \<Rightarrow> bool" where
  "json_content_type headers \<longleftrightarrow>
     (case get_str headers ''content-type'' of
        None \<Rightarrow> False
      | Some v \<Rightarrow>
          eq_ignore_ascii_case (trim (hd (split_by (\<lambda>c. c = CHR '';'') v))) ''application/json'')"

section \<open>Responses\<close>

definition json_response :: "http_lib \<Rightarrow> nat \<Rightarrow> string \<Rightarrow> http_response" where
  "json_response lib status body =
     \<lparr>rp_status = status, rp_content_type = Some ''application/json'',
      rp_content_length = lb_header_value lib (show_nat (length body)), rp_body = body\<rparr>"

partial_function (option) json_limited ::
  "http_lib \<Rightarrow> nat \<Rightarrow> reply \<Rightarrow> nat \<Rightarrow> http_response option" where
  "json_limited lib status v limit =
     (case lb_to_vec lib v of
        None \<Rightarrow> json_limited lib 500 (ErrorReply ''server_error'') BODY_LIMIT
      | Some body \<Rightarrow>
          if length body \<le> limit then Some (json_response lib status body)
          else json_limited lib 500 (ErrorReply ''server_error'') BODY_LIMIT)"

definition json :: "http_lib \<Rightarrow> nat \<Rightarrow> reply \<Rightarrow> http_response option" where
  "json lib status v = json_limited lib status v BODY_LIMIT"

definition error_response :: "http_lib \<Rightarrow> nat \<Rightarrow> string \<Rightarrow> http_response option" where
  "error_response lib status label = json lib status (ErrorReply label)"

fun dispatch_error_status :: "dispatch_error \<Rightarrow> nat \<times> string" where
  "dispatch_error_status InvalidTime = (400, ''invalid_time'')"
| "dispatch_error_status Expired = (410, ''expired'')"
| "dispatch_error_status ClockSkew = (400, ''clock_skew'')"
| "dispatch_error_status Duplicate = (409, ''duplicate'')"
| "dispatch_error_status Busy = (429, ''busy'')"
| "dispatch_error_status ExecutionBusy = (429, ''busy'')"
| "dispatch_error_status UnknownAction = (404, ''unknown_action'')"
| "dispatch_error_status StaleVoiceConfig = (409, ''sync_required'')"
| "dispatch_error_status ExecutionCancelled = (409, ''action_cancelled'')"
| "dispatch_error_status DisabledAction = (403, ''disabled_action'')"
| "dispatch_error_status Execution = (500, ''server_error'')"
| "dispatch_error_status (ExecutionWithReason reason) = (500, ''server_error'')"
| "dispatch_error_status Configuration = (500, ''server_error'')"

definition dispatch_error_response :: "http_lib \<Rightarrow> dispatch_error \<Rightarrow> http_response option" where
  "dispatch_error_response lib e =
     (let (status, label) = dispatch_error_status e in error_response lib status label)"

text \<open>\<open>now_ms\<close>: the milliseconds since the epoch, \<open>None\<close> when the clock is before it.\<close>

definition now_ms :: "nat option \<Rightarrow> u64" where
  "now_ms clock = (case clock of None \<Rightarrow> 0 | Some millis \<Rightarrow> word_of_nat (min millis usize_max))"

section \<open>The handlers of the two dispatches\<close>

text \<open>The checks \<open>media\<close> and \<open>custom_action\<close> share, up to the parsed request.\<close>

definition check_request ::
  "http_lib \<Rightarrow> (string \<Rightarrow> 'r option) \<Rightarrow> http_state \<Rightarrow> header_map \<Rightarrow> string
   \<Rightarrow> (http_response option, 'r) result" where
  "check_request lib from_slice state headers body =
     (if \<not> authorized lib state headers then Inl (error_response lib 401 ''unauthorized'')
      else if \<not> json_content_type headers then Inl (error_response lib 400 ''content_type'')
      else if \<not> valid_framing headers body then Inl (error_response lib 400 ''invalid_framing'')
      else
        map_err
          (\<lambda>e. if e = VTooLarge then error_response lib 413 ''too_large''
               else error_response lib 400 ''invalid_request'')
          (parse_request from_slice body))"

definition media ::
  "http_lib \<Rightarrow> 'x executor \<Rightarrow> bool \<Rightarrow> nat option \<Rightarrow> header_map \<Rightarrow> string \<Rightarrow> http_state \<times> 'x
   \<Rightarrow> http_response option \<times> http_state \<times> 'x" where
  "media lib exec free clock headers body = (\<lambda>(state, x).
     (case check_request lib (lb_media lib) state headers body of
        Inl response \<Rightarrow> (response, state, x)
      | Inr request \<Rightarrow>
          let id = mr_id request;
              (r, d, x') = dispatch_media exec request (now_ms clock) free (hs_dispatcher state, x)
          in ((case r of
                 Inr Executed \<Rightarrow> json lib 200 (StatusReply (request_id_str id) ''executed'')
               | Inl err \<Rightarrow> dispatch_error_response lib err
               | Inr Dispatched \<Rightarrow> error_response lib 500 ''server_error''),
              state\<lparr>hs_dispatcher := d\<rparr>, x')))"

definition custom_action_handler ::
  "http_lib \<Rightarrow> 'x executor \<Rightarrow> bool \<Rightarrow> nat option \<Rightarrow> header_map \<Rightarrow> string \<Rightarrow> http_state \<times> 'x
   \<Rightarrow> http_response option \<times> http_state \<times> 'x" where
  "custom_action_handler lib exec free clock headers body = (\<lambda>(state, x).
     (case check_request lib (lb_custom lib) state headers body of
        Inl response \<Rightarrow> (response, state, x)
      | Inr request \<Rightarrow>
          let id = cr_id request;
              (r, d, x') = dispatch_custom exec request (now_ms clock) free (hs_dispatcher state, x)
          in ((case r of
                 Inr Dispatched \<Rightarrow> json lib 200 (StatusReply (request_id_str id) ''dispatched'')
               | Inl err \<Rightarrow> dispatch_error_response lib err
               | Inr Executed \<Rightarrow> error_response lib 500 ''server_error''),
              state\<lparr>hs_dispatcher := d\<rparr>, x')))"

section \<open>The voice configuration\<close>

definition voice_config :: "http_lib \<Rightarrow> header_map \<Rightarrow> http_state \<Rightarrow> http_response option" where
  "voice_config lib headers state =
     (if \<not> authorized lib state headers then error_response lib 401 ''unauthorized''
      else case locked (hs_config state) of
        None \<Rightarrow> error_response lib 500 ''server_error''
      | Some config \<Rightarrow>
          (case ac_published_voice config of
             None \<Rightarrow> error_response lib 404 ''not_applied''
           | Some published \<Rightarrow>
               if pv_actions_revision published \<noteq> ac_actions_revision config
               then error_response lib 409 ''apply_required''
               else json_limited lib 200 (PublishedReply published) VOICE_CONFIG_LIMIT))"

text \<open>
  The acknowledgment, in the parts its await points separate: \<open>ack_request\<close> runs before the
  lifecycle mutex is awaited, \<open>ack_prepare\<close> up to the saved file, \<open>ack_commit\<close> from the await of
  the dispatcher's write lock on. Each early return is a response.
\<close>

definition ack_request ::
  "http_lib \<Rightarrow> header_map \<Rightarrow> string \<Rightarrow> http_state \<Rightarrow> (http_response option, u64) result" where
  "ack_request lib headers body state =
     (if \<not> authorized lib state headers then Inl (error_response lib 401 ''unauthorized'')
      else if \<not> json_content_type headers \<or> \<not> valid_framing headers body
      then Inl (error_response lib 400 ''invalid_framing'')
      else
        and_then
          (map_err (\<lambda>_. error_response lib 400 ''invalid_request'') (parse_request (lb_ack lib) body))
          (\<lambda>request. Inr (va_revision request)))"

definition ack_check ::
  "http_lib \<Rightarrow> u64 \<Rightarrow> http_state \<Rightarrow> (http_response option, path \<times> app_config) result" where
  "ack_check lib revision state =
     and_then (ok_or (error_response lib 500 ''server_error'') (locked (hs_config state))) (\<lambda>config.
     and_then (ok_or (error_response lib 409 ''not_applied'') (ac_published_voice config)) (\<lambda>published.
     if pv_revision published \<noteq> revision \<or> pv_actions_revision published \<noteq> ac_actions_revision config
     then Inl (error_response lib 409 ''stale_revision'')
     else if ac_acknowledged_voice_revision config = Some revision
     then Inl (json lib 200 (VoiceAckReply revision ''active''))
     else and_then (ok_or (error_response lib 500 ''server_error'') (hs_config_path state)) (\<lambda>p.
       Inr (p, config\<lparr>ac_acknowledged_voice_revision := Some revision\<rparr>))))"

definition ack_prepare ::
  "http_lib \<Rightarrow> u64 \<Rightarrow> http_state \<Rightarrow> world \<Rightarrow> (http_response option, app_config) result \<times> world" where
  "ack_prepare lib revision state w =
     st_then (ack_check lib revision state, w) (\<lambda>(p, config) w.
     st_then
       (st_map_err (\<lambda>_. error_response lib 500 ''server_error'') (save (lb_encode lib) p config w))
       (\<lambda>_ w. (Inr config, w)))"

definition ack_commit ::
  "http_lib \<Rightarrow> u64 \<Rightarrow> app_config \<Rightarrow> http_state \<Rightarrow> http_response option \<times> http_state" where
  "ack_commit lib revision config state =
     (case replace_config config (hs_dispatcher state) of
        (Inl e, d) \<Rightarrow> (error_response lib 500 ''server_error'', state\<lparr>hs_dispatcher := d\<rparr>)
      | (Inr _, d) \<Rightarrow>
          (case hs_config state of
             Poisoned _ \<Rightarrow> (error_response lib 500 ''server_error'', state\<lparr>hs_dispatcher := d\<rparr>)
           | Sound _ \<Rightarrow>
               (json lib 200 (VoiceAckReply revision ''active''),
                state\<lparr>hs_dispatcher := d, hs_config := Sound config\<rparr>)))"

definition voice_config_ack ::
  "http_lib \<Rightarrow> header_map \<Rightarrow> string \<Rightarrow> http_state \<times> world
   \<Rightarrow> http_response option \<times> http_state \<times> world" where
  "voice_config_ack lib headers body = (\<lambda>(state, w).
     (case ack_request lib headers body state of
        Inl response \<Rightarrow> (response, state, w)
      | Inr revision \<Rightarrow>
          (case ack_prepare lib revision state w of
             (Inl response, w') \<Rightarrow> (response, state, w')
           | (Inr config, w') \<Rightarrow>
               let (response, state') = ack_commit lib revision config state
               in (response, state', w'))))"

section \<open>The connection limit\<close>

text \<open>
  \<open>LimitedAcceptor\<close>: a semaphore whose permits are held by the accepted streams. The acceptor
  of \<open>serve_listener\<close> is \<open>limited_acceptor_new 8\<close>.
\<close>

record limited_acceptor =
  la_permits :: nat
  la_streams :: nat

definition limited_acceptor_new :: "nat \<Rightarrow> limited_acceptor" where
  "limited_acceptor_new max_connections = \<lparr>la_permits = max_connections, la_streams = 0\<rparr>"

definition MAX_CONNECTIONS :: nat where "MAX_CONNECTIONS = 8"

definition accept :: "limited_acceptor \<Rightarrow> (io_kind, limited_acceptor) result" where
  "accept a =
     (if la_permits a = 0 then Inl WouldBlock
      else Inr (a\<lparr>la_permits := la_permits a - 1, la_streams := la_streams a + 1\<rparr>))"

text \<open>A stream is dropped, and with it its permit.\<close>

definition drop_stream :: "limited_acceptor \<Rightarrow> limited_acceptor" where
  "drop_stream a =
     (if la_streams a = 0 then a
      else a\<lparr>la_permits := la_permits a + 1, la_streams := la_streams a - 1\<rparr>)"

section \<open>The connection pool\<close>

interpretation conns: permit_pool "result_ok \<circ> accept" drop_stream la_permits la_streams MAX_CONNECTIONS
proof unfold_locales
  fix p q
  show "(result_ok \<circ> accept) p = None \<longleftrightarrow> la_permits p = 0"
    by (simp add: accept_def)
  show "(result_ok \<circ> accept) p = Some q \<Longrightarrow>
      la_permits p = Suc (la_permits q) \<and> la_streams q = Suc (la_streams p)"
    by (auto simp: accept_def split: if_splits)
  show "la_streams p = 0 \<Longrightarrow> drop_stream p = p"
    by (simp add: drop_stream_def)
  show "0 < la_streams p \<Longrightarrow>
      la_permits (drop_stream p) = Suc (la_permits p) \<and> la_streams p = Suc (la_streams (drop_stream p))"
    by (simp add: drop_stream_def)
qed

text \<open>The acceptor after connections were opened (\<open>True\<close>) and closed (\<open>False\<close>).\<close>

definition acceptor_run :: "bool list \<Rightarrow> limited_acceptor" where
  "acceptor_run requests =
     foldl (\<lambda>a open. if open then (case accept a of Inl _ \<Rightarrow> a | Inr a' \<Rightarrow> a') else drop_stream a)
       (limited_acceptor_new MAX_CONNECTIONS) requests"

lemma acceptor_run_pool:
  "acceptor_run requests = foldl conns.pool_step (limited_acceptor_new MAX_CONNECTIONS) requests"
proof -
  have "(\<lambda>a open. if open then (case accept a of Inl _ \<Rightarrow> a | Inr a' \<Rightarrow> a') else drop_stream a) =
      conns.pool_step"
    by (auto simp: fun_eq_iff conns.pool_step_def split: sum.split option.split)
  then show ?thesis by (simp add: acceptor_run_def)
qed

lemma new_acceptor_ok: "conns.pool_ok (limited_acceptor_new MAX_CONNECTIONS)"
  by (simp add: conns.pool_ok_def limited_acceptor_new_def)

lemma acceptor_run_ok: "conns.pool_ok (acceptor_run requests)"
  unfolding acceptor_run_pool by (rule conns.pool.run_inv [OF new_acceptor_ok])

section \<open>Building responses\<close>

text \<open>The labels of the error responses, and the library fact that their replies are short.\<close>

definition error_labels :: "string list" where
  "error_labels =
     [''unauthorized'', ''content_type'', ''invalid_framing'', ''too_large'', ''invalid_request'',
      ''invalid_time'', ''expired'', ''clock_skew'', ''duplicate'', ''busy'', ''unknown_action'',
      ''sync_required'', ''action_cancelled'', ''disabled_action'', ''server_error'', ''not_applied'',
      ''apply_required'', ''stale_revision'']"

definition error_replies_fit :: "http_lib \<Rightarrow> bool" where
  "error_replies_fit lib \<longleftrightarrow>
     list_all (\<lambda>label. case lb_to_vec lib (ErrorReply label) of
                 None \<Rightarrow> False | Some body \<Rightarrow> length body \<le> 512) error_labels"

lemma json_limited_fits:
  "lb_to_vec lib v = Some body \<Longrightarrow> length body \<le> limit \<Longrightarrow>
     json_limited lib status v limit = Some (json_response lib status body)"
  by (subst json_limited.simps) simp

lemma json_limited_falls_back:
  "(\<And>body. lb_to_vec lib v = Some body \<Longrightarrow> limit < length body) \<Longrightarrow>
     json_limited lib status v limit = error_response lib 500 ''server_error''"
  by (subst json_limited.simps)
    (auto simp: error_response_def json_def not_le [symmetric] split: option.split)

lemma error_response_fits:
  assumes "error_replies_fit lib" and "label \<in> set error_labels"
  shows "\<exists>body. lb_to_vec lib (ErrorReply label) = Some body \<and> length body \<le> 512
    \<and> error_response lib status label = Some (json_response lib status body)"
proof -
  obtain body where "lb_to_vec lib (ErrorReply label) = Some body" "length body \<le> 512"
    using assms by (auto simp: error_replies_fit_def list_all_iff split: option.splits)
  then show ?thesis
    by (simp add: error_response_def json_def json_limited_fits BODY_LIMIT_def)
qed

lemma json_limited_total:
  assumes "error_replies_fit lib"
  shows "\<exists>response. json_limited lib status v limit = Some response"
proof (cases "\<exists>body. lb_to_vec lib v = Some body \<and> length body \<le> limit")
  case True
  then show ?thesis by (auto simp: json_limited_fits)
next
  case False
  then have "json_limited lib status v limit = error_response lib 500 ''server_error''"
    by (intro json_limited_falls_back) (auto simp: not_le [symmetric])
  moreover have "''server_error'' \<in> set error_labels" by (simp add: error_labels_def)
  ultimately show ?thesis using error_response_fits [OF assms] by metis
qed

text \<open>Whatever the library does: a response has the requested status or 500, and its framing is right.\<close>

definition well_shaped :: "http_lib \<Rightarrow> nat \<Rightarrow> nat \<Rightarrow> http_response \<Rightarrow> bool" where
  "well_shaped lib status limit r \<longleftrightarrow>
     (rp_status r = status \<or> rp_status r = 500)
   \<and> rp_content_type r = Some ''application/json''
   \<and> rp_content_length r = lb_header_value lib (show_nat (length (rp_body r)))
   \<and> length (rp_body r) \<le> max limit BODY_LIMIT"

lemma json_limited_shape:
  assumes "json_limited lib status v limit = Some r"
  shows "well_shaped lib status limit r"
proof (rule json_limited.raw_induct
    [where P = "\<lambda>lib status v limit r. well_shaped lib status limit r", OF _ assms])
  fix rec lib status v limit r
  assume IH: "\<And>lib status v limit r. rec lib status v limit = Some r \<Longrightarrow> well_shaped lib status limit r"
    and step: "(case lb_to_vec lib v of
        None \<Rightarrow> rec lib 500 (ErrorReply ''server_error'') BODY_LIMIT
      | Some body \<Rightarrow>
          if length body \<le> limit then Some (json_response lib status body)
          else rec lib 500 (ErrorReply ''server_error'') BODY_LIMIT) = Some r"
  have "well_shaped lib status limit r" if "rec lib 500 (ErrorReply ''server_error'') BODY_LIMIT = Some r"
    using IH [OF that] by (auto simp: well_shaped_def)
  moreover have "well_shaped lib status limit (json_response lib status body)"
    if "length body \<le> limit" for body
    using that by (simp add: well_shaped_def json_response_def)
  ultimately show "well_shaped lib status limit r"
    using step by (auto split: option.splits if_splits)
qed

lemma json_shape: "json lib status v = Some r \<Longrightarrow> well_shaped lib status 512 r"
  by (auto simp: json_def BODY_LIMIT_def dest: json_limited_shape)

lemma error_response_shape: "error_response lib status label = Some r \<Longrightarrow> well_shaped lib status 512 r"
  by (auto simp: error_response_def dest: json_shape)

lemma json_status: "json lib status v = Some r \<Longrightarrow> rp_status r = status \<or> rp_status r = 500"
  by (auto dest: json_shape simp: well_shaped_def)

lemma error_response_status:
  "error_response lib status label = Some r \<Longrightarrow> rp_status r = status \<or> rp_status r = 500"
  by (auto simp: error_response_def dest: json_status)

lemma dispatch_error_status_range:
  "fst (dispatch_error_status e) \<in> {400, 403, 404, 409, 410, 429, 500}
   \<and> snd (dispatch_error_status e) \<in> set error_labels"
  by (cases e) (simp_all add: error_labels_def)

lemma dispatch_error_not_ok:
  "dispatch_error_response lib e = Some r \<Longrightarrow> rp_status r \<noteq> 200"
  using dispatch_error_status_range [of e]
  by (auto simp: dispatch_error_response_def split: prod.splits dest!: error_response_status)

text \<open>
  A response of a handler: one of the given statuses, JSON, with its length declared and within a
  limit. \<open>HeaderValue::from_str\<close> takes every text of visible ASCII characters, so also a number.
\<close>

definition framed :: "nat list \<Rightarrow> nat \<Rightarrow> http_response \<Rightarrow> bool" where
  "framed statuses limit r \<longleftrightarrow>
     rp_status r \<in> set statuses \<and> rp_content_type r = Some ''application/json''
   \<and> rp_content_length r = Some (show_nat (length (rp_body r))) \<and> length (rp_body r) \<le> limit"

definition numbers_are_headers :: "http_lib \<Rightarrow> bool" where
  "numbers_are_headers lib \<longleftrightarrow> (\<forall>n. lb_header_value lib (show_nat n) = Some (show_nat n))"

lemma shaped_framed:
  "numbers_are_headers lib \<Longrightarrow> well_shaped lib status limit r \<Longrightarrow> status \<in> set statuses \<Longrightarrow> 500 \<in> set statuses \<Longrightarrow>
     limit \<le> bound \<Longrightarrow> 512 \<le> bound \<Longrightarrow> framed statuses bound r"
  by (auto simp: well_shaped_def framed_def numbers_are_headers_def BODY_LIMIT_def)

lemma json_limited_framed:
  "numbers_are_headers lib \<Longrightarrow> status \<in> set statuses \<Longrightarrow> 500 \<in> set statuses \<Longrightarrow> limit \<le> bound \<Longrightarrow> 512 \<le> bound \<Longrightarrow>
     pred_option (framed statuses bound) (json_limited lib status v limit)"
  by (cases "json_limited lib status v limit") (auto intro: shaped_framed dest: json_limited_shape)

lemma json_framed:
  "numbers_are_headers lib \<Longrightarrow> status \<in> set statuses \<Longrightarrow> 500 \<in> set statuses \<Longrightarrow> 512 \<le> bound \<Longrightarrow>
     pred_option (framed statuses bound) (json lib status v)"
  unfolding json_def by (rule json_limited_framed) (simp_all add: BODY_LIMIT_def)

lemma error_framed:
  "numbers_are_headers lib \<Longrightarrow> status \<in> set statuses \<Longrightarrow> 500 \<in> set statuses \<Longrightarrow> 512 \<le> bound \<Longrightarrow>
     pred_option (framed statuses bound) (error_response lib status label)"
  unfolding error_response_def by (rule json_framed)

lemma dispatch_error_framed:
  "numbers_are_headers lib \<Longrightarrow> {400, 403, 404, 409, 410, 429, 500} \<subseteq> set statuses \<Longrightarrow> 512 \<le> bound \<Longrightarrow>
     pred_option (framed statuses bound) (dispatch_error_response lib e)"
  using dispatch_error_status_range [of e]
  by (cases "dispatch_error_status e") (auto simp: dispatch_error_response_def intro!: error_framed)

lemma dispatch_error_total:
  "error_replies_fit lib \<Longrightarrow> \<exists>r. dispatch_error_response lib e = Some r"
  using dispatch_error_status_range [of e] error_response_fits [of lib "snd (dispatch_error_status e)"]
  by (cases "dispatch_error_status e") (auto simp: dispatch_error_response_def)

lemma json_total: "error_replies_fit lib \<Longrightarrow> \<exists>r. json lib status v = Some r"
  by (simp add: json_def json_limited_total)

lemma error_response_total: "error_replies_fit lib \<Longrightarrow> \<exists>r. error_response lib status label = Some r"
  by (simp add: error_response_def json_total)

section \<open>What the handlers check\<close>

lemma check_request_Inr:
  "check_request lib from_slice state headers body = Inr request \<longleftrightarrow>
     authorized lib state headers \<and> json_content_type headers \<and> valid_framing headers body
   \<and> from_slice body = Some request"
  by (auto simp: check_request_def result_simps parse_request_Inr valid_framing_def BODY_LIMIT_def
      split: option.splits)

lemma check_request_Inl_status:
  "check_request lib from_slice state headers body = Inl (Some r) \<Longrightarrow> rp_status r \<in> {400, 401, 413, 500}"
  by (auto simp: check_request_def result_simps dest!: error_response_status dest: sym split: if_splits)

lemma check_request_Inl_total:
  "error_replies_fit lib \<Longrightarrow> check_request lib from_slice state headers body = Inl response \<Longrightarrow>
     \<exists>r. response = Some r"
  by (auto simp: check_request_def result_simps error_response_total split: if_splits)

lemma check_request_framed:
  "numbers_are_headers lib \<Longrightarrow> check_request lib from_slice state headers body = Inl response \<Longrightarrow>
     {400, 401, 413, 500} \<subseteq> set statuses \<Longrightarrow> 512 \<le> bound \<Longrightarrow> pred_option (framed statuses bound) response"
  by (auto simp: check_request_def result_simps intro!: error_framed split: if_splits)

lemma check_request_unauthorized:
  "\<not> authorized lib state headers \<Longrightarrow>
     check_request lib from_slice state headers body = Inl (error_response lib 401 ''unauthorized'')"
  by (simp add: check_request_def)

lemma valid_framing_body: "valid_framing headers body \<Longrightarrow> length body \<le> 512"
  by (auto simp: valid_framing_def BODY_LIMIT_def split: option.splits)

section \<open>The acknowledgment\<close>

lemma ack_request_Inr:
  "ack_request lib headers body state = Inr revision \<longleftrightarrow>
     authorized lib state headers \<and> json_content_type headers \<and> valid_framing headers body
   \<and> (\<exists>request. lb_ack lib body = Some request \<and> va_revision request = revision)"
  by (auto simp: ack_request_def result_simps parse_request_Inr valid_framing_def BODY_LIMIT_def
      split: option.splits)

lemma ack_check_Inr:
  "ack_check lib revision state = Inr (p, config') \<longleftrightarrow>
     (\<exists>config published. hs_config state = Sound config \<and> ac_published_voice config = Some published
      \<and> pv_revision published = revision
      \<and> pv_actions_revision published = ac_actions_revision config
      \<and> ac_acknowledged_voice_revision config \<noteq> Some revision
      \<and> hs_config_path state = Some p
      \<and> config' = config\<lparr>ac_acknowledged_voice_revision := Some revision\<rparr>)"
  by (auto simp: ack_check_def result_simps lock_simps split: if_splits)

lemma ack_prepare_Inr:
  "ack_prepare lib revision state w = (Inr config, w') \<longleftrightarrow>
     (\<exists>p. ack_check lib revision state = Inr (p, config)
        \<and> save (lb_encode lib) p config w = (Inr (), w'))"
  by (auto simp: ack_prepare_def result_simps)

lemma ack_prepare_Inl_files:
  "ack_prepare lib revision state w = (Inl response, w') \<Longrightarrow> files w' = files w"
  by (auto simp: ack_prepare_def result_simps dest: save_Inl_files)

lemma ack_commit_dispatcher_ok:
  "dispatcher_ok (hs_dispatcher state) \<Longrightarrow>
     dispatcher_ok (hs_dispatcher (snd (ack_commit lib revision config state)))"
  using replace_config_ok [of "hs_dispatcher state" config]
  by (auto simp: ack_commit_def split: sum.split prod.split lock.split)

section \<open>Properties\<close>

text \<open>A paired device's request, for the instances below.\<close>

definition example_media :: media_request where
  "example_media = \<lparr>mr_id = RequestId ''a'', mr_cmd = Play, mr_issued_at_ms = 1000, mr_expires_at_ms = 6000\<rparr>"

definition example_http_lib :: http_lib where
  "example_http_lib =
     \<lparr>lb_ct_eq = (=), lb_media = (\<lambda>body. Some example_media), lb_custom = (\<lambda>body. Some example_request),
      lb_ack = (\<lambda>body. Some \<lparr>va_revision = 1\<rparr>), lb_to_vec = (\<lambda>v. Some ''x''),
      lb_encode = (\<lambda>c. Some ''cfg''), lb_header_value = Some\<rparr>"

definition example_token :: api_token where
  "example_token = ApiToken (replicate 64 CHR ''a'')"

definition example_state :: http_state where
  "example_state =
     \<lparr>hs_dispatcher = example_dispatcher, hs_token = example_token, hs_config = Sound example_published,
      hs_config_path = Some ''C:/d/config.json''\<rparr>"

definition example_headers :: header_map where
  "example_headers =
     \<lparr>contains_key = (\<lambda>k. False),
      get_str = [''authorization'' \<mapsto> ''Bearer '' @ replicate 64 CHR ''a'', ''content-length'' \<mapsto> ''1'',
                 ''content-type'' \<mapsto> ''application/json; charset=utf-8'']\<rparr>"

lemma example_authorized: "authorized example_http_lib example_state example_headers"
  by code_simp

lemma example_content_type: "json_content_type example_headers"
  by code_simp

lemma example_framing: "valid_framing example_headers ''b''"
proof -
  have "parse_unsigned usize_max (show_nat 1) = Some 1"
    by (rule parse_unsigned_show_nat) (simp add: usize_max_def)
  moreover have "show_nat 1 = ''1''" by code_simp
  ultimately have "parse_unsigned usize_max ''1'' = Some 1" by simp
  then show ?thesis by (simp add: valid_framing_def example_headers_def BODY_LIMIT_def)
qed

lemma example_check:
  "check_request example_http_lib (lb_media example_http_lib) example_state example_headers ''b'' = Inr example_media"
  "check_request example_http_lib (lb_custom example_http_lib) example_state example_headers ''b'' = Inr example_request"
  by (simp_all add: check_request_Inr example_authorized example_content_type example_framing)
    (simp_all add: example_http_lib_def)

lemma example_json: "json example_http_lib status v = Some (json_response example_http_lib status ''x'')"
  unfolding json_def by (rule json_limited_fits) (simp_all add: example_http_lib_def BODY_LIMIT_def)

text \<open>The media endpoint answers 200 only to a request with the pairing token, a JSON content type
  and an honest length of at most 512 bytes, that parses, is within its time, and whose command the
  executor carried out.\<close>

theorem media_ok_means_executed:
  assumes "media lib exec free clock headers body (state, x) = (Some r, state', x')" and "rp_status r = 200"
  shows "authorized lib state headers \<and> json_content_type headers \<and> length body \<le> 512
    \<and> get_str headers ''content-length'' \<noteq> None \<and> \<not> contains_key headers ''transfer-encoding''
    \<and> (\<exists>q. lb_media lib body = Some q
         \<and> validate_time (mr_issued_at_ms q) (mr_expires_at_ms q) (now_ms clock) = Inr ()
         \<and> exec (Media (mr_cmd q)) x = (Inr (), x'))"
proof (cases "check_request lib (lb_media lib) state headers body")
  case (Inl response)
  then have "response = Some r" using assms(1) by (simp add: media_def)
  then show ?thesis using check_request_Inl_status [of lib "lb_media lib" state headers body r] Inl assms(2) by simp
next
  case (Inr q)
  obtain r1 d1 x1 where run: "dispatch_media exec q (now_ms clock) free (hs_dispatcher state, x) = (r1, d1, x1)"
    by (metis prod_cases3)
  have x1: "x1 = x'" using assms(1) Inr run by (simp add: media_def Let_def)
  have "r1 = Inr Executed"
  proof (cases r1)
    case (Inl e)
    then have "dispatch_error_response lib e = Some r"
      using assms(1) \<open>check_request lib (lb_media lib) state headers body = Inr q\<close> run by (simp add: media_def Let_def)
    then show ?thesis using dispatch_error_not_ok assms(2) by blast
  next
    case (Inr status)
    then show ?thesis
      using assms \<open>check_request lib (lb_media lib) state headers body = Inr q\<close> run
      by (cases status) (auto simp: media_def Let_def dest: error_response_status)
  qed
  then have "exec (Media (mr_cmd q)) x = (Inr (), x')
      \<and> validate_time (mr_issued_at_ms q) (mr_expires_at_ms q) (now_ms clock) = Inr ()"
    using run x1
    by (auto simp: dispatch_media_def with_executor_def media_admit_Inr media_complete_def Let_def result_simps
        split: sum.splits prod.splits)
  moreover have "authorized lib state headers \<and> json_content_type headers \<and> valid_framing headers body
      \<and> lb_media lib body = Some q"
    using Inr by (simp add: check_request_Inr)
  moreover have "get_str headers ''content-length'' \<noteq> None" if "valid_framing headers body"
    using that by (cases "get_str headers ''content-length''") (auto simp: valid_framing_def)
  ultimately show ?thesis by (auto simp: valid_framing_def BODY_LIMIT_def split: option.splits)
qed

lemma example_media_run:
  "\<exists>d'. dispatch_media example_exec example_media 2000 True (example_dispatcher, 0) = (Inr Executed, d', 1)"
  by (simp add: example_media_def dispatch_media_def with_executor_def media_admit_def
      validate_request_time_def validate_time_Inr [THEN iffD2] try_read_def example_reserve example_exec_def
      media_complete_def)

theorem media_ok_means_executed_witness:
  "\<exists>r state'. media example_http_lib example_exec True (Some 2000) example_headers ''b'' (example_state, 0)
      = (Some r, state', 1)
    \<and> authorized example_http_lib example_state example_headers \<and> json_content_type example_headers
    \<and> example_exec (Media Play) 0 = (Inr (), 1)"
proof -
  obtain d' where "dispatch_media example_exec example_media 2000 True (example_dispatcher, 0) = (Inr Executed, d', 1)"
    using example_media_run by blast
  then have run: "media example_http_lib example_exec True (Some 2000) example_headers ''b'' (example_state, 0) =
      (Some (json_response example_http_lib 200 ''x''), example_state\<lparr>hs_dispatcher := d'\<rparr>, 1)"
    by (simp add: media_def example_check example_json now_ms_def usize_max_def)
      (simp add: example_state_def example_json)
  from media_ok_means_executed [OF run] run show ?thesis
    by (auto simp: json_response_def example_http_lib_def [THEN arg_cong [where f = lb_media]] example_media_def)
qed

text \<open>A request without the exact token changes nothing, at any of the four endpoints, and is
  answered as unauthorized.\<close>

theorem unauthorized_changes_nothing:
  assumes "\<not> authorized lib state headers"
  shows "media lib exec free clock headers body (state, x) = (error_response lib 401 ''unauthorized'', state, x)
    \<and> custom_action_handler lib exec free clock headers body (state, x) =
        (error_response lib 401 ''unauthorized'', state, x)
    \<and> voice_config lib headers state = error_response lib 401 ''unauthorized''
    \<and> voice_config_ack lib headers body (state, w) = (error_response lib 401 ''unauthorized'', state, w)"
  using assms
  by (simp add: media_def custom_action_handler_def voice_config_def voice_config_ack_def ack_request_def
      check_request_unauthorized)

theorem unauthorized_changes_nothing_witness:
  "media example_http_lib example_exec True None (example_headers\<lparr>get_str := Map.empty\<rparr>) ''b'' (example_state, 0) =
    (error_response example_http_lib 401 ''unauthorized'', example_state, 0)"
proof -
  have "\<not> authorized example_http_lib example_state (example_headers\<lparr>get_str := Map.empty\<rparr>)" by code_simp
  then show ?thesis by (rule unauthorized_changes_nothing [THEN conjunct1])
qed

lemma media_answers:
  assumes "error_replies_fit lib"
  shows "fst (media lib exec free clock headers body (state, x)) \<noteq> None"
proof (cases "check_request lib (lb_media lib) state headers body")
  case (Inl response)
  then show ?thesis using check_request_Inl_total [OF assms Inl] by (simp add: media_def)
next
  case (Inr q)
  obtain r d x' where run: "dispatch_media exec q (now_ms clock) free (hs_dispatcher state, x) = (r, d, x')"
    by (metis prod_cases3)
  show ?thesis
    using Inr run dispatch_error_total [OF assms] json_total [OF assms] error_response_total [OF assms]
    by (auto simp: media_def Let_def split: sum.splits dispatch_status.splits)
qed

lemma custom_answers:
  assumes "error_replies_fit lib"
  shows "fst (custom_action_handler lib exec free clock headers body (state, x)) \<noteq> None"
proof (cases "check_request lib (lb_custom lib) state headers body")
  case (Inl response)
  then show ?thesis using check_request_Inl_total [OF assms Inl] by (simp add: custom_action_handler_def)
next
  case (Inr q)
  obtain r d x' where run: "dispatch_custom exec q (now_ms clock) free (hs_dispatcher state, x) = (r, d, x')"
    by (metis prod_cases3)
  show ?thesis
    using Inr run dispatch_error_total [OF assms] json_total [OF assms] error_response_total [OF assms]
    by (auto simp: custom_action_handler_def Let_def split: sum.splits dispatch_status.splits)
qed

lemma ack_answers:
  assumes "error_replies_fit lib"
  shows "fst (voice_config_ack lib headers body (state, w)) \<noteq> None"
proof -
  have error: "error_response lib status label \<noteq> None" for status label
    using error_response_total [OF assms] by simp
  have answer: "json lib status v \<noteq> None" for status v
    using json_total [OF assms] by simp
  have request: "response \<noteq> None" if "ack_request lib headers body state = Inl response" for response
    using that error by (auto simp: ack_request_def result_simps split: if_splits)
  have prepare: "response \<noteq> None" if "ack_prepare lib revision state w = (Inl response, w')" for response revision w'
    using that error answer by (auto simp: ack_prepare_def ack_check_def result_simps split: if_splits)
  have commit: "fst (ack_commit lib revision config state) \<noteq> None" for revision config
    using error answer by (simp add: ack_commit_def split: sum.split prod.split lock.split)
  show ?thesis
  proof (cases "ack_request lib headers body state")
    case (Inl response)
    then show ?thesis using request by (simp add: voice_config_ack_def)
  next
    case (Inr revision)
    obtain r w' where "ack_prepare lib revision state w = (r, w')" by (rule prod.exhaust)
    with Inr show ?thesis
      using prepare commit [of revision "projr r"]
      by (cases r; cases "ack_commit lib revision (projr r) state") (auto simp: voice_config_ack_def)
  qed
qed

text \<open>C27: when the error replies can be serialized within the body limit, every endpoint answers every
  request: the mutual recursion of \<open>error\<close> and \<open>json_limited\<close> ends.\<close>

theorem endpoints_answer:
  assumes "error_replies_fit lib"
  shows "fst (media lib exec free clock headers body (state, x)) \<noteq> None
    \<and> fst (custom_action_handler lib exec free clock headers body (state, x)) \<noteq> None
    \<and> voice_config lib headers state \<noteq> None
    \<and> fst (voice_config_ack lib headers body (state, w)) \<noteq> None"
proof -
  obtain e where e: "\<And>status label. error_response lib status label = Some (e status label)"
    using error_response_total [OF assms] by metis
  obtain j where j: "\<And>status v limit. json_limited lib status v limit = Some (j status v limit)"
    using json_limited_total [OF assms] by metis
  have "voice_config lib headers state \<noteq> None"
    unfolding voice_config_def e j by (simp split: option.split)
  then show ?thesis by (intro conjI media_answers [OF assms] custom_answers [OF assms] ack_answers [OF assms])
qed

theorem endpoints_answer_witness:
  "voice_config example_http_lib example_headers example_state \<noteq> None"
proof -
  have "error_replies_fit example_http_lib"
    by (simp add: error_replies_fit_def error_labels_def example_http_lib_def)
  then show ?thesis by (rule endpoints_answer [THEN conjunct2, THEN conjunct2, THEN conjunct1])
qed

text \<open>The statuses of the handlers.\<close>

definition dispatch_statuses :: "nat list" where
  "dispatch_statuses = [200, 400, 401, 403, 404, 409, 410, 413, 429, 500]"

lemma dispatch_statuses_set:
  "set dispatch_statuses = {200, 400, 401, 403, 404, 409, 410, 413, 429, 500}"
  by (simp add: dispatch_statuses_def)

lemma media_framed:
  assumes "numbers_are_headers lib"
  shows "pred_option (framed dispatch_statuses 512) (fst (media lib exec free clock headers body (state, x)))"
proof (cases "check_request lib (lb_media lib) state headers body")
  case (Inl response)
  then show ?thesis using check_request_framed [OF assms Inl] by (simp add: media_def dispatch_statuses_set)
next
  case (Inr q)
  obtain r d x' where run: "dispatch_media exec q (now_ms clock) free (hs_dispatcher state, x) = (r, d, x')"
    by (metis prod_cases3)
  show ?thesis
    using Inr run
    by (auto simp: media_def dispatch_statuses_set Let_def split: sum.split dispatch_status.split
        intro!: dispatch_error_framed [OF assms] json_framed [OF assms] error_framed [OF assms])
qed

lemma custom_framed:
  assumes "numbers_are_headers lib"
  shows "pred_option (framed dispatch_statuses 512)
    (fst (custom_action_handler lib exec free clock headers body (state, x)))"
proof (cases "check_request lib (lb_custom lib) state headers body")
  case (Inl response)
  then show ?thesis
    using check_request_framed [OF assms Inl] by (simp add: custom_action_handler_def dispatch_statuses_set)
next
  case (Inr q)
  obtain r d x' where run: "dispatch_custom exec q (now_ms clock) free (hs_dispatcher state, x) = (r, d, x')"
    by (metis prod_cases3)
  show ?thesis
    using Inr run
    by (auto simp: custom_action_handler_def dispatch_statuses_set Let_def split: sum.split dispatch_status.split
        intro!: dispatch_error_framed [OF assms] json_framed [OF assms] error_framed [OF assms])
qed

lemma ack_framed:
  assumes "numbers_are_headers lib"
  shows "pred_option (framed [200, 400, 401, 409, 500] 512) (fst (voice_config_ack lib headers body (state, w)))"
proof -
  let ?ok = "pred_option (framed [200, 400, 401, 409, 500] 512)"
  note answer = json_framed [OF assms] error_framed [OF assms]
  have request: "?ok response" if "ack_request lib headers body state = Inl response" for response
    using that by (auto simp: ack_request_def result_simps intro!: answer split: if_splits)
  have check: "?ok response" if "ack_check lib revision state = Inl response" for response revision
    using that by (auto simp: ack_check_def result_simps intro!: answer split: if_splits)
  have prepare: "?ok response" if "ack_prepare lib revision state w = (Inl response, w')" for response revision w'
    using that check by (auto simp: ack_prepare_def result_simps intro!: answer)
  have commit: "?ok (fst (ack_commit lib revision config state))" for revision config
    by (auto simp: ack_commit_def intro!: answer split: sum.split prod.split lock.split)
  show ?thesis
  proof (cases "ack_request lib headers body state")
    case (Inl response)
    then show ?thesis using request by (simp add: voice_config_ack_def)
  next
    case (Inr revision)
    obtain r w' where "ack_prepare lib revision state w = (r, w')" by (rule prod.exhaust)
    with Inr show ?thesis
      using prepare commit [of revision "projr r"]
      by (cases r; cases "ack_commit lib revision (projr r) state") (auto simp: voice_config_ack_def)
  qed
qed

text \<open>C28: every response that one of the four handlers gives has a status of that handler, is JSON,
  declares the length of its body, and the body is within the handler's limit: 512 bytes, and that of the
  voice configuration for the endpoint that publishes it.\<close>

theorem responses_are_framed:
  assumes "numbers_are_headers lib"
  shows "pred_option (framed [200, 400, 401, 403, 404, 409, 410, 413, 429, 500] 512)
        (fst (media lib exec free clock headers body (state, x)))
    \<and> pred_option (framed [200, 400, 401, 403, 404, 409, 410, 413, 429, 500] 512)
        (fst (custom_action_handler lib exec free clock headers body (state, x)))
    \<and> pred_option (framed [200, 401, 404, 409, 500] VOICE_CONFIG_LIMIT) (voice_config lib headers state)
    \<and> pred_option (framed [200, 400, 401, 409, 500] 512) (fst (voice_config_ack lib headers body (state, w)))"
proof -
  have "512 \<le> VOICE_CONFIG_LIMIT" by (simp add: VOICE_CONFIG_LIMIT_def)
  then have "pred_option (framed [200, 401, 404, 409, 500] VOICE_CONFIG_LIMIT) (voice_config lib headers state)"
    by (auto simp: voice_config_def intro!: json_limited_framed [OF assms] error_framed [OF assms] split: option.split)
  then show ?thesis
    by (intro conjI media_framed [OF assms, unfolded dispatch_statuses_def]
        custom_framed [OF assms, unfolded dispatch_statuses_def] ack_framed [OF assms])
qed

theorem responses_are_framed_witness:
  "voice_config example_http_lib example_headers example_state \<noteq> None
    \<and> pred_option (framed [200, 401, 404, 409, 500] VOICE_CONFIG_LIMIT)
        (voice_config example_http_lib example_headers example_state)"
proof -
  have "error_replies_fit example_http_lib"
    by (simp add: error_replies_fit_def error_labels_def example_http_lib_def)
  then have "voice_config example_http_lib example_headers example_state \<noteq> None"
    using json_limited_total error_response_total
    by (fastforce simp: voice_config_def split: option.split)
  moreover have "numbers_are_headers example_http_lib"
    by (simp add: numbers_are_headers_def example_http_lib_def)
  ultimately show ?thesis
    by (intro conjI responses_are_framed [THEN conjunct2, THEN conjunct2, THEN conjunct1])
qed

text \<open>At most eight connections are open at a time, however they are opened and closed, and one is
  turned away exactly when eight are open.\<close>

theorem at_most_eight_connections:
  "la_streams (acceptor_run requests) \<le> 8
   \<and> (accept (acceptor_run requests) = Inl WouldBlock \<longleftrightarrow> la_streams (acceptor_run requests) = 8)"
proof -
  have "la_permits (acceptor_run requests) + la_streams (acceptor_run requests) = 8"
    using acceptor_run_ok [of requests] unfolding conns.pool_ok_def by (simp add: MAX_CONNECTIONS_def)
  then show ?thesis by (auto simp: accept_def)
qed

end
