(* ===== verification/Daemon_Ipc.thy ===== *)
theory Daemon_Ipc
  imports Daemon_Config
begin

text \<open>
  The protocol of the two Windows processes (daemon/src/management.rs): its messages, and the
  frames they travel in, four bytes of length in network order and the bytes.

  A reader is the list of what its next single-byte reads give, a byte or an error; its end is
  the end of the stream. A writer is the bytes it took and the list of what its next calls
  answer: success, or an error after some of the bytes. The serialization of a message is a
  parameter: the list of the chunks \<open>serde_json::to_writer\<close> writes, \<open>None\<close> when it fails.
\<close>

section \<open>Messages\<close>

definition PROTOCOL_VERSION :: u16 where "PROTOCOL_VERSION = 4"
definition MAX_FRAME_BYTES :: nat where "MAX_FRAME_BYTES = 128 * 1024 * 1024"

record 'p envelope =
  en_version :: u16
  en_id :: u64
  en_payload :: 'p

definition envelope_new :: "u64 \<Rightarrow> 'p \<Rightarrow> 'p envelope" where
  "envelope_new i payload =
     \<lparr>en_version = PROTOCOL_VERSION, en_id = i, en_payload = payload\<rparr>"

datatype request =
    ReqSnapshot
  | ReqSetListener bool
  | ReqSaveActions "custom_action list"
  | ReqApplyVoiceConfig
  | ReqTestAction action_id
  | ReqSetStartup bool
  | ReqReconfigure ip_addr u16
  | ReqRevealPairingToken
  | ReqExportCa
  | ReqRotateCredentials

record diagnostic_snapshot =
  ds_request_id :: "string option"
  ds_action_id :: "string option"
  ds_category :: string
  ds_reason :: "string option"

record daemon_snapshot =
  sn_config :: app_config
  sn_diagnostics :: "diagnostic_snapshot list"
  sn_startup_error :: bool

datatype management_error = MeInvalidRequest | MeBusy | MeCancelled | MeFailed

datatype response =
    RespSnapshot daemon_snapshot
  | RespApplied daemon_snapshot
  | RespActionCancelled daemon_snapshot
  | RespPairingToken string
  | RespCaExported path
  | RespError management_error

section \<open>Reading\<close>

type_synonym reader = "(io_kind + char) list"

text \<open>\<open>read\<close> into a buffer of one byte: the number of bytes read is the length of the result.\<close>

fun read_one :: "reader \<Rightarrow> (io_kind, string) result \<times> reader" where
  "read_one [] = (Inr [], [])"
| "read_one (Inl e # r) = (Inl e, r)"
| "read_one (Inr b # r) = (Inr [b], r)"

fun read_exact :: "nat \<Rightarrow> reader \<Rightarrow> (io_kind, string) result \<times> reader" where
  "read_exact 0 r = (Inr [], r)"
| "read_exact (Suc n) [] = (Inl UnexpectedEof, [])"
| "read_exact (Suc n) (Inl e # r) = (Inl e, r)"
| "read_exact (Suc n) (Inr b # r) = st_then (read_exact n r) (\<lambda>bs r. (Inr (b # bs), r))"

text \<open>\<open>u32::from_be_bytes\<close> and \<open>to_be_bytes\<close>.\<close>

definition from_be_bytes :: "string \<Rightarrow> u32" where
  "from_be_bytes bytes = word_of_nat (foldl (\<lambda>n b. n * 256 + of_char b) 0 bytes)"

definition to_be_bytes :: "u32 \<Rightarrow> string" where
  "to_be_bytes w = map (\<lambda>k. char_of (unat w div 256 ^ k)) [3, 2, 1, 0]"

definition read_frame :: "reader \<Rightarrow> (io_kind, string option) result \<times> reader" where
  "read_frame r =
     st_then (read_one r) (\<lambda>first r.
     if first = [] then (Inr None, r)
     else
       st_then (read_exact 3 r) (\<lambda>rest r.
       let len = unat (from_be_bytes (first @ rest)) in
       if len = 0 \<or> len > MAX_FRAME_BYTES then (Inl InvalidData, r)
       else st_then (read_exact len r) (\<lambda>frame r. (Inr (Some frame), r))))"

definition read_message ::
  "(string \<Rightarrow> 'm option) \<Rightarrow> reader \<Rightarrow> (io_kind, 'm option) result \<times> reader" where
  "read_message from_slice r =
     st_then (read_frame r) (\<lambda>frame r.
     (case frame of
        None \<Rightarrow> Inr None
      | Some bytes \<Rightarrow> and_then (ok_or InvalidData (from_slice bytes)) (\<lambda>m. Inr (Some m)), r))"

section \<open>Writing\<close>

record writer =
  wr_bytes :: string
  wr_answers :: "(nat \<times> io_kind) option list"

definition write_all :: "string \<Rightarrow> writer \<Rightarrow> (io_kind, unit) result \<times> writer" where
  "write_all bytes w =
     (case wr_answers w of
        [] \<Rightarrow> (Inr (), w\<lparr>wr_bytes := wr_bytes w @ bytes\<rparr>)
      | None # as \<Rightarrow> (Inr (), w\<lparr>wr_bytes := wr_bytes w @ bytes, wr_answers := as\<rparr>)
      | Some (k, e) # as \<Rightarrow> (Inl e, w\<lparr>wr_bytes := wr_bytes w @ take k bytes, wr_answers := as\<rparr>))"

definition flush :: "writer \<Rightarrow> (io_kind, unit) result \<times> writer" where
  "flush w = write_all [] w"

definition u32_max :: nat where "u32_max = 4294967295"

definition write_frame :: "string \<Rightarrow> writer \<Rightarrow> (io_kind, unit) result \<times> writer" where
  "write_frame frame w =
     (if frame = [] \<or> length frame > MAX_FRAME_BYTES \<or> length frame > u32_max
      then (Inl InvalidInput, w)
      else
        st_then (write_all (to_be_bytes (word_of_nat (length frame))) w) (\<lambda>_ w.
        st_then (write_all frame w) (\<lambda>_ w. flush w)))"

text \<open>\<open>LimitedFrame\<close>: the buffer a message is serialized into, chunk by chunk.\<close>

type_synonym limited_frame = string

definition limited_write :: "string \<Rightarrow> limited_frame \<Rightarrow> (io_kind, nat) result \<times> limited_frame" where
  "limited_write bytes buffer =
     (if min (length buffer + length bytes) usize_max > MAX_FRAME_BYTES then (Inl InvalidData, buffer)
      else (Inr (length bytes), buffer @ bytes))"

fun write_chunks :: "string list \<Rightarrow> limited_frame \<Rightarrow> (io_kind, unit) result \<times> limited_frame" where
  "write_chunks [] buffer = (Inr (), buffer)"
| "write_chunks (chunk # chunks) buffer =
     st_then (limited_write chunk buffer) (\<lambda>_ buffer. write_chunks chunks buffer)"

definition write_message ::
  "('m \<Rightarrow> string list option) \<Rightarrow> 'm \<Rightarrow> writer \<Rightarrow> (io_kind, unit) result \<times> writer" where
  "write_message to_chunks message w =
     (case to_chunks message of
        None \<Rightarrow> (Inl InvalidData, w)
      | Some chunks \<Rightarrow>
          (case write_chunks chunks [] of
             (Inl e, frame) \<Rightarrow> (Inl InvalidData, w)
           | (Inr _, frame) \<Rightarrow> write_frame frame w))"

section \<open>Frames\<close>

lemma be_bytes_length [simp]: "length (to_be_bytes w) = 4"
  by (simp add: to_be_bytes_def)

lemma from_to_be_bytes [simp]: "from_be_bytes (to_be_bytes w) = w"
proof -
  define n where "n = unat w"
  have bound: "n < 4294967296" using unsigned_less [of w, where ?'a = nat] by (simp add: n_def)
  have d2: "n div 256 ^ 2 = n div 256 div 256" and d3: "n div 256 ^ 3 = n div 256 div 256 div 256"
    by (simp_all add: power2_eq_square power3_eq_cube div_mult2_eq [symmetric])
  obtain n1 n2 n3 where n1: "n div 256 = n1" and n2: "n1 div 256 = n2" and n3: "n2 div 256 = n3"
    by simp
  have "n3 < 256" using bound n1 n2 n3 by linarith
  then have "((n3 mod 256 * 256 + n2 mod 256) * 256 + n1 mod 256) * 256 + n mod 256 = n"
    using n1 n2 n3 by (metis div_mult_mod_eq mod_less)
  then have "foldl (\<lambda>n b. n * 256 + of_char b) 0 (to_be_bytes w) = n"
    unfolding to_be_bytes_def n_def [symmetric] list.map d2 d3 n1 n2 n3 foldl.simps
    by (simp add: n1)
  then show ?thesis by (simp add: from_be_bytes_def n_def)
qed

lemma to_from_be_bytes:
  assumes "length bytes = 4"
  shows "to_be_bytes (from_be_bytes bytes) = bytes"
proof -
  obtain a b c d where bytes: "bytes = [a, b, c, d]"
    using assms by (auto simp: numeral_eq_Suc length_Suc_conv)
  define n where "n = ((of_char a * 256 + of_char b) * 256 + of_char c) * 256 + (of_char d :: nat)"
  have lt: "(of_char x :: nat) < 256" for x :: char by simp
  have step: "(k * 256 + of_char x) div 256 = k" "(k * 256 + of_char x) mod 256 = of_char x"
    for k :: nat and x :: char
    using lt [of x] by simp_all
  have d2: "n div 256 ^ 2 = n div 256 div 256" and d3: "n div 256 ^ 3 = n div 256 div 256 div 256"
    by (simp_all add: power2_eq_square power3_eq_cube div_mult2_eq [symmetric])
  have n1: "n div 256 = (of_char a * 256 + of_char b) * 256 + of_char c" unfolding n_def by (rule step)
  have n2: "n div 256 div 256 = of_char a * 256 + of_char b" unfolding n1 by (rule step)
  have n3: "n div 256 div 256 div 256 = of_char a" unfolding n2 by (rule step)
  have "((p * 256 + q) * 256 + r) * 256 + s < 4294967296"
    if "p < 256" "q < 256" "r < 256" "s < 256" for p q r s :: nat
    using that by simp
  then have "n < 4294967296" unfolding n_def using lt by blast
  then have "unat (word_of_nat n :: u32) = n"
    by (simp add: unsigned_of_nat take_bit_eq_mod)
  moreover have "from_be_bytes bytes = word_of_nat n"
    unfolding from_be_bytes_def bytes foldl.simps n_def by simp
  ultimately have "unat (from_be_bytes bytes) = n" by simp
  moreover have "char_of (k * 256 + of_char x :: nat) = x" for k and x :: char
    by (metis char_of_char char_of_mod_256 step(2))
  moreover have "char_of n = d" unfolding n_def by fact
  moreover have "char_of (n div 256 ^ 3) = a" by (simp only: d3 n3 char_of_char)
  moreover have "char_of (n div 256 ^ 2) = b" unfolding d2 n2 by fact
  moreover have "char_of (n div 256 ^ 1) = c" unfolding power_one_right n1 by fact
  ultimately show ?thesis
    by (simp only: to_be_bytes_def bytes list.map power_0 div_by_1)
qed

lemma read_exact_Inr:
  "read_exact n r = (Inr bs, r') \<longleftrightarrow> length bs = n \<and> r = map Inr bs @ r'"
proof (induction n r arbitrary: bs rule: read_exact.induct)
  case (1 r)
  then show ?case by (auto intro: sym)
next
  case (4 n b r)
  then show ?case by (cases bs) (auto simp: result_simps)
qed (auto simp: Cons_eq_append_conv)

lemma read_exact_eof:
  "length bs < n \<Longrightarrow> read_exact n (map Inr bs) = (Inl UnexpectedEof, [])"
proof (induction bs arbitrary: n)
  case Nil
  then show ?case by (cases n) auto
next
  case (Cons b bs)
  then show ?case by (cases n) auto
qed

lemma read_one_cases:
  "read_one r = (Inr first, r') \<longleftrightarrow>
     first = [] \<and> r = [] \<and> r' = [] \<or> (\<exists>b. first = [b] \<and> r = Inr b # r')"
  by (cases r rule: read_one.cases) auto

text \<open>The bytes of a frame on the wire, and which frames have them.\<close>

definition frame_ok :: "string \<Rightarrow> bool" where
  "frame_ok f \<longleftrightarrow> f \<noteq> [] \<and> length f \<le> 134217728"

definition frame_wire :: "string \<Rightarrow> string" where
  "frame_wire f = to_be_bytes (word_of_nat (length f)) @ f"

lemma frame_length_word: "frame_ok f \<Longrightarrow> unat (word_of_nat (length f) :: u32) = length f"
  by (simp add: frame_ok_def unsigned_of_nat take_bit_eq_mod)

lemma read_frame_Inr:
  "read_frame r = (Inr (Some f), r') \<longleftrightarrow> frame_ok f \<and> r = map Inr (frame_wire f) @ r'"
proof
  assume "read_frame r = (Inr (Some f), r')"
  then obtain b rest r1 where r: "r = Inr b # map Inr rest @ r1" and rest: "length rest = 3"
    and len: "length f = unat (from_be_bytes (b # rest))" and r1: "r1 = map Inr f @ r'"
    and bounds: "0 < unat (from_be_bytes (b # rest))" "unat (from_be_bytes (b # rest)) \<le> 134217728"
    by (auto simp: read_frame_def result_simps read_one_cases read_exact_Inr Let_def not_less
        MAX_FRAME_BYTES_def split: if_splits)
  from len bounds have f: "frame_ok f" unfolding frame_ok_def by auto
  from len have "from_be_bytes (b # rest) = word_of_nat (length f)" by simp
  with rest have "to_be_bytes (word_of_nat (length f)) = b # rest"
    by (metis to_from_be_bytes length_Cons numeral_3_eq_3 Suc_numeral semiring_norm(2,8))
  with r r1 f show "frame_ok f \<and> r = map Inr (frame_wire f) @ r'" by (simp add: frame_wire_def)
next
  assume f: "frame_ok f \<and> r = map Inr (frame_wire f) @ r'"
  obtain b rest where b: "to_be_bytes (word_of_nat (length f)) = b # rest"
    using be_bytes_length [of "word_of_nat (length f)"]
    by (cases "to_be_bytes (word_of_nat (length f))") simp_all
  then have "length rest = 3" using be_bytes_length [of "word_of_nat (length f)"] by simp
  moreover have "from_be_bytes (b # rest) = word_of_nat (length f)"
    using b from_to_be_bytes [of "word_of_nat (length f)"] by simp
  ultimately show "read_frame r = (Inr (Some f), r')"
    using f b frame_length_word [of f]
    by (auto simp: read_frame_def result_simps read_one_cases read_exact_Inr Let_def frame_wire_def
        frame_ok_def MAX_FRAME_BYTES_def)
qed

lemma read_frame_end: "read_frame r = (Inr None, r') \<longleftrightarrow> r = [] \<and> r' = []"
  by (auto simp: read_frame_def result_simps read_one_cases Let_def split: if_splits)

lemma read_frame_bad_length:
  assumes "length bytes = 4" and "\<not> (0 < unat (from_be_bytes bytes) \<and> unat (from_be_bytes bytes) \<le> 134217728)"
  shows "read_frame (map Inr bytes @ r) = (Inl InvalidData, r)"
proof -
  obtain b rest where b: "bytes = b # rest" "length rest = 3"
    using assms(1) by (cases bytes) auto
  then have "read_exact 3 (map Inr rest @ r) = (Inr rest, r)" by (simp add: read_exact_Inr)
  with assms(2) b show ?thesis by (auto simp: read_frame_def Let_def MAX_FRAME_BYTES_def)
qed

text \<open>A stream that ends inside a frame is reported, never taken for the end of the stream.\<close>

lemma read_frame_truncated:
  assumes "frame_ok f" and "frame_wire f = part @ missing" and "part \<noteq> []" and "missing \<noteq> []"
  shows "read_frame (map Inr part) = (Inl UnexpectedEof, [])"
proof -
  obtain b bs where part: "part = b # bs" using assms(3) by (cases part) auto
  show ?thesis
  proof (cases "length bs < 3")
    case True
    then show ?thesis by (simp add: part read_frame_def read_exact_eof)
  next
    case False
    define rest where "rest = take 3 bs"
    define body where "body = drop 3 bs"
    have bs: "bs = rest @ body" and rest: "length rest = 3" using False by (simp_all add: rest_def body_def)
    have "take 4 (frame_wire f) = b # rest" using assms(2) rest by (simp add: part bs)
    then have prefix: "to_be_bytes (word_of_nat (length f)) = b # rest" by (simp add: frame_wire_def)
    with assms(2) have "f = body @ missing" by (simp add: frame_wire_def part bs)
    then have short: "length body < length f" using assms(4) by simp
    have "from_be_bytes (b # rest) = word_of_nat (length f)"
      using prefix from_to_be_bytes [of "word_of_nat (length f)"] by simp
    then have len: "unat (from_be_bytes (b # rest)) = length f" using frame_length_word [OF assms(1)] by simp
    have "read_exact 3 (map Inr bs) = (Inr rest, map Inr body)" using rest by (simp add: read_exact_Inr bs)
    then show ?thesis
      using len short assms(1) read_exact_eof [OF short]
      by (simp add: part read_frame_def Let_def frame_ok_def MAX_FRAME_BYTES_def)
  qed
qed

lemma write_frame_cases:
  "write_frame f w =
     (if frame_ok f
      then st_then (write_all (to_be_bytes (word_of_nat (length f))) w)
             (\<lambda>_ w. st_then (write_all f w) (\<lambda>_ w. write_all [] w))
      else (Inl InvalidInput, w))"
  by (auto simp: write_frame_def frame_ok_def MAX_FRAME_BYTES_def u32_max_def flush_def [abs_def])

lemma write_all_Inr: "write_all bytes w = (Inr (), w') \<Longrightarrow> wr_bytes w' = wr_bytes w @ bytes"
  by (auto simp: write_all_def split: list.splits option.splits)

lemma write_all_quiet:
  "wr_answers w = [] \<Longrightarrow> write_all bytes w = (Inr (), w\<lparr>wr_bytes := wr_bytes w @ bytes\<rparr>)"
  by (simp add: write_all_def)

lemma write_frame_Inr:
  "write_frame f w = (Inr (), w') \<Longrightarrow> frame_ok f \<and> wr_bytes w' = wr_bytes w @ frame_wire f"
  by (auto simp: write_frame_cases result_simps frame_wire_def dest!: write_all_Inr split: if_splits)

lemma write_frame_quiet:
  "frame_ok f \<Longrightarrow> wr_answers w = [] \<Longrightarrow>
     write_frame f w = (Inr (), w\<lparr>wr_bytes := wr_bytes w @ frame_wire f\<rparr>)"
  by (simp add: write_frame_cases write_all_quiet frame_wire_def)

section \<open>The frame codec\<close>

text \<open>
  What both ends of a pipe rely on: reading what was written gives it back and leaves the rest,
  and the end of the stream is recognised. Then a reader gets the frames of any sequence of
  writes, in their order, and then the end.
\<close>

locale frame_codec =
  fixes wire :: "'f \<Rightarrow> 'b list"
    and good :: "'f \<Rightarrow> bool"
    and rd :: "'b list \<Rightarrow> ('e, 'f option) result \<times> 'b list"
  assumes read_back: "good f \<Longrightarrow> rd (wire f @ rest) = (Inr (Some f), rest)"
    and read_end: "rd [] = (Inr None, [])"
begin

primrec read_many :: "nat \<Rightarrow> 'b list \<Rightarrow> ('e, 'f option) result list \<times> 'b list" where
  "read_many 0 r = ([], r)"
| "read_many (Suc n) r =
     (let (x, r') = rd r; (xs, r'') = read_many n r' in (x # xs, r''))"

lemma read_sequence:
  "list_all good fs \<Longrightarrow>
     read_many (length fs) (concat (map wire fs) @ rest) = (map (\<lambda>f. Inr (Some f)) fs, rest)"
  by (induction fs) (simp_all add: read_back)

lemma read_sequence_end:
  "list_all good fs \<Longrightarrow>
     read_many (length fs + 1) (concat (map wire fs)) = (map (\<lambda>f. Inr (Some f)) fs @ [Inr None], [])"
  by (induction fs) (simp_all add: read_back read_end)

lemma wire_injective:
  assumes "good f" and "good g" and "wire f @ r = wire g @ s"
  shows "f = g \<and> r = s"
proof -
  have "(Inr (Some f), r) = rd (wire g @ s)"
    using read_back [OF assms(1), of r] by (simp only: assms(3))
  then show ?thesis using read_back [OF assms(2), of s] by simp
qed

end

interpretation frames: frame_codec "\<lambda>f. map Inr (frame_wire f)" frame_ok read_frame
  by unfold_locales (simp_all add: read_frame_Inr read_frame_end)

section \<open>Messages\<close>

lemma limited_write_cases:
  "limited_write bytes buffer =
     (if length buffer + length bytes \<le> 134217728 then (Inr (length bytes), buffer @ bytes)
      else (Inl InvalidData, buffer))"
proof -
  have "min n usize_max > MAX_FRAME_BYTES \<longleftrightarrow> \<not> n \<le> 134217728" for n
    unfolding min_less_iff_conj MAX_FRAME_BYTES_def usize_max_def by (simp add: not_le)
  then show ?thesis by (simp add: limited_write_def)
qed

lemma write_chunks_Inr:
  "write_chunks cs buffer = (Inr (), buffer') \<longleftrightarrow>
     buffer' = buffer @ concat cs \<and> (cs = [] \<or> length (buffer @ concat cs) \<le> 134217728)"
proof (induction cs arbitrary: buffer)
  case (Cons c cs)
  show ?case
  proof (cases "length buffer + length c \<le> 134217728")
    case True
    then have "write_chunks (c # cs) buffer = write_chunks cs (buffer @ c)"
      by (simp add: limited_write_cases)
    then show ?thesis using Cons.IH [of "buffer @ c"] True by fastforce
  qed (simp add: limited_write_cases)
qed auto

lemma write_chunks_fit:
  "length (concat cs) \<le> 134217728 \<Longrightarrow> write_chunks cs [] = (Inr (), concat cs)"
  by (simp add: write_chunks_Inr)

lemma write_chunks_overflow:
  assumes "134217728 < length (concat cs)"
  obtains e b where "write_chunks cs [] = (Inl e, b)"
proof -
  obtain r b where r: "write_chunks cs [] = (r, b)" by (cases "write_chunks cs []")
  then have "r \<noteq> Inr ()" using assms by (auto simp: write_chunks_Inr)
  then obtain e where "r = Inl e" by (cases r) auto
  with r that show thesis by simp
qed

lemma write_message_Inr:
  assumes "write_message to_chunks m w = (Inr (), w')"
  shows "\<exists>chunks. to_chunks m = Some chunks \<and> frame_ok (concat chunks)
    \<and> wr_bytes w' = wr_bytes w @ frame_wire (concat chunks)"
  using assms
  by (auto simp: write_message_def write_chunks_Inr dest!: write_frame_Inr
      split: option.splits prod.splits sum.splits)

lemma read_message_of_frame:
  "read_frame r = (Inr (Some f), r') \<Longrightarrow> from_slice f = Some m \<Longrightarrow>
     read_message from_slice r = (Inr (Some m), r')"
  by (simp add: read_message_def)

section \<open>Properties\<close>

text \<open>A frame is read exactly when its four length bytes, big-endian, are followed by that many
  bytes, at least one and at most 128 MiB; what follows it is left unread, and only an empty stream
  is taken for the end.\<close>

theorem frame_read_exactly:
  "(read_frame r = (Inr (Some f), r') \<longleftrightarrow>
      f \<noteq> [] \<and> length f \<le> 134217728 \<and> r = map Inr (to_be_bytes (word_of_nat (length f)) @ f) @ r')
   \<and> (read_frame r = (Inr None, r') \<longleftrightarrow> r = [] \<and> r' = [])"
  by (simp only: read_frame_Inr read_frame_end frame_ok_def frame_wire_def conj_assoc)

text \<open>A stream that is cut inside a frame, wherever that is, is reported as cut.\<close>

theorem cut_frame_reported:
  assumes "f \<noteq> []" and "length f \<le> 134217728"
    and "to_be_bytes (word_of_nat (length f)) @ f = part @ missing" and "part \<noteq> []" and "missing \<noteq> []"
  shows "read_frame (map Inr part) = (Inl UnexpectedEof, [])"
  using assms by (intro read_frame_truncated [of f part missing]) (simp_all add: frame_ok_def frame_wire_def)

theorem cut_frame_reported_witness:
  "read_frame (map Inr (to_be_bytes 3 @ ''ab'')) = (Inl UnexpectedEof, [])"
  by (rule cut_frame_reported [where f = "''abc''" and missing = "''c''"]) simp_all

text \<open>C29: a message that was written is read back by the other end, whatever precedes and follows it on
  the pipe, when the deserializer undoes the serializer.\<close>

theorem message_round_trip:
  assumes "write_message to_chunks m w = (Inr (), w')"
    and "\<And>chunks. to_chunks m = Some chunks \<Longrightarrow> from_slice (concat chunks) = Some m"
  shows "\<exists>sent. wr_bytes w' = wr_bytes w @ sent \<and> length sent \<le> 4 + 134217728
    \<and> read_message from_slice (map Inr sent @ r) = (Inr (Some m), r)"
proof -
  obtain chunks where chunks: "to_chunks m = Some chunks" "frame_ok (concat chunks)"
    "wr_bytes w' = wr_bytes w @ frame_wire (concat chunks)"
    using write_message_Inr [OF assms(1)] by blast
  have "read_message from_slice (map Inr (frame_wire (concat chunks)) @ r) = (Inr (Some m), r)"
    using chunks(2) assms(2) [OF chunks(1)] by (simp add: read_message_of_frame read_frame_Inr)
  moreover have "length (frame_wire (concat chunks)) \<le> 4 + 134217728"
    using chunks(2) unfolding frame_wire_def frame_ok_def by simp
  ultimately show ?thesis using chunks(3) by blast
qed

theorem message_round_trip_witness:
  "\<exists>sent. read_message Some (map Inr sent @ [Inl OtherIo]) = (Inr (Some ''hello''), [Inl OtherIo])"
proof -
  have "write_message (\<lambda>m. Some [m]) ''hello'' \<lparr>wr_bytes = [], wr_answers = []\<rparr>
      = (Inr (), \<lparr>wr_bytes = frame_wire ''hello'', wr_answers = []\<rparr>)"
    by (simp add: write_message_def limited_write_cases write_frame_quiet frame_ok_def)
  from message_round_trip [OF this, of Some "[Inl OtherIo]"] show ?thesis by auto
qed

text \<open>A message outside the limits puts nothing on the pipe: its serialization stops in the buffer.\<close>

theorem oversized_message_not_sent:
  "\<exists>e. write_message to_chunks m w =
     (case to_chunks m of
        None \<Rightarrow> (Inl e, w)
      | Some chunks \<Rightarrow>
          if 0 < length (concat chunks) \<and> length (concat chunks) \<le> 134217728
          then write_frame (concat chunks) w else (Inl e, w))"
proof (cases "to_chunks m")
  case (Some chunks)
  show ?thesis
  proof (cases "length (concat chunks) \<le> 134217728")
    case True
    then have "write_message to_chunks m w = write_frame (concat chunks) w"
      by (simp add: write_message_def Some write_chunks_fit)
    then show ?thesis using Some True write_frame_cases [of "concat chunks" w] by (auto simp: frame_ok_def)
  next
    case False
    then obtain e b where "write_chunks chunks [] = (Inl e, b)" by (meson not_le write_chunks_overflow)
    then show ?thesis using Some False by (simp add: write_message_def)
  qed
qed (simp add: write_message_def)

end
