(* ===== verification/Daemon_Runtime.thy ===== *)
theory Daemon_Runtime
  imports Daemon_Http Daemon_Ipc
begin

text \<open>
  The daemon's runtime (daemon/src/adapters/windows\_runtime.rs) and its secret store
  (secret\_store.rs): loading, and every operation that changes the configuration, the secrets
  or the listener, in memory and on disk.

  The state \<open>daemon\<close> is the struct \<open>WindowsRuntime\<close> with what it reaches of the machine: the
  file store and the answers of fallible calls (\<open>os_world\<close>), the start-up entry of the
  registry, and a counter that numbers the draws of randomness. The libraries are the fields of
  \<open>runtime_lib\<close>: JSON, DPAPI, certificate provisioning and the random source, the last two
  depending on the number of the draw. The lifecycle mutex serializes the operations, so each
  is one function of the state; an operation that fails keeps the changes made before, as the
  code does.
\<close>

section \<open>State\<close>

datatype runtime_error = RuntimeError

record tls_material =
  tm_certificate_pem :: string
  tm_server_private_key_pem :: string
  tm_trusted_ca_certificate_pem :: string
  tm_ca_private_key_pem :: string

record secrets =
  se_token :: string
  se_host :: string
  se_certificate_pem :: string
  se_server_key_pem :: string
  se_ca_certificate_pem :: string
  se_ca_key_pem :: string

text \<open>\<open>ListenerTask\<close>, by the arguments it was started with.\<close>

record listener_task =
  ln_address :: ip_addr
  ln_port :: u16
  ln_certificate :: string
  ln_key :: string
  ln_token :: api_token
  ln_config_path :: path

record daemon =
  rt_directory :: path
  rt_dispatcher :: dispatcher
  rt_config :: "app_config lock"
  rt_secrets :: "secrets lock"
  rt_listener :: "listener_task option"
  os_world :: world
  os_startup :: bool
  os_draws :: nat

record runtime_lib =
  rl_encode :: "app_config \<Rightarrow> string option"
  rl_decode :: "string \<Rightarrow> app_config option"
  rl_encode_secrets :: "secrets \<Rightarrow> string option"
  rl_decode_secrets :: "string \<Rightarrow> secrets option"
  rl_crypt :: "bool \<Rightarrow> string \<Rightarrow> string option"
  rl_provision :: "nat \<Rightarrow> ip_addr \<Rightarrow> tls_material option"
  rl_random :: "nat \<Rightarrow> u8 list"

section \<open>Addresses as text\<close>

text \<open>\<open>IpAddr\<close>'s \<open>Display\<close>.\<close>

definition hex_digit_str :: "nat \<Rightarrow> string" where
  "hex_digit_str d = [HEX ! d]"

fun show_hex :: "nat \<Rightarrow> string" where
  "show_hex n = (if n < 16 then hex_digit_str n else show_hex (n div 16) @ hex_digit_str (n mod 16))"

declare show_hex.simps [simp del]

definition v6_segments :: "128 word \<Rightarrow> nat list" where
  "v6_segments x = map (\<lambda>k. unat x div 65536 ^ k mod 65536) (rev [0..<8])"

text \<open>The first longest run of zero segments: its start and its length.\<close>

fun zero_run :: "nat list \<Rightarrow> nat" where
  "zero_run [] = 0"
| "zero_run (s # ss) = (if s = 0 then Suc (zero_run ss) else 0)"

fun longest_zeros :: "nat list \<Rightarrow> nat \<Rightarrow> nat \<times> nat \<Rightarrow> nat \<times> nat" where
  "longest_zeros [] i best = best"
| "longest_zeros (s # ss) i best =
     longest_zeros ss (Suc i) (if zero_run (s # ss) > snd best then (i, zero_run (s # ss)) else best)"

fun ip_to_string :: "ip_addr \<Rightarrow> string" where
  "ip_to_string (V4 a b c d) = join ''.'' (map (\<lambda>o8. show_nat (unat o8)) [a, b, c, d])"
| "ip_to_string (V6 x) =
     (let segments = v6_segments x in
        if take 6 segments = [0, 0, 0, 0, 0, 65535]
        then ''::ffff:'' @ join ''.'' (map show_nat
               [segments ! 6 div 256, segments ! 6 mod 256, segments ! 7 div 256, segments ! 7 mod 256])
        else
          let (start, len) = longest_zeros segments 0 (0, 0) in
            if len > 1
            then join '':'' (map show_hex (take start segments)) @ ''::''
                 @ join '':'' (map show_hex (drop (start + len) segments))
            else join '':'' (map show_hex segments))"

section \<open>Files and calls\<close>

text \<open>\<open>Path::join\<close> with a plain file name.\<close>

definition join_path :: "path \<Rightarrow> string \<Rightarrow> path" where
  "join_path dir name =
     (if dir = [] \<or> is_sep_byte (last dir) \<or> parse_prefix dir = Some (Disk (length dir))
      then dir @ name else dir @ [CHR 0x5C] @ name)"

abbreviation config_path :: "daemon \<Rightarrow> path" where
  "config_path d \<equiv> join_path (rt_directory d) ''config.json''"

abbreviation secrets_path :: "daemon \<Rightarrow> path" where
  "secrets_path d \<equiv> join_path (rt_directory d) ''secrets.dpapi''"

abbreviation ca_path :: "daemon \<Rightarrow> path" where
  "ca_path d \<equiv> join_path (rt_directory d) ''trusted-ca.pem''"

text \<open>An operation on the machine, its error turned into \<open>RuntimeError\<close>.\<close>

definition on_world ::
  "(world \<Rightarrow> ('e, 'a) result \<times> world) \<Rightarrow> daemon \<Rightarrow> (runtime_error, 'a) result \<times> daemon" where
  "on_world f d =
     (let (r, w) = f (os_world d) in (map_err (\<lambda>_. RuntimeError) r, d\<lparr>os_world := w\<rparr>))"

abbreviation call_os :: "daemon \<Rightarrow> (runtime_error, unit) result \<times> daemon" where
  "call_os \<equiv> on_world (io_step (\<lambda>_. RuntimeError))"

definition atomic_write :: "path \<Rightarrow> string \<Rightarrow> world \<Rightarrow> (runtime_error, unit) result \<times> world" where
  "atomic_write p contents w =
     (if \<not> path_has_parent p then (Inl RuntimeError, w)
      else
        st_then (io_step (\<lambda>_. RuntimeError) w) (\<lambda>_ w.    \<comment> \<open>NamedTempFile::new_in\<close>
        st_then (io_step (\<lambda>_. RuntimeError) w) (\<lambda>_ w.    \<comment> \<open>write_all\<close>
        st_then (io_step (\<lambda>_. RuntimeError) w) (\<lambda>_ w.    \<comment> \<open>sync_all\<close>
        st_then (io_step (\<lambda>_. RuntimeError) w) (\<lambda>_ w.    \<comment> \<open>persist\<close>
        (Inr (), w\<lparr>files := (files w)(p \<mapsto> contents)\<rparr>))))))"

section \<open>The secret store\<close>

text \<open>
  \<open>transform\<close>, with DPAPI as the parameter \<open>crypt\<close>; \<open>protect\<close> and \<open>unprotect\<close> are its two
  directions.
\<close>

definition transform :: "(bool \<Rightarrow> string \<Rightarrow> string option) \<Rightarrow> string \<Rightarrow> bool \<Rightarrow> string option" where
  "transform crypt input encrypt =
     (if length input > u32_max then None
      else case crypt encrypt input of
        None \<Rightarrow> None
      | Some output \<Rightarrow> if output = [] then None else Some output)"

definition protect :: "(bool \<Rightarrow> string \<Rightarrow> string option) \<Rightarrow> string \<Rightarrow> string option" where
  "protect crypt plaintext = transform crypt plaintext True"

definition unprotect :: "(bool \<Rightarrow> string \<Rightarrow> string option) \<Rightarrow> string \<Rightarrow> string option" where
  "unprotect crypt ciphertext = transform crypt ciphertext False"

section \<open>Secrets\<close>

definition provision :: "runtime_lib \<Rightarrow> ip_addr \<Rightarrow> daemon \<Rightarrow> (runtime_error, tls_material) result \<times> daemon" where
  "provision lib host d =
     (ok_or RuntimeError (rl_provision lib (os_draws d) host), d\<lparr>os_draws := os_draws d + 1\<rparr>)"

text \<open>\<open>generate().expose_for_pairing()\<close>; the panic of \<open>expect\<close> cannot happen (\<open>generate_exposed\<close>).\<close>

definition draw_token :: "runtime_lib \<Rightarrow> daemon \<Rightarrow> string \<times> daemon" where
  "draw_token lib d =
     (token_bytes (generate (rl_random lib (os_draws d))), d\<lparr>os_draws := os_draws d + 1\<rparr>)"

definition new_secrets :: "runtime_lib \<Rightarrow> app_config \<Rightarrow> daemon \<Rightarrow> (runtime_error, secrets) result \<times> daemon" where
  "new_secrets lib config d =
     st_then (provision lib (ac_bind_address config) d) (\<lambda>tls d.
     let (token, d) = draw_token lib d in
       (Inr \<lparr>se_token = token, se_host = ip_to_string (ac_bind_address config),
             se_certificate_pem = tm_certificate_pem tls,
             se_server_key_pem = tm_server_private_key_pem tls,
             se_ca_certificate_pem = tm_trusted_ca_certificate_pem tls,
             se_ca_key_pem = tm_ca_private_key_pem tls\<rparr>, d))"

definition rotate_tls :: "runtime_lib \<Rightarrow> secrets \<Rightarrow> ip_addr \<Rightarrow> daemon \<Rightarrow> (runtime_error, secrets) result \<times> daemon" where
  "rotate_tls lib s host d =
     st_then (provision lib host d) (\<lambda>tls d.
       (Inr (s\<lparr>se_host := ip_to_string host,
               se_certificate_pem := tm_certificate_pem tls,
               se_server_key_pem := tm_server_private_key_pem tls,
               se_ca_certificate_pem := tm_trusted_ca_certificate_pem tls,
               se_ca_key_pem := tm_ca_private_key_pem tls\<rparr>), d))"

definition read_secrets :: "runtime_lib \<Rightarrow> path \<Rightarrow> world \<Rightarrow> (runtime_error, secrets) result \<times> world" where
  "read_secrets lib p w =
     st_then (st_map_err (\<lambda>_. RuntimeError) (read_file p w)) (\<lambda>encrypted w.
       (and_then (ok_or RuntimeError (unprotect (rl_crypt lib) encrypted)) (\<lambda>plaintext.
        ok_or RuntimeError (rl_decode_secrets lib plaintext)), w))"

definition save_config :: "runtime_lib \<Rightarrow> app_config \<Rightarrow> daemon \<Rightarrow> (runtime_error, unit) result \<times> daemon" where
  "save_config lib config d = on_world (save (rl_encode lib) (config_path d) config) d"

definition save_secrets :: "runtime_lib \<Rightarrow> daemon \<Rightarrow> (runtime_error, unit) result \<times> daemon" where
  "save_secrets lib d =
     st_then (ok_or RuntimeError (locked (rt_secrets d)), d) (\<lambda>secrets d.
     st_then (ok_or RuntimeError (rl_encode_secrets lib secrets), d) (\<lambda>plaintext d.
     st_then (ok_or RuntimeError (protect (rl_crypt lib) plaintext), d) (\<lambda>encrypted d.
     on_world (atomic_write (secrets_path d) encrypted) d)))"

definition set_secrets :: "secrets \<Rightarrow> daemon \<Rightarrow> (runtime_error, unit) result \<times> daemon" where
  "set_secrets secrets d =
     (case rt_secrets d of
        Poisoned _ \<Rightarrow> (Inl RuntimeError, d)
      | Sound _ \<Rightarrow> (Inr (), d\<lparr>rt_secrets := Sound secrets\<rparr>))"

section \<open>Start-up entry\<close>

text \<open>
  \<open>configure_startup\<close>: the key is opened, the value set (after the path of the executable was
  found) or deleted, the key closed. Deleting a value that is not there is a success. The value
  is changed as soon as its call succeeds, whatever closing the key answers.
\<close>

definition configure_startup :: "bool \<Rightarrow> daemon \<Rightarrow> (runtime_error, unit) result \<times> daemon" where
  "configure_startup enabled d =
     st_then (call_os d) (\<lambda>_ d.    \<comment> \<open>RegCreateKeyExW\<close>
     st_match
       (if enabled
        then st_then (call_os d) (\<lambda>_ d.    \<comment> \<open>current_exe\<close>
             st_then (call_os d) (\<lambda>_ d. (Inr (), d\<lparr>os_startup := True\<rparr>)))    \<comment> \<open>RegSetValueExW\<close>
        else if os_startup d
        then st_then (call_os d) (\<lambda>_ d. (Inr (), d\<lparr>os_startup := False\<rparr>))    \<comment> \<open>RegDeleteValueW\<close>
        else call_os d)
       (\<lambda>e d. st_then (call_os d) (\<lambda>_ d. (Inl e, d)))    \<comment> \<open>RegCloseKey\<close>
       (\<lambda>_ d. call_os d))"

section \<open>Loading\<close>

definition file_exists :: "path \<Rightarrow> world \<Rightarrow> bool \<times> world" where
  "file_exists p w = (let (a, w) = ask w in (a = None \<and> files w p \<noteq> None, w))"

definition load_config :: "runtime_lib \<Rightarrow> path \<Rightarrow> world \<Rightarrow> app_config \<times> world" where
  "load_config lib p w =
     (let (r, w) = load (rl_decode lib) p w;
          config = (case r of Inr config \<Rightarrow> config | Inl _ \<Rightarrow> default_config)
      in (if is_ok (validate config) then config else default_config, w))"

text \<open>The secrets that \<open>load\<close> starts from, and their repair.\<close>

definition load_secrets :: "runtime_lib \<Rightarrow> app_config \<Rightarrow> daemon \<Rightarrow> (runtime_error, secrets) result \<times> daemon" where
  "load_secrets lib config d =
     (let (present, w) = file_exists (secrets_path d) (os_world d);
          d = d\<lparr>os_world := w\<rparr>
      in st_then
           (if present
            then st_match (on_world (read_secrets lib (secrets_path d)) d)
                   (\<lambda>_ d. new_secrets lib config d) (\<lambda>secrets d. (Inr secrets, d))
            else new_secrets lib config d)
           (\<lambda>secrets d.
              if parse_token (se_token secrets) = None then new_secrets lib config d
              else if se_host secrets \<noteq> ip_to_string (ac_bind_address config)
              then rotate_tls lib secrets (ac_bind_address config) d
              else (Inr secrets, d)))"

text \<open>
  \<open>load\<close>: the state before it is the machine with nothing of the runtime; \<open>boot\<close> is the part
  of \<open>load\<close> up to the value \<open>Self\<close>, and the two writes follow.
\<close>

definition machine :: "path \<Rightarrow> world \<Rightarrow> bool \<Rightarrow> nat \<Rightarrow> daemon" where
  "machine dir w startup draws =
     \<lparr>rt_directory = dir,
      rt_dispatcher = \<lparr>dp_config = Sound default_config, dp_seen = Sound [], dp_diagnostics = Sound []\<rparr>,
      rt_config = Sound default_config,
      rt_secrets = Sound \<lparr>se_token = [], se_host = [], se_certificate_pem = [], se_server_key_pem = [],
                          se_ca_certificate_pem = [], se_ca_key_pem = []\<rparr>,
      rt_listener = None, os_world = w, os_startup = startup, os_draws = draws\<rparr>"

definition load_runtime ::
  "runtime_lib \<Rightarrow> path option \<Rightarrow> world \<Rightarrow> bool \<Rightarrow> nat \<Rightarrow> (runtime_error, unit) result \<times> daemon" where
  "load_runtime lib local_app_data w startup draws =
     (case local_app_data of
        None \<Rightarrow> (Inl RuntimeError, machine [] w startup draws)
      | Some base \<Rightarrow>
          st_then (call_os (machine (join_path base ''Esp32MediaDaemon'') w startup draws)) (\<lambda>_ d.
          let (config_exists, w1) = file_exists (config_path d) (os_world d);
              (config, w2) = load_config lib (config_path d) w1
          in st_then (load_secrets lib config (d\<lparr>os_world := w2\<rparr>)) (\<lambda>secrets d.
             st_then (map_err (\<lambda>_. RuntimeError) (new_dispatcher config), d) (\<lambda>dispatcher d.
             let d = d\<lparr>rt_dispatcher := dispatcher, rt_config := Sound config,
                       rt_secrets := Sound secrets, rt_listener := None\<rparr>
             in st_then (if config_exists then (Inr (), d) else save_config lib config d) (\<lambda>_ d.
                save_secrets lib d)))))"

section \<open>Operations\<close>

definition config_of :: "daemon \<Rightarrow> app_config" where
  "config_of d = (case locked (rt_config d) of None \<Rightarrow> default_config | Some config \<Rightarrow> config)"

definition token_for_pairing :: "daemon \<Rightarrow> (runtime_error, string) result" where
  "token_for_pairing d = and_then (ok_or RuntimeError (locked (rt_secrets d))) (\<lambda>s. Inr (se_token s))"

text \<open>The two assignments every operation ends with: the dispatcher's copy and the runtime's.\<close>

definition commit_config :: "app_config \<Rightarrow> daemon \<Rightarrow> (runtime_error, unit) result \<times> daemon" where
  "commit_config config d =
     (case replace_config config (rt_dispatcher d) of
        (Inl _, dispatcher) \<Rightarrow> (Inl RuntimeError, d\<lparr>rt_dispatcher := dispatcher\<rparr>)
      | (Inr _, dispatcher) \<Rightarrow>
          (case rt_config d of
             Poisoned _ \<Rightarrow> (Inl RuntimeError, d\<lparr>rt_dispatcher := dispatcher\<rparr>)
           | Sound _ \<Rightarrow> (Inr (), d\<lparr>rt_dispatcher := dispatcher, rt_config := Sound config\<rparr>)))"

definition store_config :: "runtime_lib \<Rightarrow> app_config \<Rightarrow> daemon \<Rightarrow> (runtime_error, unit) result \<times> daemon" where
  "store_config lib config d = st_then (save_config lib config d) (\<lambda>_ d. commit_config config d)"

definition save_actions ::
  "runtime_lib \<Rightarrow> custom_action list \<Rightarrow> daemon \<Rightarrow> (runtime_error, unit) result \<times> daemon" where
  "save_actions lib actions d =
     (let candidate = (config_of d)\<lparr>ac_actions := actions\<rparr> in
        st_then (ok_or RuntimeError (checked_add (ac_actions_revision candidate) 1), d) (\<lambda>revision d.
        let candidate = candidate\<lparr>ac_actions_revision := revision\<rparr> in
        st_then (map_err (\<lambda>_. RuntimeError) (validate candidate), d) (\<lambda>_ d.
        store_config lib candidate d)))"

definition apply_voice_config :: "runtime_lib \<Rightarrow> daemon \<Rightarrow> (runtime_error, unit) result \<times> daemon" where
  "apply_voice_config lib d =
     (let (r, candidate) = publish_voice_config (config_of d) in
        st_then (map_err (\<lambda>_. RuntimeError) r, d) (\<lambda>_ d. store_config lib candidate d))"

definition set_start_after_login ::
  "runtime_lib \<Rightarrow> bool \<Rightarrow> daemon \<Rightarrow> (runtime_error, unit) result \<times> daemon" where
  "set_start_after_login lib enabled d =
     (let candidate = config_of d;
          previous = ac_start_after_login candidate;
          candidate = candidate\<lparr>ac_start_after_login := enabled\<rparr>
      in st_then (configure_startup enabled d) (\<lambda>_ d.
         st_match (save_config lib candidate d)
           (\<lambda>e d. (Inl e, snd (configure_startup previous d)))
           (\<lambda>_ d. commit_config candidate d)))"

definition export_ca :: "daemon \<Rightarrow> (runtime_error, path) result \<times> daemon" where
  "export_ca d =
     st_then (ok_or RuntimeError (locked (rt_secrets d)), d) (\<lambda>s d.
     st_then (on_world (atomic_write (ca_path d) (se_ca_certificate_pem s)) d) (\<lambda>_ d.
     (Inr (ca_path d), d)))"

text \<open>Starting a listener, stopping one, and starting one again after a failure.\<close>

definition start_listener :: "app_config \<Rightarrow> daemon \<Rightarrow> (runtime_error, listener_task) result \<times> daemon" where
  "start_listener config d =
     st_then
       (and_then (ok_or RuntimeError (locked (rt_secrets d))) (\<lambda>s.
        and_then (ok_or RuntimeError (parse_token (se_token s))) (\<lambda>token. Inr (s, token))), d)
       (\<lambda>(s, token) d.
     st_then (call_os d) (\<lambda>_ d.
       (Inr \<lparr>ln_address = ac_bind_address config, ln_port = ac_port config,
             ln_certificate = se_certificate_pem s, ln_key = se_server_key_pem s,
             ln_token = token, ln_config_path = config_path d\<rparr>, d)))"

definition take_and_stop :: "daemon \<Rightarrow> (runtime_error, bool) result \<times> daemon" where
  "take_and_stop d =
     (case rt_listener d of
        None \<Rightarrow> (Inr False, d)
      | Some listener \<Rightarrow>
          st_then (call_os (d\<lparr>rt_listener := None\<rparr>)) (\<lambda>_ d. (Inr True, d)))"

definition restart :: "bool \<Rightarrow> app_config \<Rightarrow> daemon \<Rightarrow> (runtime_error, unit) result \<times> daemon" where
  "restart was_running config d =
     (if was_running
      then st_then (start_listener config d) (\<lambda>listener d. (Inr (), d\<lparr>rt_listener := Some listener\<rparr>))
      else (Inr (), d))"

definition failed :: "(runtime_error, unit) result \<times> daemon \<Rightarrow> (runtime_error, unit) result \<times> daemon" where
  "failed rs = st_then rs (\<lambda>_ d. (Inl RuntimeError, d))"

definition rotate_credentials :: "runtime_lib \<Rightarrow> daemon \<Rightarrow> (runtime_error, unit) result \<times> daemon" where
  "rotate_credentials lib d =
     (let config = config_of d in
        st_then (take_and_stop d) (\<lambda>was_running d.
        st_match (new_secrets lib config d)
          (\<lambda>_ d. failed (restart was_running config d))
          (\<lambda>replacement d.
        st_then (ok_or RuntimeError (locked (rt_secrets d)), d) (\<lambda>previous d.
        st_then (set_secrets replacement d) (\<lambda>_ d.
        st_match (save_secrets lib d)
          (\<lambda>_ d. st_then (set_secrets previous d) (\<lambda>_ d. failed (restart was_running config d)))
          (\<lambda>_ d.
             if \<not> was_running then (Inr (), d)
             else
               st_match (start_listener config d)
                 (\<lambda>_ d. failed (store_config lib (config\<lparr>ac_listener_enabled := False\<rparr>) d))
                 (\<lambda>listener d. (Inr (), d\<lparr>rt_listener := Some listener\<rparr>))))))))"

definition shutdown :: "daemon \<Rightarrow> (runtime_error, unit) result \<times> daemon" where
  "shutdown d = st_then (take_and_stop d) (\<lambda>_ d. (Inr (), d))"

definition set_listener :: "runtime_lib \<Rightarrow> bool \<Rightarrow> daemon \<Rightarrow> (runtime_error, unit) result \<times> daemon" where
  "set_listener lib enabled d =
     (let current = config_of d;
          is_running = (rt_listener d \<noteq> None);
          candidate = current\<lparr>ac_listener_enabled := enabled\<rparr>
      in
        if ac_listener_enabled current = enabled \<and> is_running = enabled then (Inr (), d)
        else if enabled
        then
          st_match (start_listener candidate d)
            (\<lambda>_ d. failed (store_config lib (candidate\<lparr>ac_listener_enabled := False\<rparr>) d))
            (\<lambda>listener d.
          st_match (save_config lib candidate d)
            (\<lambda>e d. (Inl e, snd (call_os d)))    \<comment> \<open>the new listener is stopped\<close>
            (\<lambda>_ d. commit_config candidate (d\<lparr>rt_listener := Some listener\<rparr>)))
        else
          st_then (take_and_stop d) (\<lambda>_ d. store_config lib candidate d))"

text \<open>\<open>reconfigure\<close>; \<open>free\<close> is the answer of \<open>try_lock\<close> on the listener.\<close>

definition reconfigure ::
  "runtime_lib \<Rightarrow> ip_addr \<Rightarrow> u16 \<Rightarrow> bool \<Rightarrow> daemon \<Rightarrow> (runtime_error, unit) result \<times> daemon" where
  "reconfigure lib bind_address port free d =
     (if \<not> free \<or> rt_listener d \<noteq> None then (Inl RuntimeError, d)
      else
        let candidate = (config_of d)\<lparr>ac_bind_address := bind_address, ac_port := port\<rparr> in
        st_then (map_err (\<lambda>_. RuntimeError) (validate candidate), d) (\<lambda>_ d.
        st_then (ok_or RuntimeError (locked (rt_secrets d)), d) (\<lambda>previous d.
        st_then
          (if se_host previous \<noteq> ip_to_string bind_address
           then st_then (rotate_tls lib previous bind_address d) (\<lambda>s d. set_secrets s d)
           else (Inr (), d)) (\<lambda>_ d.
        st_match (save_secrets lib d)
          (\<lambda>e d. st_then (set_secrets previous d) (\<lambda>_ d. (Inl e, d)))
          (\<lambda>_ d.
        st_match (save_config lib candidate d)
          (\<lambda>e d. st_then (set_secrets previous d) (\<lambda>_ d. (Inl e, snd (save_secrets lib d))))
          (\<lambda>_ d. commit_config candidate d))))))"

section \<open>What the calls leave alone\<close>

text \<open>The runtime's own fields; \<open>core_frame\<close> collects the operations that change none of them.\<close>

named_theorems core_frame \<open>operations on the machine that leave the runtime's fields\<close>

definition core :: "daemon \<Rightarrow> path \<times> dispatcher \<times> app_config lock \<times> secrets lock \<times> listener_task option" where
  "core d = (rt_directory d, rt_dispatcher d, rt_config d, rt_secrets d, rt_listener d)"

lemma core_os [simp]:
  "core (d\<lparr>os_world := w\<rparr>) = core d"
  "core (d\<lparr>os_startup := b\<rparr>) = core d"
  "core (d\<lparr>os_draws := n\<rparr>) = core d"
  by (simp_all add: core_def)

lemma core_fields:
  assumes "core d' = core d"
  shows "rt_directory d' = rt_directory d" "rt_dispatcher d' = rt_dispatcher d"
    "rt_config d' = rt_config d" "rt_secrets d' = rt_secrets d" "rt_listener d' = rt_listener d"
  using assms by (simp_all add: core_def)

lemma on_world_core [core_frame]: "on_world f d = (r, d') \<Longrightarrow> core d' = core d"
  by (auto simp: on_world_def split: prod.splits)

lemma on_world_Inr [result_simps]:
  "on_world f d = (Inr a, d') \<longleftrightarrow> f (os_world d) = (Inr a, os_world d') \<and> d' = d\<lparr>os_world := os_world d'\<rparr>"
  by (auto simp: on_world_def result_simps split: prod.splits)

lemma on_world_Inl [result_simps]:
  "on_world f d = (Inl e, d') \<longleftrightarrow>
     (\<exists>e'. f (os_world d) = (Inl e', os_world d')) \<and> d' = d\<lparr>os_world := os_world d'\<rparr> \<and> e = RuntimeError"
  by (auto simp: on_world_def result_simps split: prod.splits)

lemma st_then_core:
  assumes "st_then rs f = (r, d')" and "\<And>r d'. rs = (r, d') \<Longrightarrow> core d' = core d"
    and "\<And>a s. rs = (Inr a, s) \<Longrightarrow> f a s = (r, d') \<Longrightarrow> core d' = core s"
  shows "core d' = core d"
  using assms by (cases rs; cases "fst rs") fastforce+

lemma provision_core [core_frame]: "provision lib host d = (r, d') \<Longrightarrow> core d' = core d"
  by (auto simp: provision_def)

lemma new_secrets_core [core_frame]: "new_secrets lib config d = (r, d') \<Longrightarrow> core d' = core d"
  unfolding new_secrets_def
  by (erule st_then_core) (auto simp: draw_token_def dest: provision_core)

lemma rotate_tls_core [core_frame]: "rotate_tls lib s host d = (r, d') \<Longrightarrow> core d' = core d"
  unfolding rotate_tls_def
  by (erule st_then_core) (auto dest: provision_core)

lemma save_config_core [core_frame]: "save_config lib config d = (r, d') \<Longrightarrow> core d' = core d"
  unfolding save_config_def by (rule on_world_core)

lemma save_secrets_core [core_frame]: "save_secrets lib d = (r, d') \<Longrightarrow> core d' = core d"
  unfolding save_secrets_def
  by (cases r) (auto simp: st_then_Inr st_then_Inl dest: on_world_core)

lemma call_os_core: "core (snd (call_os d)) = core d"
  using on_world_core [of "io_step (\<lambda>_. RuntimeError)" d] by (metis prod.collapse)

lemma configure_startup_core [core_frame]: "configure_startup b d = (r, d') \<Longrightarrow> core d' = core d"
  unfolding configure_startup_def
  by (auto simp: st_match_eq st_then_Inr st_then_Inl dest!: on_world_core split: if_splits
      elim!: st_then_core)

lemma start_listener_core [core_frame]: "start_listener config d = (r, d') \<Longrightarrow> core d' = core d"
  unfolding start_listener_def
  by (cases r) (auto simp: st_then_Inr st_then_Inl dest: on_world_core)

section \<open>The invariant\<close>

definition secrets_ok :: "app_config \<Rightarrow> secrets \<Rightarrow> bool" where
  "secrets_ok c s \<longleftrightarrow> parse_token (se_token s) \<noteq> None \<and> se_host s = ip_to_string (ac_bind_address c)"

text \<open>A running listener serves the current configuration with the current secrets.\<close>

definition listener_ok :: "path \<Rightarrow> app_config \<Rightarrow> secrets \<Rightarrow> listener_task \<Rightarrow> bool" where
  "listener_ok dir c s l \<longleftrightarrow>
     ac_listener_enabled c
   \<and> ln_address l = ac_bind_address c \<and> ln_port l = ac_port c
   \<and> ln_certificate l = se_certificate_pem s \<and> ln_key l = se_server_key_pem s
   \<and> parse_token (se_token s) = Some (ln_token l)
   \<and> ln_config_path l = join_path dir ''config.json''"

definition daemon_inv :: "app_config \<Rightarrow> secrets \<Rightarrow> daemon \<Rightarrow> bool" where
  "daemon_inv c s d \<longleftrightarrow>
     rt_config d = Sound c \<and> rt_secrets d = Sound s \<and> dp_config (rt_dispatcher d) = Sound c
   \<and> dispatcher_ok (rt_dispatcher d) \<and> locks_sound (rt_dispatcher d)
   \<and> secrets_ok c s
   \<and> pred_option (listener_ok (rt_directory d) c s) (rt_listener d)"

definition daemon_ok :: "daemon \<Rightarrow> bool" where
  "daemon_ok d \<longleftrightarrow>
     (case (rt_config d, rt_secrets d) of (Sound c, Sound s) \<Rightarrow> daemon_inv c s d | _ \<Rightarrow> False)"

lemma daemon_ok_inv: "daemon_ok d \<longleftrightarrow> (\<exists>c s. daemon_inv c s d)"
  by (auto simp: daemon_ok_def daemon_inv_def split: lock.splits)

lemma daemon_inv_core: "core d' = core d \<Longrightarrow> daemon_inv c s d' = daemon_inv c s d"
  by (simp add: daemon_inv_def core_def)

lemma daemon_invD:
  assumes "daemon_inv c s d"
  shows "rt_config d = Sound c" "rt_secrets d = Sound s" "config_of d = c" "config_ok c" "secrets_ok c s"
    "locked (rt_secrets d) = Some s" "pred_option (listener_ok (rt_directory d) c s) (rt_listener d)"
  using assms by (auto simp: daemon_inv_def dispatcher_ok_def config_of_def)

definition with_config :: "app_config \<Rightarrow> daemon \<Rightarrow> daemon" where
  "with_config c d =
     d\<lparr>rt_dispatcher := (rt_dispatcher d)\<lparr>dp_config := Sound c\<rparr>, rt_config := Sound c\<rparr>"

lemma commit_config_ok:
  assumes "rt_config d = Sound c" and "locks_sound (rt_dispatcher d)" and "config_ok c'"
  shows "commit_config c' d = (Inr (), with_config c' d)"
proof -
  obtain old where "dp_config (rt_dispatcher d) = Sound old"
    using assms(2) by (cases "dp_config (rt_dispatcher d)") (auto simp: locks_sound_def)
  then have "replace_config c' (rt_dispatcher d) = (Inr (), (rt_dispatcher d)\<lparr>dp_config := Sound c'\<rparr>)"
    using assms(3) by (simp add: replace_config_Inr)
  then show ?thesis using assms(1) by (simp add: commit_config_def with_config_def)
qed

lemma commit_config_invalid:
  assumes "\<not> config_ok c'"
  shows "commit_config c' d = (Inl RuntimeError, d)"
proof -
  obtain e where "replace_config c' (rt_dispatcher d) = (Inl e, rt_dispatcher d)"
    using replace_config_Inl [of c' "rt_dispatcher d"] replace_config_Inr [of c' "rt_dispatcher d"] assms
    by (cases "replace_config c' (rt_dispatcher d)"; cases "fst (replace_config c' (rt_dispatcher d))") auto
  then show ?thesis by (simp add: commit_config_def)
qed

lemma with_config_inv:
  assumes "daemon_inv c s d" and "config_ok c'" and "secrets_ok c' s"
    and "pred_option (listener_ok (rt_directory d) c' s) (rt_listener d)"
  shows "daemon_inv c' s (with_config c' d)"
  using assms by (auto simp: daemon_inv_def with_config_def dispatcher_ok_def locks_sound_def)

lemma save_config_Inr:
  assumes "save_config lib c d = (Inr (), d')"
  shows "config_ok c \<and> core d' = core d
    \<and> (\<exists>text. rl_encode lib c = Some text
         \<and> files (os_world d') = (files (os_world d))(config_path d \<mapsto> text @ [CHR 0x0A]))"
  using assms save_Inr save_config_core [OF assms]
  by (fastforce simp: save_config_def on_world_Inr)

lemma save_config_Inl:
  assumes "save_config lib c d = (Inl e, d')"
  shows "core d' = core d \<and> files (os_world d') = files (os_world d)"
  using assms save_Inl_files save_config_core [OF assms]
  by (fastforce simp: save_config_def on_world_Inl)

text \<open>What the disk holds of a configuration.\<close>

definition config_on_disk :: "runtime_lib \<Rightarrow> app_config \<Rightarrow> daemon \<Rightarrow> bool" where
  "config_on_disk lib c d \<longleftrightarrow>
     (case rl_encode lib c of
        None \<Rightarrow> False
      | Some text \<Rightarrow> files (os_world d) (config_path d) = Some (text @ [CHR 0x0A]))"

lemma store_config_Inr:
  assumes "store_config lib c' d = (Inr (), d')" and "daemon_inv c s d"
    and "secrets_ok c' s" and "pred_option (listener_ok (rt_directory d) c' s) (rt_listener d)"
  shows "daemon_inv c' s d' \<and> config_on_disk lib c' d' \<and> core d' = core (with_config c' d)"
proof -
  obtain d1 where save: "save_config lib c' d = (Inr (), d1)" and commit: "commit_config c' d1 = (Inr (), d')"
    using assms(1) by (auto simp: store_config_def result_simps)
  have c': "config_ok c'" and core: "core d1 = core d" using save_config_Inr [OF save] by auto
  have inv: "daemon_inv c s d1" using assms(2) by (simp add: daemon_inv_core [OF core])
  then have d': "d' = with_config c' d1"
    using commit commit_config_ok [of d1 c c'] c' by (simp add: daemon_inv_def)
  have "daemon_inv c' s d'"
    unfolding d' by (rule with_config_inv [OF inv c'])
      (use assms core_fields [OF core] in simp_all)
  moreover have "config_on_disk lib c' d'"
    using save_config_Inr [OF save] core_fields(1) [OF core]
    by (auto simp: config_on_disk_def d' with_config_def)
  moreover have "core d' = core (with_config c' d)"
    using core_fields [OF core] by (simp add: d' core_def with_config_def)
  ultimately show ?thesis by blast
qed

lemma store_config_Inl:
  assumes "store_config lib c' d = (Inl e, d')" and "daemon_inv c s d"
  shows "core d' = core d \<and> files (os_world d') = files (os_world d)"
proof -
  have "\<not> commit_config c' d1 = (Inl e, d')" if "save_config lib c' d = (Inr (), d1)" for d1
  proof -
    have c': "config_ok c'" and core: "core d1 = core d" using save_config_Inr [OF that] by auto
    have "daemon_inv c s d1" using assms(2) by (simp add: daemon_inv_core [OF core])
    then show ?thesis using commit_config_ok [of d1 c c'] c' by (simp add: daemon_inv_def)
  qed
  then have "save_config lib c' d = (Inl e, d')"
    using assms(1) by (auto simp: store_config_def result_simps)
  then show ?thesis by (rule save_config_Inl)
qed

lemma secrets_ok_config: "ac_bind_address c' = ac_bind_address c \<Longrightarrow> secrets_ok c' s = secrets_ok c s"
  by (simp add: secrets_ok_def)

lemma listener_ok_config:
  "ac_bind_address c' = ac_bind_address c \<Longrightarrow> ac_port c' = ac_port c \<Longrightarrow>
     ac_listener_enabled c' = ac_listener_enabled c \<Longrightarrow> listener_ok dir c' s = listener_ok dir c s"
  by (simp add: listener_ok_def fun_eq_iff)

text \<open>
  A configuration that changes neither the address nor the switch can be stored: either it is
  stored everywhere, or nothing has changed.
\<close>

definition same_endpoint :: "app_config \<Rightarrow> app_config \<Rightarrow> bool" where
  "same_endpoint c' c \<longleftrightarrow>
     ac_bind_address c' = ac_bind_address c \<and> ac_port c' = ac_port c
   \<and> ac_listener_enabled c' = ac_listener_enabled c"

lemma store_same_endpoint:
  assumes "daemon_inv c s d" and "same_endpoint c' c" and "store_config lib c' d = (r, d')"
  shows "(if r = Inr () then daemon_inv c' s d' \<and> config_on_disk lib c' d'
          else daemon_inv c s d' \<and> core d' = core d \<and> files (os_world d') = files (os_world d))"
proof (cases r)
  case (Inl e)
  then show ?thesis using store_config_Inl assms(1,3) daemon_inv_core by (metis Inl_Inr_False)
next
  case (Inr u)
  have "secrets_ok c' s" "pred_option (listener_ok (rt_directory d) c' s) (rt_listener d)"
    using assms(2) daemon_invD(5,7) [OF assms(1)]
    by (simp_all add: same_endpoint_def secrets_ok_config [of c' c] listener_ok_config [of c' c])
  then show ?thesis using store_config_Inr assms(1,3) Inr by fastforce
qed

section \<open>Operations on the configuration\<close>

text \<open>\<open>all_or_nothing\<close>: a change of the configuration is stored everywhere or nowhere.\<close>

definition all_or_nothing ::
  "runtime_lib \<Rightarrow> app_config \<Rightarrow> app_config option \<Rightarrow> secrets \<Rightarrow> daemon
   \<Rightarrow> (runtime_error, unit) result \<times> daemon \<Rightarrow> bool" where
  "all_or_nothing lib c new s d = (\<lambda>(r, d').
     if is_ok r
     then (case new of None \<Rightarrow> False | Some c' \<Rightarrow> daemon_inv c' s d' \<and> config_on_disk lib c' d')
     else daemon_inv c s d' \<and> core d' = core d \<and> files (os_world d') = files (os_world d))"

lemma all_or_nothing_refused:
  "daemon_inv c s d \<Longrightarrow> all_or_nothing lib c new s d (Inl e, d)"
  by (simp add: all_or_nothing_def)

lemma all_or_nothing_store:
  assumes "daemon_inv c s d" and "same_endpoint c' c"
  shows "all_or_nothing lib c (Some c') s d (store_config lib c' d)"
  using store_same_endpoint [OF assms]
  by (cases "store_config lib c' d") (auto simp: all_or_nothing_def not_isl_unit)

definition with_actions :: "app_config \<Rightarrow> custom_action list \<Rightarrow> u64 \<Rightarrow> app_config" where
  "with_actions c actions revision = c\<lparr>ac_actions := actions, ac_actions_revision := revision\<rparr>"

lemma save_actions_outcome:
  assumes "daemon_inv c s d"
  shows "all_or_nothing lib c
    (map_option (with_actions c actions) (checked_add (ac_actions_revision c) 1)) s d
    (save_actions lib actions d)"
proof (cases "checked_add (ac_actions_revision c) 1")
  case None
  then show ?thesis
    using assms daemon_invD(3) [OF assms] by (simp add: save_actions_def all_or_nothing_refused)
next
  case (Some revision)
  have "save_actions lib actions d =
      st_then (map_err (\<lambda>_. RuntimeError) (validate (with_actions c actions revision)), d)
        (\<lambda>_ d. store_config lib (with_actions c actions revision) d)"
    using Some daemon_invD(3) [OF assms] by (simp add: save_actions_def with_actions_def Let_def)
  also have "all_or_nothing lib c (Some (with_actions c actions revision)) s d \<dots>"
    using all_or_nothing_store [OF assms, of "with_actions c actions revision"] assms
    by (cases "validate (with_actions c actions revision)")
      (auto simp: all_or_nothing_refused same_endpoint_def with_actions_def)
  finally show ?thesis using Some by simp
qed

definition with_published :: "app_config \<Rightarrow> u64 \<Rightarrow> app_config" where
  "with_published c revision = c\<lparr>ac_published_voice := Some (published_of c revision)\<rparr>"

lemma apply_voice_outcome:
  assumes "daemon_inv c s d"
  shows "all_or_nothing lib c (map_option (with_published c) (next_voice_revision c)) s d
    (apply_voice_config lib d)"
proof (cases "next_voice_revision c")
  case None
  then show ?thesis
    using assms daemon_invD(3) [OF assms]
    by (simp add: apply_voice_config_def publish_exhausted all_or_nothing_refused)
next
  case (Some revision)
  then have "apply_voice_config lib d = store_config lib (with_published c revision) d"
    using publish_success daemon_invD(3,4) [OF assms]
    by (simp add: apply_voice_config_def with_published_def)
  also have "all_or_nothing lib c (Some (with_published c revision)) s d \<dots>"
    by (rule all_or_nothing_store [OF assms]) (simp add: same_endpoint_def with_published_def)
  finally show ?thesis using Some by simp
qed

text \<open>\<open>quiet\<close>: neither the runtime's fields nor any file have changed.\<close>

definition quiet :: "daemon \<Rightarrow> ('e, 'a) result \<times> daemon \<Rightarrow> bool" where
  "quiet d rs \<longleftrightarrow> core (snd rs) = core d \<and> files (os_world (snd rs)) = files (os_world d)"

lemma quiet_refl: "quiet d (r, d)" "quiet d (r, d\<lparr>os_startup := b\<rparr>)" "quiet d (r, d\<lparr>os_draws := n\<rparr>)"
  by (simp_all add: quiet_def)

lemma quiet_io: "quiet d (call_os d)"
  by (auto simp: quiet_def on_world_def split: prod.split dest: files_io_stepD)

lemma quiet_then: "quiet d rs \<Longrightarrow> (\<And>a s. quiet s (f a s)) \<Longrightarrow> quiet d (st_then rs f)"
  by (cases rs; cases "fst rs") (fastforce simp: quiet_def)+

lemma quiet_match:
  "quiet d rs \<Longrightarrow> (\<And>e s. quiet s (f e s)) \<Longrightarrow> (\<And>a s. quiet s (g a s)) \<Longrightarrow> quiet d (st_match rs f g)"
  by (cases rs; cases "fst rs") (fastforce simp: quiet_def)+

lemmas quiet_rules = quiet_refl quiet_io quiet_then quiet_match

lemma configure_startup_quiet: "quiet d (configure_startup b d)"
  unfolding configure_startup_def by (auto intro!: quiet_rules)

lemma new_secrets_quiet: "quiet d (new_secrets lib config d)"
  unfolding new_secrets_def provision_def draw_token_def by (auto intro!: quiet_rules)

lemma rotate_tls_quiet: "quiet d (rotate_tls lib s host d)"
  unfolding rotate_tls_def provision_def by (auto intro!: quiet_rules)

lemma start_listener_quiet: "quiet d (start_listener config d)"
  unfolding start_listener_def by (auto intro!: quiet_rules split: prod.split)

lemma quietD: "quiet d rs \<Longrightarrow> rs = (r, d') \<Longrightarrow> core d' = core d \<and> files (os_world d') = files (os_world d)"
  by (simp add: quiet_def)

lemma start_after_login_outcome:
  assumes "daemon_inv c s d"
  shows "all_or_nothing lib c (Some (c\<lparr>ac_start_after_login := enabled\<rparr>)) s d
    (set_start_after_login lib enabled d)"
proof -
  let ?c = "c\<lparr>ac_start_after_login := enabled\<rparr>"
  obtain r1 d1 where start: "configure_startup enabled d = (r1, d1)" by fastforce
  note q1 = quietD [OF configure_startup_quiet start]
  show ?thesis
  proof (cases r1)
    case (Inl e)
    then show ?thesis
      using assms q1 start daemon_inv_core [of d1 d c s]
      by (simp add: set_start_after_login_def all_or_nothing_def Let_def)
  next
    case (Inr u)
    have inv1: "daemon_inv c s d1" using assms daemon_inv_core q1 by blast
    obtain r2 d2 where save: "save_config lib ?c d1 = (r2, d2)" by fastforce
    show ?thesis
    proof (cases r2)
      case (Inl e)
      obtain r3 d3 where undo: "configure_startup (ac_start_after_login c) d2 = (r3, d3)" by fastforce
      have "core d3 = core d \<and> files (os_world d3) = files (os_world d)"
        using q1 save_config_Inl [OF save [unfolded Inl]] quietD [OF configure_startup_quiet undo] by simp
      then show ?thesis
        using Inr Inl start save undo assms daemon_inv_core [of d3 d c s] daemon_invD(3) [OF assms]
        by (simp add: set_start_after_login_def all_or_nothing_def Let_def)
    next
      case (Inr u')
      have "store_config lib ?c d1 = commit_config ?c d2" using save Inr by (simp add: store_config_def)
      then have "set_start_after_login lib enabled d = store_config lib ?c d1"
        using \<open>r1 = Inr u\<close> Inr start save daemon_invD(3) [OF assms]
        by (simp add: set_start_after_login_def Let_def)
      moreover have "all_or_nothing lib c (Some ?c) s d1 (store_config lib ?c d1)"
        by (rule all_or_nothing_store [OF inv1]) (simp add: same_endpoint_def)
      ultimately show ?thesis
        using q1 daemon_inv_core [of d1 d c s] by (auto simp: all_or_nothing_def split: prod.splits)
    qed
  qed
qed

section \<open>Operations on the listener and the secrets\<close>

lemma start_listener_Inr:
  assumes "start_listener c' d = (Inr l, d')" and "rt_secrets d = Sound s" and "ac_listener_enabled c'"
  shows "listener_ok (rt_directory d) c' s l"
  using assms core_fields(1) [OF start_listener_core [OF assms(1)]]
  by (auto simp: start_listener_def result_simps listener_ok_def)

lemma without_listener:
  "daemon_inv c s d \<Longrightarrow> daemon_inv c s (d\<lparr>rt_listener := None\<rparr>)"
  by (simp add: daemon_inv_def)

lemma with_listener:
  "daemon_inv c s d \<Longrightarrow> listener_ok (rt_directory d) c s l \<Longrightarrow> daemon_inv c s (d\<lparr>rt_listener := Some l\<rparr>)"
  by (simp add: daemon_inv_def)

lemma take_and_stop_core:
  assumes "take_and_stop d = (r, d')"
  shows "core d' = core (d\<lparr>rt_listener := None\<rparr>) \<and> files (os_world d') = files (os_world d)
    \<and> (\<forall>b. r = Inr b \<longrightarrow> b = (rt_listener d \<noteq> None))"
proof (cases "rt_listener d")
  case None
  then show ?thesis using assms by (auto simp: take_and_stop_def core_def)
next
  case (Some l)
  obtain r1 d1 where io: "call_os (d\<lparr>rt_listener := None\<rparr>) = (r1, d1)" by fastforce
  then show ?thesis
    using assms Some quietD [OF quiet_io io]
    by (cases r1) (auto simp: take_and_stop_def)
qed

lemma new_secrets_Inr:
  assumes "new_secrets lib c d = (Inr s, d')" and "\<And>n. length (rl_random lib n) = 32"
  shows "secrets_ok c s"
proof -
  have "parse_token (token_bytes (generate (rl_random lib n))) \<noteq> None" for n
    using generate_wf [OF assms(2) [of n]] parse_token_Some by fastforce
  with assms(1) show ?thesis
    by (auto simp: new_secrets_def result_simps secrets_ok_def draw_token_def)
qed

lemma restart_inv:
  assumes "daemon_inv c s d" and "was_running \<Longrightarrow> ac_listener_enabled c" and "restart was_running c d = (r, d')"
  shows "daemon_inv c s d'"
proof (cases was_running)
  case True
  obtain r1 d1 where start: "start_listener c d = (r1, d1)" by fastforce
  note q = quietD [OF start_listener_quiet start]
  have inv1: "daemon_inv c s d1" using assms(1) daemon_inv_core q by blast
  show ?thesis
  proof (cases r1)
    case (Inl e)
    then show ?thesis using True assms(3) start inv1 by (simp add: restart_def)
  next
    case (Inr l)
    have "listener_ok (rt_directory d1) c s l"
      using start_listener_Inr [OF start [unfolded Inr]] assms(1,2) True core_fields(1) [of d1 d] q
      by (simp add: daemon_inv_def)
    then show ?thesis
      using True assms(3) start Inr with_listener [OF inv1] by (auto simp: restart_def)
  qed
qed (use assms in \<open>simp add: restart_def\<close>)

lemma failed_snd: "failed (r, d) = (r', d') \<Longrightarrow> d' = d \<and> r' \<noteq> Inr ()"
  by (cases r) (auto simp: failed_def)

lemma restart_failed_inv:
  assumes "daemon_inv c s d" and "was_running \<Longrightarrow> ac_listener_enabled c"
    and "failed (restart was_running c d) = (r, d')"
  shows "daemon_inv c s d' \<and> r \<noteq> Inr ()"
proof -
  obtain r1 d1 where r1: "restart was_running c d = (r1, d1)" by fastforce
  show ?thesis using restart_inv [OF assms(1,2) r1] assms(3) failed_snd r1 by metis
qed

section \<open>Secrets on disk\<close>

lemma atomic_write_Inr:
  "atomic_write p contents w = (Inr u, w') \<Longrightarrow> files w' = (files w)(p \<mapsto> contents)"
  by (auto simp: atomic_write_def result_simps dest!: files_io_stepD split: if_splits)

lemma atomic_write_Inl: "atomic_write p contents w = (Inl e, w') \<Longrightarrow> files w' = files w"
  by (auto simp: atomic_write_def result_simps dest!: files_io_stepD split: if_splits)

lemma save_secrets_Inr:
  assumes "save_secrets lib d = (Inr u, d')" and "rt_secrets d = Sound s"
  shows "core d' = core d \<and> (\<exists>plain enc. rl_encode_secrets lib s = Some plain
    \<and> protect (rl_crypt lib) plain = Some enc
    \<and> files (os_world d') = (files (os_world d))(secrets_path d \<mapsto> enc))"
  using assms save_secrets_core [OF assms(1)] atomic_write_Inr
  by (fastforce simp: save_secrets_def result_simps)

lemma protect_Some: "protect crypt x = Some y \<Longrightarrow> crypt True x = Some y \<and> y \<noteq> []"
  by (auto simp: protect_def transform_def split: if_splits option.splits)

text \<open>What a freshly published table selects.\<close>

lemma published_selection:
  assumes "config_ok c" and "dp_config d = Sound (c\<lparr>ac_published_voice := Some (published_of c revision)\<rparr>)"
  shows "custom_snapshot q d = Inr action \<longleftrightarrow>
      cr_voice_revision q = revision
    \<and> (\<exists>a \<in> set (ac_actions c). ca_id a = cr_action_id q \<and> ca_enabled a \<and> ca_phrase a \<noteq> None \<and> ca_action a = action)"
proof -
  have same: "a = b" if "a \<in> set (ac_actions c)" "b \<in> set (ac_actions c)" "ca_id a = ca_id b" for a b
    using assms(1) that by (auto simp: config_ok_def actions_ok_def distinct_map dest: inj_onD)
  have found: "List.find (\<lambda>a. ca_id a = i) (ac_actions c) = Some a \<longleftrightarrow> a \<in> set (ac_actions c) \<and> ca_id a = i" for a i
  proof
    assume "List.find (\<lambda>a. ca_id a = i) (ac_actions c) = Some a"
    then show "a \<in> set (ac_actions c) \<and> ca_id a = i" by (auto simp: find_Some_iff)
  next
    assume a: "a \<in> set (ac_actions c) \<and> ca_id a = i"
    then obtain b where b: "List.find (\<lambda>a. ca_id a = i) (ac_actions c) = Some b"
      by (cases "List.find (\<lambda>a. ca_id a = i) (ac_actions c)") (auto simp: find_None_iff)
    then have "b \<in> set (ac_actions c)" "ca_id b = i" by (auto simp: find_Some_iff)
    then show "List.find (\<lambda>a. ca_id a = i) (ac_actions c) = Some a" using a b same by metis
  qed
  have commands: "list_ex (\<lambda>command. vc_action_id command = i) (pv_commands (published_of c revision)) \<longleftrightarrow>
      (\<exists>a \<in> set (ac_actions c). ca_id a = i \<and> ca_enabled a \<and> ca_phrase a \<noteq> None)" for i
    by (auto simp: published_of_def published_commands_def List.map_filter_def list_ex_iff action_voice_def)
  have fields: "pv_revision (published_of c revision) = revision"
    "pv_actions_revision (published_of c revision) = ac_actions_revision c"
    by (simp_all add: published_of_def)
  have "custom_snapshot q d = Inr action \<longleftrightarrow>
      revision = cr_voice_revision q
    \<and> (\<exists>a. a \<in> set (ac_actions c) \<and> ca_id a = cr_action_id q \<and> ca_enabled a \<and> ca_phrase a \<noteq> None)
    \<and> (\<exists>a. a \<in> set (ac_actions c) \<and> ca_id a = cr_action_id q \<and> ca_enabled a \<and> action = ca_action a)"
    unfolding custom_snapshot_Inr by (simp add: assms(2) fields commands found Bex_def conj_assoc)
  moreover have "(\<exists>a. a \<in> set (ac_actions c) \<and> ca_id a = i \<and> ca_enabled a \<and> ca_phrase a \<noteq> None)
    \<and> (\<exists>a. a \<in> set (ac_actions c) \<and> ca_id a = i \<and> ca_enabled a \<and> action = ca_action a) \<longleftrightarrow>
      (\<exists>a \<in> set (ac_actions c). ca_id a = i \<and> ca_enabled a \<and> ca_phrase a \<noteq> None \<and> ca_action a = action)" for i
    using same by metis
  ultimately show ?thesis by auto
qed

section \<open>Properties\<close>

text \<open>C18: saving the actions either changes nothing, in memory and in every file, or installs them
  everywhere under the next revision; then no voice request is accepted until they are applied.\<close>

theorem saved_actions_wait_for_apply:
  assumes "daemon_inv c s d"
  shows "case save_actions lib actions d of
      (Inl _, d') \<Rightarrow> core d' = core d \<and> files (os_world d') = files (os_world d)
    | (Inr _, d') \<Rightarrow>
        let c' = c\<lparr>ac_actions := actions, ac_actions_revision := ac_actions_revision c + 1\<rparr> in
          daemon_inv c' s d' \<and> config_on_disk lib c' d'
        \<and> (\<forall>q. custom_snapshot q (rt_dispatcher d') = Inl StaleVoiceConfig)"
proof (cases "save_actions lib actions d")
  case (Pair r d')
  note outcome = save_actions_outcome [OF assms, of lib actions, unfolded Pair]
  show ?thesis
  proof (cases r)
    case (Inl e)
    then show ?thesis using outcome Pair by (simp add: all_or_nothing_def)
  next
    case (Inr u)
    then obtain revision where revision: "checked_add (ac_actions_revision c) 1 = Some revision"
      and inv: "daemon_inv (with_actions c actions revision) s d'"
      "config_on_disk lib (with_actions c actions revision) d'"
      using outcome by (auto simp: all_or_nothing_def split: option.splits)
    have next_one: "revision = ac_actions_revision c + 1" "ac_actions_revision c < revision"
      using revision by (auto simp: checked_add_def word_less_nat_alt unat_word_ariths split: if_splits)
    have "pv_actions_revision p \<noteq> revision" if "ac_published_voice c = Some p" for p
      using daemon_invD(4) [OF assms] that next_one(2) by (auto simp: config_ok_def published_ok_def)
    then have "custom_snapshot q (rt_dispatcher d') = Inl StaleVoiceConfig" for q
      using inv(1)
      by (cases "ac_published_voice c") (auto simp: custom_snapshot_def daemon_inv_def with_actions_def)
    then show ?thesis using Pair Inr inv next_one(1) by (simp add: with_actions_def)
  qed
qed

text \<open>A daemon with one published action, for the instances below.\<close>

definition example_secrets :: secrets where
  "example_secrets =
     \<lparr>se_token = replicate 64 CHR ''a'', se_host = ip_to_string (ac_bind_address example_published),
      se_certificate_pem = ''cert'', se_server_key_pem = ''key'', se_ca_certificate_pem = ''ca'',
      se_ca_key_pem = ''cakey''\<rparr>"

definition example_daemon :: daemon where
  "example_daemon =
     \<lparr>rt_directory = ''C:/d'', rt_dispatcher = example_dispatcher, rt_config = Sound example_published,
      rt_secrets = Sound example_secrets, rt_listener = None,
      os_world = \<lparr>files = Map.empty, answers = []\<rparr>, os_startup = False, os_draws = 0\<rparr>"

definition example_lib :: runtime_lib where
  "example_lib =
     \<lparr>rl_encode = (\<lambda>c. Some ''cfg''), rl_decode = (\<lambda>text. None),
      rl_encode_secrets = (\<lambda>s. Some ''s''), rl_decode_secrets = (\<lambda>text. Some example_secrets),
      rl_crypt = (\<lambda>encrypt text. Some text),
      rl_provision = (\<lambda>n host. Some \<lparr>tm_certificate_pem = ''cert'', tm_server_private_key_pem = ''key'',
        tm_trusted_ca_certificate_pem = ''ca'', tm_ca_private_key_pem = ''cakey''\<rparr>),
      rl_random = (\<lambda>n. replicate 32 0)\<rparr>"

lemma example_daemon_inv: "daemon_inv example_published example_secrets example_daemon"
proof -
  have "parse_token (replicate 64 CHR ''a'') \<noteq> None" by code_simp
  moreover have "dispatcher_ok example_dispatcher \<and> locks_sound example_dispatcher"
    using example_published_ok by (simp add: dispatcher_ok_def locks_sound_def example_dispatcher_def cache_ok_def)
  ultimately show ?thesis
    by (simp add: daemon_inv_def example_daemon_def secrets_ok_def example_secrets_def)
      (simp add: example_dispatcher_def)
qed

lemma example_paths: "path_has_parent (join_path ''C:/d'' name)" if "name \<in> {''config.json'', ''secrets.dpapi'', ''trusted-ca.pem''}"
proof -
  have "path_has_parent (join_path ''C:/d'' ''config.json'')" "path_has_parent (join_path ''C:/d'' ''secrets.dpapi'')"
    "path_has_parent (join_path ''C:/d'' ''trusted-ca.pem'')" by code_simp+
  then show ?thesis using that by auto
qed

theorem saved_actions_wait_for_apply_witness:
  "case save_actions example_lib [] example_daemon of
      (Inl _, d') \<Rightarrow> core d' = core example_daemon \<and> files (os_world d') = files (os_world example_daemon)
    | (Inr _, d') \<Rightarrow>
        let c' = example_published\<lparr>ac_actions := [], ac_actions_revision := ac_actions_revision example_published + 1\<rparr> in
          daemon_inv c' example_secrets d' \<and> config_on_disk example_lib c' d'
        \<and> (\<forall>q. custom_snapshot q (rt_dispatcher d') = Inl StaleVoiceConfig)"
  by (rule saved_actions_wait_for_apply [OF example_daemon_inv])

text \<open>C19: applying the voice configuration either changes nothing, or publishes a new revision, in
  memory and on disk; from then on a voice request selects an action exactly when it names that
  revision and an enabled action with a phrase, and it selects what that action does.\<close>

theorem applied_actions_are_selected:
  assumes "daemon_inv c s d"
  shows "case apply_voice_config lib d of
      (Inl _, d') \<Rightarrow> core d' = core d \<and> files (os_world d') = files (os_world d)
    | (Inr _, d') \<Rightarrow>
        \<exists>p. daemon_inv (c\<lparr>ac_published_voice := Some p\<rparr>) s d'
          \<and> config_on_disk lib (c\<lparr>ac_published_voice := Some p\<rparr>) d'
          \<and> unat (pv_revision p) = (case ac_published_voice c of None \<Rightarrow> 1 | Some q \<Rightarrow> unat (pv_revision q) + 1)
          \<and> (\<forall>q action. custom_snapshot q (rt_dispatcher d') = Inr action \<longleftrightarrow>
               cr_voice_revision q = pv_revision p
             \<and> (\<exists>a \<in> set (ac_actions c). ca_id a = cr_action_id q \<and> ca_enabled a \<and> ca_phrase a \<noteq> None
                  \<and> ca_action a = action))"
proof (cases "apply_voice_config lib d")
  case (Pair r d')
  note outcome = apply_voice_outcome [OF assms, of lib, unfolded Pair]
  show ?thesis
  proof (cases r)
    case (Inl e)
    then show ?thesis using outcome Pair by (simp add: all_or_nothing_def)
  next
    case (Inr u)
    then obtain revision where revision: "next_voice_revision c = Some revision"
      and inv: "daemon_inv (with_published c revision) s d'" "config_on_disk lib (with_published c revision) d'"
      using outcome by (auto simp: all_or_nothing_def split: option.splits)
    let ?p = "published_of c revision"
    have selected: "custom_snapshot q (rt_dispatcher d') = Inr action \<longleftrightarrow>
        cr_voice_revision q = revision
      \<and> (\<exists>a \<in> set (ac_actions c). ca_id a = cr_action_id q \<and> ca_enabled a \<and> ca_phrase a \<noteq> None \<and> ca_action a = action)"
      for q action
      using published_selection [OF daemon_invD(4) [OF assms], of "rt_dispatcher d'" revision q action] inv(1)
      by (simp add: daemon_inv_def with_published_def)
    have "unat revision = (case ac_published_voice c of None \<Rightarrow> 1 | Some q \<Rightarrow> unat (pv_revision q) + 1)"
      using next_voice_revision_Some [OF revision] by (simp split: option.splits)
    then show ?thesis
      using inv selected Pair Inr by (auto simp: with_published_def published_of_def intro!: exI [of _ ?p])
  qed
qed

theorem applied_actions_are_selected_witness:
  "case apply_voice_config example_lib example_daemon of
      (Inl _, d') \<Rightarrow> core d' = core example_daemon
    | (Inr _, d') \<Rightarrow>
        \<exists>revision. custom_snapshot (example_request\<lparr>cr_voice_revision := revision\<rparr>) (rt_dispatcher d') =
          Inr (ca_action example_action)"
proof -
  have "example_action \<in> set (ac_actions example_published) \<and> ca_id example_action = cr_action_id example_request
      \<and> ca_enabled example_action \<and> ca_phrase example_action \<noteq> None"
    by (simp add: example_simps)
  note selected = this
  obtain r d' where op: "apply_voice_config example_lib example_daemon = (r, d')" by fastforce
  show ?thesis
  proof (cases r)
    case (Inr u)
    have "\<exists>p :: published_voice_config. \<forall>q action. custom_snapshot q (rt_dispatcher d') = Inr action \<longleftrightarrow>
         cr_voice_revision q = pv_revision p
       \<and> (\<exists>a \<in> set (ac_actions example_published). ca_id a = cr_action_id q \<and> ca_enabled a
            \<and> ca_phrase a \<noteq> None \<and> ca_action a = action)"
      using applied_actions_are_selected [OF example_daemon_inv, of example_lib]
      unfolding op Inr prod.case sum.case by (elim exE conjE) (rule exI, assumption)
    then obtain p :: published_voice_config where "\<forall>q action. custom_snapshot q (rt_dispatcher d') = Inr action \<longleftrightarrow>
         cr_voice_revision q = pv_revision p
       \<and> (\<exists>a \<in> set (ac_actions example_published). ca_id a = cr_action_id q \<and> ca_enabled a
            \<and> ca_phrase a \<noteq> None \<and> ca_action a = action)" ..
    then have "custom_snapshot (example_request\<lparr>cr_voice_revision := pv_revision p\<rparr>) (rt_dispatcher d') =
        Inr (ca_action example_action)"
      using selected by (auto intro!: bexI [of _ example_action])
    then show ?thesis using op Inr by auto
  qed (use applied_actions_are_selected [OF example_daemon_inv, of example_lib] op in simp)
qed

text \<open>The secrets survive a restart: what \<open>save\_secrets\<close> stored is what loading finds, so the
  device stays paired and the certificates stay trusted, when DPAPI and the JSON decoder undo their
  inverses.\<close>

theorem secrets_survive_restart:
  assumes "save_secrets lib d = (Inr (), d')" and "daemon_inv c s d" and "answers (os_world d') = []"
    and "\<And>plain enc. rl_encode_secrets lib s = Some plain \<Longrightarrow> rl_crypt lib True plain = Some enc \<Longrightarrow>
      plain \<noteq> [] \<and> length enc \<le> u32_max \<and> rl_crypt lib False enc = Some plain
      \<and> rl_decode_secrets lib plain = Some s"
  shows "load_secrets lib c d' = (Inr s, d')"
proof -
  obtain plain enc where saved: "rl_encode_secrets lib s = Some plain" "protect (rl_crypt lib) plain = Some enc"
    "files (os_world d') = (files (os_world d))(secrets_path d \<mapsto> enc)" and core: "core d' = core d"
    using save_secrets_Inr [OF assms(1) daemon_invD(2) [OF assms(2)]] by blast
  have path: "secrets_path d' = secrets_path d" using core_fields(1) [OF core] by simp
  have "unprotect (rl_crypt lib) enc = Some plain" and "rl_decode_secrets lib plain = Some s"
    using assms(4) [OF saved(1)] protect_Some [OF saved(2)] by (simp_all add: unprotect_def transform_def)
  then have "read_secrets lib (secrets_path d') (os_world d') = (Inr s, os_world d')"
    using saved(3) path assms(3) by (simp add: read_secrets_def read_file_def io_step_quiet ok_or_def)
  moreover have "file_exists (secrets_path d') (os_world d') = (True, os_world d')"
    using saved(3) path assms(3) by (simp add: file_exists_def ask_def)
  ultimately show ?thesis
    using daemon_invD(5) [OF assms(2)] by (auto simp: load_secrets_def on_world_def secrets_ok_def)
qed

theorem secrets_survive_restart_witness:
  "\<exists>d'. save_secrets example_lib example_daemon = (Inr (), d')
    \<and> load_secrets example_lib example_published d' = (Inr example_secrets, d')"
proof -
  have "protect (rl_crypt example_lib) ''s'' = Some ''s''"
    by (simp add: protect_def transform_def example_lib_def u32_max_def)
  then have saved: "save_secrets example_lib example_daemon =
      (Inr (), example_daemon\<lparr>os_world := \<lparr>files = [secrets_path example_daemon \<mapsto> ''s''], answers = []\<rparr>\<rparr>)"
    using example_paths
    by (simp add: save_secrets_def example_daemon_def example_lib_def on_world_def atomic_write_def io_step_quiet)
  have "load_secrets example_lib example_published
      (example_daemon\<lparr>os_world := \<lparr>files = [secrets_path example_daemon \<mapsto> ''s''], answers = []\<rparr>\<rparr>) =
      (Inr example_secrets, example_daemon\<lparr>os_world := \<lparr>files = [secrets_path example_daemon \<mapsto> ''s''], answers = []\<rparr>\<rparr>)"
    by (rule secrets_survive_restart [OF saved example_daemon_inv]) (auto simp: example_lib_def u32_max_def)
  then show ?thesis using saved by blast
qed

text \<open>Exporting the certificate authority writes its certificate, and nothing else, to its own file.\<close>

theorem export_reveals_certificate_only:
  assumes "daemon_inv c s d"
  shows "case export_ca d of
      (Inl _, d') \<Rightarrow> core d' = core d \<and> files (os_world d') = files (os_world d)
    | (Inr p, d') \<Rightarrow> p = ca_path d \<and> core d' = core d
        \<and> files (os_world d') = (files (os_world d))(p \<mapsto> se_ca_certificate_pem s)"
proof (cases "export_ca d")
  case (Pair r d')
  have op: "export_ca d = st_then (on_world (atomic_write (ca_path d) (se_ca_certificate_pem s)) d)
      (\<lambda>_ d. (Inr (ca_path d), d))"
    using daemon_invD(6) [OF assms] by (simp add: export_ca_def)
  obtain r1 d1 where stored: "on_world (atomic_write (ca_path d) (se_ca_certificate_pem s)) d = (r1, d1)"
    by fastforce
  have core: "core d1 = core d" by (rule on_world_core [OF stored])
  show ?thesis
  proof (cases r1)
    case (Inl e)
    then have "files (os_world d1) = files (os_world d)"
      using stored by (auto simp: on_world_Inl dest: atomic_write_Inl)
    then show ?thesis using op stored core Inl by simp
  next
    case (Inr u)
    then have "files (os_world d1) = (files (os_world d))(ca_path d \<mapsto> se_ca_certificate_pem s)"
      using stored atomic_write_Inr by (simp add: on_world_Inr)
    then show ?thesis using op stored core core_fields(1) [OF core] Inr by simp
  qed
qed

theorem export_reveals_certificate_only_witness:
  "case export_ca example_daemon of
      (Inl _, d') \<Rightarrow> core d' = core example_daemon \<and> files (os_world d') = Map.empty
    | (Inr p, d') \<Rightarrow> p = ca_path example_daemon \<and> files (os_world d') = [p \<mapsto> ''ca'']"
  using export_reveals_certificate_only [OF example_daemon_inv]
  by (auto simp: example_daemon_def example_secrets_def split: prod.splits sum.splits)

end
