(* ===== verification/Daemon_Address.thy ===== *)
theory Daemon_Address
  imports Daemon_Runtime
begin

text \<open>
  The text form of addresses read back: \<open>IpAddr\<close>'s \<open>FromStr\<close> of the Rust library, as the
  Settings window uses it on what the user typed (daemon/src/adapters/windows\_app.rs). The parser is
  the recursive descent of \<open>core::net\<close>: a number takes all digits it finds and fails on too many,
  a separator and what follows it are read together or not at all.
\<close>

section \<open>Numbers\<close>

text \<open>\<open>char::to\_digit\<close> for the two radices in use.\<close>

definition decimal_digit :: "char \<Rightarrow> nat option" where
  "decimal_digit c = (if is_ascii_digit c then Some (of_char c - 48) else None)"

definition hex_digit :: "char \<Rightarrow> nat option" where
  "hex_digit c =
     (let n = of_char c :: nat in
        if 48 \<le> n \<and> n \<le> 57 then Some (n - 48)
        else if 97 \<le> n \<and> n \<le> 102 then Some (n - 87)
        else if 65 \<le> n \<and> n \<le> 70 then Some (n - 55)
        else None)"

definition read_number ::
  "(char \<Rightarrow> nat option) \<Rightarrow> nat \<Rightarrow> nat \<Rightarrow> bool \<Rightarrow> nat \<Rightarrow> string \<Rightarrow> (nat \<times> string) option" where
  "read_number to_digit radix max_digits allow_zero_prefix bnd s =
     (let ds = takeWhile (\<lambda>c. to_digit c \<noteq> None) s;
          v = foldl (\<lambda>acc c. acc * radix + the (to_digit c)) 0 ds
      in if length ds > max_digits \<or> ds = [] \<or> (\<not> allow_zero_prefix \<and> hd ds = CHR ''0'' \<and> length ds > 1)
           \<or> v > bnd
         then None else Some (v, drop (length ds) s))"

definition read_octet :: "string \<Rightarrow> (nat \<times> string) option" where
  "read_octet = read_number decimal_digit 10 3 False 255"

definition read_hextet :: "string \<Rightarrow> (nat \<times> string) option" where
  "read_hextet = read_number hex_digit 16 4 True 65535"

definition read_char :: "char \<Rightarrow> string \<Rightarrow> string option" where
  "read_char c s = (case s of [] \<Rightarrow> None | d # s' \<Rightarrow> if d = c then Some s' else None)"

text \<open>\<open>read\_separator\<close>: no separator before the first item.\<close>

definition read_separator ::
  "char \<Rightarrow> nat \<Rightarrow> (string \<Rightarrow> ('a \<times> string) option) \<Rightarrow> string \<Rightarrow> ('a \<times> string) option" where
  "read_separator sep index inner s =
     Option.bind (if index > 0 then read_char sep s else Some s) inner"

section \<open>Addresses\<close>

definition read_ipv4 :: "string \<Rightarrow> ((nat \<times> nat \<times> nat \<times> nat) \<times> string) option" where
  "read_ipv4 s =
     Option.bind (read_separator (CHR ''.'') 0 read_octet s) (\<lambda>(a, s).
     Option.bind (read_separator (CHR ''.'') 1 read_octet s) (\<lambda>(b, s).
     Option.bind (read_separator (CHR ''.'') 2 read_octet s) (\<lambda>(c, s).
     Option.bind (read_separator (CHR ''.'') 3 read_octet s) (\<lambda>(d, s).
       Some ((a, b, c, d), s)))))"

text \<open>\<open>read\_groups\<close>: the groups read, whether they end in a version 4 address, and the rest.\<close>

fun read_groups :: "nat \<Rightarrow> nat \<Rightarrow> string \<Rightarrow> nat list \<times> bool \<times> string" where
  "read_groups 0 i s = ([], False, s)"
| "read_groups (Suc n) i s =
     (case (if n > 0 then read_separator (CHR '':'') i read_ipv4 s else None) of
        Some ((a, b, c, d), s') \<Rightarrow> ([a * 256 + b, c * 256 + d], True, s')
      | None \<Rightarrow>
          (case read_separator (CHR '':'') i read_hextet s of
             None \<Rightarrow> ([], False, s)
           | Some (g, s') \<Rightarrow> (let (gs, v4, s'') = read_groups n (Suc i) s' in (g # gs, v4, s''))))"

definition of_segments :: "nat list \<Rightarrow> 128 word" where
  "of_segments segments = word_of_nat (foldl (\<lambda>acc g. acc * 65536 + g) 0 segments)"

definition read_ipv6 :: "string \<Rightarrow> (128 word \<times> string) option" where
  "read_ipv6 s =
     (case read_groups 8 0 s of (head, head_ipv4, s) \<Rightarrow>
        if length head = 8 then Some (of_segments head, s)
        else if head_ipv4 then None
        else
          Option.bind (Option.bind (read_char (CHR '':'') s) (read_char (CHR '':''))) (\<lambda>s.
            case read_groups (8 - (length head + 1)) 0 s of (tail, _, s) \<Rightarrow>
              Some (of_segments (head @ replicate (8 - length head - length tail) 0 @ tail), s)))"

definition read_ip :: "string \<Rightarrow> (ip_addr \<times> string) option" where
  "read_ip s =
     (case read_ipv4 s of
        Some ((a, b, c, d), s') \<Rightarrow> Some (V4 (word_of_nat a) (word_of_nat b) (word_of_nat c) (word_of_nat d), s')
      | None \<Rightarrow> map_option (\<lambda>(x, s'). (V6 x, s')) (read_ipv6 s))"

definition parse_ip :: "string \<Rightarrow> ip_addr option" where
  "parse_ip s = (case read_ip s of Some (a, []) \<Rightarrow> Some a | _ \<Rightarrow> None)"

section \<open>A version 4 address that was printed is read back\<close>

lemma decimal_digit_byte: "d < 10 \<Longrightarrow> decimal_digit (digit_byte d) = Some d"
  using digit_byte_digit [of d] by (simp add: decimal_digit_def)

lemma show_nat_value: "foldl (\<lambda>acc c. acc * 10 + the (decimal_digit c)) 0 (show_nat n) = n"
proof (induction n rule: show_nat.induct)
  case (1 n)
  then show ?case by (subst show_nat.simps) (simp add: decimal_digit_byte)
qed

lemma show_nat_head: "0 < n \<Longrightarrow> hd (show_nat n) \<noteq> CHR ''0''"
proof (induction n rule: show_nat.induct)
  case (1 n)
  show ?case
  proof (cases "n < 10")
    case True
    then have "decimal_digit (digit_byte n) = Some n" by (rule decimal_digit_byte)
    moreover have "decimal_digit (CHR ''0'') = Some 0" by code_simp
    ultimately have "digit_byte n \<noteq> CHR ''0''" using "1.prems" by auto
    then show ?thesis using True by (subst show_nat.simps) simp
  next
    case False
    then have "hd (show_nat (n div 10)) \<noteq> CHR ''0''" using "1.IH" by simp
    then show ?thesis using False show_nat_nonempty [of "n div 10"] by (subst show_nat.simps) simp
  qed
qed

lemma show_nat_length: "n < 10 ^ Suc k \<Longrightarrow> length (show_nat n) \<le> Suc k"
proof (induction k arbitrary: n)
  case 0
  then show ?case by (subst show_nat.simps) simp
next
  case (Suc k)
  then have "n div 10 < 10 ^ Suc k" by (simp add: div_less_iff_less_mult mult.commute)
  then have "length (show_nat (n div 10)) \<le> Suc k" by (rule Suc.IH)
  then show ?case by (subst show_nat.simps) simp
qed

lemma octet_text:
  assumes "n < 256"
  shows "length (show_nat n) \<le> 3 \<and> (length (show_nat n) > 1 \<longrightarrow> hd (show_nat n) \<noteq> CHR ''0'')"
proof -
  have "length (show_nat n) \<le> Suc 2" by (rule show_nat_length) (use assms in simp)
  moreover have "length (show_nat 0) = 1" by (subst show_nat.simps) simp
  ultimately show ?thesis using show_nat_head [of n] by (cases "n = 0") auto
qed

lemma takeWhile_show_nat:
  assumes "rest = [] \<or> decimal_digit (hd rest) = None"
  shows "takeWhile (\<lambda>c. decimal_digit c \<noteq> None) (show_nat n @ rest) = show_nat n"
proof -
  have "c \<in> set (show_nat n) \<Longrightarrow> decimal_digit c \<noteq> None" for c
    using show_nat_digits [of n] by (auto simp: list_all_iff decimal_digit_def)
  then show ?thesis using assms by (cases rest) (simp_all add: takeWhile_append)
qed

lemma read_octet_text:
  assumes "n < 256" and "rest = [] \<or> decimal_digit (hd rest) = None"
  shows "read_octet (show_nat n @ rest) = Some (n, rest)"
  using octet_text [OF assms(1)] show_nat_nonempty [of n] assms(1)
  unfolding read_octet_def read_number_def takeWhile_show_nat [OF assms(2)]
  by (auto simp: Let_def show_nat_value)

lemma parse_printed_ipv4: "parse_ip (ip_to_string (V4 a b c d)) = Some (V4 a b c d)"
proof -
  have lt: "unat x < 256" for x :: u8 using unsigned_less [of x, where ?'a = nat] by simp
  have dot: "decimal_digit (CHR ''.'') = None" by code_simp
  have join: "ip_to_string (V4 a b c d) =
      show_nat (unat a) @ CHR ''.'' # show_nat (unat b) @ CHR ''.'' # show_nat (unat c) @ CHR ''.'' # show_nat (unat d) @ []"
    by simp
  have "read_ipv4 (ip_to_string (V4 a b c d)) = Some ((unat a, unat b, unat c, unat d), [])"
    unfolding join using lt dot
    by (simp add: read_ipv4_def read_separator_def read_char_def read_octet_text del: append_Nil2)
  then show ?thesis by (simp add: parse_ip_def read_ip_def)
qed

end
