(* ===== verification/Daemon_Checks.thy ===== *)
theory Daemon_Checks
  imports Daemon_Runtime Daemon_Address
begin

text \<open>
  The repository's own unit tests (the \<open>tests\<close> modules of daemon/src/domain.rs, config.rs,
  application.rs and http.rs) on the model: each test is a definition with the test's name whose
  conjuncts are its assertions, and a lemma shows that they hold. What a test asserts about a
  library (the text of JSON, of a certificate) is left out, or the library is an argument. A
  definition that several tests share is the fixture of the same module.
\<close>

text \<open>\<open>unwrap\<close>: the tests panic on an error; here they would be stuck, and not provable.\<close>

abbreviation unwrap :: "('e, 'a) result \<Rightarrow> 'a" where
  "unwrap \<equiv> projr"

section \<open>Requests and actions\<close>

definition test_id :: string where "test_id = ''0123456789abcdef0123456789abcdef''"

definition request_id_requires_exact_lower_hex :: bool where
  "request_id_requires_exact_lower_hex \<longleftrightarrow>
     is_ok (parse_request_id test_id)
   \<and> parse_request_id ''0123456789ABCDEF0123456789ABCDEF'' = Inl VInvalidId
   \<and> parse_request_id ''short'' = Inl VInvalidId"

text \<open>The last assertion of the parser's test; the first two are about the JSON library.\<close>

definition parser_rejects_oversize :: "(string \<Rightarrow> media_request option) \<Rightarrow> bool" where
  "parser_rejects_oversize from_slice \<longleftrightarrow>
     parse_request from_slice (replicate (BODY_LIMIT + 1) (CHR '' '')) = Inl VTooLarge"

definition time_validation_checks_expiry_boundary_skew_and_overflow :: bool where
  "time_validation_checks_expiry_boundary_skew_and_overflow \<longleftrightarrow>
     is_ok (validate_time 1000 6000 1000)
   \<and> validate_time 1000 6000 6000 = Inl VExpired
   \<and> validate_time 1000 6001 1000 = Inl VInvalidTime
   \<and> is_ok (validate_time 6000 11000 1000)
   \<and> validate_time 6001 11001 1000 = Inl VClockSkew
   \<and> validate_time (- 1) 4 1 = Inl VInvalidTime"

definition batch_literals_are_quoted_safe_or_rejected :: bool where
  "batch_literals_are_quoted_safe_or_rejected \<longleftrightarrow>
     is_safe_batch_literal (''C:'' @ [CHR 0x5C] @ ''Program Files (x86)'' @ [CHR 0x5C] @ ''Player'' @ [CHR 0x5C] @ ''run.cmd'')
   \<and> is_safe_batch_literal ''argument with spaces''
   \<and> list_all (\<lambda>unsafe. \<not> is_safe_batch_literal unsafe)
       [''%TEMP%'', ''!VAR!'', ''a&b'', ''a|b'', ''a^b'', ''quote'' @ [CHR 0x5C, CHR 0x22] @ ''x'',
        ''a'' @ [CHR 0x0A] @ ''b'']"

definition action_ids_have_a_stable_safe_grammar :: bool where
  "action_ids_have_a_stable_safe_grammar \<longleftrightarrow>
     is_ok (parse_action_id ''launch_spotify'')
   \<and> \<not> is_ok (parse_action_id ''1launch'')
   \<and> \<not> is_ok (parse_action_id ''Launch'')
   \<and> \<not> is_ok (parse_action_id ''run-script'')"

definition command_of :: "string \<Rightarrow> string \<Rightarrow> voice_command" where
  "command_of phrase i = \<lparr>vc_phrase = phrase, vc_action_id = unwrap (parse_action_id i)\<rparr>"

text \<open>\<open>b'a' + index\<close>.\<close>

definition letter :: "nat \<Rightarrow> string" where
  "letter index = [''abcdefghijklmnopqrstuvwxyz'' ! index]"

definition invalid_phrases :: "string list" where
  "invalid_phrases =
     [''update'', ''Jarvis'', ''play'', ''open  spotify'', '' open app'', ''open!'', ''x'', replicate 64 (CHR ''a'')]"

definition too_many_commands :: "voice_command list" where
  "too_many_commands =
     map (\<lambda>index. command_of (''open app '' @ letter index) (''app'' @ show_nat index)) [0..<MAX_VOICE_ACTIONS + 1]"

definition longest_phrase :: "nat \<Rightarrow> string" where
  "longest_phrase index = ''open '' @ replicate 57 (CHR ''a'') @ letter index"

definition maximum_commands :: "voice_command list" where
  "maximum_commands =
     map (\<lambda>index. command_of (longest_phrase index) (''app'' @ show_nat index)) [0..<MAX_VOICE_ACTIONS]"

definition voice_phrases_are_bounded_unique_and_non_reserved :: bool where
  "voice_phrases_are_bounded_unique_and_non_reserved \<longleftrightarrow>
     is_ok (validate_voice_commands [command_of ''open spotify'' ''spotify''])
   \<and> is_ok (validate_voice_commands [command_of ''sync'' ''sync_action''])
   \<and> list_all (\<lambda>invalid. \<not> is_ok (validate_voice_commands [command_of invalid ''action''])) invalid_phrases
   \<and> \<not> is_ok (validate_voice_commands [command_of ''open spotify'' ''one'', command_of ''OPEN SPOTIFY'' ''two''])
   \<and> \<not> is_ok (validate_voice_commands [command_of ''open spotify'' ''same'', command_of ''close spotify'' ''same''])
   \<and> \<not> is_ok (validate_voice_commands too_many_commands)
   \<and> is_ok (validate_voice_commands maximum_commands)"

lemma request_tests:
  request_id_requires_exact_lower_hex
  "parser_rejects_oversize from_slice"
  time_validation_checks_expiry_boundary_skew_and_overflow
  batch_literals_are_quoted_safe_or_rejected
  action_ids_have_a_stable_safe_grammar
proof -
  show request_id_requires_exact_lower_hex by code_simp
  show "parser_rejects_oversize from_slice"
    by (simp add: parser_rejects_oversize_def parse_request_def BODY_LIMIT_def)
  show time_validation_checks_expiry_boundary_skew_and_overflow
    by (simp add: time_validation_checks_expiry_boundary_skew_and_overflow_def validate_time_def checked_add_def
        REQUEST_LIFETIME_MS_def MAX_FUTURE_SKEW_MS_def)
  show batch_literals_are_quoted_safe_or_rejected by code_simp
  show action_ids_have_a_stable_safe_grammar by code_simp
qed

text \<open>The twelve longest phrases, by the grammar of phrases instead of by evaluation.\<close>

lemma letters: "list_all (\<lambda>i. list_all is_ascii_lowercase (letter i)) [0..<12]" "distinct (map letter [0..<12])"
  by code_simp+

lemma lower_letters: "list_all is_ascii_lowercase w \<Longrightarrow> to_ascii_lowercase w = w"
  by (induction w)
    (auto simp: to_ascii_lowercase_def to_ascii_lowercase_byte_def is_ascii_lowercase_def is_ascii_uppercase_def)

lemma longest_phrase_ok:
  assumes "i < 12"
  shows "voice_phrase (longest_phrase i)" and "to_ascii_lowercase (longest_phrase i) = longest_phrase i"
    and "longest_phrase i \<notin> set reserved_phrases"
proof -
  have w: "list_all is_ascii_lowercase (replicate 57 (CHR ''a'') @ letter i)"
    using letters(1) assms by (auto simp: list_all_iff is_ascii_lowercase_def)
  have "list_all is_ascii_lowercase ''open''" by code_simp
  then have words: "letter_word ''open''" "letter_word (replicate 57 (CHR ''a'') @ letter i)"
    using w by (auto simp: letter_word_def list_all_iff is_ascii_alphabetic_def is_ascii_lowercase_def)
  then show "voice_phrase (longest_phrase i)"
    unfolding voice_phrase_def longest_phrase_def
    by (intro conjI exI [of _ "[''open'', replicate 57 (CHR ''a'') @ letter i]"]) (simp_all add: letter_def)
  have "to_ascii_lowercase ''open '' = ''open ''" by code_simp
  then show "to_ascii_lowercase (longest_phrase i) = longest_phrase i"
    using lower_letters [OF w] by (simp add: longest_phrase_def to_ascii_lowercase_def)
  show "longest_phrase i \<notin> set reserved_phrases"
    by (simp add: longest_phrase_def reserved_phrases_def)
qed

lemma maximum_commands_ok: "is_ok (validate_voice_commands maximum_commands)"
proof -
  have phrases: "map normalized_phrase maximum_commands = map longest_phrase [0..<12]"
    using longest_phrase_ok(2)
    by (auto simp: maximum_commands_def MAX_VOICE_ACTIONS_def normalized_phrase_def command_of_def
        simp del: upt_rec_numeral intro!: map_cong)
  have "inj_on longest_phrase (set [0..<12])"
    using letters(2) by (simp add: distinct_map inj_on_def longest_phrase_def del: upt_rec_numeral)
  then have "distinct (map normalized_phrase maximum_commands)"
    unfolding phrases by (simp add: distinct_map del: upt_rec_numeral)
  moreover have "distinct (map vc_action_id maximum_commands)" by code_simp
  moreover have "list_all (\<lambda>c. voice_phrase (vc_phrase c) \<and> normalized_phrase c \<notin> set reserved_phrases) maximum_commands"
    using longest_phrase_ok
    by (simp add: list_all_iff maximum_commands_def MAX_VOICE_ACTIONS_def normalized_phrase_def command_of_def
        del: upt_rec_numeral)
  moreover have "length maximum_commands = 12" by (simp add: maximum_commands_def MAX_VOICE_ACTIONS_def)
  ultimately show ?thesis by (simp add: validate_voice_commands_cases voice_drafts_ok_def)
qed

lemma voice_phrase_tests: voice_phrases_are_bounded_unique_and_non_reserved
  unfolding voice_phrases_are_bounded_unique_and_non_reserved_def
proof (intro conjI)
  show "list_all (\<lambda>invalid. \<not> is_ok (validate_voice_commands [command_of invalid ''action''])) invalid_phrases"
    by code_simp
  show "\<not> is_ok (validate_voice_commands too_many_commands)"
    by (simp add: validate_voice_commands_def too_many_commands_def)
  show "is_ok (validate_voice_commands maximum_commands)" by (rule maximum_commands_ok)
qed code_simp+

section \<open>The configuration\<close>

text \<open>\<open>current_exe()\<close> with the extension given.\<close>

definition test_program :: "string \<Rightarrow> path" where
  "test_program extension = ''C:'' @ [CHR 0x5C] @ ''daemon.'' @ extension"

definition launch_game :: "path \<Rightarrow> custom_action" where
  "launch_game program =
     \<lparr>ca_id = unwrap (parse_action_id ''launch_game''), ca_name = ''Game'', ca_enabled = True, ca_phrase = None,
      ca_action = Launch program [] None True\<rparr>"

definition elevation_is_valid_only_for_executable_launch_actions :: bool where
  "elevation_is_valid_only_for_executable_launch_actions \<longleftrightarrow>
     is_ok (validate (default_config\<lparr>ac_actions := [launch_game (test_program ''exe'')]\<rparr>))
   \<and> \<not> is_ok (validate (default_config\<lparr>ac_actions := [launch_game (test_program ''txt'')]\<rparr>))"

definition phrase_action :: "nat \<Rightarrow> custom_action" where
  "phrase_action index =
     \<lparr>ca_id = unwrap (parse_action_id (''action_'' @ show_nat index)), ca_name = ''Action '' @ show_nat index,
      ca_enabled = index < MAX_VOICE_ACTIONS, ca_phrase = Some (''open app '' @ letter index),
      ca_action = Media Play\<rparr>"

definition phrase_config :: app_config where
  "phrase_config = default_config\<lparr>ac_actions := map phrase_action [0..<MAX_VOICE_ACTIONS + 1]\<rparr>"

definition with_draft :: "bool \<Rightarrow> string option \<Rightarrow> app_config \<Rightarrow> app_config" where
  "with_draft enabled phrase config =
     config\<lparr>ac_actions := (ac_actions config)
       [MAX_VOICE_ACTIONS := (ac_actions config ! MAX_VOICE_ACTIONS)\<lparr>ca_enabled := enabled, ca_phrase := phrase\<rparr>]\<rparr>"

definition disabled_phrase_drafts_do_not_count_toward_voice_limit_but_are_validated :: bool where
  "disabled_phrase_drafts_do_not_count_toward_voice_limit_but_are_validated \<longleftrightarrow>
     is_ok (validate phrase_config)
   \<and> \<not> is_ok (validate (with_draft True (Some (''open app '' @ letter MAX_VOICE_ACTIONS)) phrase_config))
   \<and> \<not> is_ok (validate (with_draft False (Some ''bad  phrase'') phrase_config))
   \<and> \<not> is_ok (validate (with_draft False (ca_phrase (ac_actions phrase_config ! 0)) phrase_config))"

definition two_drafts :: app_config where
  "two_drafts =
     default_config\<lparr>ac_actions :=
       [\<lparr>ca_id = unwrap (parse_action_id ''first''), ca_name = ''First'', ca_enabled = True,
         ca_phrase = Some ''open first'', ca_action = Media Play\<rparr>,
        \<lparr>ca_id = unwrap (parse_action_id ''second''), ca_name = ''Second'', ca_enabled = False,
         ca_phrase = Some ''open second'', ca_action = Media Pause\<rparr>]\<rparr>"

definition renamed_draft :: "app_config \<Rightarrow> app_config" where
  "renamed_draft config =
     config\<lparr>ac_actions := (ac_actions config)[0 := (ac_actions config ! 0)\<lparr>ca_phrase := Some ''launch first''\<rparr>],
            ac_actions_revision := ac_actions_revision config + 1\<rparr>"

definition publish_captures_only_enabled_phrases :: bool where
  "publish_captures_only_enabled_phrases \<longleftrightarrow>
     is_ok (validate two_drafts) \<and> ac_published_voice two_drafts = None
   \<and> (case publish_voice_config two_drafts of
        (Inl _, _) \<Rightarrow> False
      | (Inr _, config) \<Rightarrow>
          (case ac_published_voice config of
             None \<Rightarrow> False
           | Some published \<Rightarrow>
               pv_revision published = 1 \<and> length (pv_commands published) = 1
             \<and> action_id_str (vc_action_id (pv_commands published ! 0)) = ''first''
             \<and> (let edited = renamed_draft config in
                  ac_published_voice edited = Some published
                \<and> vc_phrase (pv_commands published ! 0) = ''open first''
                \<and> pv_actions_revision published \<noteq> ac_actions_revision edited
                \<and> (case publish_voice_config edited of
                     (Inl _, _) \<Rightarrow> False
                   | (Inr _, again) \<Rightarrow>
                       (case ac_published_voice again of
                          None \<Rightarrow> False
                        | Some published \<Rightarrow>
                            pv_revision published = 2
                          \<and> vc_phrase (pv_commands published ! 0) = ''launch first'')))))"

definition default_is_disabled_and_loopback_only :: bool where
  "default_is_disabled_and_loopback_only \<longleftrightarrow>
     \<not> ac_listener_enabled default_config
   \<and> ip_to_string (ac_bind_address default_config) = ''127.0.0.1''
   \<and> is_ok (validate default_config)"

definition wildcard_public_and_ipv6_bind_addresses_are_rejected :: bool where
  "wildcard_public_and_ipv6_bind_addresses_are_rejected \<longleftrightarrow>
     list_all
       (\<lambda>address. case parse_ip address of
          None \<Rightarrow> False
        | Some a \<Rightarrow> \<not> is_ok (validate (default_config\<lparr>ac_bind_address := a\<rparr>)))
       [''0.0.0.0'', ''::1'', ''8.8.8.8'']
   \<and> (case parse_ip ''192.168.1.50'' of
        None \<Rightarrow> False
      | Some a \<Rightarrow> is_ok (validate (default_config\<lparr>ac_bind_address := a\<rparr>)))"

text \<open>The directory is empty before.\<close>

definition invalid_configuration_is_not_written :: "(app_config \<Rightarrow> string option) \<Rightarrow> path \<Rightarrow> bool" where
  "invalid_configuration_is_not_written encode p \<longleftrightarrow>
     (case save encode p (default_config\<lparr>ac_port := 0\<rparr>) \<lparr>files = Map.empty, answers = []\<rparr> of
        (r, w) \<Rightarrow> \<not> is_ok r \<and> files w p = None)"

text \<open>The version 6 address, read by its own parser.\<close>

lemma hextets:
  "read_hextet ''::1'' = None" "read_hextet ''1'' = Some (1, [])" "read_hextet [] = None"
  by (simp_all add: read_hextet_def read_number_def hex_digit_def)

lemma not_version_4: "read_ipv4 ''::1'' = None" "read_ipv4 ''1'' = None" "read_ipv4 [] = None"
  by code_simp+

lemma version_6_loopback: "parse_ip ''::1'' = Some (V6 1)"
proof -
  have first: "read_groups 8 0 ''::1'' = ([], False, ''::1'')"
    using read_groups.simps(2) [of 7 0 "''::1''"]
    by (simp add: read_separator_def hextets not_version_4)
  have last: "read_groups 7 0 ''1'' = ([1], False, [])"
    using read_groups.simps(2) [of 6 0 "''1''"] read_groups.simps(2) [of 5 1 "[]"]
    by (simp add: read_separator_def hextets not_version_4 read_char_def)
  have "replicate 7 (0 :: nat) = [0, 0, 0, 0, 0, 0, 0]" by (simp add: numeral_eq_Suc)
  then have "read_ipv6 ''::1'' = Some (1, [])"
    unfolding read_ipv6_def first by (simp add: read_char_def last of_segments_def)
  then show ?thesis by (simp add: parse_ip_def read_ip_def not_version_4)
qed

text \<open>The two publications, by what publication does to a valid configuration.\<close>

definition first_publication :: app_config where
  "first_publication =
     two_drafts\<lparr>ac_published_voice := Some
       \<lparr>pv_schema = 1, pv_revision = 1, pv_actions_revision = 0,
        pv_commands = [\<lparr>vc_phrase = ''open first'', vc_action_id = ActionId ''first''\<rparr>]\<rparr>\<rparr>"

lemma two_drafts_published:
  "publish_voice_config two_drafts = (Inr (), first_publication)"
  "publish_voice_config (renamed_draft first_publication) = (Inr (), (renamed_draft first_publication)\<lparr>ac_published_voice := Some
     \<lparr>pv_schema = 1, pv_revision = 2, pv_actions_revision = 1,
      pv_commands = [\<lparr>vc_phrase = ''launch first'', vc_action_id = ActionId ''first''\<rparr>]\<rparr>\<rparr>)"
proof -
  have first: "parse_action_id ''first'' = Inr (ActionId ''first'')" by code_simp
  have "validate two_drafts = Inr ()" by code_simp
  then have ok: "config_ok two_drafts" by (simp add: validate_iff)
  have revision: "next_voice_revision two_drafts = Some 1"
    by (simp add: next_voice_revision_def two_drafts_def default_config_def)
  have table: "published_of two_drafts 1 = \<lparr>pv_schema = 1, pv_revision = 1, pv_actions_revision = 0,
      pv_commands = [\<lparr>vc_phrase = ''open first'', vc_action_id = ActionId ''first''\<rparr>]\<rparr>"
    by (simp add: published_of_def published_commands_def two_drafts_def default_config_def action_voice_def
        List.map_filter_def VOICE_CONFIG_SCHEMA_def first)
  show published: "publish_voice_config two_drafts = (Inr (), first_publication)"
    using publish_success [OF ok revision] by (simp add: table first_publication_def)
  have "validate (renamed_draft first_publication) = Inr ()" by code_simp
  then have ok2: "config_ok (renamed_draft first_publication)" by (simp add: validate_iff)
  have revision2: "next_voice_revision (renamed_draft first_publication) = Some 2"
    by (simp add: next_voice_revision_def renamed_draft_def first_publication_def checked_add_def)
  have table2: "published_of (renamed_draft first_publication) 2 = \<lparr>pv_schema = 1, pv_revision = 2, pv_actions_revision = 1,
      pv_commands = [\<lparr>vc_phrase = ''launch first'', vc_action_id = ActionId ''first''\<rparr>]\<rparr>"
    by (simp add: published_of_def published_commands_def renamed_draft_def first_publication_def two_drafts_def
        default_config_def action_voice_def List.map_filter_def VOICE_CONFIG_SCHEMA_def first)
  show "publish_voice_config (renamed_draft first_publication) = (Inr (), (renamed_draft first_publication)\<lparr>ac_published_voice := Some
     \<lparr>pv_schema = 1, pv_revision = 2, pv_actions_revision = 1,
      pv_commands = [\<lparr>vc_phrase = ''launch first'', vc_action_id = ActionId ''first''\<rparr>]\<rparr>\<rparr>)"
    using publish_success [OF ok2 revision2] by (simp add: table2)
qed

lemma config_tests:
  elevation_is_valid_only_for_executable_launch_actions
  publish_captures_only_enabled_phrases
  default_is_disabled_and_loopback_only
  wildcard_public_and_ipv6_bind_addresses_are_rejected
  "invalid_configuration_is_not_written encode p"
proof -
  show elevation_is_valid_only_for_executable_launch_actions by code_simp
  have "is_ok (validate two_drafts)" by code_simp
  moreover have "ac_published_voice two_drafts = None" by (simp add: two_drafts_def default_config_def)
  moreover have "ac_published_voice first_publication = Some \<lparr>pv_schema = 1, pv_revision = 1, pv_actions_revision = 0,
      pv_commands = [\<lparr>vc_phrase = ''open first'', vc_action_id = ActionId ''first''\<rparr>]\<rparr>"
    by (simp add: first_publication_def)
  moreover have "ac_published_voice (renamed_draft first_publication) = ac_published_voice first_publication"
    and "ac_actions_revision (renamed_draft first_publication) = 1"
    by (simp_all add: renamed_draft_def first_publication_def two_drafts_def default_config_def)
  ultimately show publish_captures_only_enabled_phrases
    by (simp add: publish_captures_only_enabled_phrases_def two_drafts_published Let_def)
  show default_is_disabled_and_loopback_only by code_simp
  have "parse_ip ''0.0.0.0'' = Some (V4 0 0 0 0)" "parse_ip ''8.8.8.8'' = Some (V4 8 8 8 8)"
    "parse_ip ''192.168.1.50'' = Some (V4 192 168 1 50)"
    by code_simp+
  moreover have "is_ok (validate (default_config\<lparr>ac_bind_address := V4 192 168 1 50\<rparr>))" by code_simp
  ultimately show wildcard_public_and_ipv6_bind_addresses_are_rejected
    by (simp add: wildcard_public_and_ipv6_bind_addresses_are_rejected_def version_6_loopback)
      (simp add: validate_def)
  show "invalid_configuration_is_not_written encode p"
    by (simp add: invalid_configuration_is_not_written_def save_def validate_def)
qed

lemma draft_tests: disabled_phrase_drafts_do_not_count_toward_voice_limit_but_are_validated
  unfolding disabled_phrase_drafts_do_not_count_toward_voice_limit_but_are_validated_def
proof (intro conjI)
  show "is_ok (validate phrase_config)" by code_simp
  show "\<not> is_ok (validate (with_draft True (Some (''open app '' @ letter MAX_VOICE_ACTIONS)) phrase_config))"
    by code_simp
  show "\<not> is_ok (validate (with_draft False (Some ''bad  phrase'') phrase_config))" by code_simp
  show "\<not> is_ok (validate (with_draft False (ca_phrase (ac_actions phrase_config ! 0)) phrase_config))" by code_simp
qed

section \<open>The dispatcher\<close>

text \<open>The executors of the tests; the state of the counting one is its counter.\<close>

definition detailed_failure_executor :: "unit executor" where
  "detailed_failure_executor action x = (Inl (ExFailedWithReason ''executable not found (OS error 2)''), x)"

definition cancelled_executor :: "unit executor" where
  "cancelled_executor action x = (Inl ExCancelled, x)"

definition fake_executor :: "nat executor" where
  "fake_executor action n = (Inr (), n + 1)"

definition media_of :: "string \<Rightarrow> media_request" where
  "media_of i = \<lparr>mr_id = unwrap (parse_request_id i), mr_cmd = Pause, mr_issued_at_ms = 1000, mr_expires_at_ms = 6000\<rparr>"

definition first_id :: string where "first_id = ''00000000000000000000000000000001''"
definition second_id :: string where "second_id = ''00000000000000000000000000000002''"
definition third_id :: string where "third_id = ''00000000000000000000000000000003''"

definition game_config :: "configured_action \<Rightarrow> app_config" where
  "game_config action =
     default_config\<lparr>ac_actions :=
       [\<lparr>ca_id = unwrap (parse_action_id ''launch_game''), ca_name = ''Game'', ca_enabled = True,
         ca_phrase = Some ''open game'', ca_action = action\<rparr>]\<rparr>"

definition custom_of :: "string \<Rightarrow> string \<Rightarrow> u64 \<Rightarrow> custom_action_request" where
  "custom_of i action revision =
     \<lparr>cr_id = unwrap (parse_request_id i), cr_action_id = unwrap (parse_action_id action),
      cr_voice_revision = revision, cr_issued_at_ms = 1000, cr_expires_at_ms = 6000\<rparr>"

text \<open>A dispatcher on the configuration after it was published, and the published revision.\<close>

definition published_dispatcher :: "app_config \<Rightarrow> (dispatcher \<times> u64) option" where
  "published_dispatcher c =
     (case publish_voice_config c of
        (Inl _, _) \<Rightarrow> None
      | (Inr _, config) \<Rightarrow>
          (case (ac_published_voice config, new_dispatcher config) of
             (Some published, Inr d) \<Rightarrow> Some (d, pv_revision published)
           | _ \<Rightarrow> None))"

definition uac_cancellation_is_distinct_for_local_and_voice_actions :: bool where
  "uac_cancellation_is_distinct_for_local_and_voice_actions \<longleftrightarrow>
     (case published_dispatcher (game_config (Media Play)) of
        None \<Rightarrow> False
      | Some (d, revision) \<Rightarrow>
          (case test_action cancelled_executor (unwrap (parse_action_id ''launch_game'')) True (d, ()) of
             (r, d, x) \<Rightarrow>
               r = Inl ExecutionCancelled
             \<and> de_category (diagnostics d ! 0) = ''local_test_cancelled''
             \<and> (case dispatch_custom cancelled_executor (custom_of first_id ''launch_game'' revision) 1000 True (d, x) of
                  (r, d, x) \<Rightarrow>
                    r = Inl ExecutionCancelled \<and> de_category (diagnostics d ! 1) = ''action_cancelled'')))"

definition starrail :: configured_action where
  "starrail = Launch (''C:'' @ [CHR 0x5C] @ ''Games'' @ [CHR 0x5C] @ ''starrail.exe'') [] None True"

definition action_failure_reason_is_kept_in_local_diagnostics :: bool where
  "action_failure_reason_is_kept_in_local_diagnostics \<longleftrightarrow>
     (case published_dispatcher (game_config starrail) of
        None \<Rightarrow> False
      | Some (d, revision) \<Rightarrow>
          (case dispatch_custom detailed_failure_executor (custom_of first_id ''launch_game'' revision) 1000 True (d, ()) of
             (r, d, x) \<Rightarrow>
               r = Inl (ExecutionWithReason ''executable not found (OS error 2)'')
             \<and> de_category (diagnostics d ! 0) = ''action_failed''
             \<and> de_reason (diagnostics d ! 0) = Some ''executable not found (OS error 2)''))"

definition request_executes_once_and_duplicate_does_not_dispatch_twice :: bool where
  "request_executes_once_and_duplicate_does_not_dispatch_twice \<longleftrightarrow>
     (case new_dispatcher default_config of
        Inl _ \<Rightarrow> False
      | Inr d \<Rightarrow>
          (case dispatch_media fake_executor (media_of first_id) 1000 True (d, 0) of
             (r, d, x) \<Rightarrow>
               r = Inr Executed
             \<and> (case dispatch_media fake_executor (media_of first_id) 1001 True (d, x) of
                  (r, d, x) \<Rightarrow> r = Inl Duplicate \<and> x = 1)))"

definition record_request :: "string \<Rightarrow> dispatcher \<Rightarrow> dispatcher" where
  "record_request i = record_event (Some i) None ''media_executed'' None"

definition diagnostics_ring_keeps_only_the_newest_128_events :: bool where
  "diagnostics_ring_keeps_only_the_newest_128_events \<longleftrightarrow>
     (case new_dispatcher default_config of
        Inl _ \<Rightarrow> False
      | Inr d \<Rightarrow>
          (let events = diagnostics (fold
             (\<lambda>index d. let d = record_request ''request'' d
                        in if index = 0 then record_request ''oldest'' d else d) [0..<129] d)
           in length events = 128 \<and> de_request_id (events ! 0) = Some ''request''))"

text \<open>The steps the test forces: the update waits and new work is refused until the dispatch has ended.\<close>

definition apply_trace :: "event list" where
  "apply_trace =
     [EvAdmit 0 (MediaJob (media_of first_id)) 1000,
      EvQueue default_config,
      EvRefuse (MediaJob (media_of second_id)) 1000 Busy,
      EvFinish 0 (MediaJob (media_of first_id)) (Inr ()),
      EvCommit default_config]"

definition config_apply_waits_for_dispatch_and_rejects_new_work_during_apply :: bool where
  "config_apply_waits_for_dispatch_and_rejects_new_work_during_apply \<longleftrightarrow>
     (case new_dispatcher default_config of
        Inl _ \<Rightarrow> False
      | Inr d \<Rightarrow> (\<exists>s. arun (async_start d) apply_trace s))"

text \<open>\<open>format!("{n:032x}")\<close>.\<close>

definition hex32 :: "nat \<Rightarrow> string" where
  "hex32 n = map (\<lambda>k. HEX ! (n div 16 ^ k mod 16)) (rev [0..<32])"

definition saturate :: "nat list \<Rightarrow> bool \<times> duplicate_cache" where
  "saturate =
     foldl (\<lambda>(ok, cache) n.
         let (r, cache) = cache_reserve (unwrap (parse_request_id (hex32 n))) 6000 1000 cache
         in (ok \<and> is_ok r, cache)) (True, [])"

definition cache_rejects_saturation_instead_of_evicting_live_ids :: bool where
  "cache_rejects_saturation_instead_of_evicting_live_ids \<longleftrightarrow>
     (case saturate [0..<MAX_REMEMBERED_IDS] of
        (ok, cache) \<Rightarrow>
          ok
        \<and> (case cache_reserve (unwrap (parse_request_id (replicate 32 (CHR ''f'')))) 6000 1000 cache of
             (r, cache) \<Rightarrow> r = Inl Busy \<and> length cache = MAX_REMEMBERED_IDS))"

definition music_config :: "string option \<Rightarrow> u64 \<Rightarrow> u64 \<Rightarrow> app_config" where
  "music_config phrase revision published_at =
     default_config\<lparr>
       ac_actions :=
         [\<lparr>ca_id = unwrap (parse_action_id ''music''), ca_name = ''Music'', ca_enabled = True, ca_phrase = phrase,
           ca_action = Media Play\<rparr>],
       ac_actions_revision := revision,
       ac_published_voice := Some
         \<lparr>pv_schema = VOICE_CONFIG_SCHEMA, pv_revision = 1, pv_actions_revision = published_at,
          pv_commands = [\<lparr>vc_phrase = ''play music'', vc_action_id = unwrap (parse_action_id ''music'')\<rparr>]\<rparr>\<rparr>"

definition custom_action_uses_local_snapshot_only :: bool where
  "custom_action_uses_local_snapshot_only \<longleftrightarrow>
     (case new_dispatcher (music_config None 0 0) of
        Inl _ \<Rightarrow> False
      | Inr d \<Rightarrow>
          fst (dispatch_custom fake_executor (custom_of second_id ''music'' 1) 1000 True (d, 0)) = Inr Dispatched)"

definition custom_action_fails_closed_for_unpublished_action_changes :: bool where
  "custom_action_fails_closed_for_unpublished_action_changes \<longleftrightarrow>
     (case new_dispatcher (music_config (Some ''play music'') 2 1) of
        Inl _ \<Rightarrow> False
      | Inr d \<Rightarrow>
          fst (dispatch_custom fake_executor (custom_of third_id ''music'' 1) 1000 True (d, 0)) = Inl StaleVoiceConfig)"

text \<open>The redacted \<open>Debug\<close> text has no counterpart.\<close>

definition token_header_authentication_is_fixed_width :: "(string \<Rightarrow> string \<Rightarrow> bool) \<Rightarrow> bool" where
  "token_header_authentication_is_fixed_width ct_eq \<longleftrightarrow>
     (case parse_token (replicate 64 (CHR ''a'')) of
        None \<Rightarrow> False
      | Some token \<Rightarrow>
          verify_header ct_eq token (Some (''Bearer '' @ replicate 64 (CHR ''a'')))
        \<and> \<not> verify_header ct_eq token (Some ''Bearer short''))"

lemma test_times:
  "validate_request_time 1000 6000 1000 = Inr ()" "validate_request_time 1000 6000 1001 = Inr ()"
  by (simp_all add: validate_request_time_def validate_time_def checked_add_def REQUEST_LIFETIME_MS_def)

lemma test_ids:
  "parse_request_id first_id = Inr (RequestId first_id)" "parse_request_id second_id = Inr (RequestId second_id)"
  "parse_request_id third_id = Inr (RequestId third_id)"
  "parse_action_id ''launch_game'' = Inr (ActionId ''launch_game'')" "parse_action_id ''music'' = Inr (ActionId ''music'')"
  by code_simp+

lemma new_valid: "config_ok c \<Longrightarrow> new_dispatcher c = Inr \<lparr>dp_config = Sound c, dp_seen = Sound [], dp_diagnostics = Sound []\<rparr>"
  by (simp add: new_dispatcher_def flip: validate_iff)

lemmas dispatch_run =
  dispatch_media_def dispatch_custom_def test_action_def with_executor_def media_admit_def custom_admit_def
  test_action_admit_def custom_snapshot_def media_complete_def custom_complete_def test_action_complete_def
  try_read_def reserve_def cache_reserve_def record_event_def push_event_def diagnostics_def Let_def
  test_times test_ids MAX_REMEMBERED_IDS_def

lemma duplicate_test: request_executes_once_and_duplicate_does_not_dispatch_twice
  by (simp add: request_executes_once_and_duplicate_does_not_dispatch_twice_def new_valid [OF default_config_ok]
      media_of_def fake_executor_def dispatch_run)

lemma game_published:
  assumes "config_ok (game_config action)"
  shows "published_dispatcher (game_config action) =
    Some (\<lparr>dp_config = Sound ((game_config action)\<lparr>ac_published_voice := Some
            \<lparr>pv_schema = 1, pv_revision = 1, pv_actions_revision = 0,
             pv_commands = [\<lparr>vc_phrase = ''open game'', vc_action_id = ActionId ''launch_game''\<rparr>]\<rparr>\<rparr>),
           dp_seen = Sound [], dp_diagnostics = Sound []\<rparr>, 1)"
proof -
  have revision: "next_voice_revision (game_config action) = Some 1"
    by (simp add: next_voice_revision_def game_config_def default_config_def)
  have table: "published_of (game_config action) 1 =
      \<lparr>pv_schema = 1, pv_revision = 1, pv_actions_revision = 0,
       pv_commands = [\<lparr>vc_phrase = ''open game'', vc_action_id = ActionId ''launch_game''\<rparr>]\<rparr>"
    by (simp add: published_of_def published_commands_def game_config_def default_config_def action_voice_def
        List.map_filter_def VOICE_CONFIG_SCHEMA_def test_ids)
  show ?thesis
    using publish_success [OF assms revision] new_valid [OF publish_config_ok [OF assms revision]]
    by (simp add: published_dispatcher_def table)
qed

lemma game_ok: "config_ok (game_config (Media Play))" "config_ok (game_config starrail)"
proof -
  have "validate (game_config (Media Play)) = Inr ()" "validate (game_config starrail) = Inr ()" by code_simp+
  then show "config_ok (game_config (Media Play))" "config_ok (game_config starrail)" by (simp_all add: validate_iff)
qed

lemma uac_test: uac_cancellation_is_distinct_for_local_and_voice_actions
  by (simp add: uac_cancellation_is_distinct_for_local_and_voice_actions_def game_published [OF game_ok(1)]
      test_ids)
    (simp add: game_config_def default_config_def cancelled_executor_def custom_of_def dispatch_run)

lemma failure_reason_test: action_failure_reason_is_kept_in_local_diagnostics
  by (simp add: action_failure_reason_is_kept_in_local_diagnostics_def game_published [OF game_ok(2)]
      test_ids)
    (simp add: game_config_def default_config_def detailed_failure_executor_def custom_of_def dispatch_run)

lemma ring_test: diagnostics_ring_keeps_only_the_newest_128_events
  by code_simp

lemma music_ok: "config_ok (music_config None 0 0)" "config_ok (music_config (Some ''play music'') 2 1)"
proof -
  have "validate (music_config None 0 0) = Inr ()" "validate (music_config (Some ''play music'') 2 1) = Inr ()"
    by code_simp+
  then show "config_ok (music_config None 0 0)" "config_ok (music_config (Some ''play music'') 2 1)"
    by (simp_all add: validate_iff)
qed

lemma music_tests:
  custom_action_uses_local_snapshot_only
  custom_action_fails_closed_for_unpublished_action_changes
  by (simp_all add: custom_action_uses_local_snapshot_only_def
      custom_action_fails_closed_for_unpublished_action_changes_def new_valid music_ok
      test_ids)
    (simp_all add: music_config_def default_config_def custom_of_def fake_executor_def dispatch_run)

lemma token_test: "token_header_authentication_is_fixed_width (=)"
  by code_simp

lemma default_published: "replace_config_admit default_config = Inr ()"
  using default_config_ok by (simp add: replace_config_admit_iff)

lemma apply_test: config_apply_waits_for_dispatch_and_rejects_new_work_during_apply
proof -
  let ?d = "\<lparr>dp_config = Sound default_config, dp_seen = Sound [], dp_diagnostics = Sound []\<rparr>"
  let ?q = "media_of first_id"
  let ?d1 = "?d\<lparr>dp_seen := Sound [\<lparr>rs_id = RequestId first_id, rs_expires_at_ms = 6000\<rparr>]\<rparr>"
  let ?s1 = "(async_start ?d)\<lparr>as_dispatcher := ?d1, as_tasks := [0 \<mapsto> (MediaJob ?q, Media Pause)]\<rparr>"
  let ?s2 = "?s1\<lparr>as_writers := [default_config]\<rparr>"
  let ?s3 = "?s2\<lparr>as_dispatcher := job_complete (MediaJob ?q) (Inr ()) ?d1, as_tasks := Map.empty\<rparr>"
  have "job_admit (MediaJob ?q) 1000 True ?d = (Inr (Media Pause), ?d1)"
    by (simp add: media_of_def dispatch_run)
  then have "astep (async_start ?d) (EvAdmit 0 (MediaJob ?q) 1000) ?s1"
    using astep.admit [of "async_start ?d" 0 True "MediaJob ?q" 1000 "Media Pause" ?d1]
    by (simp add: async_start_def)
  moreover have "astep ?s1 (EvQueue default_config) ?s2"
    using astep.queue [OF default_published, of ?s1] by (simp add: async_start_def)
  moreover have "job_admit (MediaJob (media_of second_id)) 1000 False ?d1 = (Inl Busy, ?d1)"
    by (simp add: media_of_def dispatch_run)
  then have "astep ?s2 (EvRefuse (MediaJob (media_of second_id)) 1000 Busy) ?s2"
    using astep.refuse [of False ?s2 "MediaJob (media_of second_id)" 1000 Busy ?d1]
    by (simp add: async_start_def)
  moreover have "astep ?s2 (EvFinish 0 (MediaJob ?q) (Inr ())) ?s3"
    using astep.finish [of ?s2 0 "MediaJob ?q" "Media Pause" "Inr ()"] by (simp add: async_start_def)
  moreover have "\<exists>s. astep ?s3 (EvCommit default_config) s"
  proof -
    obtain r d' where "replace_config_commit default_config (as_dispatcher ?s3) = (r, d')" by fastforce
    then show ?thesis using astep.commit [of ?s3 default_config "[]" r d'] by (auto simp: async_start_def)
  qed
  ultimately have "\<exists>s. arun (async_start ?d) apply_trace s"
    unfolding apply_trace_def by (blast intro: arun.intros)
  then show ?thesis
    by (simp add: config_apply_waits_for_dispatch_and_rejects_new_work_during_apply_def new_valid [OF default_config_ok])
qed

text \<open>The ids of the saturation test are distinct.\<close>

lemma hex32_digits: "list_all is_lower_hex (hex32 n) \<and> length (hex32 n) = 32"
proof -
  have "list_all is_lower_hex HEX" and "length HEX = 16" by code_simp+
  then have "is_lower_hex (HEX ! (m mod 16))" for m by (simp add: list_all_length)
  then show ?thesis by (simp add: hex32_def list_all_iff)
qed

lemma hex32_id: "parse_request_id (hex32 n) = Inr (RequestId (hex32 n))"
  using hex32_digits [of n] by (simp add: parse_request_id_def)

lemma hex32_inj:
  assumes "hex32 m = hex32 n" and "m < 256" and "n < 256"
  shows "m = n"
proof -
  have digit: "x = y" if "HEX ! x = HEX ! y" "x < 16" "y < 16" for x y
  proof -
    have "distinct HEX" "length HEX = 16" by code_simp+
    then show ?thesis using that nth_eq_iff_index_eq by metis
  qed
  have "hex32 m ! 31 = hex32 n ! 31" "hex32 m ! 30 = hex32 n ! 30" using assms(1) by simp_all
  then have "HEX ! (m mod 16) = HEX ! (n mod 16)" "HEX ! (m div 16 mod 16) = HEX ! (n div 16 mod 16)"
    by (simp_all add: hex32_def rev_nth)
  then have "m mod 16 = n mod 16" "m div 16 mod 16 = n div 16 mod 16" using digit by simp_all
  moreover have "m div 16 < 16" "n div 16 < 16" using assms(2,3) by simp_all
  ultimately show ?thesis by (metis div_mult_mod_eq mod_less)
qed

lemma saturate_all:
  assumes "distinct ns" and "list_all (\<lambda>n. n < 256) ns" and "length ns \<le> 128"
  shows "saturate ns = (True, map (\<lambda>n. \<lparr>rs_id = RequestId (hex32 n), rs_expires_at_ms = 6000\<rparr>) ns)"
  using assms
proof (induction ns rule: rev_induct)
  case Nil
  then show ?case by (simp add: saturate_def)
next
  case (snoc n ns)
  let ?cache = "map (\<lambda>n. \<lparr>rs_id = RequestId (hex32 n), rs_expires_at_ms = 6000 :: u64\<rparr>) ns"
  have fresh: "RequestId (hex32 n) \<notin> rs_id ` set ?cache"
    proof
    assume "RequestId (hex32 n) \<in> rs_id ` set ?cache"
    then obtain m where "m \<in> set ns" "hex32 m = hex32 n" by auto
    then have "m = n" using snoc.prems by (intro hex32_inj) (auto simp: list_all_iff)
    then show False using \<open>m \<in> set ns\<close> snoc.prems by simp
  qed
  have "cache_reserve (RequestId (hex32 n)) 6000 1000 ?cache =
      (Inr (), ?cache @ [\<lparr>rs_id = RequestId (hex32 n), rs_expires_at_ms = 6000\<rparr>])"
    using fresh snoc.prems by (subst cache_reserve_cases) (simp add: Let_def)
  moreover have "saturate ns = (True, ?cache)" using snoc by simp
  ultimately show ?case by (simp add: saturate_def hex32_id)
qed

lemma saturation_test: cache_rejects_saturation_instead_of_evicting_live_ids
proof -
  have full: "saturate [0..<128] =
      (True, map (\<lambda>n. \<lparr>rs_id = RequestId (hex32 n), rs_expires_at_ms = 6000\<rparr>) [0..<128])"
    by (rule saturate_all) (simp_all add: list_all_iff del: upt_rec_numeral)
  have new: "parse_request_id (replicate 32 (CHR ''f'')) = Inr (RequestId (replicate 32 (CHR ''f'')))" by code_simp
  have zero: "hex32 n ! 0 = CHR ''0''" if "n < 256" for n
    using that by (simp add: hex32_def rev_nth HEX_def)
  have fresh: "RequestId (replicate 32 (CHR ''f'')) \<notin> rs_id ` set (snd (saturate [0..<128]))"
  proof -
    have other: "replicate 32 (CHR ''f'') \<noteq> hex32 n" if "n < 128" for n
    proof
      assume "replicate 32 (CHR ''f'') = hex32 n"
      then have "replicate 32 (CHR ''f'') ! 0 = hex32 n ! 0" by (rule arg_cong)
      then show False using zero [of n] that by simp
    qed
    show ?thesis
    proof
      assume "RequestId (replicate 32 (CHR ''f'')) \<in> rs_id ` set (snd (saturate [0..<128]))"
      then obtain n where "n \<in> set [0..<128]" "replicate 32 (CHR ''f'') = hex32 n"
        unfolding full by (auto simp del: upt_rec_numeral)
      then show False using other [of n] by simp
    qed
  qed
  have "cache_reserve (RequestId (replicate 32 (CHR ''f''))) 6000 1000 (snd (saturate [0..<128])) =
      (Inl Busy, snd (saturate [0..<128]))"
    using fresh unfolding full by (subst cache_reserve_cases) (simp add: Let_def del: upt_rec_numeral)
  then show ?thesis
    unfolding cache_rejects_saturation_instead_of_evicting_live_ids_def MAX_REMEMBERED_IDS_def new full
    by (simp del: upt_rec_numeral)
qed

section \<open>The HTTPS handlers\<close>

definition header_map_of :: "(string \<times> string) list \<Rightarrow> header_map" where
  "header_map_of headers = \<lparr>contains_key = (\<lambda>k. map_of headers k \<noteq> None), get_str = map_of headers\<rparr>"

definition framing_requires_bounded_content_length_and_rejects_transfer_encoding :: bool where
  "framing_requires_bounded_content_length_and_rejects_transfer_encoding \<longleftrightarrow>
     valid_framing (header_map_of [(''content-length'', ''2'')]) ''{}''
   \<and> \<not> valid_framing (header_map_of [(''transfer-encoding'', ''chunked''), (''content-length'', ''2'')]) ''{}''
   \<and> \<not> valid_framing (header_map_of [(''content-length'', ''513'')]) ''{}''"

text \<open>The status and the label, before the library encodes them.\<close>

definition clock_skew_and_expiry_have_distinct_responses :: "http_lib \<Rightarrow> bool" where
  "clock_skew_and_expiry_have_distinct_responses lib \<longleftrightarrow>
     list_all (\<lambda>(e, status, label). dispatch_error_response lib e = error_response lib status label)
       [(ClockSkew, 400, ''clock_skew''), (Expired, 410, ''expired''),
        (ExecutionWithReason ''private detail'', 500, ''server_error''),
        (ExecutionCancelled, 409, ''action_cancelled'')]"

definition published_config :: app_config where
  "published_config =
     default_config\<lparr>
       ac_actions :=
         [\<lparr>ca_id = unwrap (parse_action_id ''music''), ca_name = ''Music'', ca_enabled = True,
           ca_phrase = Some ''play my music'', ca_action = Media Play\<rparr>],
       ac_published_voice := Some
         \<lparr>pv_schema = VOICE_CONFIG_SCHEMA, pv_revision = 1, pv_actions_revision = 0,
          pv_commands = [\<lparr>vc_phrase = ''play my music'', vc_action_id = unwrap (parse_action_id ''music'')\<rparr>]\<rparr>\<rparr>"

definition test_state :: "app_config \<Rightarrow> path option \<Rightarrow> http_state" where
  "test_state config p =
     \<lparr>hs_dispatcher = unwrap (new_dispatcher config), hs_token = the (parse_token (replicate 64 (CHR ''a''))),
      hs_config = Sound config, hs_config_path = p\<rparr>"

definition paired_headers :: "string \<Rightarrow> header_map" where
  "paired_headers body =
     header_map_of
       [(''authorization'', ''Bearer '' @ replicate 64 (CHR ''a'')), (''content-type'', ''application/json''),
        (''content-length'', show_nat (length body))]"

text \<open>The reply is the published table itself; that its JSON has only the two fields is the library's.\<close>

definition voice_config_requires_auth_and_returns_only_published_phrase_ids :: "http_lib \<Rightarrow> bool" where
  "voice_config_requires_auth_and_returns_only_published_phrase_ids lib \<longleftrightarrow>
     voice_config lib (paired_headers []) (test_state published_config None) =
       json_limited lib 200
         (PublishedReply
           \<lparr>pv_schema = VOICE_CONFIG_SCHEMA, pv_revision = 1, pv_actions_revision = 0,
            pv_commands = [\<lparr>vc_phrase = ''play my music'', vc_action_id = ActionId ''music''\<rparr>]\<rparr>) VOICE_CONFIG_LIMIT
   \<and> voice_config lib (header_map_of []) (test_state published_config None) = error_response lib 401 ''unauthorized''"

text \<open>The bodies are the library's readings of the two JSON texts; the directory is empty before.\<close>

definition voice_ack_is_authenticated_revision_bound_and_persisted ::
  "http_lib \<Rightarrow> (string \<Rightarrow> app_config option) \<Rightarrow> path \<Rightarrow> string \<Rightarrow> string \<Rightarrow> bool" where
  "voice_ack_is_authenticated_revision_bound_and_persisted lib decode p body stale \<longleftrightarrow>
     (case voice_config_ack lib (paired_headers body) body
         (test_state published_config (Some p), \<lparr>files = Map.empty, answers = []\<rparr>) of
        (response, state, w) \<Rightarrow>
          response = json lib 200 (VoiceAckReply 1 ''active'')
        \<and> (case load decode p w of
             (Inl _, _) \<Rightarrow> False
           | (Inr config, _) \<Rightarrow> ac_acknowledged_voice_revision config = Some 1)
        \<and> fst (voice_config_ack lib (paired_headers stale) stale (state, w)) =
            error_response lib 409 ''stale_revision''
        \<and> fst (voice_config_ack lib (header_map_of []) body (state, w)) = error_response lib 401 ''unauthorized'')"

lemma decimal_lengths: "parse_unsigned usize_max ''2'' = Some 2" "parse_unsigned usize_max ''513'' = Some 513"
proof -
  have "show_nat 2 = ''2''" "show_nat 513 = ''513''" by code_simp+
  then show "parse_unsigned usize_max ''2'' = Some 2" "parse_unsigned usize_max ''513'' = Some 513"
    using parse_unsigned_show_nat [of 2 usize_max] parse_unsigned_show_nat [of 513 usize_max]
    by (simp_all add: usize_max_def)
qed

lemma handler_tests:
  framing_requires_bounded_content_length_and_rejects_transfer_encoding
  "clock_skew_and_expiry_have_distinct_responses lib"
  by (simp_all add: framing_requires_bounded_content_length_and_rejects_transfer_encoding_def valid_framing_def
      header_map_of_def decimal_lengths BODY_LIMIT_def clock_skew_and_expiry_have_distinct_responses_def
      dispatch_error_response_def)

lemma test_token: "parse_token (replicate 64 (CHR ''a'')) = Some (ApiToken (replicate 64 (CHR ''a'')))"
  by code_simp

lemma paired_head:
  assumes "ct_eq_exact (lb_ct_eq lib)"
  shows "authorized lib (test_state c p) (paired_headers body)"
    and "\<not> authorized lib (test_state c p) (header_map_of [])"
proof -
  have "wf_token (ApiToken (replicate 64 (CHR ''a'')))" by code_simp
  note verify = verify_header_wf [OF this assms]
  show "authorized lib (test_state c p) (paired_headers body)" "\<not> authorized lib (test_state c p) (header_map_of [])"
    by (simp_all add: authorized_def test_state_def test_token verify paired_headers_def header_map_of_def)
qed

lemma paired_type: "json_content_type (paired_headers body)"
proof -
  have "json_content_type (header_map_of [(''content-type'', ''application/json'')])" by code_simp
  then show ?thesis by (simp add: json_content_type_def paired_headers_def header_map_of_def)
qed

lemma paired_framing: "length body \<le> 512 \<Longrightarrow> valid_framing (paired_headers body) body"
  using parse_unsigned_show_nat [of "length body" usize_max]
  by (simp add: valid_framing_def paired_headers_def header_map_of_def BODY_LIMIT_def usize_max_def)

lemma published_config_ok: "config_ok published_config" "config_ok (published_config\<lparr>ac_acknowledged_voice_revision := Some 1\<rparr>)"
proof -
  have "validate published_config = Inr ()"
    "validate (published_config\<lparr>ac_acknowledged_voice_revision := Some 1\<rparr>) = Inr ()" by code_simp+
  then show "config_ok published_config" "config_ok (published_config\<lparr>ac_acknowledged_voice_revision := Some 1\<rparr>)"
    by (simp_all add: validate_iff)
qed

lemma published_config_fields:
  "ac_published_voice published_config = Some
     \<lparr>pv_schema = VOICE_CONFIG_SCHEMA, pv_revision = 1, pv_actions_revision = 0,
      pv_commands = [\<lparr>vc_phrase = ''play my music'', vc_action_id = ActionId ''music''\<rparr>]\<rparr>"
  "ac_actions_revision published_config = 0" "ac_acknowledged_voice_revision published_config = None"
  by (simp_all add: published_config_def default_config_def test_ids)

lemma voice_config_test:
  assumes "ct_eq_exact (lb_ct_eq lib)"
  shows "voice_config_requires_auth_and_returns_only_published_phrase_ids lib"
  using paired_head [OF assms]
  by (simp add: voice_config_requires_auth_and_returns_only_published_phrase_ids_def voice_config_def)
    (simp add: test_state_def published_config_fields)

lemma voice_ack_test:
  assumes "ct_eq_exact (lb_ct_eq lib)"
    and "lb_ack lib body = Some \<lparr>va_revision = 1\<rparr>" and "lb_ack lib stale = Some \<lparr>va_revision = 2\<rparr>"
    and "length body \<le> 512" and "length stale \<le> 512" and "path_has_parent p"
    and "lb_encode lib (published_config\<lparr>ac_acknowledged_voice_revision := Some 1\<rparr>) = Some encoded"
    and "decode (encoded @ [CHR 0x0A]) = Some (published_config\<lparr>ac_acknowledged_voice_revision := Some 1\<rparr>)"
  shows "voice_ack_is_authenticated_revision_bound_and_persisted lib decode p body stale"
proof -
  let ?c = "published_config\<lparr>ac_acknowledged_voice_revision := Some 1\<rparr>"
  let ?st = "test_state published_config (Some p)" and ?w = "\<lparr>files = Map.empty, answers = []\<rparr> :: world"
  let ?w' = "\<lparr>files = [p \<mapsto> encoded @ [CHR 0x0A]], answers = []\<rparr> :: world"
  have request: "ack_request lib (paired_headers body) body (test_state c q) = Inr 1"
    "ack_request lib (paired_headers stale) stale (test_state c q) = Inr 2"
    "ack_request lib (header_map_of []) body (test_state c q) = Inl (error_response lib 401 ''unauthorized'')" for c q
    using paired_head [OF assms(1)] paired_type paired_framing assms(2-5)
    by (simp_all add: ack_request_def parse_request_def BODY_LIMIT_def)
  have state: "hs_config ?st = Sound published_config" "hs_config_path ?st = Some p"
    "hs_dispatcher ?st = \<lparr>dp_config = Sound published_config, dp_seen = Sound [], dp_diagnostics = Sound []\<rparr>"
    by (simp_all add: test_state_def new_valid [OF published_config_ok(1)])
  have check: "ack_check lib 1 ?st = Inr (p, ?c)"
    by (simp add: ack_check_Inr state published_config_fields)
  have prepare: "ack_prepare lib 1 ?st ?w = (Inr ?c, ?w')"
    unfolding ack_prepare_Inr using check
      save_quiet [OF published_config_ok(2) assms(6), of "lb_encode lib" encoded ?w] assms(7) by simp
  have "replace_config ?c (hs_dispatcher ?st) =
      (Inr (), \<lparr>dp_config = Sound ?c, dp_seen = Sound [], dp_diagnostics = Sound []\<rparr>)"
    by (simp add: replace_config_Inr published_config_ok state)
  then have commit: "ack_commit lib 1 ?c ?st = (json lib 200 (VoiceAckReply 1 ''active''), test_state ?c (Some p))"
    by (simp add: ack_commit_def state) (simp add: test_state_def new_valid published_config_ok)
  have first: "voice_config_ack lib (paired_headers body) body (?st, ?w) =
      (json lib 200 (VoiceAckReply 1 ''active''), test_state ?c (Some p), ?w')"
    by (simp add: voice_config_ack_def request prepare commit)
  have "ack_check lib 2 (test_state ?c (Some p)) = Inl (error_response lib 409 ''stale_revision'')"
    by (simp add: ack_check_def test_state_def published_config_fields)
  then have second: "fst (voice_config_ack lib (paired_headers stale) stale (test_state ?c (Some p), ?w')) =
      error_response lib 409 ''stale_revision''"
    by (simp add: voice_config_ack_def request ack_prepare_def)
  have third: "fst (voice_config_ack lib (header_map_of []) body (test_state ?c (Some p), ?w')) =
      error_response lib 401 ''unauthorized''"
    by (simp add: voice_config_ack_def request)
  have "load decode p ?w' = (Inr ?c, ?w')"
    using load_saved [of ?w' p encoded decode ?c] assms(8) published_config_ok(2) by simp
  then show ?thesis
    by (simp add: voice_ack_is_authenticated_revision_bound_and_persisted_def first second third)
qed

text \<open>The body is the library's reading of the JSON text; the clock stands at \<open>now\<close> throughout.\<close>

definition media_endpoint_authenticates_and_correlates_execution ::
  "http_lib \<Rightarrow> bool \<Rightarrow> nat \<Rightarrow> string \<Rightarrow> bool" where
  "media_endpoint_authenticates_and_correlates_execution lib free now body \<longleftrightarrow>
     (case media lib fake_executor True (Some now) (paired_headers body) body
         (test_state default_config None, 0) of
        (response, state, x) \<Rightarrow>
          (case response of
             None \<Rightarrow> False
           | Some r \<Rightarrow>
               rp_status r = 200
             \<and> (case Option.bind (rp_content_length r) (parse_unsigned usize_max) of
                  None \<Rightarrow> False
                | Some n \<Rightarrow> n \<le> BODY_LIMIT))
        \<and> (case fst (media lib fake_executor free (Some now) (header_map_of []) [] (state, x)) of
             None \<Rightarrow> False
           | Some r \<Rightarrow> rp_status r = 401))"

lemma media_endpoint_test:
  assumes "ct_eq_exact (lb_ct_eq lib)" and "lb_header_value lib = Some"
    and "lb_to_vec lib (StatusReply ''0123456789abcdef0123456789abcdef'' ''executed'') = Some reply" "length reply \<le> 512"
    and "lb_to_vec lib (ErrorReply ''unauthorized'') = Some refusal" "length refusal \<le> 512"
    and "length body \<le> 512" and "now \<le> 4102444800000"
    and "lb_media lib body = Some
      \<lparr>mr_id = RequestId ''0123456789abcdef0123456789abcdef'', mr_cmd = Pause,
       mr_issued_at_ms = word_of_nat now, mr_expires_at_ms = word_of_nat now + REQUEST_LIFETIME_MS\<rparr>"
  shows "media_endpoint_authenticates_and_correlates_execution lib free now body"
proof -
  let ?q = "\<lparr>mr_id = RequestId ''0123456789abcdef0123456789abcdef'', mr_cmd = Pause,
       mr_issued_at_ms = word_of_nat now, mr_expires_at_ms = word_of_nat now + REQUEST_LIFETIME_MS\<rparr>"
  have now: "now_ms (Some now) = word_of_nat now" using assms(8) by (simp add: now_ms_def usize_max_def min_def)
  have unat: "unat (word_of_nat now :: u64) = now" using assms(8) by (simp add: unsigned_of_nat take_bit_nat_eq_self)
  have time: "validate_time (word_of_nat now) (word_of_nat now + REQUEST_LIFETIME_MS) (word_of_nat now) = Inr ()"
    using assms(8) unat by (simp add: validate_time_Inr REQUEST_LIFETIME_MS_def unat_word_ariths)
  have check: "check_request lib (lb_media lib) (test_state c p) (paired_headers body) body = Inr ?q" for c p
    using paired_head [OF assms(1)] paired_type paired_framing [OF assms(7)] assms(7,9)
    by (simp add: check_request_Inr)
  have state: "hs_dispatcher (test_state default_config None) =
      \<lparr>dp_config = Sound default_config, dp_seen = Sound [], dp_diagnostics = Sound []\<rparr>"
    by (simp add: test_state_def new_valid [OF default_config_ok])
  have "\<exists>d. dispatch_media fake_executor ?q (word_of_nat now) True
      (hs_dispatcher (test_state default_config None), 0) = (Inr Executed, d, 1)"
    using time by (simp add: state dispatch_media_def with_executor_def media_admit_def validate_request_time_def
        try_read_def reserve_def cache_reserve_def fake_executor_def media_complete_def MAX_REMEMBERED_IDS_def)
  then obtain d where run: "dispatch_media fake_executor ?q (word_of_nat now) True
      (hs_dispatcher (test_state default_config None), 0) = (Inr Executed, d, 1)" by blast
  have replies: "json lib 200 (StatusReply ''0123456789abcdef0123456789abcdef'' ''executed'') =
      Some (json_response lib 200 reply)"
    "error_response lib 401 ''unauthorized'' = Some (json_response lib 401 refusal)"
    using assms(3-6) by (simp_all add: json_def error_response_def json_limited_fits BODY_LIMIT_def)
  have answered: "media lib fake_executor True (Some now) (paired_headers body) body (test_state default_config None, 0) =
      (Some (json_response lib 200 reply), (test_state default_config None)\<lparr>hs_dispatcher := d\<rparr>, 1)"
    by (simp add: media_def check now run replies)
  have "\<not> authorized lib ((test_state default_config None)\<lparr>hs_dispatcher := d\<rparr>) (header_map_of [])"
    using paired_head(2) [OF assms(1)] by (simp add: authorized_def)
  then have refused: "fst (media lib fake_executor free (Some now) (header_map_of []) []
      ((test_state default_config None)\<lparr>hs_dispatcher := d\<rparr>, 1)) = Some (json_response lib 401 refusal)"
    by (simp add: media_def check_request_def replies)
  have "parse_unsigned usize_max (show_nat (length reply)) = Some (length reply)"
    using assms(4) by (intro parse_unsigned_show_nat) (simp add: usize_max_def)
  then show ?thesis
    using assms(2,4) answered refused
    by (simp add: media_endpoint_authenticates_and_correlates_execution_def json_response_def BODY_LIMIT_def)
qed

end
