(* ===== verification/Daemon_Lifecycle.thy ===== *)
theory Daemon_Lifecycle
  imports Daemon_Runtime
begin

text \<open>
  What the runtime's operations on the listener, the address and the secrets keep in order, on
  every path of failures: the invariant \<open>daemon_ok\<close> of Daemon\_Runtime. A runtime without a
  listener is \<open>idle\<close>; the operations pass through idle states, in which the secrets and the
  configuration can be replaced one after the other.
\<close>

section \<open>Idle states\<close>

text \<open>The runtime with no listener; what its operations answer keeps it in order.\<close>

definition idle :: "app_config \<Rightarrow> secrets \<Rightarrow> daemon \<Rightarrow> bool" where
  "idle c s d \<longleftrightarrow> daemon_inv c s d \<and> rt_listener d = None"

abbreviation ends_ok :: "(runtime_error, 'a) result \<times> daemon \<Rightarrow> bool" where
  "ends_ok rs \<equiv> daemon_ok (snd rs)"

lemma idle_core: "core d' = core d \<Longrightarrow> idle c s d' = idle c s d"
  by (simp add: idle_def daemon_inv_def core_def)

lemma idle_ok: "idle c s d \<Longrightarrow> daemon_ok d"
  by (auto simp: idle_def daemon_ok_inv)

lemma idle_fields:
  assumes "idle c s d"
  shows "locked (rt_secrets d) = Some s" "rt_secrets d = Sound s" "config_of d = c" "config_ok c"
    "secrets_ok c s" "rt_listener d = None" "daemon_inv c s d"
  using assms daemon_invD [of c s d] by (auto simp: idle_def)

lemma idle_secrets: "idle c s d \<Longrightarrow> secrets_ok c s' \<Longrightarrow> idle c s' (d\<lparr>rt_secrets := Sound s'\<rparr>)"
  by (simp add: idle_def daemon_inv_def)

lemma set_secrets_ok: "rt_secrets d = Sound s \<Longrightarrow> set_secrets s' d = (Inr (), d\<lparr>rt_secrets := Sound s'\<rparr>)"
  by (simp add: set_secrets_def)

lemma quiet_idle: "quiet d rs \<Longrightarrow> rs = (r, d') \<Longrightarrow> idle c s d \<Longrightarrow> idle c s d'"
  using quietD idle_core by blast

lemma save_secrets_idle: "save_secrets lib d = (r, d') \<Longrightarrow> idle c s d \<Longrightarrow> idle c s d'"
  using save_secrets_core idle_core by blast

lemma save_config_idle: "save_config lib c' d = (r, d') \<Longrightarrow> idle c s d \<Longrightarrow> idle c s d'"
  using save_config_core idle_core by blast

lemma failed_ends: "ends_ok rs \<Longrightarrow> ends_ok (failed rs)"
  by (cases rs; cases "fst rs") (simp_all add: failed_def)

lemma started_ok:
  assumes "idle c s d" and "ac_listener_enabled c" and "start_listener c d = (Inr l, d')"
  shows "daemon_ok (d'\<lparr>rt_listener := Some l\<rparr>)"
proof -
  have core: "core d' = core d" by (rule start_listener_core [OF assms(3)])
  have "listener_ok (rt_directory d') c s l"
    using start_listener_Inr [OF assms(3) idle_fields(2) [OF assms(1)] assms(2)] core_fields(1) [OF core]
    by simp
  moreover have "daemon_inv c s d'" using assms(1) core idle_core idle_def by blast
  ultimately show ?thesis using with_listener daemon_ok_inv by blast
qed

lemma restart_ends:
  assumes "idle c s d" and "was_running \<Longrightarrow> ac_listener_enabled c"
  shows "ends_ok (restart was_running c d)"
proof (cases was_running)
  case True
  have "ends_ok (st_then (start_listener c d) (\<lambda>listener d. (Inr (), d\<lparr>rt_listener := Some listener\<rparr>)))"
  proof (rule st_then_rule)
    fix e s1 assume "start_listener c d = (Inl e, s1)"
    then show "ends_ok (Inl e, s1)" using quiet_idle [OF start_listener_quiet _ assms(1)] idle_ok by fastforce
  next
    fix l s1 assume "start_listener c d = (Inr l, s1)"
    then show "ends_ok (Inr (), s1\<lparr>rt_listener := Some l\<rparr>)"
      using started_ok [OF assms(1) assms(2) [OF True]] by simp
  qed
  with True show ?thesis by (simp add: restart_def)
qed (use assms idle_ok in \<open>simp add: restart_def\<close>)

lemma store_idle_ends:
  assumes "idle c s d" and "ac_bind_address c' = ac_bind_address c"
  shows "ends_ok (store_config lib c' d)"
proof -
  obtain r d' where store: "store_config lib c' d = (r, d')" by fastforce
  show ?thesis
  proof (cases r)
    case (Inl e)
    have "core d' = core d"
      using store_config_Inl [OF store [unfolded Inl] idle_fields(7) [OF assms(1)]] by simp
    then have "idle c s d'" using assms(1) idle_core by blast
    then have "daemon_ok d'" by (rule idle_ok)
    then show ?thesis by (simp add: store)
  next
    case (Inr u)
    have "secrets_ok c' s" using idle_fields(5) [OF assms(1)] assms(2) by (simp add: secrets_ok_def)
    then have "daemon_inv c' s d'"
      using store_config_Inr [of lib c' d d' c s] store Inr idle_fields(6,7) [OF assms(1)] by auto
    then have "daemon_ok d'" using daemon_ok_inv by blast
    then show ?thesis by (simp add: store)
  qed
qed

lemma resume_ends:
  assumes "idle c s d" and "ac_listener_enabled c"
  shows "ends_ok (st_match (start_listener c d)
      (\<lambda>_ d. failed (store_config lib (c\<lparr>ac_listener_enabled := False\<rparr>) d))
      (\<lambda>listener d. (Inr (), d\<lparr>rt_listener := Some listener\<rparr>)))"
proof (rule st_match_rule)
  fix e d1 assume "start_listener c d = (Inl e, d1)"
  then have "idle c s d1" by (rule quiet_idle [OF start_listener_quiet _ assms(1)])
  then show "ends_ok (failed (store_config lib (c\<lparr>ac_listener_enabled := False\<rparr>) d1))"
    by (intro failed_ends store_idle_ends) auto
next
  fix l d1 assume "start_listener c d = (Inr l, d1)"
  then show "ends_ok (Inr (), d1\<lparr>rt_listener := Some l\<rparr>)" using started_ok [OF assms] by simp
qed

section \<open>Rotation of the credentials\<close>

text \<open>The part of \<open>rotate_credentials\<close> that follows the new secrets.\<close>

lemma swap_ends:
  assumes "idle c s d" and "secrets_ok c s'" and "was \<Longrightarrow> ac_listener_enabled c"
  shows "ends_ok (st_match (save_secrets lib (d\<lparr>rt_secrets := Sound s'\<rparr>))
          (\<lambda>_ d. st_then (set_secrets s d) (\<lambda>_ d. failed (restart was c d)))
          (\<lambda>_ d.
             if \<not> was then (Inr (), d)
             else
               st_match (start_listener c d)
                 (\<lambda>_ d. failed (store_config lib (c\<lparr>ac_listener_enabled := False\<rparr>) d))
                 (\<lambda>listener d. (Inr (), d\<lparr>rt_listener := Some listener\<rparr>))))"
proof (rule st_match_rule)
  fix e d1 assume "save_secrets lib (d\<lparr>rt_secrets := Sound s'\<rparr>) = (Inl e, d1)"
  then have d1: "idle c s' d1" using save_secrets_idle idle_secrets assms(1,2) by blast
  then have "idle c s (d1\<lparr>rt_secrets := Sound s\<rparr>)"
    using idle_secrets idle_fields(5) [OF assms(1)] by blast
  then show "ends_ok (st_then (set_secrets s d1) (\<lambda>_ d. failed (restart was c d)))"
    using restart_ends assms(3) by (simp add: set_secrets_ok [OF idle_fields(2) [OF d1]] failed_ends)
next
  fix u d1 assume "save_secrets lib (d\<lparr>rt_secrets := Sound s'\<rparr>) = (Inr u, d1)"
  then have "idle c s' d1" using save_secrets_idle idle_secrets assms(1,2) by blast
  then show "ends_ok (if \<not> was then (Inr (), d1)
      else st_match (start_listener c d1)
                 (\<lambda>_ d. failed (store_config lib (c\<lparr>ac_listener_enabled := False\<rparr>) d))
                 (\<lambda>listener d. (Inr (), d\<lparr>rt_listener := Some listener\<rparr>)))"
    using resume_ends assms(3) idle_ok by simp
qed

lemma take_and_stop_idle:
  assumes "daemon_inv c s d" and "take_and_stop d = (r, d')"
  shows "idle c s d' \<and> (\<forall>b. r = Inr b \<longrightarrow> b = (rt_listener d \<noteq> None) \<and> (b \<longrightarrow> ac_listener_enabled c))"
proof -
  have core: "core d' = core (d\<lparr>rt_listener := None\<rparr>)" using take_and_stop_core [OF assms(2)] by blast
  have "idle c s (d\<lparr>rt_listener := None\<rparr>)" using without_listener [OF assms(1)] by (simp add: idle_def)
  then have "idle c s d'" using idle_core [OF core] by blast
  moreover have "r = Inr b \<Longrightarrow> b = (rt_listener d \<noteq> None)" for b
    using take_and_stop_core [OF assms(2)] by blast
  moreover have "rt_listener d \<noteq> None \<Longrightarrow> ac_listener_enabled c"
    using daemon_invD(7) [OF assms(1)] by (auto simp: listener_ok_def)
  ultimately show ?thesis by blast
qed

lemma rotate_credentials_ends:
  assumes inv: "daemon_inv c s d" and random: "\<And>n. length (rl_random lib n) = 32"
  shows "ends_ok (rotate_credentials lib d)"
  unfolding rotate_credentials_def daemon_invD(3) [OF inv] Let_def
proof (rule st_then_rule)
  fix e d1 assume "take_and_stop d = (Inl e, d1)"
  then show "ends_ok (Inl e, d1)" using take_and_stop_idle [OF inv] idle_ok by fastforce
next
  fix was d1 assume stop: "take_and_stop d = (Inr was, d1)"
  then have d1: "idle c s d1" and was: "was \<Longrightarrow> ac_listener_enabled c"
    using take_and_stop_idle [OF inv] by auto
  show "ends_ok (st_match (new_secrets lib c d1)
          (\<lambda>_ d. failed (restart was c d))
          (\<lambda>replacement d.
        st_then (ok_or RuntimeError (locked (rt_secrets d)), d) (\<lambda>previous d.
        st_then (set_secrets replacement d) (\<lambda>_ d.
        st_match (save_secrets lib d)
          (\<lambda>_ d. st_then (set_secrets previous d) (\<lambda>_ d. failed (restart was c d)))
          (\<lambda>_ d.
             if \<not> was then (Inr (), d)
             else
               st_match (start_listener c d)
                 (\<lambda>_ d. failed (store_config lib (c\<lparr>ac_listener_enabled := False\<rparr>) d))
                 (\<lambda>listener d. (Inr (), d\<lparr>rt_listener := Some listener\<rparr>)))))))"
  proof (rule st_match_rule)
    fix e d2 assume "new_secrets lib c d1 = (Inl e, d2)"
    then show "ends_ok (failed (restart was c d2))"
      using quiet_idle [OF new_secrets_quiet _ d1] restart_ends was failed_ends by blast
  next
    fix s' d2 assume fresh: "new_secrets lib c d1 = (Inr s', d2)"
    have d2: "idle c s d2" using quiet_idle [OF new_secrets_quiet fresh d1] .
    show "ends_ok (st_then (ok_or RuntimeError (locked (rt_secrets d2)), d2) (\<lambda>previous d.
        st_then (set_secrets s' d) (\<lambda>_ d.
        st_match (save_secrets lib d)
          (\<lambda>_ d. st_then (set_secrets previous d) (\<lambda>_ d. failed (restart was c d)))
          (\<lambda>_ d.
             if \<not> was then (Inr (), d)
             else
               st_match (start_listener c d)
                 (\<lambda>_ d. failed (store_config lib (c\<lparr>ac_listener_enabled := False\<rparr>) d))
                 (\<lambda>listener d. (Inr (), d\<lparr>rt_listener := Some listener\<rparr>))))))"
      using swap_ends [OF d2 new_secrets_Inr [OF fresh random] was]
      by (simp add: idle_fields(1) [OF d2] set_secrets_ok [OF idle_fields(2) [OF d2]])
  qed
qed

lemma shutdown_ends:
  assumes "daemon_inv c s d"
  shows "idle c s (snd (shutdown d))"
proof -
  obtain r d' where stop: "take_and_stop d = (r, d')" by fastforce
  then have "idle c s d'" using take_and_stop_idle [OF assms] by blast
  then show ?thesis by (cases r) (simp_all add: shutdown_def stop)
qed

lemma export_ca_ends:
  assumes "daemon_inv c s d"
  shows "daemon_inv c s (snd (export_ca d))"
proof -
  obtain r d' where op: "export_ca d = (r, d')" by fastforce
  have "core d' = core d"
    using op by (cases r) (auto simp: export_ca_def st_then_Inr st_then_Inl dest: on_world_core)
  then have "daemon_inv c s d'" using assms daemon_inv_core by blast
  then show ?thesis by (simp add: op)
qed

section \<open>The switch of the listener\<close>

text \<open>A listener that was started for \<open>c'\<close> is installed with it.\<close>

lemma launch_ok:
  assumes "idle c s d" and "config_ok c'" and "secrets_ok c' s" and "listener_ok (rt_directory d) c' s l"
  shows "\<exists>d'. commit_config c' (d\<lparr>rt_listener := Some l\<rparr>) = (Inr (), d')
    \<and> daemon_inv c' s d' \<and> rt_listener d' = Some l \<and> files (os_world d') = files (os_world d)
    \<and> rt_directory d' = rt_directory d"
proof -
  have d: "rt_config (d\<lparr>rt_listener := Some l\<rparr>) = Sound c"
    "locks_sound (rt_dispatcher (d\<lparr>rt_listener := Some l\<rparr>))"
    using idle_fields(7) [OF assms(1)] by (simp_all add: daemon_inv_def)
  have "daemon_inv c' s (with_config c' (d\<lparr>rt_listener := Some l\<rparr>))"
    using idle_fields(7) [OF assms(1)] assms(2-4)
    by (auto simp: daemon_inv_def with_config_def dispatcher_ok_def locks_sound_def)
  then show ?thesis
    using commit_config_ok [OF d assms(2)] by (simp add: with_config_def)
qed

text \<open>
  \<open>set_listener\<close>: when it succeeds the listener runs exactly when it was to be enabled, and the
  configuration says so, in memory and, if anything was done, on disk; when it fails, no listener runs.
\<close>

definition listener_outcome :: "runtime_lib \<Rightarrow> bool \<Rightarrow> daemon \<Rightarrow> (runtime_error, unit) result \<times> daemon \<Rightarrow> bool" where
  "listener_outcome lib enabled d = (\<lambda>(r, d').
     daemon_ok d'
   \<and> (if is_ok r
      then ac_listener_enabled (config_of d') = enabled \<and> (rt_listener d' \<noteq> None) = enabled
         \<and> (d' = d \<or> config_on_disk lib (config_of d') d')
      else rt_listener d' = None))"

lemma idle_failed_outcome: "idle c s d' \<Longrightarrow> listener_outcome lib enabled d (Inl e, d')"
  by (auto simp: listener_outcome_def idle_ok dest: idle_fields(6))

lemma pause_outcome:
  assumes "idle c s d1" and "ac_bind_address c' = ac_bind_address c"
  shows "listener_outcome lib enabled d (failed (store_config lib c' d1))"
proof -
  obtain r d' where store: "store_config lib c' d1 = (r, d')" by fastforce
  have "daemon_ok d'" using store_idle_ends [OF assms, of lib] store by simp
  moreover have "rt_listener d' = None"
  proof (cases r)
    case (Inl e)
    then show ?thesis
      using store_config_Inl [OF store [unfolded Inl] idle_fields(7) [OF assms(1)]] idle_fields(6) [OF assms(1)]
        core_fields(5) by metis
  next
    case (Inr u)
    have "secrets_ok c' s" using idle_fields(5) [OF assms(1)] assms(2) by (simp add: secrets_ok_def)
    then have "core d' = core (with_config c' d1)"
      using store_config_Inr [of lib c' d1 d' c s] store Inr idle_fields(6,7) [OF assms(1)] by auto
    then show ?thesis using idle_fields(6) [OF assms(1)] by (simp add: core_def with_config_def)
  qed
  ultimately show ?thesis using store by (cases r) (auto simp: listener_outcome_def failed_def)
qed

lemma enable_outcome:
  assumes "idle c s d"
  shows "listener_outcome lib True d (st_match (start_listener (c\<lparr>ac_listener_enabled := True\<rparr>) d)
            (\<lambda>_ d. failed (store_config lib (c\<lparr>ac_listener_enabled := False\<rparr>) d))
            (\<lambda>listener d.
          st_match (save_config lib (c\<lparr>ac_listener_enabled := True\<rparr>) d)
            (\<lambda>e d. (Inl e, snd (call_os d)))
            (\<lambda>_ d. commit_config (c\<lparr>ac_listener_enabled := True\<rparr>) (d\<lparr>rt_listener := Some listener\<rparr>))))"
proof (rule st_match_rule)
  fix e d1 assume "start_listener (c\<lparr>ac_listener_enabled := True\<rparr>) d = (Inl e, d1)"
  then have "idle c s d1" by (rule quiet_idle [OF start_listener_quiet _ assms])
  then show "listener_outcome lib True d (failed (store_config lib (c\<lparr>ac_listener_enabled := False\<rparr>) d1))"
    by (rule pause_outcome) simp
next
  let ?c = "c\<lparr>ac_listener_enabled := True\<rparr>"
  fix l d1 assume start: "start_listener ?c d = (Inr l, d1)"
  have d1: "idle c s d1" by (rule quiet_idle [OF start_listener_quiet start assms])
  have l: "listener_ok (rt_directory d) ?c s l"
    using start_listener_Inr [OF start idle_fields(2) [OF assms]] by simp
  show "listener_outcome lib True d (st_match (save_config lib ?c d1)
            (\<lambda>e d. (Inl e, snd (call_os d)))
            (\<lambda>_ d. commit_config ?c (d\<lparr>rt_listener := Some l\<rparr>)))"
  proof (rule st_match_rule)
    fix e d2 assume "save_config lib ?c d1 = (Inl e, d2)"
    then have "idle c s d2" using save_config_idle d1 by blast
    then have "idle c s (snd (call_os d2))" using idle_core [OF call_os_core] by blast
    then show "listener_outcome lib True d (Inl e, snd (call_os d2))" by (rule idle_failed_outcome)
  next
    fix u d2 assume save: "save_config lib ?c d1 = (Inr u, d2)"
    then have d2: "idle c s d2" using save_config_idle d1 by blast
    have saved: "config_ok ?c" "config_on_disk lib ?c d2"
      using save_config_Inr [of lib ?c d1 d2] save core_fields(1) [OF save_config_core [OF save]]
      by (auto simp: config_on_disk_def)
    have "secrets_ok ?c s" using idle_fields(5) [OF d2] by (simp add: secrets_ok_def)
    moreover have "rt_directory d2 = rt_directory d"
      using core_fields(1) [OF save_config_core [OF save]] core_fields(1) [OF start_listener_core [OF start]] by simp
    ultimately obtain d' where d': "commit_config ?c (d2\<lparr>rt_listener := Some l\<rparr>) = (Inr (), d')"
      "daemon_inv ?c s d'" "rt_listener d' = Some l" "files (os_world d') = files (os_world d2)"
      "rt_directory d' = rt_directory d2"
      using launch_ok [OF d2 saved(1)] l by metis
    have "config_on_disk lib ?c d'" using saved(2) d'(4,5) by (auto simp: config_on_disk_def split: option.splits)
    then show "listener_outcome lib True d (commit_config ?c (d2\<lparr>rt_listener := Some l\<rparr>))"
      using d' daemon_invD(3) [OF d'(2)] daemon_ok_inv
      by (auto simp: listener_outcome_def)
  qed
qed

lemma disable_outcome:
  assumes "daemon_inv c s d"
  shows "listener_outcome lib False d
    (st_then (take_and_stop d) (\<lambda>_ d. store_config lib (c\<lparr>ac_listener_enabled := False\<rparr>) d))"
proof (rule st_then_rule)
  fix e d1 assume "take_and_stop d = (Inl e, d1)"
  then have "idle c s d1" using take_and_stop_idle [OF assms] by blast
  then show "listener_outcome lib False d (Inl e, d1)" by (rule idle_failed_outcome)
next
  let ?c = "c\<lparr>ac_listener_enabled := False\<rparr>"
  fix b d1 assume "take_and_stop d = (Inr b, d1)"
  then have d1: "idle c s d1" using take_and_stop_idle [OF assms] by blast
  obtain r d' where store: "store_config lib ?c d1 = (r, d')" by fastforce
  show "listener_outcome lib False d (store_config lib ?c d1)"
  proof (cases r)
    case (Inl e)
    have "core d' = core d1" using store_config_Inl [OF store [unfolded Inl] idle_fields(7) [OF d1]] by simp
    then have "idle c s d'" using d1 idle_core by blast
    then show ?thesis unfolding store Inl by (rule idle_failed_outcome)
  next
    case (Inr u)
    have "secrets_ok ?c s" using idle_fields(5) [OF d1] by (simp add: secrets_ok_def)
    then have d': "daemon_inv ?c s d'" "config_on_disk lib ?c d'" "core d' = core (with_config ?c d1)"
      using store_config_Inr [of lib ?c d1 d' c s] store Inr idle_fields(6,7) [OF d1] by auto
    have "rt_listener d' = None"
      using d'(3) idle_fields(6) [OF d1] by (simp add: core_def with_config_def)
    then show ?thesis
      using d' daemon_invD(3) [OF d'(1)] daemon_ok_inv store Inr by (auto simp: listener_outcome_def)
  qed
qed

lemma set_listener_outcome:
  assumes inv: "daemon_inv c s d"
  shows "listener_outcome lib enabled d (set_listener lib enabled d)"
proof -
  have running: "rt_listener d \<noteq> None \<Longrightarrow> ac_listener_enabled c"
    using daemon_invD(7) [OF inv] by (auto simp: listener_ok_def)
  consider (same) "ac_listener_enabled c = enabled" "(rt_listener d \<noteq> None) = enabled"
    | (on) "enabled" "rt_listener d = None" | (off) "\<not> enabled" "ac_listener_enabled c"
    using running by blast
  then show ?thesis
  proof cases
    case same
    then have "set_listener lib enabled d = (Inr (), d)"
      by (simp add: set_listener_def daemon_invD(3) [OF inv] Let_def)
    then show ?thesis using same daemon_ok_inv inv by (auto simp: listener_outcome_def daemon_invD(3) [OF inv])
  next
    case on
    then show ?thesis
      using enable_outcome [of c s d lib] inv
      by (simp add: set_listener_def daemon_invD(3) [OF inv] Let_def idle_def)
  next
    case off
    then show ?thesis
      using disable_outcome [OF inv, of lib]
      by (simp add: set_listener_def daemon_invD(3) [OF inv] Let_def)
  qed
qed

section \<open>Changing the address\<close>

text \<open>What the disk holds of the secrets.\<close>

definition secrets_on_disk :: "runtime_lib \<Rightarrow> secrets \<Rightarrow> daemon \<Rightarrow> bool" where
  "secrets_on_disk lib s d \<longleftrightarrow>
     (\<exists>plain enc. rl_encode_secrets lib s = Some plain \<and> protect (rl_crypt lib) plain = Some enc
        \<and> files (os_world d) (secrets_path d) = Some enc)"

lemma save_secrets_on_disk:
  "save_secrets lib d = (Inr u, d') \<Longrightarrow> rt_secrets d = Sound s \<Longrightarrow> core d' = core d \<and> secrets_on_disk lib s d'"
  using save_secrets_Inr [of lib d u d' s] core_fields(1) [of d' d] by (auto simp: secrets_on_disk_def)

lemma secrets_on_disk_same:
  "secrets_on_disk lib s d \<Longrightarrow> rt_directory d' = rt_directory d \<Longrightarrow> files (os_world d') = files (os_world d) \<Longrightarrow>
     secrets_on_disk lib s d'"
  by (simp add: secrets_on_disk_def)

lemma save_secrets_failed:
  assumes "save_secrets lib d = (Inl e, d')"
  shows "core d' = core d \<and> files (os_world d') = files (os_world d)"
  using assms save_secrets_core [OF assms] atomic_write_Inl
  by (fastforce simp: save_secrets_def result_simps)

lemma save_secrets_others:
  assumes "save_secrets lib d = (r, d')" and "q \<noteq> secrets_path d"
  shows "files (os_world d') q = files (os_world d) q"
proof (cases r)
  case (Inl e)
  then show ?thesis using save_secrets_failed assms(1) by simp
next
  case (Inr u)
  then show ?thesis
    using assms by (auto simp: save_secrets_def result_simps dest!: atomic_write_Inr)
qed

text \<open>
  \<open>moved\<close>: the configuration of a runtime with no listener after a change of address, the
  secrets already those of the new address.
\<close>

definition moved :: "app_config \<Rightarrow> ip_addr \<Rightarrow> u16 \<Rightarrow> app_config" where
  "moved c bind_address port = c\<lparr>ac_bind_address := bind_address, ac_port := port\<rparr>"

text \<open>
  What a failed change of the address leaves on the disk: every file as it was, except that the
  secrets may have been written anew, the old ones or those of the new address \<open>a\<close>, with the same
  token.
\<close>

definition files_back :: "runtime_lib \<Rightarrow> secrets \<Rightarrow> ip_addr \<Rightarrow> daemon \<Rightarrow> daemon \<Rightarrow> bool" where
  "files_back lib s a d d' \<longleftrightarrow>
     (\<forall>q. q \<noteq> secrets_path d \<longrightarrow> files (os_world d') q = files (os_world d) q)
   \<and> (files (os_world d') (secrets_path d) = files (os_world d) (secrets_path d)
      \<or> (\<exists>s'. secrets_on_disk lib s' d' \<and> se_token s' = se_token s
           \<and> (s' = s \<or> se_host s' = ip_to_string a)))"

definition reconfigure_outcome ::
  "runtime_lib \<Rightarrow> app_config \<Rightarrow> secrets \<Rightarrow> app_config \<Rightarrow> daemon \<Rightarrow> (runtime_error, unit) result \<times> daemon \<Rightarrow> bool" where
  "reconfigure_outcome lib c s c' d = (\<lambda>(r, d').
     if is_ok r
     then (\<exists>s'. idle c' s' d' \<and> se_token s' = se_token s \<and> secrets_on_disk lib s' d') \<and> config_on_disk lib c' d'
     else core d' = core d \<and> files_back lib s (ac_bind_address c') d d')"

lemma files_back_same: "files (os_world d') = files (os_world d) \<Longrightarrow> files_back lib s a d d'"
  by (simp add: files_back_def)

text \<open>Secrets of the address \<open>a\<close> were stored, and then putting back those of before was tried.\<close>

lemma files_back_stored:
  assumes "secrets_on_disk lib s' d2" and "rt_directory d2 = rt_directory d"
    and "\<And>q. q \<noteq> secrets_path d \<Longrightarrow> files (os_world d2) q = files (os_world d) q"
    and "se_token s' = se_token s" "se_host s' = ip_to_string a"
    and "rt_secrets d3 = Sound s" "rt_directory d3 = rt_directory d" "files (os_world d3) = files (os_world d2)"
    and "save_secrets lib d3 = (r, d4)"
  shows "files_back lib s a d d4"
proof -
  have others: "files (os_world d4) q = files (os_world d) q" if "q \<noteq> secrets_path d" for q
    using save_secrets_others [OF assms(9), of q] assms(3) [of q] assms(7,8) that by simp
  have dir: "rt_directory d4 = rt_directory d" using core_fields(1) [OF save_secrets_core [OF assms(9)]] assms(7) by simp
  show ?thesis
  proof (cases r)
    case (Inl e)
    then have "files (os_world d4) = files (os_world d2)" using save_secrets_failed [of lib d3 e d4] assms(8,9) by simp
    then have "secrets_on_disk lib s' d4" using secrets_on_disk_same [OF assms(1), of d4] dir assms(2) by simp
    then show ?thesis using others assms(4,5) unfolding files_back_def by blast
  next
    case (Inr u)
    then have "secrets_on_disk lib s d4" using save_secrets_on_disk [of lib d3 u d4 s] assms(6,9) by simp
    then show ?thesis using others unfolding files_back_def by blast
  qed
qed

lemma rotate_tls_Inr:
  "rotate_tls lib s host d = (Inr s', d') \<Longrightarrow>
     se_token s' = se_token s \<and> se_host s' = ip_to_string host \<and> core d' = core d"
  using rotate_tls_core [of lib s host d "Inr s'" d']
  by (auto simp: rotate_tls_def result_simps)

lemma core_secrets_back:
  "core d1 = core (d\<lparr>rt_secrets := l\<rparr>) \<Longrightarrow> rt_secrets d = Sound s \<Longrightarrow> core (d1\<lparr>rt_secrets := Sound s\<rparr>) = core d"
  by (simp add: core_def)

lemma call_os_snd_core: "save_secrets lib d = rs \<Longrightarrow> core (snd rs) = core d"
  using save_secrets_core by (cases rs) auto

lemma config_on_disk_with: "config_on_disk lib c (with_config c' d) = config_on_disk lib c d"
  by (auto simp: config_on_disk_def with_config_def split: option.splits)

text \<open>The part of \<open>reconfigure\<close> that follows the new secrets.\<close>

lemma move_outcome:
  assumes idle: "idle c s d" and d1: "core d1 = core (d\<lparr>rt_secrets := Sound s'\<rparr>)"
    and files1: "files (os_world d1) = files (os_world d)"
    and ok: "config_ok c'" "secrets_ok c' s'" and token: "se_token s' = se_token s"
  shows "reconfigure_outcome lib c s c' d (st_match (save_secrets lib d1)
          (\<lambda>e d. st_then (set_secrets s d) (\<lambda>_ d. (Inl e, d)))
          (\<lambda>_ d.
        st_match (save_config lib c' d)
          (\<lambda>e d. st_then (set_secrets s d) (\<lambda>_ d. (Inl e, snd (save_secrets lib d))))
          (\<lambda>_ d. commit_config c' d)))"
proof (rule st_match_rule)
  fix e d2 assume fails: "save_secrets lib d1 = (Inl e, d2)"
  then have core2: "core d2 = core (d\<lparr>rt_secrets := Sound s'\<rparr>)" using save_secrets_core d1 by metis
  have files2: "files (os_world d2) = files (os_world d)" using save_secrets_failed [OF fails] files1 by simp
  from core2 have "set_secrets s d2 = (Inr (), d2\<lparr>rt_secrets := Sound s\<rparr>)"
    by (intro set_secrets_ok) (simp add: core_def)
  then show "reconfigure_outcome lib c s c' d (st_then (set_secrets s d2) (\<lambda>_ d. (Inl e, d)))"
    using core_secrets_back [OF core2 idle_fields(2) [OF idle]] files2
    by (simp add: reconfigure_outcome_def files_back_same)
next
  fix u d2 assume stored: "save_secrets lib d1 = (Inr u, d2)"
  have mem1: "rt_secrets d1 = Sound s'" "rt_directory d1 = rt_directory d"
    using core_fields [OF d1] by simp_all
  have disk2: "secrets_on_disk lib s' d2" using save_secrets_on_disk [OF stored mem1(1)] by simp
  have others2: "files (os_world d2) q = files (os_world d) q" if "q \<noteq> secrets_path d" for q
    using save_secrets_others [OF stored, of q] that files1 mem1(2) by simp
  from stored have core2: "core d2 = core (d\<lparr>rt_secrets := Sound s'\<rparr>)" using save_secrets_core d1 by metis
  show "reconfigure_outcome lib c s c' d (st_match (save_config lib c' d2)
          (\<lambda>e d. st_then (set_secrets s d) (\<lambda>_ d. (Inl e, snd (save_secrets lib d))))
          (\<lambda>_ d. commit_config c' d))"
  proof (rule st_match_rule)
    fix e d3 assume fails: "save_config lib c' d2 = (Inl e, d3)"
    then have core3: "core d3 = core (d\<lparr>rt_secrets := Sound s'\<rparr>)" using save_config_core core2 by metis
    obtain r4 d4 where again: "save_secrets lib (d3\<lparr>rt_secrets := Sound s\<rparr>) = (r4, d4)" by fastforce
    have "files_back lib s (ac_bind_address c') d d4"
      by (rule files_back_stored [OF disk2 _ others2 token _ _ _ _ again])
        (use core_fields [OF core2] core_fields [OF core3] ok(2) save_config_Inl [OF fails] in
          \<open>simp_all add: secrets_ok_def\<close>)
    moreover from core3 have "set_secrets s d3 = (Inr (), d3\<lparr>rt_secrets := Sound s\<rparr>)"
      by (intro set_secrets_ok) (simp add: core_def)
    moreover have "core d4 = core d"
      using core_secrets_back [OF core3 idle_fields(2) [OF idle]] save_secrets_core [OF again] by simp
    ultimately show "reconfigure_outcome lib c s c' d
        (st_then (set_secrets s d3) (\<lambda>_ d. (Inl e, snd (save_secrets lib d))))"
      using again by (simp add: reconfigure_outcome_def)
  next
    fix v d3 assume save: "save_config lib c' d2 = (Inr v, d3)"
    then have core3: "core d3 = core (d\<lparr>rt_secrets := Sound s'\<rparr>)" using save_config_core core2 by metis
    have disk: "config_on_disk lib c' d3"
      using save_config_Inr [of lib c' d2 d3] save core_fields(1) [OF save_config_core [OF save]]
      by (auto simp: config_on_disk_def)
    have d3: "rt_config d3 = Sound c" "locks_sound (rt_dispatcher d3)"
      "dispatcher_ok (rt_dispatcher d3)" "rt_secrets d3 = Sound s'" "rt_listener d3 = None"
      using core3 idle_fields(6,7) [OF idle] by (auto simp: core_def daemon_inv_def)
    have "idle c' s' (with_config c' d3)"
      using d3 ok by (auto simp: idle_def daemon_inv_def with_config_def dispatcher_ok_def locks_sound_def)
    moreover have "config_on_disk lib c' (with_config c' d3)"
      using disk by (simp add: config_on_disk_with)
    moreover have "files (os_world d3) (secrets_path d) = files (os_world d2) (secrets_path d)"
      using save_config_Inr [of lib c' d2 d3] save core_fields(1) [OF core2]
      by (auto simp: join_path_def)
    then have "secrets_on_disk lib s' (with_config c' d3)"
      using disk2 core_fields(1) [OF core2] core_fields(1) [OF core3]
      by (auto simp: secrets_on_disk_def with_config_def)
    ultimately show "reconfigure_outcome lib c s c' d (commit_config c' d3)"
      using commit_config_ok [OF d3(1,2) ok(1)] token by (auto simp: reconfigure_outcome_def)
  qed
qed

lemma reconfigure_idle:
  assumes idle: "idle c s d"
  shows "reconfigure_outcome lib c s (moved c a p) d (reconfigure lib a p True d)"
proof (cases "config_ok (moved c a p)")
  case False
  then obtain e where "validate (moved c a p) = Inl e" by (cases "moved c a p" rule: validate_cases) auto
  then show ?thesis
    using idle_fields(3,6) [OF idle]
    by (simp add: reconfigure_def moved_def reconfigure_outcome_def files_back_same Let_def)
next
  case True
  then have valid: "validate (moved c a p) = Inr ()" by (simp add: validate_iff)
  have token: "parse_token (se_token s) \<noteq> None" using idle_fields(5) [OF idle] by (simp add: secrets_ok_def)
  have op: "reconfigure lib a p True d =
    st_then
          (if se_host s \<noteq> ip_to_string a
           then st_then (rotate_tls lib s a d) (\<lambda>s d. set_secrets s d)
           else (Inr (), d)) (\<lambda>_ d1. st_match (save_secrets lib d1)
          (\<lambda>e d. st_then (set_secrets s d) (\<lambda>_ d. (Inl e, d)))
          (\<lambda>_ d.
        st_match (save_config lib (moved c a p) d)
          (\<lambda>e d. st_then (set_secrets s d) (\<lambda>_ d. (Inl e, snd (save_secrets lib d))))
          (\<lambda>_ d. commit_config (moved c a p) d)))"
    using valid idle_fields(1,3,6) [OF idle] by (simp add: reconfigure_def moved_def Let_def)
  show ?thesis unfolding op
  proof (rule st_then_rule)
    fix e d1 assume "(if se_host s \<noteq> ip_to_string a
           then st_then (rotate_tls lib s a d) (\<lambda>s d. set_secrets s d)
           else (Inr (), d)) = (Inl e, d1)"
    then have "core d1 = core d \<and> files (os_world d1) = files (os_world d)"
      using quietD [OF rotate_tls_quiet [of d lib s a]] idle_fields(2) [OF idle]
      by (fastforce simp: result_simps set_secrets_def core_def split: if_splits)
    then show "reconfigure_outcome lib c s (moved c a p) d (Inl e, d1)"
      by (simp add: reconfigure_outcome_def files_back_same)
  next
    fix u d1 assume d1: "(if se_host s \<noteq> ip_to_string a
           then st_then (rotate_tls lib s a d) (\<lambda>s d. set_secrets s d)
           else (Inr (), d)) = (Inr u, d1)"
    have "\<exists>s'. core d1 = core (d\<lparr>rt_secrets := Sound s'\<rparr>) \<and> se_token s' = se_token s
        \<and> se_host s' = ip_to_string a \<and> files (os_world d1) = files (os_world d)"
    proof (cases "se_host s = ip_to_string a")
      case True
      then show ?thesis using d1 idle_fields(2) [OF idle] by (auto simp: core_def)
    next
      case False
      then obtain s' d2 where "rotate_tls lib s a d = (Inr s', d2)" "set_secrets s' d2 = (Inr u, d1)"
        using d1 by (auto simp: result_simps)
      then show ?thesis
        using rotate_tls_Inr [of lib s a d s' d2] quietD [OF rotate_tls_quiet [of d lib s a]] idle_fields(2) [OF idle]
        by (auto simp: set_secrets_def core_def intro!: exI [of _ s'] split: lock.splits)
    qed
    then obtain s' where s': "core d1 = core (d\<lparr>rt_secrets := Sound s'\<rparr>)" "se_token s' = se_token s"
      "se_host s' = ip_to_string a" "files (os_world d1) = files (os_world d)" by blast
    then have "secrets_ok (moved c a p) s'" using token by (simp add: secrets_ok_def moved_def)
    then show "reconfigure_outcome lib c s (moved c a p) d (st_match (save_secrets lib d1)
          (\<lambda>e d. st_then (set_secrets s d) (\<lambda>_ d. (Inl e, d)))
          (\<lambda>_ d.
        st_match (save_config lib (moved c a p) d)
          (\<lambda>e d. st_then (set_secrets s d) (\<lambda>_ d. (Inl e, snd (save_secrets lib d))))
          (\<lambda>_ d. commit_config (moved c a p) d)))"
      using move_outcome [OF idle s'(1,4) True] s'(2) by blast
  qed
qed

lemma reconfigure_refused:
  assumes "\<not> free \<or> rt_listener d \<noteq> None"
  shows "reconfigure lib a p free d = (Inl RuntimeError, d)"
  using assms by (auto simp: reconfigure_def)

lemma reconfigure_ends:
  assumes "daemon_inv c s d"
  shows "ends_ok (reconfigure lib a p free d)"
proof (cases "free \<and> rt_listener d = None")
  case False
  then have "reconfigure lib a p free d = (Inl RuntimeError, d)" using reconfigure_refused by blast
  then show ?thesis using assms daemon_ok_inv by auto
next
  case True
  then have idle: "idle c s d" using assms by (simp add: idle_def)
  obtain r d' where op: "reconfigure lib a p True d = (r, d')" by fastforce
  have out: "reconfigure_outcome lib c s (moved c a p) d (r, d')"
    using reconfigure_idle [OF idle, of lib a p] op by simp
  have "daemon_ok d'"
  proof (cases r)
    case (Inl e)
    then have "core d' = core d" using out by (simp add: reconfigure_outcome_def)
    then have "idle c s d'" using idle idle_core by blast
    then show ?thesis by (rule idle_ok)
  next
    case (Inr u)
    then show ?thesis using out idle_ok by (auto simp: reconfigure_outcome_def)
  qed
  then show ?thesis using True op by simp
qed

section \<open>Loading\<close>

lemma load_config_ok: "load_config lib p w = (c, w') \<Longrightarrow> config_ok c"
  by (auto simp: load_config_def default_config_ok validate_ok Let_def split: prod.splits sum.splits if_splits)

lemma load_secrets_Inr:
  assumes "load_secrets lib c d = (Inr s, d')" and "\<And>n. length (rl_random lib n) = 32"
  shows "secrets_ok c s"
proof -
  obtain s1 d1 where step: "(if parse_token (se_token s1) = None then new_secrets lib c d1
              else if se_host s1 \<noteq> ip_to_string (ac_bind_address c)
              then rotate_tls lib s1 (ac_bind_address c) d1
              else (Inr s1, d1)) = (Inr s, d')"
    using assms(1) by (auto simp: load_secrets_def Let_def st_then_Inr split: prod.splits)
  show ?thesis
  proof (cases "parse_token (se_token s1) = None")
    case True
    then show ?thesis using step new_secrets_Inr [of lib c d1 s d'] assms(2) by simp
  next
    case False
    then show ?thesis
      using step rotate_tls_Inr [of lib s1 "ac_bind_address c" d1 s d']
      by (auto simp: secrets_ok_def split: if_splits)
  qed
qed

lemma load_runtime_ok:
  assumes "load_runtime lib dir w b n = (Inr (), d)" and "\<And>n. length (rl_random lib n) = 32"
  shows "\<exists>c s. idle c s d"
proof -
  obtain base d0 where d0: "call_os (machine (join_path base ''Esp32MediaDaemon'') w b n) = (Inr (), d0)"
    and rest: "(let (config_exists, w1) = file_exists (config_path d0) (os_world d0);
              (config, w2) = load_config lib (config_path d0) w1
          in st_then (load_secrets lib config (d0\<lparr>os_world := w2\<rparr>)) (\<lambda>secrets d.
             st_then (map_err (\<lambda>_. RuntimeError) (new_dispatcher config), d) (\<lambda>dispatcher d.
             let d = d\<lparr>rt_dispatcher := dispatcher, rt_config := Sound config,
                       rt_secrets := Sound secrets, rt_listener := None\<rparr>
             in st_then (if config_exists then (Inr (), d) else save_config lib config d) (\<lambda>_ d.
                save_secrets lib d)))) = (Inr (), d)"
    using assms(1) by (auto simp: load_runtime_def st_then_Inr split: option.splits)
  obtain found w1 where found: "file_exists (config_path d0) (os_world d0) = (found, w1)" by fastforce
  obtain c w2 where c: "load_config lib (config_path d0) w1 = (c, w2)" by fastforce
  obtain s d2 dispatcher d3 where s: "load_secrets lib c (d0\<lparr>os_world := w2\<rparr>) = (Inr s, d2)"
    and dispatcher: "new_dispatcher c = Inr dispatcher"
    and d3: "(let d = d2\<lparr>rt_dispatcher := dispatcher, rt_config := Sound c,
                       rt_secrets := Sound s, rt_listener := None\<rparr>
             in if found then (Inr (), d) else save_config lib c d) = (Inr (), d3)"
    and last: "save_secrets lib d3 = (Inr (), d)"
    using rest by (auto simp: found c st_then_Inr map_err_Inr Let_def)
  have "idle c s (d2\<lparr>rt_dispatcher := dispatcher, rt_config := Sound c, rt_secrets := Sound s,
      rt_listener := None\<rparr>)"
    using load_config_ok [OF c] load_secrets_Inr [OF s assms(2)] new_dispatcher_ok [OF dispatcher]
      new_dispatcher_sound [OF dispatcher] dispatcher
    by (auto simp: idle_def daemon_inv_def new_dispatcher_def result_simps)
  then have "idle c s d3"
    using d3 save_config_idle by (auto simp: Let_def split: if_splits)
  then show ?thesis using last save_secrets_idle by blast
qed

section \<open>What a rotation leaves\<close>

text \<open>Calls leave the number of draws alone; \<open>new\_secrets\<close> draws the token second.\<close>

lemma on_world_draws: "on_world f d = (r, d') \<Longrightarrow> os_draws d' = os_draws d"
  by (auto simp: on_world_def split: prod.splits)

lemma take_and_stop_draws: "take_and_stop d = (Inr b, d') \<Longrightarrow> os_draws d' = os_draws d"
  by (auto simp: take_and_stop_def st_then_Inr dest!: on_world_draws split: option.splits)

text \<open>The secrets of a new token and new certificates.\<close>

definition issued :: "string \<Rightarrow> ip_addr \<Rightarrow> tls_material \<Rightarrow> secrets" where
  "issued token host tls =
     \<lparr>se_token = token, se_host = ip_to_string host,
      se_certificate_pem = tm_certificate_pem tls, se_server_key_pem = tm_server_private_key_pem tls,
      se_ca_certificate_pem = tm_trusted_ca_certificate_pem tls, se_ca_key_pem = tm_ca_private_key_pem tls\<rparr>"

lemma new_secrets_issued:
  "new_secrets lib c d = (Inr s, d') \<Longrightarrow>
     \<exists>tls. rl_provision lib (os_draws d) (ac_bind_address c) = Some tls
       \<and> s = issued (token_bytes (generate (rl_random lib (os_draws d + 1)))) (ac_bind_address c) tls"
  by (auto simp: new_secrets_def result_simps provision_def draw_token_def issued_def)

lemma new_secrets_token:
  "new_secrets lib c d = (Inr s, d') \<Longrightarrow> se_token s = token_bytes (generate (rl_random lib (os_draws d + 1)))"
  by (auto simp: new_secrets_def result_simps provision_def draw_token_def)

lemma rotation_installs:
  assumes idle: "idle c s d" and ok: "secrets_ok c s'" and was: "was \<Longrightarrow> ac_listener_enabled c"
    and op: "st_match (save_secrets lib (d\<lparr>rt_secrets := Sound s'\<rparr>))
          (\<lambda>_ d. st_then (set_secrets s d) (\<lambda>_ d. failed (restart was c d)))
          (\<lambda>_ d.
             if \<not> was then (Inr (), d)
             else
               st_match (start_listener c d)
                 (\<lambda>_ d. failed (store_config lib (c\<lparr>ac_listener_enabled := False\<rparr>) d))
                 (\<lambda>listener d. (Inr (), d\<lparr>rt_listener := Some listener\<rparr>))) = (Inr (), d')"
  shows "daemon_inv c s' d' \<and> secrets_on_disk lib s' d' \<and> (rt_listener d' \<noteq> None) = was"
proof -
  obtain r1 d1 where saved: "save_secrets lib (d\<lparr>rt_secrets := Sound s'\<rparr>) = (r1, d1)" by fastforce
  have bad: "failed rs \<noteq> (Inr (), d')" for rs
    using failed_snd [of "fst rs" "snd rs" "Inr ()" d'] by auto
  have r1: "r1 = Inr ()"
    using op bad by (cases r1) (auto simp: saved st_match_eq st_then_Inr)
  then have core: "core d1 = core (d\<lparr>rt_secrets := Sound s'\<rparr>)" and disk: "secrets_on_disk lib s' d1"
    using save_secrets_on_disk [of lib "d\<lparr>rt_secrets := Sound s'\<rparr>" "()" d1 s'] saved by auto
  have d1: "idle c s' d1" using idle_core [OF core] idle_secrets [OF idle ok] by blast
  show ?thesis
  proof (cases was)
    case False
    then show ?thesis using op saved r1 disk idle_fields(6,7) [OF d1] by simp
  next
    case True
    obtain r2 d2 where start: "start_listener c d1 = (r2, d2)" by fastforce
    then obtain l where r2: "r2 = Inr l" and d': "d' = d2\<lparr>rt_listener := Some l\<rparr>"
      using op saved r1 True bad by (cases r2) auto
    note q = quietD [OF start_listener_quiet start]
    have "secrets_on_disk lib s' d2"
      using secrets_on_disk_same [OF disk] q core_fields(1) [of d2 d1] by blast
    moreover have "daemon_inv c s' d'"
    proof -
      have "daemon_inv c s' d2" using daemon_inv_core idle_fields(7) [OF d1] q by blast
      moreover have "listener_ok (rt_directory d2) c s' l"
        using start_listener_Inr [OF start [unfolded r2] idle_fields(2) [OF d1] was [OF True]] q
          core_fields(1) [of d2 d1] by simp
      ultimately show ?thesis using with_listener d' by blast
    qed
    ultimately show ?thesis using True d' by (simp add: secrets_on_disk_def)
  qed
qed

lemma rotate_credentials_installs:
  assumes inv: "daemon_inv c s d" and random: "\<And>n. length (rl_random lib n) = 32"
    and op: "rotate_credentials lib d = (Inr (), d')"
  shows "\<exists>s'. se_token s' = token_bytes (generate (rl_random lib (os_draws d + 1)))
    \<and> daemon_inv c s' d' \<and> secrets_on_disk lib s' d' \<and> (rt_listener d' \<noteq> None) = (rt_listener d \<noteq> None)
    \<and> (\<exists>tls. rl_provision lib (os_draws d) (ac_bind_address c) = Some tls \<and> s' = issued (se_token s') (ac_bind_address c) tls)"
proof -
  have bad: "failed rs \<noteq> (Inr (), d')" for rs
    using failed_snd [of "fst rs" "snd rs" "Inr ()" d'] by auto
  obtain was d1 where stop: "take_and_stop d = (Inr was, d1)"
    using op by (auto simp: rotate_credentials_def Let_def st_then_Inr)
  then have d1: "idle c s d1" and was: "was = (rt_listener d \<noteq> None)" "was \<Longrightarrow> ac_listener_enabled c"
    using take_and_stop_idle [OF inv] by auto
  obtain r2 d2 where fresh: "new_secrets lib c d1 = (r2, d2)" by fastforce
  then obtain s' where r2: "r2 = Inr s'"
    using op stop bad daemon_invD(3) [OF inv] by (cases r2) (auto simp: rotate_credentials_def)
  have d2: "idle c s d2" using quiet_idle [OF new_secrets_quiet fresh d1] .
  have "daemon_inv c s' d' \<and> secrets_on_disk lib s' d' \<and> (rt_listener d' \<noteq> None) = was"
    using op stop fresh r2 daemon_invD(3) [OF inv] idle_fields(1) [OF d2] set_secrets_ok [OF idle_fields(2) [OF d2]]
    by (intro rotation_installs [OF d2 new_secrets_Inr [OF fresh [unfolded r2] random] was(2)])
      (simp_all add: rotate_credentials_def)
  then show ?thesis
    using new_secrets_issued [OF fresh [unfolded r2]] take_and_stop_draws [OF stop] was(1)
    by (intro exI [of _ s']) (auto simp: issued_def)
qed

section \<open>Properties\<close>

text \<open>C20: switching the listener fails closed: after a success the switch, the running listener and the
  stored configuration agree with what was asked; after any failure no listener runs. Either way the
  daemon is consistent.\<close>

theorem listener_fails_closed:
  assumes "daemon_inv c s d"
  shows "case set_listener lib enabled d of (r, d') \<Rightarrow>
      daemon_ok d'
    \<and> (if is_ok r
       then ac_listener_enabled (config_of d') = enabled \<and> (rt_listener d' \<noteq> None) = enabled
          \<and> (d' = d \<or> config_on_disk lib (config_of d') d')
       else rt_listener d' = None)"
  using set_listener_outcome [OF assms, of lib enabled] by (simp add: listener_outcome_def)

theorem listener_fails_closed_witness:
  "case set_listener example_lib True example_daemon of (r, d') \<Rightarrow>
      daemon_ok d'
    \<and> (if is_ok r
       then ac_listener_enabled (config_of d') = True \<and> (rt_listener d' \<noteq> None) = True
          \<and> (d' = example_daemon \<or> config_on_disk example_lib (config_of d') d')
       else rt_listener d' = None)"
  by (rule listener_fails_closed [OF example_daemon_inv])

text \<open>C21: the address and port change only while no listener runs. A success keeps the pairing token, has
  the configuration and the secrets of the new address in memory and on the disk. A failure leaves the
  daemon's memory as it was, and on the disk every file except that of the secrets, which is as it was or
  holds the same token: the secrets of before, or, when putting them back failed too, those of the new
  address.\<close>

theorem reconfigure_all_or_nothing:
  assumes "daemon_inv c s d"
  shows "case reconfigure lib a p free d of
      (Inl _, d') \<Rightarrow> core d' = core d
        \<and> (\<forall>q. q \<noteq> secrets_path d \<longrightarrow> files (os_world d') q = files (os_world d) q)
        \<and> (files (os_world d') (secrets_path d) = files (os_world d) (secrets_path d)
           \<or> (\<exists>s'. secrets_on_disk lib s' d' \<and> se_token s' = se_token s
                \<and> (s' = s \<or> se_host s' = ip_to_string a)))
    | (Inr _, d') \<Rightarrow> free \<and> rt_listener d = None \<and> rt_listener d' = None
        \<and> (let c' = c\<lparr>ac_bind_address := a, ac_port := p\<rparr> in
             config_on_disk lib c' d'
           \<and> (\<exists>s'. daemon_inv c' s' d' \<and> se_token s' = se_token s \<and> secrets_on_disk lib s' d'))"
proof (cases "free \<and> rt_listener d = None")
  case False
  then show ?thesis using reconfigure_refused [of free d lib a p] by auto
next
  case True
  then have "idle c s d" using assms by (simp add: idle_def)
  from reconfigure_idle [OF this, of lib a p] show ?thesis
    using True
    by (cases "reconfigure lib a p True d"; cases "fst (reconfigure lib a p True d)")
      (auto simp: reconfigure_outcome_def files_back_def idle_def moved_def)
qed

text \<open>
  A change of the address that succeeds, and one in which the configuration cannot be stored, and
  neither can the old secrets afterwards: the four calls of the first store of the secrets succeed,
  those of the configuration and the second store fail at once.
\<close>

lemma example_move:
  "\<exists>d'. reconfigure example_lib (V4 127 0 0 1) 9000 True example_daemon = (Inr (), d')"
  "\<exists>e d'. reconfigure example_lib (V4 127 0 0 1) 9000 True
     (example_daemon\<lparr>os_world := \<lparr>files = Map.empty, answers = [None, None, None, None, Some OtherIo, Some OtherIo]\<rparr>\<rparr>) = (Inl e, d')"
proof -
  have crypt: "protect (\<lambda>encrypt text. Some text) ''s'' = Some ''s''"
    by (simp add: protect_def transform_def u32_max_def)
  have valid: "validate (example_published\<lparr>ac_bind_address := V4 127 0 0 1, ac_port := 9000\<rparr>) = Inr ()" by code_simp
  show "\<exists>d'. reconfigure example_lib (V4 127 0 0 1) 9000 True example_daemon = (Inr (), d')"
    using example_paths crypt valid
    by (simp add: reconfigure_def example_daemon_def example_lib_def config_of_def provision_def rotate_tls_def
        set_secrets_def save_secrets_def save_config_def save_def on_world_def atomic_write_def io_step_quiet
        commit_config_def replace_config_def replace_config_admit_def replace_config_commit_def
        example_dispatcher_def Let_def)
  show "\<exists>e d'. reconfigure example_lib (V4 127 0 0 1) 9000 True
     (example_daemon\<lparr>os_world := \<lparr>files = Map.empty, answers = [None, None, None, None, Some OtherIo, Some OtherIo]\<rparr>\<rparr>) = (Inl e, d')"
    using example_paths crypt valid
    by (simp add: reconfigure_def example_daemon_def example_lib_def config_of_def provision_def rotate_tls_def
        set_secrets_def save_secrets_def save_config_def save_def on_world_def atomic_write_def io_step_def ask_def Let_def)
qed

theorem reconfigure_all_or_nothing_witness:
  "(\<exists>d'. reconfigure example_lib (V4 127 0 0 1) 9000 True example_daemon = (Inr (), d')
      \<and> config_on_disk example_lib (example_published\<lparr>ac_bind_address := V4 127 0 0 1, ac_port := 9000\<rparr>) d')
   \<and> (\<exists>e d'. reconfigure example_lib (V4 127 0 0 1) 9000 True
        (example_daemon\<lparr>os_world := \<lparr>files = Map.empty, answers = [None, None, None, None, Some OtherIo, Some OtherIo]\<rparr>\<rparr>)
          = (Inl e, d') \<and> core d' = core example_daemon)"
proof -
  let ?d = "example_daemon\<lparr>os_world := \<lparr>files = Map.empty, answers = [None, None, None, None, Some OtherIo, Some OtherIo]\<rparr>\<rparr>"
  obtain d1 where d1: "reconfigure example_lib (V4 127 0 0 1) 9000 True example_daemon = (Inr (), d1)"
    using example_move(1) by blast
  obtain e d2 where d2: "reconfigure example_lib (V4 127 0 0 1) 9000 True ?d = (Inl e, d2)" using example_move(2) by blast
  have "daemon_inv example_published example_secrets ?d" using example_daemon_inv by (simp add: daemon_inv_def)
  from reconfigure_all_or_nothing [OF this, where lib = example_lib and a = "V4 127 0 0 1" and p = 9000 and free = True]
    reconfigure_all_or_nothing [OF example_daemon_inv, where lib = example_lib and a = "V4 127 0 0 1" and p = 9000 and free = True]
  show ?thesis using d1 d2 by (simp add: Let_def)
qed

text \<open>C22: a rotation that succeeds has replaced all of the credentials: the token is the one drawn last,
  and certificate, key, authority and its key are the ones issued by this rotation for the bound address.
  They are in memory and on the disk, and a listener that ran before, and only such a one, runs with this
  token, certificate and key.\<close>

theorem rotation_replaces_credentials:
  assumes "daemon_inv c s d" and "\<And>n. length (rl_random lib n) = 32"
    and "rotate_credentials lib d = (Inr (), d')"
  shows "\<exists>s' tls. se_token s' = token_bytes (generate (rl_random lib (os_draws d + 1)))
    \<and> rl_provision lib (os_draws d) (ac_bind_address c) = Some tls
    \<and> se_certificate_pem s' = tm_certificate_pem tls \<and> se_server_key_pem s' = tm_server_private_key_pem tls
    \<and> se_ca_certificate_pem s' = tm_trusted_ca_certificate_pem tls \<and> se_ca_key_pem s' = tm_ca_private_key_pem tls
    \<and> se_host s' = ip_to_string (ac_bind_address c)
    \<and> rt_secrets d' = Sound s' \<and> secrets_on_disk lib s' d'
    \<and> (rt_listener d' \<noteq> None) = (rt_listener d \<noteq> None)
    \<and> (\<forall>l. rt_listener d' = Some l \<longrightarrow> parse_token (se_token s') = Some (ln_token l)
         \<and> ln_certificate l = tm_certificate_pem tls \<and> ln_key l = tm_server_private_key_pem tls)"
proof -
  from rotate_credentials_installs [OF assms] obtain s' tls where
    s': "se_token s' = token_bytes (generate (rl_random lib (os_draws d + 1)))" "daemon_inv c s' d'"
      "secrets_on_disk lib s' d'" "(rt_listener d' \<noteq> None) = (rt_listener d \<noteq> None)"
    and tls: "rl_provision lib (os_draws d) (ac_bind_address c) = Some tls"
      "s' = issued (se_token s') (ac_bind_address c) tls"
    by blast
  have made: "se_certificate_pem s' = tm_certificate_pem tls" "se_server_key_pem s' = tm_server_private_key_pem tls"
    "se_ca_certificate_pem s' = tm_trusted_ca_certificate_pem tls" "se_ca_key_pem s' = tm_ca_private_key_pem tls"
    "se_host s' = ip_to_string (ac_bind_address c)"
    using arg_cong [OF tls(2), of se_certificate_pem] arg_cong [OF tls(2), of se_server_key_pem]
      arg_cong [OF tls(2), of se_ca_certificate_pem] arg_cong [OF tls(2), of se_ca_key_pem]
      arg_cong [OF tls(2), of se_host] by (simp_all add: issued_def)
  have "parse_token (se_token s') = Some (ln_token l) \<and> ln_certificate l = tm_certificate_pem tls
      \<and> ln_key l = tm_server_private_key_pem tls" if "rt_listener d' = Some l" for l
    using daemon_invD(7) [OF s'(2)] that made by (simp add: listener_ok_def)
  then show ?thesis using s' tls(1) made daemon_invD(2) [OF s'(2)] by blast
qed

lemma example_rotation: "\<exists>d'. rotate_credentials example_lib example_daemon = (Inr (), d')"
proof -
  have "protect (rl_crypt example_lib) ''s'' = Some ''s''"
    by (simp add: protect_def transform_def example_lib_def u32_max_def)
  then have crypt: "protect (\<lambda>encrypt text. Some text) ''s'' = Some ''s''" by (simp add: example_lib_def)
  show ?thesis
    using example_paths crypt
    by (simp add: rotate_credentials_def take_and_stop_def example_daemon_def example_lib_def new_secrets_def
        provision_def draw_token_def set_secrets_def save_secrets_def on_world_def atomic_write_def io_step_quiet
        config_of_def Let_def)
qed

theorem rotation_replaces_credentials_witness:
  "\<exists>d' s'. rotate_credentials example_lib example_daemon = (Inr (), d')
    \<and> rt_secrets d' = Sound s' \<and> se_token s' = token_bytes (generate (replicate 32 0))"
proof -
  obtain d' where op: "rotate_credentials example_lib example_daemon = (Inr (), d')"
    using example_rotation by blast
  have random: "\<And>n. length (rl_random example_lib n) = 32" and zero: "\<And>n. rl_random example_lib n = replicate 32 0"
    by (simp_all add: example_lib_def)
  from rotation_replaces_credentials [OF example_daemon_inv random op] op show ?thesis
    unfolding zero by blast
qed

text \<open>After a shutdown no listener runs, whether or not stopping it reported an error.\<close>

theorem shutdown_stops_listener:
  assumes "daemon_inv c s d"
  shows "rt_listener (snd (shutdown d)) = None \<and> daemon_inv c s (snd (shutdown d))"
  using shutdown_ends [OF assms] by (simp add: idle_def)

theorem shutdown_stops_listener_witness:
  "rt_listener (snd (shutdown example_daemon)) = None"
  using shutdown_stops_listener [OF example_daemon_inv] by simp

end
