(* ===== verification/Daemon_Executor.thy ===== *)
theory Daemon_Executor
  imports Daemon_Dispatch
begin

text \<open>
  The Windows executor (daemon/src/adapters/windows\_executor.rs): the three semaphores of one
  permit that keep actions from overlapping, the command lines of programs and scripts, and the
  life of a script's process.

  The state holds the semaphores, what is under way (the watched scripts, and the media commands and
  elevated launches of the blocking tasks), the log of what was done to the machine, and the answers
  that Windows and the task runtime give: \<open>wx_answers\<close> for the calls (success when used up),
  \<open>wx_inputs\<close> for how many events \<open>SendInput\<close> inserts (all when used up), \<open>wx_ends\<close> for how an
  awaited blocking task ends (finished when used up). What is under way are lists, so that nothing but
  the semaphores keeps two from running at once; a media command and an elevated launch begin and end
  in separate steps.
  Strings handed to Windows are kept as they are before their conversion to UTF-16; the
  terminating zero is written out.
\<close>

section \<open>Commands\<close>

record process_command =
  pc_program :: path
  pc_args :: "string list"
  pc_raw_arg :: "string option"
  pc_null_stdio :: bool
  pc_dir :: "path option"
  pc_no_window :: bool

definition base_command :: "path \<Rightarrow> string list \<Rightarrow> path option \<Rightarrow> process_command" where
  "base_command program args working_dir =
     \<lparr>pc_program = program, pc_args = args, pc_raw_arg = None, pc_null_stdio = True,
      pc_dir = working_dir, pc_no_window = True\<rparr>"

definition cmd_literal :: "string \<Rightarrow> (executor_error, string) result" where
  "cmd_literal v = (if is_safe_batch_literal v then Inr v else Inl ExFailed)"

fun cmd_literals :: "string list \<Rightarrow> (executor_error, string list) result" where
  "cmd_literals [] = Inr []"
| "cmd_literals (a # as) =
     and_then (cmd_literal a) (\<lambda>b. and_then (cmd_literals as) (\<lambda>bs. Inr (b # bs)))"

definition quoted :: "string \<Rightarrow> string" where
  "quoted s = [CHR 0x22] @ s @ [CHR 0x22]"

definition batch_command_line :: "string \<Rightarrow> string list \<Rightarrow> string" where
  "batch_command_line script args =
     ''call '' @ quoted script @ concat (map (\<lambda>argument. '' '' @ quoted argument) args)"

fun script_command :: "configured_action \<Rightarrow> (executor_error, process_command) result" where
  "script_command (Batch script args working_dir) =
     and_then (ok_or ExFailed (path_to_str script)) (\<lambda>script.
     and_then (cmd_literal script) (\<lambda>script.
     and_then (cmd_literals args) (\<lambda>arguments.
       Inr \<lparr>pc_program = ''cmd.exe'',
            pc_args = [''/D'', ''/V:OFF'', ''/S'', ''/C''],
            pc_raw_arg = Some ('' '' @ quoted (batch_command_line script arguments)),
            pc_null_stdio = True, pc_dir = working_dir, pc_no_window = True\<rparr>)))"
| "script_command (PowerShell interpreter script args working_dir) =
     (if \<not> path_is_absolute script \<or> \<not> path_is_absolute interpreter \<or> \<not> extension_is ''ps1'' script
      then Inl ExFailed
      else
        let command = base_command interpreter [] working_dir in
          Inr (command\<lparr>pc_args := pc_args command
                 @ [''-NoProfile'', ''-NonInteractive'', ''-ExecutionPolicy'', ''Bypass'', ''-File'']
                 @ [script] @ args\<rparr>))"
| "script_command (Media command) = Inl ExFailed"
| "script_command (Launch program args working_dir run_as_admin) = Inl ExFailed"

text \<open>\<open>quote_windows_argument\<close>: the loop over the characters, with the pending backslashes.\<close>

fun quote_loop :: "nat \<Rightarrow> string \<Rightarrow> string" where
  "quote_loop backslashes [] = replicate (backslashes * 2) (CHR 0x5C) @ [CHR 0x22]"
| "quote_loop backslashes (c # s) =
     (if c = CHR 0x5C then quote_loop (backslashes + 1) s
      else if c = CHR 0x22
      then replicate (backslashes * 2 + 1) (CHR 0x5C) @ [CHR 0x22] @ quote_loop 0 s
      else replicate backslashes (CHR 0x5C) @ [c] @ quote_loop 0 s)"

definition quote_windows_argument :: "string \<Rightarrow> string" where
  "quote_windows_argument argument = [CHR 0x22] @ quote_loop 0 argument"

section \<open>The machine\<close>

datatype media_key = VK_MEDIA_PLAY_PAUSE | VK_MEDIA_NEXT_TRACK | VK_MEDIA_PREV_TRACK

datatype machine_effect =
    Spawned process_command
  | Elevated string "string option" "string option"
  | KeyDown media_key
  | KeyUp media_key
  | Muted bool
  | KilledTree process_command

record os_error =
  er_code :: u32
  er_message :: string

datatype task_end = Finished | TaskFailed | TimedOut

record semaphore =
  sm_permits :: nat
  sm_held :: nat

record windows_executor =
  wx_scripts :: semaphore
  wx_native :: semaphore
  wx_elevated :: semaphore
  wx_running :: "process_command list"
  wx_media :: "media_command list"
  wx_prompts :: "(path \<times> string list \<times> path option) list"
  wx_log :: "machine_effect list"
  wx_answers :: "os_error option list"
  wx_inputs :: "nat list"
  wx_ends :: "task_end list"

definition semaphore_new :: "nat \<Rightarrow> semaphore" where
  "semaphore_new permits = \<lparr>sm_permits = permits, sm_held = 0\<rparr>"

definition PERMITS :: nat where "PERMITS = 1"

definition try_acquire :: "semaphore \<Rightarrow> semaphore option" where
  "try_acquire m =
     (if sm_permits m = 0 then None
      else Some (m\<lparr>sm_permits := sm_permits m - 1, sm_held := sm_held m + 1\<rparr>))"

definition drop_permit :: "semaphore \<Rightarrow> semaphore" where
  "drop_permit m =
     (if sm_held m = 0 then m else m\<lparr>sm_permits := sm_permits m + 1, sm_held := sm_held m - 1\<rparr>)"

definition default_executor :: "os_error option list \<Rightarrow> nat list \<Rightarrow> task_end list \<Rightarrow> windows_executor" where
  "default_executor os_answers inputs ends =
     \<lparr>wx_scripts = semaphore_new PERMITS, wx_native = semaphore_new PERMITS, wx_elevated = semaphore_new PERMITS,
      wx_running = [], wx_media = [], wx_prompts = [],
      wx_log = [], wx_answers = os_answers, wx_inputs = inputs, wx_ends = ends\<rparr>"

text \<open>A call of Windows: the effect is logged when it succeeds.\<close>

definition os_call ::
  "machine_effect option \<Rightarrow> windows_executor \<Rightarrow> (os_error, unit) result \<times> windows_executor" where
  "os_call effect x =
     (let done_x = (case effect of None \<Rightarrow> x | Some e \<Rightarrow> x\<lparr>wx_log := wx_log x @ [e]\<rparr>) in
        case wx_answers x of
          [] \<Rightarrow> (Inr (), done_x)
        | None # as \<Rightarrow> (Inr (), done_x\<lparr>wx_answers := as\<rparr>)
        | Some e # as \<Rightarrow> (Inl e, x\<lparr>wx_answers := as\<rparr>))"

text \<open>\<open>SendInput\<close> inserts the first of the given events, and returns how many.\<close>

definition send_input :: "machine_effect list \<Rightarrow> windows_executor \<Rightarrow> nat \<times> windows_executor" where
  "send_input inputs x =
     (let (n, ns) = (case wx_inputs x of [] \<Rightarrow> (length inputs, []) | n # ns \<Rightarrow> (min n (length inputs), ns))
      in (n, x\<lparr>wx_inputs := ns, wx_log := wx_log x @ take n inputs\<rparr>))"

definition task_ends :: "windows_executor \<Rightarrow> task_end \<times> windows_executor" where
  "task_ends x =
     (case wx_ends x of [] \<Rightarrow> (Finished, x) | e # es \<Rightarrow> (e, x\<lparr>wx_ends := es\<rparr>))"

section \<open>Media commands\<close>

fun media_key_for_command :: "media_command \<Rightarrow> media_key option" where
  "media_key_for_command Play = Some VK_MEDIA_PLAY_PAUSE"
| "media_key_for_command Pause = Some VK_MEDIA_PLAY_PAUSE"
| "media_key_for_command Next = Some VK_MEDIA_NEXT_TRACK"
| "media_key_for_command Previous = Some VK_MEDIA_PREV_TRACK"
| "media_key_for_command Mute = None"
| "media_key_for_command Unmute = None"

definition failed_call :: "os_error \<Rightarrow> executor_error" where
  "failed_call e = ExFailed"

definition send_media_key ::
  "media_key \<Rightarrow> windows_executor \<Rightarrow> (executor_error, unit) result \<times> windows_executor" where
  "send_media_key key x =
     (let inputs = [KeyDown key, KeyUp key];
          (inserted, x) = send_input inputs x
      in (if inserted = length inputs then Inr () else Inl ExFailed, x))"

definition set_default_output_mute ::
  "bool \<Rightarrow> windows_executor \<Rightarrow> (executor_error, unit) result \<times> windows_executor" where
  "set_default_output_mute muted x =
     st_then (st_map_err failed_call (os_call None x)) (\<lambda>_ x.    \<comment> \<open>CoCreateInstance\<close>
     st_then (st_map_err failed_call (os_call None x)) (\<lambda>_ x.    \<comment> \<open>GetDefaultAudioEndpoint\<close>
     st_then (st_map_err failed_call (os_call None x)) (\<lambda>_ x.    \<comment> \<open>Activate\<close>
     st_map_err failed_call (os_call (Some (Muted muted)) x))))"

definition execute_media ::
  "media_command \<Rightarrow> windows_executor \<Rightarrow> (executor_error, unit) result \<times> windows_executor" where
  "execute_media command x =
     st_then (st_map_err failed_call (os_call None x)) (\<lambda>_ x.    \<comment> \<open>RoInitialize\<close>
     if command = Mute \<or> command = Unmute then set_default_output_mute (command = Mute) x
     else
       st_then (ok_or ExFailed (media_key_for_command command), x) (\<lambda>key x. send_media_key key x))"

section \<open>Launches\<close>

definition HRESULT_CANCELLED :: u32 where "HRESULT_CANCELLED = 0x800704C7"

definition hex_upper :: "nat \<Rightarrow> char" where
  "hex_upper d = ''0123456789ABCDEF'' ! d"

definition show_hresult :: "u32 \<Rightarrow> string" where
  "show_hresult code = map (\<lambda>k. hex_upper (unat code div 16 ^ k mod 16)) (rev [0..<8])"

definition map_runas_error :: "os_error \<Rightarrow> executor_error" where
  "map_runas_error e =
     (if er_code e = HRESULT_CANCELLED then ExCancelled
      else ExFailedWithReason (''Windows ShellExecuteEx failed (HRESULT 0x'' @ show_hresult (er_code e)
             @ ''): '' @ er_message e))"

definition wide_os_string :: "path \<Rightarrow> (executor_error, string) result" where
  "wide_os_string v =
     (if CHR 0x00 \<in> set v then Inl (ExFailedWithReason ''Path contains an invalid null character'')
      else Inr (v @ [CHR 0x00]))"

definition wide_string :: "string \<Rightarrow> string" where
  "wide_string v = v @ [CHR 0x00]"

definition launch_elevated ::
  "path \<Rightarrow> string list \<Rightarrow> path option \<Rightarrow> windows_executor
   \<Rightarrow> (executor_error, unit) result \<times> windows_executor" where
  "launch_elevated program args working_dir x =
     (if \<not> extension_is ''exe'' program \<or> list_ex (\<lambda>argument. CHR 0x00 \<in> set argument) args
      then (Inl (ExFailedWithReason ''Invalid executable path or arguments''), x)
      else
        st_then (wide_os_string program, x) (\<lambda>file x.
        let parameters =
          (if args = [] then None
           else Some (wide_string (join '' '' (map quote_windows_argument args)))) in
        st_then
          (case working_dir of
             None \<Rightarrow> (Inr None, x)
           | Some p \<Rightarrow> (and_then (wide_os_string p) (\<lambda>v. Inr (Some v)), x)) (\<lambda>directory x.
        st_map_err map_runas_error (os_call (Some (Elevated file parameters directory)) x))))"

section \<open>execute\<close>

text \<open>
  A permit moves into the blocking task and is dropped when the task ends. A task that failed has
  not run its closure. \<open>native_ends\<close> and \<open>elevated_ends\<close> are the tasks, with the answer for whoever
  still awaits it.
\<close>

definition native_begins ::
  "media_command \<Rightarrow> windows_executor \<Rightarrow> (executor_error, unit) result \<times> windows_executor" where
  "native_begins command x =
     (case try_acquire (wx_native x) of
        None \<Rightarrow> (Inl ExBusy, x)
      | Some m \<Rightarrow> (Inr (), x\<lparr>wx_native := m, wx_media := command # wx_media x\<rparr>))"

definition native_ends ::
  "task_end \<Rightarrow> media_command \<Rightarrow> windows_executor \<Rightarrow> (executor_error, unit) result \<times> windows_executor" where
  "native_ends e command x =
     (let (r, x) = (if e = Finished then execute_media command x else (Inl ExFailed, x))
      in (r, x\<lparr>wx_native := drop_permit (wx_native x), wx_media := remove1 command (wx_media x)\<rparr>))"

definition execute_native ::
  "media_command \<Rightarrow> windows_executor \<Rightarrow> (executor_error, unit) result \<times> windows_executor" where
  "execute_native command x =
     st_then (native_begins command x) (\<lambda>_ x.
       let (e, x) = task_ends x in native_ends e command x)"

definition elevated_begins ::
  "path \<Rightarrow> string list \<Rightarrow> path option \<Rightarrow> windows_executor
   \<Rightarrow> (executor_error, unit) result \<times> windows_executor" where
  "elevated_begins program args working_dir x =
     (case try_acquire (wx_elevated x) of
        None \<Rightarrow> (Inl ExBusy, x)
      | Some m \<Rightarrow>
          (Inr (), x\<lparr>wx_elevated := m, wx_prompts := (program, args, working_dir) # wx_prompts x\<rparr>))"

definition elevated_ends ::
  "task_end \<Rightarrow> path \<Rightarrow> string list \<Rightarrow> path option \<Rightarrow> windows_executor
   \<Rightarrow> (executor_error, unit) result \<times> windows_executor" where
  "elevated_ends e program args working_dir x =
     (let (r, x) =
            (if e = Finished then launch_elevated program args working_dir x
             else (Inl (ExFailedWithReason ''Elevated launch task failed''), x))
      in (r, x\<lparr>wx_elevated := drop_permit (wx_elevated x),
                wx_prompts := remove1 (program, args, working_dir) (wx_prompts x)\<rparr>))"

text \<open>After twenty seconds the answer is no longer waited for, and the task goes on with its permit.\<close>

definition execute_elevated ::
  "path \<Rightarrow> string list \<Rightarrow> path option \<Rightarrow> windows_executor
   \<Rightarrow> (executor_error, unit) result \<times> windows_executor" where
  "execute_elevated program args working_dir x =
     st_then (elevated_begins program args working_dir x) (\<lambda>_ x.
       let (e, x) = task_ends x in
         if e = TimedOut then (Inl (ExFailedWithReason ''UAC launch timed out''), x)
         else elevated_ends e program args working_dir x)"

definition spawn_error :: "string \<Rightarrow> os_error \<Rightarrow> executor_error" where
  "spawn_error what e = ExFailedWithReason (what @ er_message e)"

definition execute_script ::
  "configured_action \<Rightarrow> windows_executor \<Rightarrow> (executor_error, unit) result \<times> windows_executor" where
  "execute_script action x =
     (case try_acquire (wx_scripts x) of
        None \<Rightarrow> (Inl ExBusy, x)
      | Some m \<Rightarrow>
          (case script_command action of
             Inl e \<Rightarrow> (Inl e, x)
           | Inr command \<Rightarrow>
               st_then
                 (st_map_err (spawn_error ''Could not start configured script: '')
                   (os_call (Some (Spawned command)) x))
                 (\<lambda>_ x. (Inr (), x\<lparr>wx_scripts := m, wx_running := command # wx_running x\<rparr>))))"

fun execute :: "windows_executor executor" where
  "execute (Media command) x = execute_native command x"
| "execute (Launch program args working_dir run_as_admin) x =
     (if run_as_admin then execute_elevated program args working_dir x
      else
        st_map_err (spawn_error ''Could not start application: '')
          (os_call (Some (Spawned (base_command program args working_dir))) x))"
| "execute (Batch script args working_dir) x = execute_script (Batch script args working_dir) x"
| "execute (PowerShell interpreter script args working_dir) x =
     execute_script (PowerShell interpreter script args working_dir) x"

text \<open>
  The task that watches a script: the process ended, could not be waited for, or exceeded sixty
  seconds; in the last two cases its process tree is killed. Then the permit is dropped.
\<close>

datatype script_end = Exited bool | WaitFailed | Overdue

definition script_ends :: "script_end \<Rightarrow> process_command \<Rightarrow> windows_executor \<Rightarrow> windows_executor" where
  "script_ends e command x =
     (let x = (case e of Exited success \<Rightarrow> x | _ \<Rightarrow> snd (os_call (Some (KilledTree command)) x))
      in x\<lparr>wx_scripts := drop_permit (wx_scripts x), wx_running := remove1 command (wx_running x)\<rparr>)"

section \<open>The semaphores\<close>

interpretation permits: permit_pool try_acquire drop_permit sm_permits sm_held PERMITS
proof unfold_locales
  fix p q
  show "try_acquire p = None \<longleftrightarrow> sm_permits p = 0" by (simp add: try_acquire_def)
  show "try_acquire p = Some q \<Longrightarrow> sm_permits p = Suc (sm_permits q) \<and> sm_held q = Suc (sm_held p)"
    by (auto simp: try_acquire_def split: if_splits)
  show "sm_held p = 0 \<Longrightarrow> drop_permit p = p" by (simp add: drop_permit_def)
  show "0 < sm_held p \<Longrightarrow>
      sm_permits (drop_permit p) = Suc (sm_permits p) \<and> sm_held p = Suc (sm_held (drop_permit p))"
    by (simp add: drop_permit_def)
qed

section \<open>Arguments on a Windows command line\<close>

text \<open>
  The specification of the quoting: how a started program splits its command line, by the rules
  Microsoft documents for \<open>CommandLineToArgvW\<close> and the C run time. Before a quote, two
  backslashes stand for one, and an odd one left over makes the quote a character of the
  argument; a quote otherwise opens or closes a quoted part; blanks outside it end the argument.
\<close>

definition is_blank :: "char \<Rightarrow> bool" where
  "is_blank c \<longleftrightarrow> c = CHR '' '' \<or> c = CHR 0x09"

fun arg_run :: "bool \<Rightarrow> nat \<Rightarrow> string \<Rightarrow> string \<times> string" where
  "arg_run q n [] = (replicate n (CHR 0x5C), [])"
| "arg_run q n (c # s) =
     (if c = CHR 0x5C then arg_run q (Suc n) s
      else if c = CHR 0x22
      then
        if even n then apfst ((@) (replicate (n div 2) (CHR 0x5C))) (arg_run (\<not> q) 0 s)
        else apfst ((@) (replicate (n div 2) (CHR 0x5C) @ [CHR 0x22])) (arg_run q 0 s)
      else if is_blank c \<and> \<not> q then (replicate n (CHR 0x5C), c # s)
      else apfst ((@) (replicate n (CHR 0x5C) @ [c])) (arg_run q 0 s))"

lemma arg_run_rest: "length (snd (arg_run q n s)) \<le> length s"
  by (induction q n s rule: arg_run.induct) auto

function argv :: "string \<Rightarrow> string list" where
  "argv [] = []"
| "argv (c # s) =
     (if is_blank c then argv s
      else let (a, rest) = arg_run False 0 (c # s) in a # argv rest)"
  by pat_completeness auto
termination
proof (relation "measure length")
  fix c s x a rest
  assume "\<not> is_blank c" and "x = arg_run False 0 (c # s)" and "(a, rest) = x"
  then have "rest = snd (arg_run False 0 (c # s))" by (metis snd_conv)
  then have "length rest \<le> length s"
    using \<open>\<not> is_blank c\<close> arg_run_rest by auto
  then show "(rest, c # s) \<in> measure length" by simp
qed auto

lemma arg_run_backslashes:
  "arg_run q n (replicate m (CHR 0x5C) @ s) = arg_run q (n + m) s"
  by (induction m arbitrary: n) auto

lemma arg_run_quote_loop:
  assumes "rest = [] \<or> is_blank (hd rest)"
  shows "arg_run True 0 (quote_loop n s @ rest) = (replicate n (CHR 0x5C) @ s, rest)"
proof (induction n s rule: quote_loop.induct)
  case (1 n)
  have "arg_run False 0 rest = ([], rest)" using assms by (cases rest) (auto simp: is_blank_def)
  then show ?case by (simp add: arg_run_backslashes)
next
  case (2 n c s)
  have shift: "replicate (Suc n) (CHR 0x5C) @ s = replicate n (CHR 0x5C) @ CHR 0x5C # s"
    by (simp add: replicate_app_Cons_same)
  show ?case using 2 shift by (auto simp: arg_run_backslashes simp del: replicate_Suc)
qed

lemma argv_quoted:
  assumes "rest = [] \<or> is_blank (hd rest)"
  shows "argv (quote_windows_argument a @ rest) = a # argv rest"
  using arg_run_quote_loop [OF assms, of 0 a] by (simp add: quote_windows_argument_def is_blank_def)

lemma argv_join_quoted: "argv (join '' '' (map quote_windows_argument args)) = args"
proof (induction args)
  case (Cons a as)
  show ?case
  proof (cases as)
    case Nil
    then show ?thesis using argv_quoted [of "[]" a] by simp
  next
    case (Cons b bs)
    let ?tail = "join '' '' (map quote_windows_argument as)"
    have "join '' '' (map quote_windows_argument (a # as)) = quote_windows_argument a @ '' '' @ ?tail"
      using Cons by simp
    moreover have "argv (quote_windows_argument a @ '' '' @ ?tail) = a # argv ('' '' @ ?tail)"
      by (rule argv_quoted) (simp add: is_blank_def)
    moreover have "argv ('' '' @ ?tail) = as" using Cons.IH \<open>argv ?tail = as\<close> by (simp add: is_blank_def)
    ultimately show ?thesis by simp
  qed
qed simp

section \<open>Batch command lines\<close>

lemma cmd_literals_Inr: "cmd_literals as = Inr bs \<longleftrightarrow> bs = as \<and> list_all is_safe_batch_literal as"
  by (induction as arbitrary: bs) (auto simp: result_simps cmd_literal_def split: if_splits)

lemma safe_literal_no_quote: "is_safe_batch_literal v \<Longrightarrow> c \<in> set v \<Longrightarrow> c \<noteq> CHR 0x22"
  using safe_batch_byte(1) [of v c] by (auto simp: cmd_metacharacters_def)

text \<open>Splitting the command line at its quotes gives back the script and the arguments.\<close>

abbreviation at_quotes :: "string \<Rightarrow> string list" where
  "at_quotes \<equiv> split_by (\<lambda>c. c = CHR 0x22)"

lemma at_quotes_quoted:
  "is_safe_batch_literal v \<Longrightarrow> at_quotes (v @ CHR 0x22 # rest) = v # at_quotes rest"
  by (rule split_by_append_sep) (auto dest: safe_literal_no_quote)

lemma at_quotes_arguments:
  "list_all is_safe_batch_literal args \<Longrightarrow>
     at_quotes (concat (map (\<lambda>a. CHR '' '' # quoted a) args)) = concat (map (\<lambda>a. ['' '', a]) args) @ [[]]"
proof (induction args)
  case (Cons a args)
  then have "at_quotes (a @ CHR 0x22 # concat (map (\<lambda>a. CHR '' '' # quoted a) args)) =
      a # concat (map (\<lambda>a. ['' '', a]) args) @ [[]]"
    by (simp add: at_quotes_quoted)
  then show ?case by (simp add: quoted_def)
qed simp

lemma at_quotes_batch:
  assumes "is_safe_batch_literal script" and "list_all is_safe_batch_literal args"
  shows "at_quotes (batch_command_line script args) =
    [''call '', script] @ concat (map (\<lambda>a. ['' '', a]) args) @ [[]]"
proof -
  have "at_quotes (script @ CHR 0x22 # concat (map (\<lambda>a. CHR '' '' # quoted a) args)) =
      script # concat (map (\<lambda>a. ['' '', a]) args) @ [[]]"
    using assms by (simp add: at_quotes_quoted at_quotes_arguments)
  then show ?thesis by (simp add: batch_command_line_def quoted_def)
qed

lemma batch_line_bytes:
  assumes "is_safe_batch_literal script" and "list_all is_safe_batch_literal args"
    and "c \<in> set (batch_command_line script args)" and "c \<noteq> CHR 0x22"
  shows "c \<notin> cmd_metacharacters"
proof -
  have "c \<in> set ''call '' \<union> set script \<union> {CHR '' ''} \<union> \<Union> (set ` set args)"
    using assms(3,4) by (auto simp: batch_command_line_def quoted_def split: if_splits)
  then show ?thesis
    using assms(1,2) safe_batch_byte(1)
    by (auto simp: list_all_iff) (auto simp: cmd_metacharacters_def)
qed

section \<open>The executor's runs\<close>

text \<open>
  An action begins, with what is done before the first await; a media command's task, an elevated
  launch's or a script ends. Beginnings and endings of different actions interleave freely.
\<close>

definition begins ::
  "configured_action \<Rightarrow> windows_executor \<Rightarrow> (executor_error, unit) result \<times> windows_executor" where
  "begins action x =
     (case action of
        Media command \<Rightarrow> native_begins command x
      | Launch program args working_dir run_as_admin \<Rightarrow>
          if run_as_admin then elevated_begins program args working_dir x else execute action x
      | _ \<Rightarrow> execute action x)"

datatype executor_op =
    Begins configured_action
  | MediaEnds task_end media_command
  | LaunchEnds task_end path "string list" "path option"
  | ScriptEnds script_end process_command

fun executor_step :: "windows_executor \<Rightarrow> executor_op \<Rightarrow> windows_executor" where
  "executor_step x (Begins action) = snd (begins action x)"
| "executor_step x (MediaEnds e command) =
     (if command \<in> set (wx_media x) then snd (native_ends e command x) else x)"
| "executor_step x (LaunchEnds e program args working_dir) =
     (if (program, args, working_dir) \<in> set (wx_prompts x)
      then snd (elevated_ends e program args working_dir x) else x)"
| "executor_step x (ScriptEnds e command) =
     (if command \<in> set (wx_running x) then script_ends e command x else x)"

text \<open>A semaphore of one permit that the given tasks hold.\<close>

definition occupied :: "semaphore \<Rightarrow> 'a list \<Rightarrow> bool" where
  "occupied m tasks \<longleftrightarrow> sm_permits m + length tasks = 1 \<and> sm_held m = length tasks"

lemma occupied_busy: "occupied m tasks \<Longrightarrow> try_acquire m = None \<longleftrightarrow> tasks \<noteq> []"
  by (cases tasks) (auto simp: occupied_def permits.acquire_None)

lemma occupied_acquire: "occupied m tasks \<Longrightarrow> try_acquire m = Some m' \<Longrightarrow> occupied m' (t # tasks)"
  using permits.acquire_Some [of m m'] by (simp add: occupied_def)

lemma occupied_drop: "occupied m tasks \<Longrightarrow> t \<in> set tasks \<Longrightarrow> occupied (drop_permit m) (remove1 t tasks)"
  by (cases tasks) (auto simp: occupied_def drop_permit_def)

definition executor_ok :: "windows_executor \<Rightarrow> bool" where
  "executor_ok x \<longleftrightarrow>
     occupied (wx_scripts x) (wx_running x) \<and> occupied (wx_native x) (wx_media x)
   \<and> occupied (wx_elevated x) (wx_prompts x)"

text \<open>The calls of Windows leave the semaphores and their tasks alone.\<close>

definition slots :: "windows_executor \<Rightarrow> semaphore \<times> semaphore \<times> semaphore
    \<times> process_command list \<times> media_command list \<times> (path \<times> string list \<times> path option) list" where
  "slots x = (wx_scripts x, wx_native x, wx_elevated x, wx_running x, wx_media x, wx_prompts x)"

lemma slotsD:
  assumes "slots x' = slots x"
  shows "wx_scripts x' = wx_scripts x" "wx_native x' = wx_native x" "wx_elevated x' = wx_elevated x"
    "wx_running x' = wx_running x" "wx_media x' = wx_media x" "wx_prompts x' = wx_prompts x"
  using assms by (simp_all add: slots_def)

lemma executor_ok_slots: "slots x' = slots x \<Longrightarrow> executor_ok x' = executor_ok x"
  by (simp add: executor_ok_def slots_def)

lemma os_call_slots: "os_call effect x = (r, x') \<Longrightarrow> slots x' = slots x"
  by (auto simp: os_call_def slots_def Let_def split: list.splits option.splits)

lemma send_media_key_slots: "send_media_key key x = (r, x') \<Longrightarrow> slots x' = slots x"
  by (auto simp: send_media_key_def send_input_def slots_def Let_def split: prod.splits)

lemma task_ends_slots: "task_ends x = (e, x') \<Longrightarrow> slots x' = slots x \<and> wx_log x' = wx_log x"
  by (auto simp: task_ends_def slots_def split: list.splits)

lemma execute_media_slots:
  assumes "execute_media command x = (r, x')"
  shows "slots x' = slots x"
  using assms
  by (cases r)
    (auto simp: execute_media_def set_default_output_mute_def result_simps
      dest!: os_call_slots send_media_key_slots split: if_splits)

lemma launch_elevated_slots:
  assumes "launch_elevated program args working_dir x = (r, x')"
  shows "slots x' = slots x"
  using assms
  by (cases r)
    (auto simp: launch_elevated_def result_simps Let_def dest!: os_call_slots split: if_splits option.splits)

lemma execute_script_ok:
  assumes "executor_ok x" and "execute_script action x = (r, x')"
  shows "executor_ok x'"
proof (cases r)
  case (Inl e)
  then have "slots x' = slots x"
    using assms(2) by (auto simp: execute_script_def result_simps dest!: os_call_slots split: option.splits sum.splits)
  then show ?thesis using assms(1) executor_ok_slots [of x' x] by simp
next
  case (Inr u)
  then obtain m command x1 where m: "try_acquire (wx_scripts x) = Some m" and x1: "slots x1 = slots x"
    and x': "x' = x1\<lparr>wx_scripts := m, wx_running := command # wx_running x1\<rparr>"
    using assms(2) by (auto simp: execute_script_def result_simps dest!: os_call_slots split: option.splits sum.splits)
  then show ?thesis
    using assms(1) slotsD [OF x1] occupied_acquire [of "wx_scripts x" "wx_running x" m command]
    by (simp add: executor_ok_def)
qed

lemma begins_ok:
  assumes "executor_ok x" and "begins action x = (r, x')"
  shows "executor_ok x'"
proof (cases action)
  case (Media command)
  then show ?thesis
    using assms by (auto simp: begins_def native_begins_def executor_ok_def occupied_acquire split: option.splits)
next
  case (Launch program args wd admin)
  show ?thesis
  proof (cases admin)
    case True
    then show ?thesis
      using assms Launch
      by (auto simp: begins_def elevated_begins_def executor_ok_def occupied_acquire split: option.splits)
  next
    case False
    then have "slots x' = slots x"
      using assms(2) Launch by (cases r) (auto simp: begins_def result_simps dest!: os_call_slots)
    then show ?thesis using assms(1) executor_ok_slots [of x' x] by simp
  qed
qed (use assms execute_script_ok in \<open>simp_all add: begins_def\<close>)

lemma native_ends_ok:
  assumes "executor_ok x" and "command \<in> set (wx_media x)" and "native_ends e command x = (r, x')"
  shows "executor_ok x'"
proof -
  obtain r1 x1 where run: "(if e = Finished then execute_media command x else (Inl ExFailed, x)) = (r1, x1)" by fastforce
  then have x1: "slots x1 = slots x" using execute_media_slots by (auto split: if_splits)
  have "x' = x1\<lparr>wx_native := drop_permit (wx_native x1), wx_media := remove1 command (wx_media x1)\<rparr>"
    using assms(3) run by (simp add: native_ends_def)
  then show ?thesis using assms(1,2) slotsD [OF x1] by (simp add: executor_ok_def occupied_drop)
qed

lemma elevated_ends_ok:
  assumes "executor_ok x" and "(program, args, wd) \<in> set (wx_prompts x)"
    and "elevated_ends e program args wd x = (r, x')"
  shows "executor_ok x'"
proof -
  obtain r1 x1 where run: "(if e = Finished then launch_elevated program args wd x
      else (Inl (ExFailedWithReason ''Elevated launch task failed''), x)) = (r1, x1)" by fastforce
  then have x1: "slots x1 = slots x" using launch_elevated_slots by (auto split: if_splits)
  have "x' = x1\<lparr>wx_elevated := drop_permit (wx_elevated x1),
      wx_prompts := remove1 (program, args, wd) (wx_prompts x1)\<rparr>"
    using assms(3) run by (simp add: elevated_ends_def)
  then show ?thesis using assms(1,2) slotsD [OF x1] by (simp add: executor_ok_def occupied_drop)
qed

lemma script_ends_ok:
  assumes "executor_ok x" and "command \<in> set (wx_running x)"
  shows "executor_ok (script_ends e command x)"
proof -
  define x1 where "x1 = (case e of Exited success \<Rightarrow> x | _ \<Rightarrow> snd (os_call (Some (KilledTree command)) x))"
  have x1: "slots x1 = slots x"
    using os_call_slots [of "Some (KilledTree command)" x] unfolding x1_def
    by (cases e; cases "os_call (Some (KilledTree command)) x") simp_all
  have "script_ends e command x =
      x1\<lparr>wx_scripts := drop_permit (wx_scripts x1), wx_running := remove1 command (wx_running x1)\<rparr>"
    unfolding script_ends_def x1_def Let_def by (rule refl)
  then show ?thesis using assms slotsD [OF x1] by (simp add: executor_ok_def occupied_drop)
qed

interpretation exec: stepper executor_step executor_ok
proof unfold_locales
  show "executor_ok (executor_step x op)" if ok: "executor_ok x" for x op
  proof (cases op)
    case (Begins action)
    then show ?thesis using begins_ok [OF ok] by (cases "begins action x") simp
  next
    case (MediaEnds e command)
    then show ?thesis using native_ends_ok [OF ok] ok by (cases "native_ends e command x") simp
  next
    case (LaunchEnds e program args wd)
    then show ?thesis using elevated_ends_ok [OF ok] ok by (cases "elevated_ends e program args wd x") simp
  next
    case (ScriptEnds e command)
    then show ?thesis using script_ends_ok [OF ok] ok by simp
  qed
qed

lemma default_executor_ok: "executor_ok (default_executor os_answers inputs ends)"
  by (simp add: executor_ok_def occupied_def default_executor_def semaphore_new_def PERMITS_def)

text \<open>What is refused as busy.\<close>

lemma script_command_error: "script_command action = Inl e \<Longrightarrow> e = ExFailed"
proof -
  have literals: "cmd_literals args = Inl e \<Longrightarrow> e = ExFailed" for args
    by (induction args) (auto simp: result_simps cmd_literal_def split: if_splits)
  then show "script_command action = Inl e \<Longrightarrow> e = ExFailed"
    by (cases action) (auto simp: result_simps cmd_literal_def Let_def split: if_splits)
qed

lemma execute_script_busy: "fst (execute_script action x) = Inl ExBusy \<longleftrightarrow> try_acquire (wx_scripts x) = None"
  using script_command_error [of action]
  by (cases "script_command action"; cases "execute_script action x")
    (auto simp: execute_script_def result_simps spawn_error_def split: option.splits)

lemma begins_busy:
  assumes "executor_ok x"
  shows "fst (begins action x) = Inl ExBusy \<longleftrightarrow>
    (case action of
       Media command \<Rightarrow> wx_media x \<noteq> []
     | Launch program args wd admin \<Rightarrow> admin \<and> wx_prompts x \<noteq> []
     | _ \<Rightarrow> wx_running x \<noteq> [])"
proof (cases action)
  case (Media command)
  then show ?thesis
    using assms occupied_busy [of "wx_native x" "wx_media x"]
    by (auto simp: begins_def native_begins_def executor_ok_def split: option.splits)
next
  case (Launch program args wd admin)
  then show ?thesis
    using assms occupied_busy [of "wx_elevated x" "wx_prompts x"]
    by (cases "os_call (Some (Spawned (base_command program args wd))) x";
        cases "fst (os_call (Some (Spawned (base_command program args wd))) x)")
      (auto simp: begins_def elevated_begins_def executor_ok_def spawn_error_def split: option.splits)
qed (use assms occupied_busy [of "wx_scripts x" "wx_running x"] in
    \<open>simp_all add: begins_def execute_script_busy executor_ok_def\<close>)

section \<open>What a successful execution did\<close>

text \<open>The specification: the effects an action stands for.\<close>

fun action_effects :: "configured_action \<Rightarrow> machine_effect list option" where
  "action_effects (Media Mute) = Some [Muted True]"
| "action_effects (Media Unmute) = Some [Muted False]"
| "action_effects (Media command) = map_option (\<lambda>key. [KeyDown key, KeyUp key]) (media_key_for_command command)"
| "action_effects (Launch program args wd run_as_admin) =
     Some [if run_as_admin
           then Elevated (program @ [CHR 0x00])
                  (if args = [] then None
                   else Some (join '' '' (map quote_windows_argument args) @ [CHR 0x00]))
                  (map_option (\<lambda>p. p @ [CHR 0x00]) wd)
           else Spawned (base_command program args wd)]"
| "action_effects action =
     (case script_command action of Inl _ \<Rightarrow> None | Inr command \<Rightarrow> Some [Spawned command])"

lemma os_call_log:
  "os_call effect x = (Inr u, x') \<Longrightarrow> wx_log x' = wx_log x @ (case effect of None \<Rightarrow> [] | Some e \<Rightarrow> [e])"
  "os_call effect x = (Inl e, x') \<Longrightarrow> wx_log x' = wx_log x"
  by (auto simp: os_call_def Let_def split: list.splits option.splits)

text \<open>Two events of a key were given to \<open>SendInput\<close>: both, one or none was inserted.\<close>

lemma send_media_key_log:
  assumes "send_media_key key x = (r, x')"
  shows "if is_ok r then wx_log x' = wx_log x @ [KeyDown key, KeyUp key]
    else wx_log x' = wx_log x \<or> wx_log x' = wx_log x @ [KeyDown key]"
proof (cases "wx_inputs x")
  case Nil
  then show ?thesis using assms by (auto simp: send_media_key_def send_input_def)
next
  case (Cons n ns)
  consider "n = 0" | "n = 1" | k where "n = Suc (Suc k)" by (metis One_nat_def not0_implies_Suc)
  then show ?thesis using assms Cons by cases (auto simp: send_media_key_def send_input_def)
qed

text \<open>The effects of an answer: all after a success; after an error none, or only a key's press.\<close>

definition effects_of_answer ::
  "configured_action \<Rightarrow> (executor_error, unit) result \<Rightarrow> windows_executor \<Rightarrow> windows_executor \<Rightarrow> bool" where
  "effects_of_answer action r x x' \<longleftrightarrow>
     (if is_ok r then \<exists>effects. action_effects action = Some effects \<and> wx_log x' = wx_log x @ effects
      else wx_log x' = wx_log x
        \<or> (\<exists>key. action_effects action = Some [KeyDown key, KeyUp key] \<and> wx_log x' = wx_log x @ [KeyDown key]))"

lemma effects_same:
  "effects_of_answer action r x1 x2 \<Longrightarrow> wx_log x1 = wx_log x \<Longrightarrow> wx_log x2 = wx_log x' \<Longrightarrow> effects_of_answer action r x x'"
  by (auto simp: effects_of_answer_def split: if_splits)

lemma effects_none: "wx_log x' = wx_log x \<Longrightarrow> effects_of_answer action (Inl e) x x'"
  by (simp add: effects_of_answer_def)

lemma execute_media_log:
  assumes "execute_media command x = (r, x')"
  shows "effects_of_answer (Media command) r x x'"
proof (cases "command = Mute \<or> command = Unmute")
  case True
  then show ?thesis using assms
    by (cases r)
      (auto simp: effects_of_answer_def execute_media_def set_default_output_mute_def result_simps dest!: os_call_log)
next
  case False
  then obtain key where key: "media_key_for_command command = Some key"
    "action_effects (Media command) = Some [KeyDown key, KeyUp key]"
    by (cases command) auto
  show ?thesis
  proof (cases "fst (os_call None x)")
    case (Inl e)
    then show ?thesis
      using assms False os_call_log(2) [of None x e]
      by (cases "os_call None x") (auto simp: effects_of_answer_def execute_media_def)
  next
    case (Inr u)
    then obtain x1 where x1: "os_call None x = (Inr u, x1)" by (metis prod.collapse)
    then have "wx_log x1 = wx_log x" "send_media_key key x1 = (r, x')"
      using os_call_log(1) [OF x1] assms False key(1) by (simp_all add: execute_media_def)
    then show ?thesis using send_media_key_log [of key x1 r x'] key(2) by (auto simp: effects_of_answer_def split: if_splits)
  qed
qed

lemma launch_elevated_log:
  assumes "launch_elevated program args wd x = (r, x')"
  shows "effects_of_answer (Launch program args wd True) r x x'"
  using assms
  by (cases r)
    (auto simp: effects_of_answer_def launch_elevated_def result_simps Let_def wide_os_string_def wide_string_def
      dest!: os_call_log split: if_splits option.splits)

lemma execute_script_log:
  assumes "execute_script action x = (r, x')"
  shows "if is_ok r then \<exists>command. script_command action = Inr command \<and> wx_log x' = wx_log x @ [Spawned command]
    else wx_log x' = wx_log x"
  using assms
  by (cases r) (auto simp: execute_script_def result_simps dest!: os_call_log split: option.splits sum.splits)

lemma execute_native_log:
  assumes "execute_native command x = (r, x')"
  shows "effects_of_answer (Media command) r x x'"
proof (cases "try_acquire (wx_native x)")
  case None
  then show ?thesis using assms effects_none by (auto simp: execute_native_def native_begins_def)
next
  case (Some m)
  let ?x = "x\<lparr>wx_native := m, wx_media := command # wx_media x\<rparr>"
  obtain e x1 where ends: "task_ends ?x = (e, x1)" by fastforce
  obtain r2 x2 where run: "(if e = Finished then execute_media command x1 else (Inl ExFailed, x1)) = (r2, x2)" by fastforce
  have "wx_log x1 = wx_log x" using task_ends_slots [OF ends] by simp
  moreover have "r = r2" "wx_log x' = wx_log x2"
    using assms Some ends run by (auto simp: execute_native_def native_begins_def native_ends_def)
  moreover have "effects_of_answer (Media command) r2 x1 x2"
    using run execute_media_log [of command x1 r2 x2] by (cases "e = Finished") (auto intro: effects_none)
  ultimately show ?thesis using effects_same by metis
qed

text \<open>A launch leaves nothing under way, unless its answer was that it timed out.\<close>

lemma execute_elevated_log:
  assumes "execute_elevated program args wd x = (r, x')"
  shows "effects_of_answer (Launch program args wd True) r x x'"
    and "r \<noteq> Inl (ExFailedWithReason ''UAC launch timed out'') \<Longrightarrow> wx_prompts x' = wx_prompts x"
proof -
  have both: "effects_of_answer (Launch program args wd True) r x x'
      \<and> (r \<noteq> Inl (ExFailedWithReason ''UAC launch timed out'') \<longrightarrow> wx_prompts x' = wx_prompts x)"
  proof (cases "try_acquire (wx_elevated x)")
    case None
    then show ?thesis using assms effects_none by (auto simp: execute_elevated_def elevated_begins_def)
  next
    case (Some m)
    let ?x = "x\<lparr>wx_elevated := m, wx_prompts := (program, args, wd) # wx_prompts x\<rparr>"
    obtain e x1 where ends: "task_ends ?x = (e, x1)" by fastforce
    have x1: "wx_log x1 = wx_log x" "wx_prompts x1 = (program, args, wd) # wx_prompts x"
      using task_ends_slots [OF ends] slotsD [of x1 ?x] by simp_all
    show ?thesis
    proof (cases "e = TimedOut")
      case True
      then have "r = Inl (ExFailedWithReason ''UAC launch timed out'')" "x' = x1"
        using assms Some ends by (simp_all add: execute_elevated_def elevated_begins_def)
      then show ?thesis using x1 effects_none by simp
    next
      case False
      obtain r2 x2 where run: "(if e = Finished then launch_elevated program args wd x1
          else (Inl (ExFailedWithReason ''Elevated launch task failed''), x1)) = (r2, x2)" by fastforce
      have "r = r2" "wx_log x' = wx_log x2" "wx_prompts x' = remove1 (program, args, wd) (wx_prompts x2)"
        using assms Some ends run False
        by (auto simp: execute_elevated_def elevated_begins_def elevated_ends_def)
      moreover have "effects_of_answer (Launch program args wd True) r2 x1 x2"
        using run launch_elevated_log [of program args wd x1 r2 x2] by (cases "e = Finished") (auto intro: effects_none)
      moreover have "wx_prompts x2 = wx_prompts x1"
        using run launch_elevated_slots [of program args wd x1 r2 x2] slotsD(6) [of x2 x1]
        by (cases "e = Finished") auto
      ultimately show ?thesis using x1 effects_same [of "Launch program args wd True" r2 x1 x2 x x'] by simp
    qed
  qed
  then show "effects_of_answer (Launch program args wd True) r x x'" by simp
  show "r \<noteq> Inl (ExFailedWithReason ''UAC launch timed out'') \<Longrightarrow> wx_prompts x' = wx_prompts x" using both by simp
qed

section \<open>Properties\<close>

text \<open>C30: the quoting of an elevated launch's arguments loses nothing: the started program splits its
  command line into exactly the arguments of the action, whatever quotes, blanks and backslashes they
  hold.\<close>

theorem elevated_arguments_survive:
  "argv (join '' '' (map quote_windows_argument args)) = args"
  by (rule argv_join_quoted)

text \<open>C31: a batch script is started with a command line that \<open>cmd.exe\<close> cannot read otherwise: between
  its quotes stand the script and the arguments, in order, and no byte outside the quotes' own is one
  the shell gives a meaning.\<close>

theorem batch_line_is_inert:
  assumes "script_command (Batch script args wd) = Inr command"
  shows "pc_program command = ''cmd.exe'' \<and> pc_args command = [''/D'', ''/V:OFF'', ''/S'', ''/C'']
    \<and> (\<exists>line. pc_raw_arg command = Some ('' '' @ quoted line)
         \<and> at_quotes line = [''call '', script] @ concat (map (\<lambda>a. ['' '', a]) args) @ [[]]
         \<and> (\<forall>c \<in> set line - {CHR 0x22}. c \<notin> cmd_metacharacters))"
proof -
  from assms have safe: "is_safe_batch_literal script" "list_all is_safe_batch_literal args"
    and command: "pc_program command = ''cmd.exe''" "pc_args command = [''/D'', ''/V:OFF'', ''/S'', ''/C'']"
      "pc_raw_arg command = Some ('' '' @ quoted (batch_command_line script args))"
    by (auto simp: result_simps path_to_str_def cmd_literal_def cmd_literals_Inr split: if_splits)
  moreover have "\<forall>c \<in> set (batch_command_line script args) - {CHR 0x22}. c \<notin> cmd_metacharacters"
    using batch_line_bytes [OF safe] by blast
  ultimately show ?thesis using at_quotes_batch [OF safe] by blast
qed

theorem batch_line_is_inert_witness:
  "\<exists>command line. script_command (Batch ''C:/a b.bat'' [''x y''] None) = Inr command
    \<and> pc_raw_arg command = Some ('' '' @ quoted line)
    \<and> at_quotes line = [''call '', ''C:/a b.bat'', '' '', ''x y'', []]"
proof -
  have "is_ok (script_command (Batch ''C:/a b.bat'' [''x y''] None))" by code_simp
  then obtain command where "script_command (Batch ''C:/a b.bat'' [''x y''] None) = Inr command"
    by (metis isl_def sum.exhaust)
  with batch_line_is_inert [OF this] show ?thesis by auto
qed

text \<open>C32: however actions begin and end, of each of the three kinds at most one is under way, scripts, media
  commands and elevated launches alike, and a permit is free exactly when none is: none is lost or made up.
  Another one that begins is refused as busy exactly while one of its kind is under way.\<close>

theorem actions_never_overlap:
  "let x = foldl executor_step (default_executor os_answers inputs ends) ops in
     sm_permits (wx_scripts x) + length (wx_running x) = 1
   \<and> sm_permits (wx_native x) + length (wx_media x) = 1
   \<and> sm_permits (wx_elevated x) + length (wx_prompts x) = 1
   \<and> (fst (begins action x) = Inl ExBusy \<longleftrightarrow>
        (case action of
           Media command \<Rightarrow> wx_media x \<noteq> []
         | Launch program args wd admin \<Rightarrow> admin \<and> wx_prompts x \<noteq> []
         | _ \<Rightarrow> wx_running x \<noteq> []))"
proof -
  have ok: "executor_ok (foldl executor_step (default_executor os_answers inputs ends) ops)"
    by (rule exec.run_inv [OF default_executor_ok])
  show ?thesis
    unfolding Let_def by (intro conjI begins_busy [OF ok]) (use ok in \<open>simp_all add: executor_ok_def occupied_def\<close>)
qed

text \<open>C33: an execution reports success only if all effects of its action were made, and nothing else was:
  a spawned process, an elevated launch, the mute state, or a key's press and release. When it reports an
  error nothing was done, except that of a media key the press alone may have been inserted. An elevated
  launch is still under way only when the error is that it timed out; it may then be made later.\<close>

theorem success_means_done:
  assumes "execute action x = (r, x')"
  shows "(if is_ok r then \<exists>effects. action_effects action = Some effects \<and> wx_log x' = wx_log x @ effects
     else wx_log x' = wx_log x
       \<or> (\<exists>key. action_effects action = Some [KeyDown key, KeyUp key] \<and> wx_log x' = wx_log x @ [KeyDown key]))
    \<and> (wx_prompts x' = wx_prompts x \<or> r = Inl (ExFailedWithReason ''UAC launch timed out''))"
proof -
  have script: ?thesis if "execute_script action x = (r, x')"
    "action_effects action = (case script_command action of Inl _ \<Rightarrow> None | Inr command \<Rightarrow> Some [Spawned command])"
  proof -
    have "wx_prompts x' = wx_prompts x"
      using that(1)
      by (cases r) (auto simp: execute_script_def result_simps dest!: os_call_slots slotsD(6) split: option.splits sum.splits)
    then show ?thesis using execute_script_log [OF that(1)] that(2) by (auto split: if_splits)
  qed
  show ?thesis
  proof (cases action)
    case (Media command)
    then have op: "execute_native command x = (r, x')" using assms by simp
    have "wx_prompts x' = wx_prompts x"
    proof (cases "try_acquire (wx_native x)")
      case None
      then show ?thesis using op by (auto simp: execute_native_def native_begins_def)
    next
      case (Some m)
      let ?x = "x\<lparr>wx_native := m, wx_media := command # wx_media x\<rparr>"
      obtain e x1 where ends: "task_ends ?x = (e, x1)" by fastforce
      then have "native_ends e command x1 = (r, x')" using op Some by (simp add: execute_native_def native_begins_def)
      moreover obtain r2 x2 where run: "execute_media command x1 = (r2, x2)" by fastforce
      ultimately have "wx_prompts x' = wx_prompts x1"
        using slotsD(6) [OF execute_media_slots [OF run]] by (auto simp: native_ends_def split: if_splits)
      then show ?thesis using task_ends_slots [OF ends] slotsD(6) [of x1 ?x] by simp
    qed
    then show ?thesis using execute_native_log [OF op] Media by (simp add: effects_of_answer_def)
  next
    case (Launch program args wd admin)
    show ?thesis
    proof (cases admin)
      case True
      then have "execute_elevated program args wd x = (r, x')" using assms Launch by simp
      from execute_elevated_log [OF this] show ?thesis using Launch True by (auto simp: effects_of_answer_def)
    next
      case False
      then show ?thesis
        using assms Launch by (cases r) (auto simp: result_simps dest: os_call_slots slotsD(6) os_call_log)
    qed
  next
    case (Batch script_path args wd)
    then have "execute_script action x = (r, x')" using assms by simp
    then show ?thesis by (rule script) (simp add: Batch)
  next
    case (PowerShell interpreter script_path args wd)
    then have "execute_script action x = (r, x')" using assms by simp
    then show ?thesis by (rule script) (simp add: PowerShell)
  qed
qed

text \<open>A key of which only the press is inserted, and one of which both events are.\<close>

theorem success_means_done_witness:
  "(\<exists>x'. execute (Media Play) (default_executor [] [1] []) = (Inl ExFailed, x')
      \<and> wx_log x' = [KeyDown VK_MEDIA_PLAY_PAUSE])
   \<and> (\<exists>x'. execute (Media Next) (default_executor [] [] []) = (Inr (), x')
      \<and> wx_log x' = [KeyDown VK_MEDIA_NEXT_TRACK, KeyUp VK_MEDIA_NEXT_TRACK])"
proof -
  note calls = execute_native_def native_begins_def native_ends_def default_executor_def try_acquire_def
    semaphore_new_def PERMITS_def task_ends_def execute_media_def os_call_def send_media_key_def send_input_def
  have one: "\<exists>x'. execute (Media Play) (default_executor [] [1] []) = (Inl ExFailed, x')
      \<and> wx_log x' = [KeyDown VK_MEDIA_PLAY_PAUSE]"
    by (simp add: calls)
  obtain x' where "execute (Media Next) (default_executor [] [] []) = (Inr (), x')" by (simp add: calls)
  with success_means_done [OF this] have "\<exists>x'. execute (Media Next) (default_executor [] [] []) = (Inr (), x')
      \<and> wx_log x' = [KeyDown VK_MEDIA_NEXT_TRACK, KeyUp VK_MEDIA_NEXT_TRACK]"
    by (simp add: default_executor_def)
  then show ?thesis using one by blast
qed

end
