(* ===== verification/Daemon_System.thy ===== *)
theory Daemon_System
  imports Daemon_Lifecycle Daemon_Executor
begin

text \<open>
  The running daemon as a whole: the runtime with its executor, driven by the management
  operations of the Settings process and, while a listener runs, by the HTTPS requests of the
  device. Each step is one operation; \<open>daemon_ok\<close> holds after every sequence of them.

  The executor is a parameter, a function of its own state \<open>'x\<close>; Daemon\_Executor provides the
  Windows one. The state the handlers share with the runtime is the one of \<open>start_listener\<close>: the
  same dispatcher, the same configuration lock, the token the listener was started with.
\<close>

section \<open>Steps\<close>

type_synonym 'x system = "daemon \<times> 'x"

definition http_state_of :: "daemon \<Rightarrow> listener_task \<Rightarrow> http_state" where
  "http_state_of d l =
     \<lparr>hs_dispatcher = rt_dispatcher d, hs_token = ln_token l, hs_config = rt_config d,
      hs_config_path = Some (ln_config_path l)\<rparr>"

text \<open>What a handler did to the state it shares with the runtime.\<close>

definition put_http_state :: "http_state \<Rightarrow> daemon \<Rightarrow> daemon" where
  "put_http_state state d = d\<lparr>rt_dispatcher := hs_dispatcher state, rt_config := hs_config state\<rparr>"

text \<open>A request of the device; without a listener nobody answers.\<close>

definition serve_media ::
  "http_lib \<Rightarrow> 'x executor \<Rightarrow> bool \<Rightarrow> nat option \<Rightarrow> header_map \<Rightarrow> string \<Rightarrow> 'x system
   \<Rightarrow> http_response option \<times> 'x system" where
  "serve_media hlib exec free clock headers body = (\<lambda>(d, x).
     (case rt_listener d of
        None \<Rightarrow> (None, (d, x))
      | Some l \<Rightarrow>
          let (response, state, x') = media hlib exec free clock headers body (http_state_of d l, x)
          in (response, (put_http_state state d, x'))))"

definition serve_custom ::
  "http_lib \<Rightarrow> 'x executor \<Rightarrow> bool \<Rightarrow> nat option \<Rightarrow> header_map \<Rightarrow> string \<Rightarrow> 'x system
   \<Rightarrow> http_response option \<times> 'x system" where
  "serve_custom hlib exec free clock headers body = (\<lambda>(d, x).
     (case rt_listener d of
        None \<Rightarrow> (None, (d, x))
      | Some l \<Rightarrow>
          let (response, state, x') = custom_action_handler hlib exec free clock headers body (http_state_of d l, x)
          in (response, (put_http_state state d, x'))))"

definition serve_ack ::
  "http_lib \<Rightarrow> header_map \<Rightarrow> string \<Rightarrow> 'x system \<Rightarrow> http_response option \<times> 'x system" where
  "serve_ack hlib headers body = (\<lambda>(d, x).
     (case rt_listener d of
        None \<Rightarrow> (None, (d, x))
      | Some l \<Rightarrow>
          let (response, state, w) = voice_config_ack hlib headers body (http_state_of d l, os_world d)
          in (response, ((put_http_state state d)\<lparr>os_world := w\<rparr>, x))))"

definition runtime_test_action ::
  "'x executor \<Rightarrow> action_id \<Rightarrow> bool \<Rightarrow> 'x system \<Rightarrow> (dispatch_error, unit) result \<times> 'x system" where
  "runtime_test_action exec i free = (\<lambda>(d, x).
     let (r, dispatcher, x') = test_action exec i free (rt_dispatcher d, x)
     in (r, (d\<lparr>rt_dispatcher := dispatcher\<rparr>, x')))"

datatype system_op =
    SaveActions "custom_action list"
  | ApplyVoice
  | SetStartup bool
  | SetListener bool
  | Reconfigure ip_addr u16 bool
  | Rotate
  | ExportCa
  | Shutdown
  | TestAction action_id bool
  | HttpMedia bool "nat option" header_map string
  | HttpCustom bool "nat option" header_map string
  | HttpAck header_map string

fun system_step :: "runtime_lib \<Rightarrow> http_lib \<Rightarrow> 'x executor \<Rightarrow> 'x system \<Rightarrow> system_op \<Rightarrow> 'x system" where
  "system_step lib hlib exec (d, x) (SaveActions actions) = (snd (save_actions lib actions d), x)"
| "system_step lib hlib exec (d, x) ApplyVoice = (snd (apply_voice_config lib d), x)"
| "system_step lib hlib exec (d, x) (SetStartup b) = (snd (set_start_after_login lib b d), x)"
| "system_step lib hlib exec (d, x) (SetListener b) = (snd (set_listener lib b d), x)"
| "system_step lib hlib exec (d, x) (Reconfigure a p free) = (snd (reconfigure lib a p free d), x)"
| "system_step lib hlib exec (d, x) Rotate = (snd (rotate_credentials lib d), x)"
| "system_step lib hlib exec (d, x) ExportCa = (snd (export_ca d), x)"
| "system_step lib hlib exec (d, x) Shutdown = (snd (shutdown d), x)"
| "system_step lib hlib exec s (TestAction i free) = snd (runtime_test_action exec i free s)"
| "system_step lib hlib exec s (HttpMedia free clock headers body) =
     snd (serve_media hlib exec free clock headers body s)"
| "system_step lib hlib exec s (HttpCustom free clock headers body) =
     snd (serve_custom hlib exec free clock headers body s)"
| "system_step lib hlib exec s (HttpAck headers body) = snd (serve_ack hlib headers body s)"

section \<open>The dispatcher's part\<close>

lemma with_executor_snd:
  assumes "with_executor exec (r0, d0) complete x = (r, d', x')"
    and "P d0" and "\<And>answer. P d0 \<Longrightarrow> P (snd (complete answer d0))"
  shows "P d'"
proof (cases r0)
  case (Inl e)
  then show ?thesis using assms(1,2) by (simp add: with_executor_def)
next
  case (Inr action)
  obtain answer x1 where "exec action x = (answer, x1)" by fastforce
  moreover obtain r1 d1 where "complete answer d0 = (r1, d1)" by fastforce
  ultimately show ?thesis using assms(1) assms(3) [OF assms(2), of answer] Inr
    by (simp add: with_executor_def)
qed

definition dispatcher_keeps :: "dispatcher \<Rightarrow> dispatcher \<Rightarrow> bool" where
  "dispatcher_keeps d d' \<longleftrightarrow>
     dp_config d' = dp_config d \<and> (dispatcher_ok d \<longrightarrow> dispatcher_ok d') \<and> (locks_sound d \<longrightarrow> locks_sound d')"

lemma keeps_complete:
  "dispatcher_keeps d d0 \<Longrightarrow> dispatcher_keeps d (job_complete j answer d0)"
  by (auto simp: dispatcher_keeps_def job_complete_frame job_complete_ok job_complete_sound)

lemma keeps_admit: "job_admit j now free d = (r, d') \<Longrightarrow> dispatcher_keeps d d'"
  using job_admit_step [of j now free d r d'] job_admit_sound [of j now free d r d']
  by (auto simp: dispatcher_keeps_def)

lemma dispatch_keeps:
  "dispatch_media exec q now free (d, x) = (r, d', x') \<Longrightarrow> dispatcher_keeps d d'"
  "dispatch_custom exec cq now free (d, x) = (r, d', x') \<Longrightarrow> dispatcher_keeps d d'"
  "test_action exec i free (d, x) = (r2, d', x') \<Longrightarrow> dispatcher_keeps d d'"
proof -
  assume "dispatch_media exec q now free (d, x) = (r, d', x')"
  then show "dispatcher_keeps d d'"
    using keeps_admit [of "MediaJob q" now free d] keeps_complete [of d _ "MediaJob q"]
    by (cases "media_admit q now free d")
      (auto simp: dispatch_media_def elim!: with_executor_snd [where P = "dispatcher_keeps d"])
next
  assume "dispatch_custom exec cq now free (d, x) = (r, d', x')"
  then show "dispatcher_keeps d d'"
    using keeps_admit [of "CustomJob cq" now free d] keeps_complete [of d _ "CustomJob cq"]
    by (cases "custom_admit cq now free d")
      (auto simp: dispatch_custom_def elim!: with_executor_snd [where P = "dispatcher_keeps d"])
next
  assume "test_action exec i free (d, x) = (r2, d', x')"
  then show "dispatcher_keeps d d'"
    using keeps_admit [of "TestJob i" 0 free d] keeps_complete [of d _ "TestJob i"]
    by (auto simp: test_action_def elim!: with_executor_snd [where P = "dispatcher_keeps d"])
qed

lemma keeps_inv:
  "daemon_inv c s d \<Longrightarrow> dispatcher_keeps (rt_dispatcher d) dispatcher \<Longrightarrow>
     daemon_inv c s (d\<lparr>rt_dispatcher := dispatcher\<rparr>)"
  by (simp add: daemon_inv_def dispatcher_keeps_def)

section \<open>The handlers' part\<close>

text \<open>A dispatch handler keeps the shared configuration, and the dispatcher in order.\<close>

definition state_keeps :: "http_state \<Rightarrow> http_state \<Rightarrow> bool" where
  "state_keeps state state' \<longleftrightarrow>
     hs_config state' = hs_config state \<and> dispatcher_keeps (hs_dispatcher state) (hs_dispatcher state')"

lemma state_keeps_refl: "state_keeps state state"
  by (simp add: state_keeps_def dispatcher_keeps_def)

lemma media_keeps:
  assumes "media hlib exec free clock headers body (state, x) = (response, state', x')"
  shows "state_keeps state state'"
proof (cases "check_request hlib (lb_media hlib) state headers body")
  case (Inl e)
  then show ?thesis using assms state_keeps_refl by (simp add: media_def)
next
  case (Inr q)
  obtain r d x1 where run: "dispatch_media exec q (now_ms clock) free (hs_dispatcher state, x) = (r, d, x1)"
    by (metis prod_cases3)
  have "state' = state\<lparr>hs_dispatcher := d\<rparr>" using assms Inr run by (simp add: media_def Let_def)
  then show ?thesis using dispatch_keeps(1) [OF run] by (simp add: state_keeps_def)
qed

lemma custom_keeps:
  assumes "custom_action_handler hlib exec free clock headers body (state, x) = (response, state', x')"
  shows "state_keeps state state'"
proof (cases "check_request hlib (lb_custom hlib) state headers body")
  case (Inl e)
  then show ?thesis using assms state_keeps_refl by (simp add: custom_action_handler_def)
next
  case (Inr q)
  obtain r d x1 where run: "dispatch_custom exec q (now_ms clock) free (hs_dispatcher state, x) = (r, d, x1)"
    by (metis prod_cases3)
  have "state' = state\<lparr>hs_dispatcher := d\<rparr>" using assms Inr run by (simp add: custom_action_handler_def Let_def)
  then show ?thesis using dispatch_keeps(2) [OF run] by (simp add: state_keeps_def)
qed

lemma put_keeps:
  assumes "daemon_inv c s d" and "state_keeps (http_state_of d l) state"
  shows "daemon_inv c s (put_http_state state d)"
proof -
  have "put_http_state state d = d\<lparr>rt_dispatcher := hs_dispatcher state\<rparr>"
    using assms by (simp add: put_http_state_def state_keeps_def http_state_of_def)
  then show ?thesis
    using keeps_inv [OF assms(1)] assms(2) by (simp add: state_keeps_def http_state_of_def)
qed

text \<open>
  The acknowledgment, over the state that the runtime shares: either nothing in memory changed,
  or the acknowledged configuration is in place everywhere.
\<close>

definition with_acknowledged :: "app_config \<Rightarrow> u64 \<Rightarrow> app_config" where
  "with_acknowledged c revision = c\<lparr>ac_acknowledged_voice_revision := Some revision\<rparr>"

lemma ack_cases:
  assumes inv: "daemon_inv c s d" and l: "ln_config_path l = config_path d"
    and ack: "voice_config_ack hlib headers body (http_state_of d l, os_world d) = (response, state, w)"
  shows "state = http_state_of d l \<and> files w = files (os_world d)
    \<or> (\<exists>revision text. ack_request hlib headers body (http_state_of d l) = Inr revision
         \<and> ack_check hlib revision (http_state_of d l) = Inr (config_path d, with_acknowledged c revision)
         \<and> put_http_state state d = with_config (with_acknowledged c revision) d
         \<and> config_ok (with_acknowledged c revision)
         \<and> lb_encode hlib (with_acknowledged c revision) = Some text
         \<and> files w = (files (os_world d))(config_path d \<mapsto> text @ [CHR 0x0A])
         \<and> response = json hlib 200 (VoiceAckReply revision ''active''))"
proof (cases "ack_request hlib headers body (http_state_of d l)")
  case (Inl e)
  then show ?thesis using ack by (simp add: voice_config_ack_def)
next
  case (Inr revision)
  let ?st = "http_state_of d l" and ?c = "with_acknowledged c revision"
  obtain r w1 where prep: "ack_prepare hlib revision ?st (os_world d) = (r, w1)" by fastforce
  show ?thesis
  proof (cases r)
    case (Inl e)
    then show ?thesis
      using ack Inr prep ack_prepare_Inl_files [of hlib revision ?st "os_world d" e w1]
      by (simp add: voice_config_ack_def)
  next
    case (Inr config)
    then have "\<exists>p. ack_check hlib revision ?st = Inr (p, config) \<and> save (lb_encode hlib) p config (os_world d) = (Inr (), w1)"
      using prep ack_prepare_Inr by metis
    then obtain p where check: "ack_check hlib revision ?st = Inr (p, config)"
      and save: "save (lb_encode hlib) p config (os_world d) = (Inr (), w1)" by blast
    have p: "p = config_path d" and config: "config = ?c"
      using check l daemon_invD(1) [OF inv]
      by (auto simp: ack_check_Inr http_state_of_def with_acknowledged_def)
    have ok: "config_ok ?c" using save_Inr(1) [OF save] config by simp
    have "replace_config ?c (rt_dispatcher d) = (Inr (), (rt_dispatcher d)\<lparr>dp_config := Sound ?c\<rparr>)"
      using inv ok by (simp add: replace_config_Inr daemon_inv_def)
    then have "ack_commit hlib revision ?c ?st = (json hlib 200 (VoiceAckReply revision ''active''),
        ?st\<lparr>hs_dispatcher := (rt_dispatcher d)\<lparr>dp_config := Sound ?c\<rparr>, hs_config := Sound ?c\<rparr>)"
      using daemon_invD(1) [OF inv] by (simp add: ack_commit_def http_state_of_def)
    then have "state = ?st\<lparr>hs_dispatcher := (rt_dispatcher d)\<lparr>dp_config := Sound ?c\<rparr>, hs_config := Sound ?c\<rparr>"
      and "response = json hlib 200 (VoiceAckReply revision ''active'')" and "w = w1"
      using ack \<open>ack_request hlib headers body ?st = Inr revision\<close> prep Inr config
      by (simp_all add: voice_config_ack_def)
    then show ?thesis
      using check p config ok save_Inr(2) [OF save] \<open>ack_request hlib headers body ?st = Inr revision\<close>
      by (auto simp: put_http_state_def with_config_def)
  qed
qed

lemma serve_ack_ok:
  assumes "daemon_inv c s d"
  shows "daemon_ok (fst (snd (serve_ack hlib headers body (d, x))))"
proof (cases "rt_listener d")
  case None
  then show ?thesis using assms daemon_ok_inv by (auto simp: serve_ack_def)
next
  case (Some l)
  obtain response state w where ack: "voice_config_ack hlib headers body (http_state_of d l, os_world d) = (response, state, w)"
    by (metis prod_cases3)
  have l: "ln_config_path l = config_path d" "listener_ok (rt_directory d) c s l"
    using daemon_invD(7) [OF assms] Some by (auto simp: listener_ok_def)
  have step: "fst (snd (serve_ack hlib headers body (d, x))) = (put_http_state state d)\<lparr>os_world := w\<rparr>"
    using Some ack by (simp add: serve_ack_def)
  from ack_cases [OF assms l(1) ack] have "\<exists>c'. daemon_inv c' s (put_http_state state d)"
  proof
    assume "state = http_state_of d l \<and> files w = files (os_world d)"
    then show ?thesis using put_keeps [OF assms, of l state] state_keeps_refl by auto
  next
    assume "\<exists>revision text. ack_request hlib headers body (http_state_of d l) = Inr revision
         \<and> ack_check hlib revision (http_state_of d l) = Inr (config_path d, with_acknowledged c revision)
         \<and> put_http_state state d = with_config (with_acknowledged c revision) d
         \<and> config_ok (with_acknowledged c revision)
         \<and> lb_encode hlib (with_acknowledged c revision) = Some text
         \<and> files w = (files (os_world d))(config_path d \<mapsto> text @ [CHR 0x0A])
         \<and> response = json hlib 200 (VoiceAckReply revision ''active'')"
    then obtain revision where c': "put_http_state state d = with_config (with_acknowledged c revision) d"
      "config_ok (with_acknowledged c revision)" by blast
    have "secrets_ok (with_acknowledged c revision) s" "listener_ok (rt_directory d) (with_acknowledged c revision) s l"
      using daemon_invD(5) [OF assms] l(2)
      by (simp_all add: secrets_ok_def listener_ok_def with_acknowledged_def)
    then show ?thesis using with_config_inv [OF assms c'(2)] c'(1) Some by auto
  qed
  then obtain c' where "daemon_inv c' s ((put_http_state state d)\<lparr>os_world := w\<rparr>)"
    using daemon_inv_core core_os(1) by blast
  then show ?thesis using daemon_ok_inv step by metis
qed

lemma serve_dispatch_ok:
  assumes "daemon_inv c s d"
  shows "daemon_inv c s (fst (snd (serve_media hlib exec free clock headers body (d, x))))"
    and "daemon_inv c s (fst (snd (serve_custom hlib exec free clock headers body (d, x))))"
    and "daemon_inv c s (fst (snd (runtime_test_action exec i free (d, x))))"
proof -
  show "daemon_inv c s (fst (snd (serve_media hlib exec free clock headers body (d, x))))"
  proof (cases "rt_listener d")
    case (Some l)
    obtain response state x' where m: "media hlib exec free clock headers body (http_state_of d l, x) = (response, state, x')"
      by (metis prod_cases3)
    show ?thesis using put_keeps [OF assms media_keeps [OF m]] Some m by (simp add: serve_media_def)
  qed (use assms in \<open>simp add: serve_media_def\<close>)
  show "daemon_inv c s (fst (snd (serve_custom hlib exec free clock headers body (d, x))))"
  proof (cases "rt_listener d")
    case (Some l)
    obtain response state x' where m: "custom_action_handler hlib exec free clock headers body (http_state_of d l, x) = (response, state, x')"
      by (metis prod_cases3)
    show ?thesis using put_keeps [OF assms custom_keeps [OF m]] Some m by (simp add: serve_custom_def)
  qed (use assms in \<open>simp add: serve_custom_def\<close>)
  obtain r d' x' where run: "test_action exec i free (rt_dispatcher d, x) = (r, d', x')" by (metis prod_cases3)
  show "daemon_inv c s (fst (snd (runtime_test_action exec i free (d, x))))"
    using keeps_inv [OF assms dispatch_keeps(3) [OF run]] run by (simp add: runtime_test_action_def)
qed

section \<open>Every reachable state\<close>

lemma all_or_nothing_ok: "all_or_nothing lib c new s d rs \<Longrightarrow> daemon_ok (snd rs)"
  using daemon_ok_inv by (cases rs) (auto simp: all_or_nothing_def split: if_splits option.splits)

lemma listener_outcome_ok: "listener_outcome lib b d rs \<Longrightarrow> daemon_ok (snd rs)"
  by (cases rs) (simp add: listener_outcome_def)

text \<open>A draw of the random source gives 32 bytes, as its type \<open>[u8; 32]\<close> says.\<close>

definition random_ok :: "runtime_lib \<Rightarrow> bool" where
  "random_ok lib \<longleftrightarrow> (\<forall>n. length (rl_random lib n) = 32)"

lemma system_step_ok:
  assumes "random_ok lib" and "daemon_ok (fst s)"
  shows "daemon_ok (fst (system_step lib hlib exec s op))"
proof -
  obtain d x where s: "s = (d, x)" by fastforce
  obtain c se where inv: "daemon_inv c se d" using assms(2) daemon_ok_inv by (auto simp: s)
  have random: "\<And>n. length (rl_random lib n) = 32" using assms(1) by (simp add: random_ok_def)
  have ok: "\<And>c s d. daemon_inv c s d \<Longrightarrow> daemon_ok d" using daemon_ok_inv by blast
  show ?thesis
  proof (cases op)
    case (SaveActions actions)
    then show ?thesis using all_or_nothing_ok [OF save_actions_outcome [OF inv]] by (simp add: s)
  next
    case ApplyVoice
    then show ?thesis using all_or_nothing_ok [OF apply_voice_outcome [OF inv]] by (simp add: s)
  next
    case (SetStartup b)
    then show ?thesis using all_or_nothing_ok [OF start_after_login_outcome [OF inv]] by (simp add: s)
  next
    case (SetListener b)
    then show ?thesis using listener_outcome_ok [OF set_listener_outcome [OF inv]] by (simp add: s)
  next
    case (Reconfigure a p free)
    then show ?thesis using reconfigure_ends [OF inv] by (simp add: s)
  next
    case Rotate
    then show ?thesis using rotate_credentials_ends [OF inv random] by (simp add: s)
  next
    case ExportCa
    then show ?thesis using ok [OF export_ca_ends [OF inv]] by (simp add: s)
  next
    case Shutdown
    then show ?thesis using idle_ok [OF shutdown_ends [OF inv]] by (simp add: s)
  next
    case (TestAction i free)
    then show ?thesis using ok [OF serve_dispatch_ok(3) [OF inv]] by (simp add: s)
  next
    case (HttpMedia free clock headers body)
    then show ?thesis using ok [OF serve_dispatch_ok(1) [OF inv]] by (simp add: s)
  next
    case (HttpCustom free clock headers body)
    then show ?thesis using ok [OF serve_dispatch_ok(2) [OF inv]] by (simp add: s)
  next
    case (HttpAck headers body)
    then show ?thesis using serve_ack_ok [OF inv] by (simp add: s)
  qed
qed

interpretation system: stepper "system_step lib hlib exec" "\<lambda>s. random_ok lib \<longrightarrow> daemon_ok (fst s)"
  for lib hlib exec
  by unfold_locales (auto intro: system_step_ok)

definition system_run ::
  "runtime_lib \<Rightarrow> http_lib \<Rightarrow> 'x executor \<Rightarrow> system_op list \<Rightarrow> 'x system \<Rightarrow> 'x system" where
  "system_run lib hlib exec ops s = foldl (system_step lib hlib exec) s ops"

lemma system_run_ok:
  "random_ok lib \<Longrightarrow> daemon_ok (fst s) \<Longrightarrow> daemon_ok (fst (system_run lib hlib exec ops s))"
  using system.run_inv [of lib s hlib exec ops] by (simp add: system_run_def)

lemma loaded_ok: "load_runtime lib dir w b n = (Inr (), d) \<Longrightarrow> random_ok lib \<Longrightarrow> daemon_ok d"
  using load_runtime_ok [of lib dir w b n d] idle_ok by (auto simp: random_ok_def)

section \<open>What an operation leaves\<close>

text \<open>The field \<open>f\<close> of the daemon is as it was in \<open>d\<close>.\<close>

definition keeps_field :: "(daemon \<Rightarrow> 'f) \<Rightarrow> daemon \<Rightarrow> 'r \<times> daemon \<Rightarrow> bool" where
  "keeps_field f d rs \<longleftrightarrow> f (snd rs) = f d"

lemma keeps_fieldI [intro]: "f d1 = f d \<Longrightarrow> keeps_field f d (r, d1)"
  by (simp add: keeps_field_def)

lemma keeps_st_then:
  "keeps_field f d rs \<Longrightarrow> (\<And>a d1. f d1 = f d \<Longrightarrow> keeps_field f d (g a d1)) \<Longrightarrow> keeps_field f d (st_then rs g)"
  by (cases rs; cases "fst rs") (auto simp: keeps_field_def)

lemma keeps_st_match:
  "keeps_field f d rs \<Longrightarrow> (\<And>e d1. f d1 = f d \<Longrightarrow> keeps_field f d (g e d1)) \<Longrightarrow>
     (\<And>a d1. f d1 = f d \<Longrightarrow> keeps_field f d (h a d1)) \<Longrightarrow> keeps_field f d (st_match rs g h)"
  by (cases rs; cases "fst rs") (auto simp: keeps_field_def)

lemma keeps_failed: "keeps_field f d rs \<Longrightarrow> keeps_field f d (failed rs)"
  unfolding failed_def by (rule keeps_st_then) auto

lemma keeps_core:
  assumes "\<And>r d'. rs = (r, d') \<Longrightarrow> core d' = core d1" and "rt_listener d1 = rt_listener d"
  shows "keeps_field rt_listener d rs"
  using core_fields(5) [OF assms(1) [of "fst rs" "snd rs"]] assms(2) by (simp add: keeps_field_def)

lemma keeps_core_secrets:
  assumes "\<And>r d'. rs = (r, d') \<Longrightarrow> core d' = core d1" and "rt_secrets d1 = rt_secrets d"
  shows "keeps_field rt_secrets d rs"
  using core_fields(4) [OF assms(1) [of "fst rs" "snd rs"]] assms(2) by (simp add: keeps_field_def)

lemma commit_keeps:
  "rt_listener d1 = rt_listener d \<Longrightarrow> keeps_field rt_listener d (commit_config c d1)"
  "rt_secrets d1 = rt_secrets d \<Longrightarrow> keeps_field rt_secrets d (commit_config c d1)"
  by (auto simp: commit_config_def split: prod.split sum.split lock.split)

lemma store_keeps:
  "rt_listener d1 = rt_listener d \<Longrightarrow> keeps_field rt_listener d (store_config lib c d1)"
  "rt_secrets d1 = rt_secrets d \<Longrightarrow> keeps_field rt_secrets d (store_config lib c d1)"
  unfolding store_config_def
  by (rule keeps_st_then [OF keeps_core [OF save_config_core] commit_keeps(1)], assumption+)
    (rule keeps_st_then [OF keeps_core_secrets [OF save_config_core] commit_keeps(2)], assumption+)

text \<open>A listener that is not there is put there by \<open>set\_listener(true)\<close> only.\<close>

lemma save_actions_listener: "keeps_field rt_listener d (save_actions lib actions d)"
  unfolding save_actions_def Let_def by (intro keeps_st_then store_keeps keeps_fieldI) simp_all

lemma apply_voice_listener: "keeps_field rt_listener d (apply_voice_config lib d)"
  unfolding apply_voice_config_def Let_def split_def by (intro keeps_st_then store_keeps keeps_fieldI) simp_all

lemma startup_listener: "keeps_field rt_listener d (set_start_after_login lib b d)"
proof -
  have undone: "keeps_field rt_listener d (r, snd (configure_startup b' d1))"
    if "rt_listener d1 = rt_listener d" for r :: "(runtime_error, unit) result" and b' d1
    using core_fields(5) [OF configure_startup_core [of b' d1 "fst (configure_startup b' d1)" "snd (configure_startup b' d1)"]]
      that by (intro keeps_fieldI) simp
  show ?thesis unfolding set_start_after_login_def Let_def
    by (rule keeps_st_then [OF keeps_core [OF configure_startup_core] keeps_st_match
          [OF keeps_core [OF save_config_core] undone commit_keeps(1)]]) (assumption | rule refl)+
qed

lemma rotation_unheard:
  assumes "rt_listener d = None"
  shows "rt_listener (snd (rotate_credentials lib d)) = None"
proof -
  have stop: "take_and_stop d = (Inr False, d)" using assms by (simp add: take_and_stop_def)
  have swap: "keeps_field rt_listener d (set_secrets s d1)" if "rt_listener d1 = rt_listener d" for s d1
    using that by (auto simp: set_secrets_def split: lock.split)
  have "keeps_field rt_listener d (rotate_credentials lib d)"
    unfolding rotate_credentials_def Let_def stop st_then.simps(2) restart_def if_False not_False_eq_True if_True
    by (intro keeps_st_match keeps_st_then keeps_failed keeps_fieldI swap
        keeps_core [OF new_secrets_core] keeps_core [OF save_secrets_core]; assumption?; rule refl)
  then show ?thesis using assms by (simp add: keeps_field_def)
qed

lemma reconfigure_unheard:
  assumes "daemon_inv c s d" and "rt_listener d = None"
  shows "rt_listener (snd (reconfigure lib a p free d)) = None"
proof (cases free)
  case False
  then have "reconfigure lib a p free d = (Inl RuntimeError, d)" by (intro reconfigure_refused) auto
  then show ?thesis using assms(2) by simp
next
  case True
  have "idle c s d" using assms by (simp add: idle_def)
  obtain r d' where op: "reconfigure lib a p True d = (r, d')" by fastforce
  have "rt_listener d' = None"
    using reconfigure_idle [OF \<open>idle c s d\<close>, of lib a p] core_fields(5) [of d' d] assms(2)
    by (auto simp: op reconfigure_outcome_def idle_def split: if_splits)
  then show ?thesis using True op by simp
qed

lemma system_step_unheard:
  assumes "daemon_ok (fst s)" and "rt_listener (fst s) = None" and "op \<noteq> SetListener True"
  shows "rt_listener (fst (system_step lib hlib exec s op)) = None"
proof -
  obtain d x where s: "s = (d, x)" by fastforce
  obtain c se where inv: "daemon_inv c se d" using assms(1) daemon_ok_inv by (auto simp: s)
  have d: "rt_listener d = None" using assms(2) by (simp add: s)
  have kept: "rt_listener (snd rs) = None" if "keeps_field rt_listener d rs" for rs :: "'r \<times> daemon"
    using that d by (simp add: keeps_field_def)
  show ?thesis
  proof (cases op)
    case (SetListener b)
    then have "listener_outcome lib False d (set_listener lib False d)" "b = False"
      using set_listener_outcome [OF inv] assms(3) by auto
    then show ?thesis using SetListener
      by (cases "set_listener lib False d") (auto simp: s listener_outcome_def split: if_splits)
  next
    case (Reconfigure a p free)
    then show ?thesis using reconfigure_unheard [OF inv d] by (simp add: s)
  next
    case Rotate
    then show ?thesis using rotation_unheard [OF d] by (simp add: s)
  next
    case ExportCa
    obtain r d' where op: "export_ca d = (r, d')" by fastforce
    have "core d' = core d"
      using op by (cases r) (auto simp: export_ca_def st_then_Inr st_then_Inl dest: on_world_core)
    from core_fields(5) [OF this] show ?thesis using ExportCa d op by (simp add: s)
  next
    case Shutdown
    then show ?thesis using shutdown_ends [OF inv] by (simp add: s idle_def)
  next
    case (TestAction i free)
    then show ?thesis using d by (simp add: s runtime_test_action_def split: prod.split)
  qed (use d kept [OF save_actions_listener] kept [OF apply_voice_listener] kept [OF startup_listener] in
      \<open>simp_all add: s serve_media_def serve_custom_def serve_ack_def\<close>)
qed

section \<open>Properties\<close>

text \<open>A daemon that has loaded is consistent after any sequence of management operations, device
  requests and failures of the machine: its configuration is valid, the dispatcher runs on the same
  one, the secrets hold a token and belong to the bound address, the caches are in order, and a
  listener runs only while enabled, on the configured address, with the current token and certificate.\<close>

theorem daemon_always_consistent:
  assumes "load_runtime lib dir w startup draws = (Inr (), d0)" and "random_ok lib"
  shows "case system_run lib hlib exec ops (d0, x) of (d, _) \<Rightarrow>
    \<exists>c s. rt_config d = Sound c \<and> dp_config (rt_dispatcher d) = Sound c \<and> config_ok c
      \<and> rt_secrets d = Sound s \<and> parse_token (se_token s) \<noteq> None
      \<and> se_host s = ip_to_string (ac_bind_address c)
      \<and> dispatcher_ok (rt_dispatcher d)
      \<and> (\<forall>l. rt_listener d = Some l \<longrightarrow>
           ac_listener_enabled c \<and> ln_address l = ac_bind_address c \<and> ln_port l = ac_port c
         \<and> ln_certificate l = se_certificate_pem s \<and> ln_key l = se_server_key_pem s
         \<and> parse_token (se_token s) = Some (ln_token l) \<and> ln_config_path l = config_path d)"
proof -
  obtain d y where run: "system_run lib hlib exec ops (d0, x) = (d, y)" by fastforce
  have "daemon_ok d"
    using system_run_ok [OF assms(2), of "(d0, x)" hlib exec ops] loaded_ok [OF assms] run by simp
  then obtain c s where inv: "daemon_inv c s d" using daemon_ok_inv by blast
  then show ?thesis
    using daemon_invD [OF inv] run
    by (auto simp: daemon_inv_def secrets_ok_def listener_ok_def intro!: exI [of _ c] exI [of _ s])
qed

lemma example_load:
  "\<exists>d. load_runtime example_lib (Some ''C:/u'') \<lparr>files = Map.empty, answers = []\<rparr> False 0 = (Inr (), d)"
proof -
  have crypt: "protect (\<lambda>encrypt text. Some text) ''s'' = Some ''s''"
    by (simp add: protect_def transform_def u32_max_def)
  have dir: "join_path ''C:/u'' ''Esp32MediaDaemon'' = ''C:/u'' @ [CHR 0x5C] @ ''Esp32MediaDaemon''"
    and paths: "path_has_parent (join_path (''C:/u'' @ [CHR 0x5C] @ ''Esp32MediaDaemon'') ''config.json'')"
      "path_has_parent (join_path (''C:/u'' @ [CHR 0x5C] @ ''Esp32MediaDaemon'') ''secrets.dpapi'')"
    by code_simp+
  have token: "parse_token (token_bytes (generate (replicate 32 0))) \<noteq> None"
    using generate_wf [of "replicate 32 0"] parse_token_Some by fastforce
  have created: "new_dispatcher default_config = Inr e \<Longrightarrow> True" for e by simp
  have valid: "validate default_config = Inr ()" using default_config_ok by (simp add: validate_iff)
  show ?thesis
    unfolding load_runtime_def
    using paths crypt token valid
    by (simp add: dir machine_def on_world_def io_step_quiet file_exists_def ask_def load_config_def load_def
        read_file_def load_secrets_def example_lib_def new_secrets_def provision_def draw_token_def new_dispatcher_def
        save_config_def save_quiet [OF default_config_ok] save_secrets_def atomic_write_def Let_def)
qed

theorem daemon_always_consistent_witness:
  "\<exists>d c. load_runtime example_lib (Some ''C:/u'') \<lparr>files = Map.empty, answers = []\<rparr> False 0 = (Inr (), d)
    \<and> rt_config (fst (system_run example_lib example_http_lib example_exec [SetListener True, SaveActions []] (d, 0)))
      = Sound c \<and> config_ok c"
proof -
  obtain d where load: "load_runtime example_lib (Some ''C:/u'') \<lparr>files = Map.empty, answers = []\<rparr> False 0 = (Inr (), d)"
    using example_load by blast
  have "random_ok example_lib" by (simp add: random_ok_def example_lib_def)
  from daemon_always_consistent [OF load this, of example_http_lib example_exec "[SetListener True, SaveActions []]" 0]
  show ?thesis using load by (auto split: prod.splits)
qed

text \<open>A daemon whose listener runs, for the instances below.\<close>

definition serving_config :: app_config where
  "serving_config = example_published\<lparr>ac_listener_enabled := True\<rparr>"

definition serving_listener :: listener_task where
  "serving_listener =
     \<lparr>ln_address = ac_bind_address example_published, ln_port = ac_port example_published,
      ln_certificate = ''cert'', ln_key = ''key'', ln_token = example_token,
      ln_config_path = join_path ''C:/d'' ''config.json''\<rparr>"

definition serving_daemon :: daemon where
  "serving_daemon = (with_config serving_config example_daemon)\<lparr>rt_listener := Some serving_listener\<rparr>"

lemma serving_inv: "daemon_inv serving_config example_secrets serving_daemon"
proof -
  have ok: "config_ok serving_config"
  proof -
    have "validate serving_config = Inr ()" by code_simp
    then show ?thesis by (simp add: validate_iff)
  qed
  have token: "parse_token (replicate 64 CHR ''a'') = Some example_token" by code_simp
  have "daemon_inv serving_config example_secrets (with_config serving_config example_daemon)"
    by (rule with_config_inv [OF example_daemon_inv ok])
      (use daemon_invD(5) [OF example_daemon_inv] in
        \<open>simp_all add: secrets_ok_def serving_config_def example_daemon_def\<close>)
  then show ?thesis
    unfolding serving_daemon_def
    by (rule with_listener)
      (simp add: listener_ok_def serving_listener_def serving_config_def with_config_def example_daemon_def
        example_secrets_def token)
qed

lemma find_member: "List.find P xs = Some x \<Longrightarrow> x \<in> set xs \<and> P x"
  by (auto simp: find_Some_iff)

text \<open>What an answer of 200 to a custom action means.\<close>

lemma custom_action_200:
  assumes "custom_action_handler hlib exec free clock headers body (state, x) = (Some r, state', x')"
    and "rp_status r = 200"
  shows "\<exists>q action. authorized hlib state headers \<and> lb_custom hlib body = Some q
    \<and> validate_time (cr_issued_at_ms q) (cr_expires_at_ms q) (now_ms clock) = Inr ()
    \<and> custom_snapshot q (hs_dispatcher state) = Inr action \<and> exec action x = (Inr (), x')"
proof (cases "check_request hlib (lb_custom hlib) state headers body")
  case (Inl response)
  then show ?thesis
    using assms check_request_Inl_status [of hlib "lb_custom hlib" state headers body r] by (simp add: custom_action_handler_def)
next
  case (Inr q)
  obtain r1 d1 x1 where run: "dispatch_custom exec q (now_ms clock) free (hs_dispatcher state, x) = (r1, d1, x1)"
    by (metis prod_cases3)
  have x1: "x1 = x'" using assms(1) Inr run by (simp add: custom_action_handler_def Let_def)
  have "r1 = Inr Dispatched"
  proof (cases r1)
    case (Inl e)
    then have "dispatch_error_response hlib e = Some r"
      using assms(1) \<open>check_request hlib (lb_custom hlib) state headers body = Inr q\<close> run
      by (simp add: custom_action_handler_def Let_def)
    then show ?thesis using dispatch_error_not_ok assms(2) by blast
  next
    case (Inr status)
    then show ?thesis
      using assms \<open>check_request hlib (lb_custom hlib) state headers body = Inr q\<close> run
      by (cases status) (auto simp: custom_action_handler_def Let_def dest: error_response_status)
  qed
  then have "dispatch_custom exec q (now_ms clock) free (hs_dispatcher state, x) = (Inr Dispatched, d1, x')"
    using run x1 by simp
  moreover have "validate_time (cr_issued_at_ms q) (cr_expires_at_ms q) (now_ms clock) = Inr ()"
    using calculation
    by (cases "custom_admit q (now_ms clock) free (hs_dispatcher state)";
        cases "fst (custom_admit q (now_ms clock) free (hs_dispatcher state))")
      (auto simp: dispatch_custom_def with_executor_def custom_admit_Inr)
  ultimately show ?thesis using dispatch_custom_Inr Inr by (fastforce simp: check_request_Inr)
qed

text \<open>C1: a custom action that the daemon answered with 200 was asked for with the current token, named
  the revision of the published table and an action for which that table has a command and which is
  enabled in the current configuration, and the executor was run on exactly what that action is
  configured to do.\<close>

theorem served_action_was_published:
  assumes "daemon_inv c s d"
    and "serve_custom hlib exec free clock headers body (d, x) = (Some r, d', x')" and "rp_status r = 200"
  shows "\<exists>token q p a. parse_token (se_token s) = Some token
    \<and> verify_header (lb_ct_eq hlib) token (get_str headers ''authorization'')
    \<and> lb_custom hlib body = Some q
    \<and> validate_time (cr_issued_at_ms q) (cr_expires_at_ms q) (now_ms clock) = Inr ()
    \<and> ac_published_voice c = Some p \<and> cr_voice_revision q = pv_revision p
    \<and> pv_actions_revision p = ac_actions_revision c
    \<and> (\<exists>command. command \<in> set (pv_commands p) \<and> vc_action_id command = cr_action_id q)
    \<and> a \<in> set (ac_actions c) \<and> ca_id a = cr_action_id q \<and> ca_enabled a
    \<and> exec (ca_action a) x = (Inr (), x')"
proof -
  obtain l where l: "rt_listener d = Some l" using assms(2) by (auto simp: serve_custom_def split: option.splits)
  have token: "parse_token (se_token s) = Some (ln_token l)"
    using daemon_invD(7) [OF assms(1)] l by (simp add: listener_ok_def)
  obtain state' where handler: "custom_action_handler hlib exec free clock headers body (http_state_of d l, x) = (Some r, state', x')"
    using assms(2) l by (auto simp: serve_custom_def Let_def split: prod.splits)
  from custom_action_200 [OF handler assms(3)] obtain q action where
    q: "authorized hlib (http_state_of d l) headers" "lb_custom hlib body = Some q"
      "validate_time (cr_issued_at_ms q) (cr_expires_at_ms q) (now_ms clock) = Inr ()"
      "custom_snapshot q (hs_dispatcher (http_state_of d l)) = Inr action" "exec action x = (Inr (), x')"
    by blast
  then obtain p command a where "ac_published_voice c = Some p" "cr_voice_revision q = pv_revision p"
    "pv_actions_revision p = ac_actions_revision c"
    "command \<in> set (pv_commands p)" "vc_action_id command = cr_action_id q"
    "a \<in> set (ac_actions c)" "ca_id a = cr_action_id q" "ca_enabled a" "action = ca_action a"
    using assms(1)
    by (auto simp: custom_snapshot_Inr http_state_of_def daemon_inv_def list_ex_iff dest!: find_member)
  then show ?thesis using q token by (auto simp: authorized_def http_state_of_def)
qed

lemma serving_run:
  "\<exists>r d'. serve_custom example_http_lib example_exec True (Some 2000) example_headers ''b'' (serving_daemon, 0) =
     (Some r, d', 1) \<and> rp_status r = 200"
proof -
  have auth: "authorized example_http_lib (http_state_of serving_daemon serving_listener) example_headers"
    using example_authorized by (simp add: authorized_def http_state_of_def serving_listener_def example_state_def)
  have check: "check_request example_http_lib (lb_custom example_http_lib)
      (http_state_of serving_daemon serving_listener) example_headers ''b'' = Inr example_request"
    by (simp add: check_request_Inr auth example_content_type example_framing) (simp add: example_http_lib_def)
  have selected: "custom_snapshot example_request (rt_dispatcher serving_daemon) = Inr (ca_action example_action)"
    by (simp add: custom_snapshot_Inr serving_daemon_def with_config_def serving_config_def example_simps)
  have reserved: "reserve (cr_id example_request) (cr_expires_at_ms example_request) 2000 (rt_dispatcher serving_daemon) =
      (Inr (), (rt_dispatcher serving_daemon)\<lparr>dp_seen := Sound
        [\<lparr>rs_id = cr_id example_request, rs_expires_at_ms = cr_expires_at_ms example_request\<rparr>]\<rparr>)"
    by (simp add: reserve_Inr serving_daemon_def with_config_def example_daemon_def example_dispatcher_def)
  have "custom_admit example_request 2000 True (rt_dispatcher serving_daemon) =
      (Inr (ca_action example_action), (rt_dispatcher serving_daemon)\<lparr>dp_seen := Sound
        [\<lparr>rs_id = cr_id example_request, rs_expires_at_ms = cr_expires_at_ms example_request\<rparr>]\<rparr>)"
    unfolding custom_admit_Inr
    by (simp add: selected reserved) (simp add: example_request_def validate_time_Inr)
  then obtain d' where "dispatch_custom example_exec example_request 2000 True (rt_dispatcher serving_daemon, 0) =
      (Inr Dispatched, d', 1)"
    by (auto simp: dispatch_custom_def with_executor_def example_exec_def custom_complete_def Let_def)
  moreover have "rt_listener serving_daemon = Some serving_listener" by (simp add: serving_daemon_def)
  ultimately show ?thesis
    by (simp add: serve_custom_def custom_action_handler_def check now_ms_def usize_max_def)
      (simp add: http_state_of_def example_json json_response_def)
qed

theorem served_action_was_published_witness:
  "\<exists>token. parse_token (se_token example_secrets) = Some token
    \<and> verify_header (lb_ct_eq example_http_lib) token (get_str example_headers ''authorization'')"
proof -
  obtain r d' where "serve_custom example_http_lib example_exec True (Some 2000) example_headers ''b'' (serving_daemon, 0) =
     (Some r, d', 1)" and "rp_status r = 200"
    using serving_run by blast
  from served_action_was_published [OF serving_inv this] show ?thesis by blast
qed

text \<open>An acknowledgment of the device changes at most the acknowledged revision, and only to the
  revision that is published and current; then memory, dispatcher and disk agree before the device
  is answered.\<close>

theorem acknowledgment_is_durable:
  assumes "daemon_inv c s d" and "rt_listener d = Some l"
  shows "case serve_ack hlib headers body (d, x) of (response, d', x') \<Rightarrow>
      x' = x
    \<and> (rt_config d' = Sound c \<and> files (os_world d') = files (os_world d)
       \<or> (\<exists>p text. ac_published_voice c = Some p \<and> pv_actions_revision p = ac_actions_revision c
            \<and> authorized hlib (http_state_of d l) headers
            \<and> (let c' = c\<lparr>ac_acknowledged_voice_revision := Some (pv_revision p)\<rparr> in
                 rt_config d' = Sound c' \<and> dp_config (rt_dispatcher d') = Sound c'
               \<and> lb_encode hlib c' = Some text
               \<and> files (os_world d') = (files (os_world d))(config_path d \<mapsto> text @ [CHR 0x0A]))
            \<and> response = json hlib 200 (VoiceAckReply (pv_revision p) ''active'')))"
proof -
  obtain response state w where ack:
    "voice_config_ack hlib headers body (http_state_of d l, os_world d) = (response, state, w)"
    by (metis prod_cases3)
  have path: "ln_config_path l = config_path d"
    using daemon_invD(7) [OF assms(1)] assms(2) by (simp add: listener_ok_def)
  have op: "serve_ack hlib headers body (d, x) = (response, (put_http_state state d)\<lparr>os_world := w\<rparr>, x)"
    using assms(2) ack by (simp add: serve_ack_def)
  from ack_cases [OF assms(1) path ack] show ?thesis
  proof (elim disjE)
    assume "state = http_state_of d l \<and> files w = files (os_world d)"
    then show ?thesis
      using daemon_invD(1) [OF assms(1)] by (simp add: op put_http_state_def http_state_of_def)
  next
    assume "\<exists>revision text. ack_request hlib headers body (http_state_of d l) = Inr revision
         \<and> ack_check hlib revision (http_state_of d l) = Inr (config_path d, with_acknowledged c revision)
         \<and> put_http_state state d = with_config (with_acknowledged c revision) d
         \<and> config_ok (with_acknowledged c revision)
         \<and> lb_encode hlib (with_acknowledged c revision) = Some text
         \<and> files w = (files (os_world d))(config_path d \<mapsto> text @ [CHR 0x0A])
         \<and> response = json hlib 200 (VoiceAckReply revision ''active'')"
    then obtain revision bytes where
      a: "ack_request hlib headers body (http_state_of d l) = Inr revision"
        "ack_check hlib revision (http_state_of d l) = Inr (config_path d, with_acknowledged c revision)"
        "put_http_state state d = with_config (with_acknowledged c revision) d"
        "lb_encode hlib (with_acknowledged c revision) = Some bytes"
        "files w = (files (os_world d))(config_path d \<mapsto> bytes @ [CHR 0x0A])"
        "response = json hlib 200 (VoiceAckReply revision ''active'')" by blast
    obtain p where "ac_published_voice c = Some p" "pv_revision p = revision"
      "pv_actions_revision p = ac_actions_revision c"
      using a(2) daemon_invD(1) [OF assms(1)] by (auto simp: ack_check_Inr http_state_of_def)
    moreover have "authorized hlib (http_state_of d l) headers" using a(1) by (simp add: ack_request_Inr)
    ultimately show ?thesis
      using a by (simp add: op with_config_def with_acknowledged_def)
  qed
qed

theorem acknowledgment_is_durable_witness:
  "case serve_ack example_http_lib example_headers ''b'' (serving_daemon, 0 :: nat) of (response, d', x') \<Rightarrow> x' = 0"
proof -
  have "rt_listener serving_daemon = Some serving_listener" by (simp add: serving_daemon_def)
  from acknowledgment_is_durable [OF serving_inv this, where hlib = example_http_lib and headers = example_headers
      and body = "''b''" and x = "0 :: nat"]
  show ?thesis by (auto split: prod.splits)
qed

end
