(* ===== verification/Daemon_Management.thy ===== *)
theory Daemon_Management
  imports Daemon_System
begin

text \<open>
  The two ends of the management channel (daemon/src/adapters/windows\_management.rs): the
  background process that answers requests with the runtime's operations, the client the
  Settings window calls, and the supervisor that keeps one Settings process.

  The server's state is the system of Daemon\_System and the start-up error flag. What the
  client's channel answers is a parameter of its calls; composing it with the server gives the
  end-to-end statements.
\<close>

section \<open>The server\<close>

definition diagnostic_snapshot_of :: "diagnostic_event \<Rightarrow> diagnostic_snapshot" where
  "diagnostic_snapshot_of event =
     \<lparr>ds_request_id = de_request_id event, ds_action_id = de_action_id event,
      ds_category = de_category event, ds_reason = de_reason event\<rparr>"

definition snapshot :: "daemon \<Rightarrow> bool \<Rightarrow> daemon_snapshot" where
  "snapshot d startup_error =
     \<lparr>sn_config = config_of d,
      sn_diagnostics = map diagnostic_snapshot_of (diagnostics (rt_dispatcher d)),
      sn_startup_error = startup_error\<rparr>"

record 'x manager =
  mg_system :: "'x system"
  mg_startup_error :: bool

abbreviation mg_daemon :: "'x manager \<Rightarrow> daemon" where
  "mg_daemon m \<equiv> fst (mg_system m)"

abbreviation mg_snapshot :: "'x manager \<Rightarrow> daemon_snapshot" where
  "mg_snapshot m \<equiv> snapshot (mg_daemon m) (mg_startup_error m)"

fun clears_startup_error :: "request \<Rightarrow> bool" where
  "clears_startup_error (ReqSetListener b) = True"
| "clears_startup_error (ReqReconfigure a p) = True"
| "clears_startup_error ReqRotateCredentials = True"
| "clears_startup_error _ = False"

text \<open>The end of \<open>dispatch_request\<close>, after an operation of the runtime.\<close>

definition answer_operation ::
  "request \<Rightarrow> (daemon \<Rightarrow> (runtime_error, unit) result \<times> daemon) \<Rightarrow> 'x manager \<Rightarrow> response \<times> 'x manager" where
  "answer_operation request operation m =
     (let (r, d) = operation (mg_daemon m);
          m = m\<lparr>mg_system := (d, snd (mg_system m))\<rparr>
      in case r of
           Inl _ \<Rightarrow> (RespError MeFailed, m)
         | Inr _ \<Rightarrow>
             let m = (if clears_startup_error request then m\<lparr>mg_startup_error := False\<rparr> else m)
             in (RespApplied (mg_snapshot m), m))"

text \<open>
  \<open>dispatch_request\<close>. \<open>free\<close> and \<open>listener_free\<close> are the answers of \<open>try_read\<close> on the
  lifecycle lock and of \<open>try_lock\<close> on the listener.
\<close>

fun dispatch_request ::
  "runtime_lib \<Rightarrow> 'x executor \<Rightarrow> bool \<Rightarrow> bool \<Rightarrow> request \<Rightarrow> 'x manager \<Rightarrow> response \<times> 'x manager" where
  "dispatch_request lib exec free listener_free (ReqTestAction i) m =
     (let (r, s) = runtime_test_action exec i free (mg_system m);
          m = m\<lparr>mg_system := s\<rparr>
      in (case r of
            Inr _ \<Rightarrow> RespApplied (mg_snapshot m)
          | Inl e \<Rightarrow>
              if e = ExecutionCancelled then RespActionCancelled (mg_snapshot m)
              else if e = Busy \<or> e = ExecutionBusy then RespError MeBusy
              else RespError MeFailed, m))"
| "dispatch_request lib exec free listener_free ReqSnapshot m = (RespSnapshot (mg_snapshot m), m)"
| "dispatch_request lib exec free listener_free (ReqSetListener enabled) m =
     answer_operation (ReqSetListener enabled) (set_listener lib enabled) m"
| "dispatch_request lib exec free listener_free (ReqSaveActions actions) m =
     answer_operation (ReqSaveActions actions) (save_actions lib actions) m"
| "dispatch_request lib exec free listener_free ReqApplyVoiceConfig m =
     answer_operation ReqApplyVoiceConfig (apply_voice_config lib) m"
| "dispatch_request lib exec free listener_free (ReqSetStartup enabled) m =
     answer_operation (ReqSetStartup enabled) (set_start_after_login lib enabled) m"
| "dispatch_request lib exec free listener_free (ReqReconfigure a p) m =
     answer_operation (ReqReconfigure a p) (reconfigure lib a p listener_free) m"
| "dispatch_request lib exec free listener_free ReqRevealPairingToken m =
     ((case token_for_pairing (mg_daemon m) of
         Inr token \<Rightarrow> RespPairingToken token
       | Inl _ \<Rightarrow> RespError MeFailed), m)"
| "dispatch_request lib exec free listener_free ReqExportCa m =
     (let (r, d) = export_ca (mg_daemon m);
          m = m\<lparr>mg_system := (d, snd (mg_system m))\<rparr>
      in ((case r of Inr p \<Rightarrow> RespCaExported p | Inl _ \<Rightarrow> RespError MeFailed), m))"
| "dispatch_request lib exec free listener_free ReqRotateCredentials m =
     answer_operation ReqRotateCredentials (rotate_credentials lib) m"

definition serve_envelope ::
  "runtime_lib \<Rightarrow> 'x executor \<Rightarrow> bool \<Rightarrow> bool \<Rightarrow> request envelope \<Rightarrow> 'x manager
   \<Rightarrow> response envelope \<times> 'x manager" where
  "serve_envelope lib exec free listener_free request m =
     (let (response, m) =
        (if en_version request \<noteq> PROTOCOL_VERSION then (RespError MeInvalidRequest, m)
         else dispatch_request lib exec free listener_free (en_payload request) m)
      in (envelope_new (en_id request) response, m))"

text \<open>
  The channel thread of \<open>spawn_settings\<close>: it reads requests until the stream ends or breaks, or a
  response cannot be written. The two JSON codecs are parameters.
\<close>

lemma read_message_shorter:
  "read_message from_slice r = (Inr (Some m), r') \<Longrightarrow> length r' < length r"
  by (auto simp: read_message_def result_simps read_frame_Inr frame_wire_def split: option.splits)

function channel_loop ::
  "(string \<Rightarrow> request envelope option) \<Rightarrow> (response envelope \<Rightarrow> string list option)
   \<Rightarrow> (request envelope \<Rightarrow> 'x manager \<Rightarrow> response envelope \<times> 'x manager)
   \<Rightarrow> reader \<Rightarrow> writer \<Rightarrow> 'x manager \<Rightarrow> writer \<times> 'x manager" where
  "channel_loop from_slice to_chunks serve r w m =
     (case read_message from_slice r of
        (Inl e, r') \<Rightarrow> (w, m)
      | (Inr None, r') \<Rightarrow> (w, m)
      | (Inr (Some request), r') \<Rightarrow>
          (case serve request m of
             (response, m') \<Rightarrow>
               (case write_message to_chunks response w of
                  (Inl e, w') \<Rightarrow> (w', m')
                | (Inr _, w') \<Rightarrow> channel_loop from_slice to_chunks serve r' w' m')))"
  by pat_completeness auto
termination
  by (relation "measure (\<lambda>(f, c, s, r, w, m). length r)") (auto dest!: read_message_shorter [OF sym])

declare channel_loop.simps [simp del]

section \<open>The client\<close>

datatype channel_answer =
    QueueFull
  | Disconnected
  | NoAnswer
  | Replied "(string, response envelope) result"

definition call_worker :: "channel_answer \<Rightarrow> (string, response envelope) result" where
  "call_worker answer =
     (case answer of
        QueueFull \<Rightarrow> Inl ''Settings request queue is full''
      | Disconnected \<Rightarrow> Inl ''Background process is disconnected''
      | NoAnswer \<Rightarrow> Inl ''Background process did not respond''
      | Replied r \<Rightarrow> r)"

text \<open>One call of \<open>client_worker\<close> on the pipes; after an error the worker ends.\<close>

definition worker_call ::
  "(request envelope \<Rightarrow> string list option) \<Rightarrow> (string \<Rightarrow> response envelope option)
   \<Rightarrow> request envelope \<Rightarrow> writer \<times> reader \<Rightarrow> (string, response envelope) result \<times> writer \<times> reader" where
  "worker_call to_chunks from_slice request = (\<lambda>(w, r).
     (case write_message to_chunks request w of
        (Inl e, w') \<Rightarrow> (Inl ''Background process is disconnected'', w', r)
      | (Inr _, w') \<Rightarrow>
          (case read_message from_slice r of
             (Inr (Some response), r') \<Rightarrow> (Inr response, w', r')
           | (Inr None, r') \<Rightarrow> (Inl ''Background process is disconnected'', w', r')
           | (Inl e, r') \<Rightarrow> (Inl ''Background process is disconnected'', w', r'))))"

fun client_worker ::
  "(request envelope \<Rightarrow> string list option) \<Rightarrow> (string \<Rightarrow> response envelope option)
   \<Rightarrow> request envelope list \<Rightarrow> writer \<times> reader
   \<Rightarrow> (string, response envelope) result list \<times> writer \<times> reader" where
  "client_worker to_chunks from_slice [] pipes = ([], pipes)"
| "client_worker to_chunks from_slice (request # requests) pipes =
     (case worker_call to_chunks from_slice request pipes of
        (Inl e, pipes') \<Rightarrow> ([Inl e], pipes')
      | (Inr response, pipes') \<Rightarrow>
          (case client_worker to_chunks from_slice requests pipes' of
             (results, pipes'') \<Rightarrow> (Inr response # results, pipes'')))"

record settings_client =
  cl_state :: "daemon_snapshot lock"
  cl_next_id :: u64

definition replace_state :: "daemon_snapshot \<Rightarrow> settings_client \<Rightarrow> settings_client" where
  "replace_state state c =
     (case cl_state c of Poisoned _ \<Rightarrow> c | Sound _ \<Rightarrow> c\<lparr>cl_state := Sound state\<rparr>)"

text \<open>The state a response carries for \<open>call_raw\<close>.\<close>

fun response_state :: "response \<Rightarrow> daemon_snapshot option" where
  "response_state (RespSnapshot state) = Some state"
| "response_state (RespApplied state) = Some state"
| "response_state (RespActionCancelled state) = Some state"
| "response_state _ = None"

definition next_request :: "request \<Rightarrow> settings_client \<Rightarrow> request envelope \<times> settings_client" where
  "next_request request c = (envelope_new (cl_next_id c) request, c\<lparr>cl_next_id := cl_next_id c + 1\<rparr>)"

lemma envelope_new_simps [simp]:
  "en_version (envelope_new i p) = PROTOCOL_VERSION" "en_id (envelope_new i p) = i"
  "en_payload (envelope_new i p) = p"
  by (simp_all add: envelope_new_def)

definition check_envelope :: "u64 \<Rightarrow> response envelope \<Rightarrow> (string, response) result" where
  "check_envelope i response =
     (if en_version response \<noteq> PROTOCOL_VERSION \<or> en_id response \<noteq> i
      then Inl ''Background process returned a mismatched response''
      else Inr (en_payload response))"

definition call_raw ::
  "(request envelope \<Rightarrow> channel_answer) \<Rightarrow> request \<Rightarrow> settings_client
   \<Rightarrow> (string, response) result \<times> settings_client" where
  "call_raw channel request c =
     (let (envelope, c) = next_request request c in
        st_then (and_then (call_worker (channel envelope)) (check_envelope (en_id envelope)), c)
          (\<lambda>payload c.
            (Inr payload,
             case response_state payload of None \<Rightarrow> c | Some state \<Rightarrow> replace_state state c)))"

fun error_message :: "management_error \<Rightarrow> string" where
  "error_message MeInvalidRequest = ''Background process rejected the Settings request''"
| "error_message MeBusy = ''Background process is busy''"
| "error_message MeCancelled = ''UAC prompt was cancelled''"
| "error_message MeFailed = ''Background process could not complete the operation''"

definition client_call ::
  "(request envelope \<Rightarrow> channel_answer) \<Rightarrow> request \<Rightarrow> settings_client
   \<Rightarrow> (string, response) result \<times> settings_client" where
  "client_call channel request c =
     st_then (call_raw channel request c) (\<lambda>payload c.
       (case payload of RespError code \<Rightarrow> Inl (error_message code) | _ \<Rightarrow> Inr payload, c))"

definition applied ::
  "(request envelope \<Rightarrow> channel_answer) \<Rightarrow> request \<Rightarrow> settings_client
   \<Rightarrow> (string, unit) result \<times> settings_client" where
  "applied channel request c =
     st_then (client_call channel request c) (\<lambda>payload c.
       (case payload of
          RespApplied _ \<Rightarrow> Inr ()
        | _ \<Rightarrow> Inl ''Background process rejected the Settings operation'', c))"

definition refresh ::
  "(request envelope \<Rightarrow> channel_answer) \<Rightarrow> settings_client \<Rightarrow> (string, unit) result \<times> settings_client" where
  "refresh channel c =
     st_match (client_call channel ReqSnapshot c)
       (\<lambda>e c. (if e = ''Settings request queue is full'' then Inr () else Inl e, c))
       (\<lambda>payload c.
          (case payload of
             RespSnapshot _ \<Rightarrow> Inr ()
           | _ \<Rightarrow> Inl ''Background process returned an unexpected response'', c))"

fun action_test_result :: "(string, response) result \<Rightarrow> (management_error, unit) result" where
  "action_test_result (Inr (RespApplied _)) = Inr ()"
| "action_test_result (Inr (RespActionCancelled _)) = Inl MeCancelled"
| "action_test_result (Inr (RespError code)) = Inl code"
| "action_test_result _ = Inl MeFailed"

definition client_test_action ::
  "(request envelope \<Rightarrow> channel_answer) \<Rightarrow> action_id \<Rightarrow> settings_client
   \<Rightarrow> (management_error, unit) result \<times> settings_client" where
  "client_test_action channel i c =
     (let (r, c) = call_raw channel (ReqTestAction i) c in (action_test_result r, c))"

definition client_token ::
  "(request envelope \<Rightarrow> channel_answer) \<Rightarrow> settings_client \<Rightarrow> (string, string) result \<times> settings_client" where
  "client_token channel c =
     st_then (client_call channel ReqRevealPairingToken c) (\<lambda>payload c.
       (case payload of
          RespPairingToken token \<Rightarrow> Inr token
        | _ \<Rightarrow> Inl ''Background process returned an unexpected response'', c))"

definition client_export_ca ::
  "(request envelope \<Rightarrow> channel_answer) \<Rightarrow> settings_client \<Rightarrow> (string, path) result \<times> settings_client" where
  "client_export_ca channel c =
     st_then (client_call channel ReqExportCa c) (\<lambda>payload c.
       (case payload of
          RespCaExported p \<Rightarrow> Inr p
        | _ \<Rightarrow> Inl ''Background process returned an unexpected response'', c))"

definition call_blocking ::
  "(request envelope \<Rightarrow> channel_answer) \<Rightarrow> request \<Rightarrow> settings_client
   \<Rightarrow> (string, response) result \<times> settings_client" where
  "call_blocking channel request c =
     (let (envelope, c) = next_request request c in
        st_then (and_then (call_worker (channel envelope)) (check_envelope (en_id envelope)), c)
          (\<lambda>payload c.
            (case payload of
               RespSnapshot state \<Rightarrow> (Inr (RespSnapshot state), replace_state state c)
             | RespError code \<Rightarrow> (Inl (error_message code), c)
             | _ \<Rightarrow> (Inr payload, c))))"

definition initial_client :: settings_client where
  "initial_client =
     \<lparr>cl_state = Sound \<lparr>sn_config = default_config, sn_diagnostics = [], sn_startup_error = False\<rparr>,
      cl_next_id = 1\<rparr>"

text \<open>\<open>connect\<close>; \<open>on_terminal\<close> tells whether an end of the pipe is a terminal.\<close>

definition connect ::
  "bool \<Rightarrow> (request envelope \<Rightarrow> channel_answer) \<Rightarrow> (string, settings_client) result" where
  "connect on_terminal channel =
     (if on_terminal then Inl ''Settings can only connect to its background process''
      else
        let (r, c) = call_blocking channel ReqSnapshot initial_client in
          and_then r (\<lambda>response.
            case response of
              RespSnapshot state \<Rightarrow> Inr (replace_state state c)
            | _ \<Rightarrow> Inl ''Background process did not send initial Settings state''))"

section \<open>The supervisor\<close>

text \<open>
  \<open>supervisor_loop\<close>. \<open>sv_child\<close> and \<open>sv_job\<close> are the two variables of the loop; \<open>sv_processes\<close>
  are the Settings processes that were started and neither seen to have ended nor waited for.
  The arguments of a step are what the machine answers: whether the child has ended when the
  command is handled and at the end of the turn, whether it ends in time on a quit, and the
  process that \<open>spawn_settings\<close> starts, if it does. A process that \<open>spawn_settings\<close> gives up
  was killed there, or dies with its job.
\<close>

datatype supervisor_command = Open | Quit | ChildDisconnected u32

record supervisor =
  sv_child :: "u32 option"
  sv_job :: bool
  sv_processes :: "u32 list"
  sv_stopped :: bool

record observations =
  ob_ended :: bool
  ob_ended_later :: bool
  ob_spawned :: "u32 option"

definition reap :: "u32 \<Rightarrow> supervisor \<Rightarrow> supervisor" where
  "reap p s = s\<lparr>sv_child := None, sv_job := False, sv_processes := remove1 p (sv_processes s)\<rparr>"

definition spawn :: "u32 option \<Rightarrow> supervisor \<Rightarrow> supervisor" where
  "spawn spawned s =
     (case spawned of
        None \<Rightarrow> s
      | Some p \<Rightarrow> s\<lparr>sv_child := Some p, sv_job := True, sv_processes := p # sv_processes s\<rparr>)"

text \<open>The check at the end of a turn of the loop; \<open>continue\<close> and \<open>break\<close> skip it.\<close>

definition end_of_turn :: "bool \<Rightarrow> supervisor \<Rightarrow> supervisor" where
  "end_of_turn ended s =
     (case sv_child s of None \<Rightarrow> s | Some p \<Rightarrow> if ended then reap p s else s)"

fun supervisor_turn :: "observations \<Rightarrow> supervisor_command \<Rightarrow> supervisor \<Rightarrow> supervisor" where
  "supervisor_turn ob Open s =
     (case sv_child s of
        Some p \<Rightarrow>
          if \<not> ob_ended ob then s
          else end_of_turn (ob_ended_later ob) (spawn (ob_spawned ob) (reap p s))
      | None \<Rightarrow> end_of_turn (ob_ended_later ob) (spawn (ob_spawned ob) s))"
| "supervisor_turn ob Quit s =
     (let s = (case sv_child s of
                 None \<Rightarrow> s
               | Some p \<Rightarrow> s\<lparr>sv_processes := remove1 p (sv_processes s)\<rparr>)
      in s\<lparr>sv_job := False, sv_stopped := True\<rparr>)"
| "supervisor_turn ob (ChildDisconnected p) s =
     end_of_turn (ob_ended_later ob) (if sv_child s = Some p then reap p s else s)"

definition supervisor_step :: "supervisor \<Rightarrow> observations \<times> supervisor_command \<Rightarrow> supervisor" where
  "supervisor_step s = (\<lambda>(ob, command). if sv_stopped s then s else supervisor_turn ob command s)"

definition supervisor_start :: supervisor where
  "supervisor_start = \<lparr>sv_child = None, sv_job = False, sv_processes = [], sv_stopped = False\<rparr>"

section \<open>What the server answers\<close>

lemma answer_operation_cases:
  "answer_operation request operation m = (response, m') \<Longrightarrow>
     (\<exists>r d. operation (mg_daemon m) = (r, d) \<and> mg_daemon m' = d \<and> snd (mg_system m') = snd (mg_system m)
       \<and> (if is_ok r
          then response = RespApplied (mg_snapshot m')
             \<and> mg_startup_error m' = (mg_startup_error m \<and> \<not> clears_startup_error request)
          else response = RespError MeFailed \<and> mg_startup_error m' = mg_startup_error m))"
  by (cases "operation (mg_daemon m)"; cases "fst (operation (mg_daemon m))")
    (auto simp: answer_operation_def Let_def split: if_splits)

text \<open>The state a response carries is the state of the server after the request.\<close>

lemma response_state_current:
  assumes "dispatch_request lib exec free lfree request m = (response, m')"
    and "response_state response = Some state"
  shows "state = mg_snapshot m'"
proof -
  have op: "answer_operation q operation m = (response, m') \<Longrightarrow> state = mg_snapshot m'" for q operation
    using answer_operation_cases [of q operation m response m'] assms(2) by (auto split: if_splits)
  show ?thesis
  proof (cases request)
    case (ReqTestAction i)
    obtain r s where "runtime_test_action exec i free (mg_system m) = (r, s)" by (rule prod.exhaust)
    then show ?thesis using assms ReqTestAction
      by (cases r) (auto simp: Let_def split: if_splits)
  next
    case ReqRevealPairingToken
    then show ?thesis using assms by (auto split: sum.splits)
  next
    case ReqExportCa
    then show ?thesis using assms by (auto simp: Let_def split: sum.splits prod.splits)
  qed (use assms op in auto)
qed

lemma answer_operation_ok:
  assumes "answer_operation request operation m = (response, m')" and "ends_ok (operation (mg_daemon m))"
  shows "daemon_ok (mg_daemon m')"
  using answer_operation_cases [OF assms(1)] assms(2) by auto

lemma dispatch_request_ok:
  assumes "dispatch_request lib exec free lfree request m = (response, m')"
    and "daemon_ok (mg_daemon m)" and "random_ok lib"
  shows "daemon_ok (mg_daemon m')"
proof -
  obtain d x where s: "mg_system m = (d, x)" by fastforce
  have step: "daemon_ok (fst (system_step lib undefined exec (d, x) op))" for op
    using system_step_ok [OF assms(3), of "(d, x)"] assms(2) by (simp add: s)
  have op: "answer_operation q operation m = (response, m') \<Longrightarrow> ends_ok (operation d) \<Longrightarrow> ?thesis"
    for q operation
    using answer_operation_ok [of q operation m response m'] s by simp
  show ?thesis
  proof (cases request)
    case (ReqTestAction i)
    then show ?thesis using assms(1) step [of "TestAction i free"] s
      by (auto simp: Let_def split: prod.splits)
  next
    case ReqRevealPairingToken
    then show ?thesis using assms by auto
  next
    case ReqExportCa
    then show ?thesis using assms(1) step [of ExportCa] s by (auto simp: Let_def split: prod.splits)
  next
    case (ReqSetListener b)
    then show ?thesis using assms(1) step [of "SetListener b"] op by simp
  next
    case (ReqSaveActions actions)
    then show ?thesis using assms(1) step [of "SaveActions actions"] op by simp
  next
    case ReqApplyVoiceConfig
    then show ?thesis using assms(1) step [of ApplyVoice] op by simp
  next
    case (ReqSetStartup b)
    then show ?thesis using assms(1) step [of "SetStartup b"] op by simp
  next
    case (ReqReconfigure a p)
    then show ?thesis using assms(1) step [of "Reconfigure a p lfree"] op by simp
  next
    case ReqRotateCredentials
    then show ?thesis using assms(1) step [of Rotate] op by simp
  qed (use assms in auto)
qed

section \<open>A client on the server\<close>

text \<open>The channel that hands the envelope to the server and brings its answer back.\<close>

definition direct_channel ::
  "(request envelope \<Rightarrow> 'x manager \<Rightarrow> response envelope \<times> 'x manager) \<Rightarrow> 'x manager
   \<Rightarrow> request envelope \<Rightarrow> channel_answer" where
  "direct_channel serve m request = Replied (Inr (fst (serve request m)))"

lemma serve_envelope_current:
  "serve_envelope lib exec free lfree (envelope_new i request) m =
     (let (response, m') = dispatch_request lib exec free lfree request m
      in (envelope_new i response, m'))"
  by (simp add: serve_envelope_def)

lemma call_raw_direct:
  assumes "dispatch_request lib exec free lfree request m = (response, m')"
    and "cl_state c = Sound old"
  shows "call_raw (direct_channel (serve_envelope lib exec free lfree) m) request c =
    (Inr response, c\<lparr>cl_next_id := cl_next_id c + 1,
       cl_state := Sound (case response_state response of None \<Rightarrow> old | Some state \<Rightarrow> state)\<rparr>)"
  using assms
  by (cases "response_state response")
    (simp_all add: call_raw_def next_request_def direct_channel_def serve_envelope_current call_worker_def
      check_envelope_def replace_state_def)

lemma call_raw_mismatch:
  assumes "channel (envelope_new (cl_next_id c) request) = Replied (Inr response)"
    and "en_version response \<noteq> PROTOCOL_VERSION \<or> en_id response \<noteq> cl_next_id c"
  shows "call_raw channel request c =
    (Inl ''Background process returned a mismatched response'', c\<lparr>cl_next_id := cl_next_id c + 1\<rparr>)"
  using assms
  by (simp add: call_raw_def next_request_def call_worker_def check_envelope_def)

section \<open>The channel thread\<close>

text \<open>The frames of a list of requests, and what the thread writes and does for them.\<close>

fun serve_all ::
  "(request envelope \<Rightarrow> 'x manager \<Rightarrow> response envelope \<times> 'x manager) \<Rightarrow> request envelope list
   \<Rightarrow> 'x manager \<Rightarrow> response envelope list \<times> 'x manager" where
  "serve_all serve [] m = ([], m)"
| "serve_all serve (q # qs) m =
     (let (response, m') = serve q m; (responses, m'') = serve_all serve qs m'
      in (response # responses, m''))"

definition message_wire :: "('m \<Rightarrow> string list option) \<Rightarrow> 'm \<Rightarrow> string" where
  "message_wire to_chunks m = frame_wire (concat (the (to_chunks m)))"

text \<open>A message that is serialized, fits into a frame, and is decoded to itself.\<close>

definition message_ok :: "('m \<Rightarrow> string list option) \<Rightarrow> (string \<Rightarrow> 'm option) \<Rightarrow> 'm \<Rightarrow> bool" where
  "message_ok to_chunks from_slice m \<longleftrightarrow>
     (case to_chunks m of
        None \<Rightarrow> False
      | Some chunks \<Rightarrow> frame_ok (concat chunks) \<and> from_slice (concat chunks) = Some m)"

definition message_fits :: "('m \<Rightarrow> string list option) \<Rightarrow> 'm \<Rightarrow> bool" where
  "message_fits to_chunks m \<longleftrightarrow>
     (case to_chunks m of None \<Rightarrow> False | Some chunks \<Rightarrow> frame_ok (concat chunks))"

lemma write_message_fits:
  assumes "message_fits to_chunks m" and "wr_answers w = []"
  shows "write_message to_chunks m w = (Inr (), w\<lparr>wr_bytes := wr_bytes w @ message_wire to_chunks m\<rparr>)"
proof -
  obtain chunks where chunks: "to_chunks m = Some chunks" "frame_ok (concat chunks)"
    using assms(1) by (auto simp: message_fits_def split: option.splits)
  then have "write_chunks chunks [] = (Inr (), concat chunks)"
    by (intro write_chunks_fit) (simp add: frame_ok_def)
  then show ?thesis
    using chunks assms(2) by (simp add: write_message_def write_frame_quiet message_wire_def)
qed

lemma read_message_ok:
  assumes "message_ok to_chunks from_slice m"
  shows "read_message from_slice (map Inr (message_wire to_chunks m) @ r) = (Inr (Some m), r)"
proof -
  obtain chunks where chunks: "to_chunks m = Some chunks" "frame_ok (concat chunks)"
    "from_slice (concat chunks) = Some m"
    using assms by (auto simp: message_ok_def split: option.splits)
  then have "read_frame (map Inr (frame_wire (concat chunks)) @ r) = (Inr (Some (concat chunks)), r)"
    by (simp add: read_frame_Inr)
  then show ?thesis using chunks by (simp add: message_wire_def read_message_of_frame)
qed

lemma read_message_end: "read_message from_slice [] = (Inr None, [])"
  by (simp add: read_message_def read_frame_end [THEN iffD2])

lemma channel_loop_serves:
  assumes "list_all (message_ok out_chunks from_slice) qs"
    and "list_all (message_fits to_chunks) (fst (serve_all serve qs m))"
    and "wr_answers w = []"
  shows "channel_loop from_slice to_chunks serve (map Inr (concat (map (message_wire out_chunks) qs))) w m =
    (w\<lparr>wr_bytes := wr_bytes w @ concat (map (message_wire to_chunks) (fst (serve_all serve qs m)))\<rparr>,
     snd (serve_all serve qs m))"
  using assms
proof (induction qs arbitrary: w m)
  case Nil
  then show ?case by (simp add: channel_loop.simps read_message_end)
next
  case (Cons q qs)
  obtain response m' where step: "serve q m = (response, m')" by fastforce
  obtain responses m'' where rest: "serve_all serve qs m' = (responses, m'')" by fastforce
  have read: "read_message from_slice
      (map Inr (message_wire out_chunks q) @ map Inr (concat (map (message_wire out_chunks) qs))) =
      (Inr (Some q), map Inr (concat (map (message_wire out_chunks) qs)))"
    using Cons.prems(1) by (intro read_message_ok) simp
  have wrote: "write_message to_chunks response w =
      (Inr (), w\<lparr>wr_bytes := wr_bytes w @ message_wire to_chunks response\<rparr>)"
    using Cons.prems(2,3) step rest by (intro write_message_fits) simp_all
  have "channel_loop from_slice to_chunks serve (map Inr (concat (map (message_wire out_chunks) (q # qs)))) w m =
      channel_loop from_slice to_chunks serve (map Inr (concat (map (message_wire out_chunks) qs)))
        (w\<lparr>wr_bytes := wr_bytes w @ message_wire to_chunks response\<rparr>) m'"
    by (subst channel_loop.simps) (simp add: read step wrote)
  then show ?case using Cons.IH [of m'] Cons.prems step rest by simp
qed

text \<open>The states between the requests that were served.\<close>

lemma serve_all_states:
  assumes "serve_all serve qs m = (rs, m')" and "P m" and "\<And>q m. P m \<Longrightarrow> P (snd (serve q m))"
  shows "\<exists>ms. length ms = Suc (length qs) \<and> length rs = length qs \<and> hd ms = m \<and> last ms = m'
    \<and> (\<forall>k < length qs. serve (qs ! k) (ms ! k) = (rs ! k, ms ! Suc k)) \<and> list_all P ms"
  using assms(1,2)
proof (induction qs arbitrary: m rs)
  case Nil
  then show ?case by (intro exI [of _ "[m]"]) simp
next
  case (Cons q qs)
  obtain response m1 where step: "serve q m = (response, m1)" by fastforce
  obtain rs1 where rest: "serve_all serve qs m1 = (rs1, m')" and rs: "rs = response # rs1"
    using Cons.prems(1) step by (auto split: prod.splits)
  have "P m1" using assms(3) [OF Cons.prems(2), of q] step by simp
  from Cons.IH [OF rest this] obtain ms where ms: "length ms = Suc (length qs)" "length rs1 = length qs"
    "hd ms = m1" "last ms = m'" "\<forall>k < length qs. serve (qs ! k) (ms ! k) = (rs1 ! k, ms ! Suc k)" "list_all P ms"
    by blast
  have first: "ms ! 0 = m1" using ms(1,3) by (cases ms) simp_all
  have "serve ((q # qs) ! k) ((m # ms) ! k) = (rs ! k, (m # ms) ! Suc k)" if "k < length (q # qs)" for k
    using that ms(5) step first rs by (cases k) simp_all
  then show ?case
    using ms rs Cons.prems(2) by (intro exI [of _ "m # ms"]) auto
qed

section \<open>The supervisor's invariant\<close>

text \<open>
  While the supervisor runs there is exactly the process it knows, tied to a job that ends it
  with the daemon; after it has stopped there is none.
\<close>

definition supervisor_ok :: "supervisor \<Rightarrow> bool" where
  "supervisor_ok s \<longleftrightarrow>
     (if sv_stopped s then sv_processes s = []
      else sv_processes s = (case sv_child s of None \<Rightarrow> [] | Some p \<Rightarrow> [p])
         \<and> sv_job s = (sv_child s \<noteq> None))"

lemma supervisor_turn_ok:
  "supervisor_ok s \<Longrightarrow> \<not> sv_stopped s \<Longrightarrow> supervisor_ok (supervisor_turn ob command s)"
  by (cases command; cases "sv_child s"; cases "ob_spawned ob")
    (auto simp: supervisor_ok_def end_of_turn_def reap_def spawn_def Let_def)

interpretation supervisor: stepper supervisor_step supervisor_ok
  by unfold_locales (auto simp: supervisor_step_def supervisor_turn_ok split: prod.split)

section \<open>Properties\<close>


definition example_manager :: "nat manager" where
  "example_manager = \<lparr>mg_system = (example_daemon, 0), mg_startup_error = False\<rparr>"

lemma example_manager_ok: "daemon_ok (mg_daemon example_manager)"
  using example_daemon_inv daemon_ok_inv by (auto simp: example_manager_def)

text \<open>Two requests, of which the second has another version.\<close>

definition example_requests :: "request envelope list" where
  "example_requests = [envelope_new 7 ReqApplyVoiceConfig, (envelope_new 8 ReqSnapshot)\<lparr>en_version := 3\<rparr>]"


text \<open>After a call the client shows the server's state: a response that carries a state carries the
  one after the request, and any other response leaves what the client shows.\<close>

theorem client_mirrors_server:
  assumes "dispatch_request lib exec free lfree request m = (response, m')" and "cl_state c = Sound old"
  shows "case call_raw (direct_channel (serve_envelope lib exec free lfree) m) request c of (r, c') \<Rightarrow>
      r = Inr response \<and> cl_next_id c' = cl_next_id c + 1
    \<and> cl_state c' = Sound (if response_state response = None then old else mg_snapshot m')"
  using response_state_current [OF assms(1)]
  by (auto simp: call_raw_direct [OF assms])

theorem client_mirrors_server_witness:
  "cl_state (snd (call_raw (direct_channel (serve_envelope example_lib example_exec True True) example_manager)
     ReqSnapshot initial_client)) = Sound (snapshot example_daemon False)"
proof -
  have op: "dispatch_request example_lib example_exec True True ReqSnapshot example_manager =
      (RespSnapshot (mg_snapshot example_manager), example_manager)" by simp
  obtain old where old: "cl_state initial_client = Sound old" by (simp add: initial_client_def)
  from client_mirrors_server [OF op old] show ?thesis
    by (auto simp: example_manager_def split: prod.splits)
qed

text \<open>A response of another version or to another call is not taken: the call fails and nothing the
  client shows changes.\<close>

theorem mismatched_response_rejected:
  assumes "channel (envelope_new (cl_next_id c) request) = Replied (Inr response)"
    and "en_version response \<noteq> 4 \<or> en_id response \<noteq> cl_next_id c"
  shows "call_raw channel request c =
      (Inl ''Background process returned a mismatched response'', c\<lparr>cl_next_id := cl_next_id c + 1\<rparr>)
    \<and> applied channel request c =
      (Inl ''Background process returned a mismatched response'', c\<lparr>cl_next_id := cl_next_id c + 1\<rparr>)"
proof -
  have "en_version response \<noteq> PROTOCOL_VERSION \<or> en_id response \<noteq> cl_next_id c"
    using assms(2) by (simp add: PROTOCOL_VERSION_def)
  from call_raw_mismatch [of channel, OF assms(1) this] show ?thesis by (simp add: applied_def client_call_def)
qed

theorem mismatched_response_rejected_witness:
  "call_raw (\<lambda>q. Replied (Inr (envelope_new 9 (RespPairingToken ''t'')))) ReqRevealPairingToken initial_client =
     (Inl ''Background process returned a mismatched response'', initial_client\<lparr>cl_next_id := 2\<rparr>)"
  using mismatched_response_rejected
    [of "\<lambda>q. Replied (Inr (envelope_new 9 (RespPairingToken ''t'')))" initial_client ReqRevealPairingToken
      "envelope_new 9 (RespPairingToken ''t'')"]
  by (simp add: initial_client_def)

text \<open>C37: when the Settings window's request to save actions reports success, the daemon runs on exactly
  these actions, the disk holds them, and the window shows them.\<close>

theorem saving_through_the_channel:
  assumes "daemon_inv c s (mg_daemon m)" and "cl_state client = Sound old"
    and "applied (direct_channel (serve_envelope lib exec free lfree) m) (ReqSaveActions actions) client = (Inr (), client')"
  shows "\<exists>m' c'. dispatch_request lib exec free lfree (ReqSaveActions actions) m = (RespApplied (mg_snapshot m'), m')
    \<and> daemon_inv c' s (mg_daemon m') \<and> ac_actions c' = actions
    \<and> ac_actions_revision c' = ac_actions_revision c + 1
    \<and> config_on_disk lib c' (mg_daemon m')
    \<and> cl_state client' = Sound (mg_snapshot m') \<and> sn_config (mg_snapshot m') = c'"
proof -
  obtain response m' where op: "dispatch_request lib exec free lfree (ReqSaveActions actions) m = (response, m')"
    by fastforce
  have answer: "response = RespApplied (mg_snapshot m')"
    and client': "cl_state client' = Sound (mg_snapshot m')"
    using assms(3) response_state_current [OF op]
    by (auto simp: applied_def client_call_def call_raw_direct [OF op assms(2)] result_simps split: response.splits)
  obtain r d where run: "save_actions lib actions (mg_daemon m) = (r, d)" "mg_daemon m' = d"
    "if is_ok r then response = RespApplied (mg_snapshot m') else response = RespError MeFailed"
    using answer_operation_cases [of "ReqSaveActions actions" "save_actions lib actions" m response m'] op
    by (auto split: if_splits)
  then have "is_ok r" using answer by (auto split: if_splits)
  then obtain revision where revision: "checked_add (ac_actions_revision c) 1 = Some revision"
    and inv: "daemon_inv (with_actions c actions revision) s d" "config_on_disk lib (with_actions c actions revision) d"
    using save_actions_outcome [OF assms(1), of lib actions] run(1)
    by (auto simp: all_or_nothing_def split: option.splits)
  have "revision = ac_actions_revision c + 1"
    using revision by (auto simp: checked_add_def split: if_splits)
  then show ?thesis
    using op answer client' inv run(2) daemon_invD(3) [OF inv(1)]
    by (intro exI [of _ m'] exI [of _ "with_actions c actions revision"])
      (simp add: with_actions_def snapshot_def)
qed

lemma example_save: "\<exists>d. save_actions example_lib [] example_daemon = (Inr (), d)"
proof -
  have ok: "config_ok (example_published\<lparr>ac_actions := [], ac_actions_revision := 2\<rparr>)"
  proof -
    have "validate (example_published\<lparr>ac_actions := [], ac_actions_revision := 2\<rparr>) = Inr ()" by code_simp
    then show ?thesis by (simp add: validate_iff)
  qed
  have revision: "ac_actions_revision example_published = 1" by (simp add: example_simps)
  have "checked_add 1 1 = Some (2 :: u64)" by (simp add: checked_add_def)
  moreover have "path_has_parent (config_path example_daemon)"
    using example_paths by (simp add: example_daemon_def)
  then have "save_config example_lib (example_published\<lparr>ac_actions := [], ac_actions_revision := 2\<rparr>) example_daemon =
      (Inr (), example_daemon\<lparr>os_world := \<lparr>files = [config_path example_daemon \<mapsto> ''cfg'' @ [CHR 0x0A]], answers = []\<rparr>\<rparr>)"
    using save_quiet [OF ok, of "config_path example_daemon" "rl_encode example_lib" "''cfg''" "os_world example_daemon"]
    by (simp add: save_config_def on_world_def) (simp add: example_daemon_def example_lib_def)
  moreover have "daemon_inv example_published example_secrets
      (example_daemon\<lparr>os_world := \<lparr>files = [config_path example_daemon \<mapsto> ''cfg'' @ [CHR 0x0A]], answers = []\<rparr>\<rparr>)"
    using example_daemon_inv daemon_inv_core core_os(1) by blast
  then have "\<exists>d. commit_config (example_published\<lparr>ac_actions := [], ac_actions_revision := 2\<rparr>)
      (example_daemon\<lparr>os_world := \<lparr>files = [config_path example_daemon \<mapsto> ''cfg'' @ [CHR 0x0A]], answers = []\<rparr>\<rparr>) = (Inr (), d)"
    using commit_config_ok [OF _ _ ok] by (simp add: daemon_inv_def)
  moreover have "validate (example_published\<lparr>ac_actions := [], ac_actions_revision := 2\<rparr>) = Inr ()"
    using ok by (simp add: validate_iff)
  ultimately show ?thesis
    using daemon_invD(3) [OF example_daemon_inv] revision
    by (simp add: save_actions_def store_config_def Let_def)
qed

theorem saving_through_the_channel_witness:
  "\<exists>client'. applied (direct_channel (serve_envelope example_lib example_exec True True) example_manager)
      (ReqSaveActions []) initial_client = (Inr (), client')
    \<and> (\<exists>m' :: nat manager. cl_state client' = Sound (mg_snapshot m') \<and> ac_actions (sn_config (mg_snapshot m')) = [])"
proof -
  have inv: "daemon_inv example_published example_secrets (mg_daemon example_manager)"
    using example_daemon_inv by (simp add: example_manager_def)
  obtain old where old: "cl_state initial_client = Sound old" by (simp add: initial_client_def)
  obtain d where "save_actions example_lib [] example_daemon = (Inr (), d)" using example_save by blast
  then obtain m' where op: "dispatch_request example_lib example_exec True True (ReqSaveActions []) example_manager =
      (RespApplied (mg_snapshot m'), m')"
    by (simp add: answer_operation_def example_manager_def)
  obtain client' where called: "applied (direct_channel (serve_envelope example_lib example_exec True True) example_manager)
      (ReqSaveActions []) initial_client = (Inr (), client')"
    by (simp add: applied_def client_call_def call_raw_direct [OF op old])
  from saving_through_the_channel [OF inv old called] show ?thesis using called by metis
qed

text \<open>The channel thread, reading a stream that holds the requests, performs each once in order,
  writes exactly the answers' frames, and ends with the stream.\<close>

theorem channel_serves_whole_stream:
  assumes "list_all (\<lambda>q. \<exists>chunks. out_chunks q = Some chunks \<and> concat chunks \<noteq> [] \<and> length (concat chunks) \<le> 134217728
      \<and> from_slice (concat chunks) = Some q) qs"
    and "list_all (\<lambda>a. \<exists>chunks. to_chunks a = Some chunks \<and> concat chunks \<noteq> [] \<and> length (concat chunks) \<le> 134217728)
      (fst (serve_all serve qs m))"
    and "wr_answers w = []"
  shows "channel_loop from_slice to_chunks serve (map Inr (concat (map (message_wire out_chunks) qs))) w m =
    (w\<lparr>wr_bytes := wr_bytes w @ concat (map (message_wire to_chunks) (fst (serve_all serve qs m)))\<rparr>,
     snd (serve_all serve qs m))"
proof (rule channel_loop_serves [OF _ _ assms(3)])
  show "list_all (message_ok out_chunks from_slice) qs"
    using assms(1) by (rule list.pred_mono_strong) (auto simp: message_ok_def frame_ok_def)
  show "list_all (message_fits to_chunks) (fst (serve_all serve qs m))"
    using assms(2) by (rule list.pred_mono_strong) (auto simp: message_fits_def frame_ok_def)
qed

theorem channel_serves_whole_stream_witness:
  "snd (channel_loop (\<lambda>bytes. Some (envelope_new 1 ReqSnapshot)) (\<lambda>a. Some [''x''])
     (serve_envelope example_lib example_exec True True)
     (map Inr (message_wire (\<lambda>q. Some [''s'']) (envelope_new 1 ReqSnapshot))) \<lparr>wr_bytes = [], wr_answers = []\<rparr>
     example_manager) = example_manager"
  using channel_serves_whole_stream [of "\<lambda>q. Some [''s'']" "\<lambda>bytes. Some (envelope_new 1 ReqSnapshot)"
      "[envelope_new 1 ReqSnapshot]" "\<lambda>a. Some [''x'']" "serve_envelope example_lib example_exec True True" example_manager
      "\<lparr>wr_bytes = [], wr_answers = []\<rparr>"]
  by (simp add: serve_envelope_current)

text \<open>Whatever is asked of the supervisor and whatever its Settings process does, at most one such
  process exists, always the one the supervisor knows and tied to a job; after a quit there is none.\<close>

theorem one_settings_process:
  "let s = foldl supervisor_step supervisor_start commands in
     length (sv_processes s) \<le> 1
   \<and> (if sv_stopped s then sv_processes s = []
      else set (sv_processes s) = set_option (sv_child s) \<and> sv_job s = (sv_child s \<noteq> None))"
proof -
  have "supervisor_ok (foldl supervisor_step supervisor_start commands)"
    by (rule supervisor.run_inv) (simp add: supervisor_ok_def supervisor_start_def)
  then show ?thesis by (auto simp: supervisor_ok_def Let_def split: if_splits option.splits)
qed

end
