(* ===== verification/Daemon_Tray.thy ===== *)
theory Daemon_Tray
  imports Daemon_Management
begin

text \<open>
  The background process (daemon/src/adapters/windows\_app.rs, \<open>run\<close>; windows\_host.rs; the instance
  mutex of windows\_runtime.rs): start-up, the tray's events, the message loop, the Settings
  supervisor's queue and the way out. Windows' message queue and the tray library are inputs: a step
  says which message or click arrives and what \<open>GetMessageW\<close> returns.
\<close>

section \<open>One instance\<close>

text \<open>
  The named mutex exists while a process has it open; \<open>open\_handles\<close> counts the handles, \<open>created\<close> is
  whether \<open>CreateMutexW\<close> gives one. \<open>acquire\_single\_instance\<close> returns whether this process is the
  instance, and the handles left; a process that is not the instance has closed its own.
\<close>

definition acquire_single_instance :: "bool \<Rightarrow> nat \<Rightarrow> (runtime_error, bool) result \<times> nat" where
  "acquire_single_instance created open_handles =
     (if \<not> created then (Inl RuntimeError, open_handles)
      else
        let already_exists = (open_handles > 0);
            open_handles = open_handles + 1
        in if already_exists then (Inr False, open_handles - 1) else (Inr True, open_handles))"

text \<open>\<open>activate\_existing\_instance\<close>: forty attempts to find the host's window; whether one was found.\<close>

fun activate_attempts :: "nat \<Rightarrow> bool list \<Rightarrow> bool" where
  "activate_attempts 0 found = False"
| "activate_attempts (Suc n) [] = False"
| "activate_attempts (Suc n) (f # found) = (if f then True else activate_attempts n found)"

definition activate_existing_instance :: "bool list \<Rightarrow> bool" where
  "activate_existing_instance = activate_attempts 40"

section \<open>Start-up\<close>

text \<open>Loading the runtime and resuming a listener that was saved as enabled; the flag is \<open>startup\_error\<close>.\<close>

definition start_daemon ::
  "runtime_lib \<Rightarrow> path option \<Rightarrow> world \<Rightarrow> bool \<Rightarrow> nat \<Rightarrow> (runtime_error, bool) result \<times> daemon" where
  "start_daemon lib local_app_data w startup draws =
     st_then (load_runtime lib local_app_data w startup draws) (\<lambda>_ d.
       if ac_listener_enabled (config_of d)
       then st_match (set_listener lib True d) (\<lambda>_ d. (Inr True, d)) (\<lambda>_ d. (Inr False, d))
       else (Inr False, d))"

section \<open>Signals\<close>

datatype daemon_event = OpenSettings | ToggleListener | QuitDaemon

definition menu_event :: "string \<Rightarrow> daemon_event list" where
  "menu_event i =
     (if i = ''settings'' then [OpenSettings]
      else if i = ''listener'' then [ToggleListener]
      else if i = ''quit'' then [QuitDaemon]
      else [])"

datatype tray_icon_event = Click "bool" "bool" | OtherTrayEvent    \<comment> \<open>left button, button up\<close>

definition tray_event :: "tray_icon_event \<Rightarrow> daemon_event list" where
  "tray_event event = (case event of Click left up \<Rightarrow> if left \<and> up then [OpenSettings] else [] | OtherTrayEvent \<Rightarrow> [])"

definition WM_APP :: nat where "WM_APP = 0x8000"
definition OPEN_SETTINGS :: nat where "OPEN_SETTINGS = WM_APP + 1"

section \<open>The message loop\<close>

text \<open>What runs in the process: the main thread's flag and channel, the supervisor with its channel, the
  toggles that were spawned and have not read the configuration, those that have and wait for the
  lifecycle lock, each with the state it asks for, and whether the loop was left.\<close>

record 'x tray =
  ty_system :: "'x system"
  ty_supervisor :: supervisor
  ty_open_requested :: bool
  ty_events :: "daemon_event list"
  ty_commands :: "supervisor_command list"
  ty_toggles :: nat
  ty_asking :: "bool list"
  ty_left :: bool

definition window_proc :: "nat \<Rightarrow> 'x tray \<Rightarrow> 'x tray" where
  "window_proc message s = (if message = OPEN_SETTINGS then s\<lparr>ty_open_requested := True\<rparr> else s)"

definition send_events :: "daemon_event list \<Rightarrow> 'x tray \<Rightarrow> 'x tray" where
  "send_events es s = s\<lparr>ty_events := ty_events s @ es\<rparr>"

definition send_command :: "supervisor_command \<Rightarrow> 'x tray \<Rightarrow> 'x tray" where
  "send_command c s = s\<lparr>ty_commands := ty_commands s @ [c]\<rparr>"

definition take_open_request :: "'x tray \<Rightarrow> bool \<times> 'x tray" where
  "take_open_request s = (ty_open_requested s, s\<lparr>ty_open_requested := False\<rparr>)"

text \<open>The \<open>while let\<close> over the received events; the flag is \<open>quitting\<close>.\<close>

fun receive_events :: "daemon_event list \<Rightarrow> bool \<Rightarrow> 'x tray \<Rightarrow> bool \<times> 'x tray" where
  "receive_events [] quitting s = (quitting, s)"
| "receive_events (OpenSettings # es) quitting s = receive_events es quitting (send_command Open s)"
| "receive_events (ToggleListener # es) quitting s = receive_events es quitting (s\<lparr>ty_toggles := ty_toggles s + 1\<rparr>)"
| "receive_events (QuitDaemon # es) quitting s = receive_events es True s"

text \<open>What \<open>dispatch\_message\<close> returns, with the messages its handlers saw.\<close>

datatype message_result =
    GotMessage "nat list" "daemon_event list"    \<comment> \<open>to the host's window, and from the tray\<close>
  | QuitMessage
  | MessageError

definition loop_turn :: "message_result \<Rightarrow> 'x tray \<Rightarrow> 'x tray" where
  "loop_turn message s =
     (let (requested, s) = take_open_request s;
          s = (if requested then send_command Open s else s);
          (quitting, s) = receive_events (ty_events s) False (s\<lparr>ty_events := []\<rparr>)
      in if quitting then send_command Quit (s\<lparr>ty_left := True\<rparr>)
         else case message of
           GotMessage messages es \<Rightarrow> send_events es (fold window_proc messages s)
         | QuitMessage \<Rightarrow> send_command Quit (s\<lparr>ty_left := True\<rparr>)
         | MessageError \<Rightarrow> s\<lparr>ty_left := True\<rparr>)"

text \<open>The supervisor's thread takes its next command.\<close>

definition supervisor_takes :: "observations \<Rightarrow> 'x tray \<Rightarrow> 'x tray" where
  "supervisor_takes ob s =
     (case ty_commands s of
        [] \<Rightarrow> s
      | c # cs \<Rightarrow>
          if sv_stopped (ty_supervisor s) then s
          else s\<lparr>ty_commands := cs, ty_supervisor := supervisor_turn ob c (ty_supervisor s)\<rparr>)"

text \<open>
  A spawned toggle is a task of its own: it reads the configuration without a lock, and calls
  \<open>set\_listener\<close>, which waits for the lifecycle lock. Every other operation that changes the listener's
  state, but \<open>shutdown\<close>, waits for the same lock.
\<close>

definition toggle_reads :: "'x tray \<Rightarrow> 'x tray" where
  "toggle_reads s =
     (if ty_toggles s = 0 then s
      else s\<lparr>ty_toggles := ty_toggles s - 1,
             ty_asking := ty_asking s @ [\<not> ac_listener_enabled (config_of (fst (ty_system s)))]\<rparr>)"

definition toggle_runs :: "runtime_lib \<Rightarrow> nat \<Rightarrow> 'x tray \<Rightarrow> 'x tray" where
  "toggle_runs lib k s =
     (if k \<ge> length (ty_asking s) then s
      else
        let (d, x) = ty_system s
        in s\<lparr>ty_asking := take k (ty_asking s) @ drop (Suc k) (ty_asking s),
             ty_system := (snd (set_listener lib (ty_asking s ! k) d), x)\<rparr>)"

text \<open>
  The last call of \<open>run\<close>. \<open>shutdown\<close> takes the listener's lock only, so that it falls between the steps
  of an operation that holds the lifecycle lock. What it then finds in the listener's slot is what
  that operation found or what it leaves, which is as if the two came one after the other, except
  when a rotation has emptied the slot and fills it again: \<open>amid\<close> is whether the rotation of a running
  listener is there, and \<open>shutdown\<close> finds nothing to stop.
\<close>

definition finish_run :: "runtime_lib \<Rightarrow> bool \<Rightarrow> 'x tray \<Rightarrow> (runtime_error, unit) result \<times> 'x tray" where
  "finish_run lib amid s =
     (let (d, x) = ty_system s in
        if amid \<and> rt_listener d \<noteq> None
        then (Inr (), s\<lparr>ty_system := (snd (rotate_credentials lib d), x)\<rparr>)
        else case shutdown d of (r, d) \<Rightarrow> (r, s\<lparr>ty_system := (d, x)\<rparr>))"

datatype tray_op =
    Turn message_result
  | Signal "daemon_event list"
  | SupervisorTakes observations
  | ChildPipeCloses u32
  | ToggleReads
  | ToggleRuns nat
  | Background system_op

fun tray_step :: "runtime_lib \<Rightarrow> http_lib \<Rightarrow> 'x executor \<Rightarrow> 'x tray \<Rightarrow> tray_op \<Rightarrow> 'x tray" where
  "tray_step lib hlib exec s (Turn message) = (if ty_left s then s else loop_turn message s)"
| "tray_step lib hlib exec s (Signal es) = send_events es s"
| "tray_step lib hlib exec s (SupervisorTakes ob) = supervisor_takes ob s"
| "tray_step lib hlib exec s (ChildPipeCloses p) = send_command (ChildDisconnected p) s"
| "tray_step lib hlib exec s ToggleReads = toggle_reads s"
| "tray_step lib hlib exec s (ToggleRuns k) = toggle_runs lib k s"
| "tray_step lib hlib exec s (Background operation) = s\<lparr>ty_system := system_step lib hlib exec (ty_system s) operation\<rparr>"

definition tray_start :: "'x system \<Rightarrow> 'x tray" where
  "tray_start system =
     \<lparr>ty_system = system, ty_supervisor = supervisor_start, ty_open_requested = False, ty_events = [],
      ty_commands = [], ty_toggles = 0, ty_asking = [], ty_left = False\<rparr>"

section \<open>Nothing asked of the loop is lost\<close>

lemma receive_events_result:
  "receive_events es quitting s =
     (quitting \<or> QuitDaemon \<in> set es,
      s\<lparr>ty_commands := ty_commands s @ replicate (count_list es OpenSettings) Open,
        ty_toggles := ty_toggles s + count_list es ToggleListener\<rparr>)"
proof (induction es quitting s rule: receive_events.induct)
  case (2 es quitting s)
  then show ?case by (simp add: send_command_def)
qed simp_all

lemma window_procs:
  "fold window_proc messages s =
     s\<lparr>ty_open_requested := (ty_open_requested s \<or> OPEN_SETTINGS \<in> set messages)\<rparr>"
  by (induction messages arbitrary: s) (auto simp: window_proc_def)

text \<open>What a turn hands to the supervisor, counted.\<close>

definition opens_due :: "'x tray \<Rightarrow> nat" where
  "opens_due s = of_bool (ty_open_requested s) + count_list (ty_events s) OpenSettings"

definition collected :: "'x tray \<Rightarrow> 'x tray" where
  "collected s = s\<lparr>ty_open_requested := False, ty_events := [],
     ty_commands := ty_commands s @ replicate (opens_due s) Open,
     ty_toggles := ty_toggles s + count_list (ty_events s) ToggleListener\<rparr>"

lemma loop_turn_eq:
  "loop_turn message s =
     (if QuitDaemon \<in> set (ty_events s) then send_command Quit ((collected s)\<lparr>ty_left := True\<rparr>)
      else case message of
           GotMessage messages es \<Rightarrow> send_events es (fold window_proc messages (collected s))
         | QuitMessage \<Rightarrow> send_command Quit ((collected s)\<lparr>ty_left := True\<rparr>)
         | MessageError \<Rightarrow> (collected s)\<lparr>ty_left := True\<rparr>)"
proof -
  have "receive_events (ty_events s) False ((s\<lparr>ty_open_requested := False\<rparr>)\<lparr>ty_events := []\<rparr>) =
      (QuitDaemon \<in> set (ty_events s), collected s)" if "\<not> ty_open_requested s"
    using that by (simp add: receive_events_result collected_def opens_due_def)
  moreover have "receive_events (ty_events s) False ((send_command Open (s\<lparr>ty_open_requested := False\<rparr>))\<lparr>ty_events := []\<rparr>) =
      (QuitDaemon \<in> set (ty_events s), collected s)" if "ty_open_requested s"
    using that by (simp add: receive_events_result collected_def opens_due_def send_command_def)
  moreover have "ty_events (send_command Open (s\<lparr>ty_open_requested := False\<rparr>)) = ty_events s"
    by (simp add: send_command_def)
  ultimately show ?thesis
    by (cases "ty_open_requested s") (simp_all add: loop_turn_def take_open_request_def Let_def split del: if_split)
qed

lemma loop_turn_commands:
  "ty_commands (loop_turn message s) = ty_commands s @ replicate (opens_due s) Open @
     (if QuitDaemon \<in> set (ty_events s) \<or> message = QuitMessage then [Quit] else [])"
  by (cases message)
    (simp_all add: loop_turn_eq collected_def window_procs send_command_def send_events_def)

lemma loop_turn_frame:
  "ty_system (loop_turn message s) = ty_system s" "ty_supervisor (loop_turn message s) = ty_supervisor s"
  "ty_toggles (loop_turn message s) = ty_toggles s + count_list (ty_events s) ToggleListener"
  "ty_left (loop_turn message s) =
     (ty_left s \<or> QuitDaemon \<in> set (ty_events s) \<or> message \<in> {QuitMessage, MessageError})"
  by (cases message; simp add: loop_turn_eq collected_def window_procs send_command_def send_events_def)+

lemma single_instance:
  "n \<le> 1 \<Longrightarrow> acquire_single_instance created n =
     (if created then (Inr (n = 0), 1) else (Inl RuntimeError, n))"
  by (cases n) (simp_all add: acquire_single_instance_def)

lemma activate_existing_iff: "activate_existing_instance found \<longleftrightarrow> True \<in> set (take 40 found)"
proof -
  have "activate_attempts n found \<longleftrightarrow> True \<in> set (take n found)" for n
    by (induction n found rule: activate_attempts.induct) auto
  then show ?thesis by (simp add: activate_existing_instance_def)
qed

section \<open>The invariant of the background process\<close>

definition tray_ok :: "'x tray \<Rightarrow> bool" where
  "tray_ok s \<longleftrightarrow>
     daemon_ok (fst (ty_system s)) \<and> supervisor_ok (ty_supervisor s)
   \<and> (sv_stopped (ty_supervisor s) \<or> Quit \<in> set (ty_commands s) \<longrightarrow> ty_left s)"

lemma supervisor_turn_stops: "sv_stopped (supervisor_turn ob c s) = (sv_stopped s \<or> c = Quit)"
  by (cases c) (auto simp: spawn_def reap_def end_of_turn_def Let_def split: option.split)

lemma supervisor_takes_ok:
  assumes "tray_ok s"
  shows "tray_ok (supervisor_takes ob s)"
proof (cases "ty_commands s")
  case Nil
  then show ?thesis using assms by (simp add: supervisor_takes_def)
next
  case (Cons c cs)
  then show ?thesis
    using assms supervisor_turn_ok [of "ty_supervisor s" ob c] supervisor_turn_stops [of ob c "ty_supervisor s"]
    by (auto simp: supervisor_takes_def tray_ok_def)
qed

lemma toggle_runs_ok:
  assumes "tray_ok s"
  shows "tray_ok (toggle_runs lib k s)"
proof -
  obtain d x where s: "ty_system s = (d, x)" by fastforce
  obtain c se where inv: "daemon_inv c se d" using assms daemon_ok_inv by (auto simp: tray_ok_def s)
  have "daemon_ok (snd (set_listener lib b d))" for b
    using listener_outcome_ok [OF set_listener_outcome [OF inv]] by simp
  then show ?thesis using assms by (simp add: toggle_runs_def tray_ok_def s Let_def)
qed

lemma loop_turn_ok:
  assumes "tray_ok s" and "\<not> ty_left s"
  shows "tray_ok (loop_turn message s)"
  using assms
  by (auto simp: tray_ok_def loop_turn_frame loop_turn_commands split: if_splits)

lemma tray_step_ok:
  assumes "random_ok lib" and "tray_ok s"
  shows "tray_ok (tray_step lib hlib exec s operation)"
proof (cases operation)
  case (Turn message)
  then show ?thesis using assms(2) loop_turn_ok by auto
next
  case (Background op)
  then show ?thesis
    using assms(2) system_step_ok [OF assms(1), of "ty_system s" hlib exec op]
    by (auto simp: tray_ok_def simp del: system_step.simps)
next
  case (SupervisorTakes ob)
  then show ?thesis using assms(2) supervisor_takes_ok by simp
next
  case (ToggleRuns k)
  then show ?thesis using assms(2) toggle_runs_ok by simp
qed (use assms(2) in \<open>auto simp: tray_ok_def send_events_def send_command_def toggle_reads_def\<close>)

interpretation tray: stepper "tray_step lib hlib exec" "\<lambda>s. random_ok lib \<longrightarrow> tray_ok s"
  for lib hlib exec
  by unfold_locales (auto intro: tray_step_ok)

lemma start_daemon_outcome:
  assumes "start_daemon lib base w startup draws = (Inr startup_error, d)" and "random_ok lib"
  shows "\<exists>d0. load_runtime lib base w startup draws = (Inr (), d0) \<and> daemon_ok d
    \<and> (rt_listener d \<noteq> None) = (ac_listener_enabled (config_of d0) \<and> \<not> startup_error)
    \<and> (startup_error \<longrightarrow> ac_listener_enabled (config_of d0))"
proof -
  obtain d0 where load: "load_runtime lib base w startup draws = (Inr (), d0)"
    using assms(1) by (cases "load_runtime lib base w startup draws"; cases "fst (load_runtime lib base w startup draws)")
      (auto simp: start_daemon_def)
  obtain c s where idle: "idle c s d0" using load_runtime_ok [OF load] assms(2) by (auto simp: random_ok_def)
  then have inv: "daemon_inv c s d0" and stopped: "rt_listener d0 = None" by (auto simp: idle_def)
  show ?thesis
  proof (cases "ac_listener_enabled (config_of d0)")
    case False
    then show ?thesis using assms(1) load stopped loaded_ok [OF load assms(2)] by (auto simp: start_daemon_def)
  next
    case True
    obtain r d' where op: "set_listener lib True d0 = (r, d')" by fastforce
    have "listener_outcome lib True d0 (r, d')" using set_listener_outcome [OF inv, of lib True] op by simp
    then show ?thesis
      using assms(1) load op True by (cases r) (auto simp: start_daemon_def listener_outcome_def)
  qed
qed

section \<open>After the shutdown\<close>

lemma finish_run_ok:
  assumes "finish_run lib amid s = (r, s')" and "random_ok lib" and "tray_ok s"
  shows "tray_ok s' \<and> (rt_listener (fst (ty_system s')) = None \<or> amid)"
proof -
  obtain d x where s: "ty_system s = (d, x)" by fastforce
  obtain c se where inv: "daemon_inv c se d" using assms(3) daemon_ok_inv by (auto simp: tray_ok_def s)
  have rotated: "daemon_ok (snd (rotate_credentials lib d))"
    using rotate_credentials_ends [OF inv] assms(2) by (simp add: random_ok_def)
  obtain r1 d1 where stop: "shutdown d = (r1, d1)" by fastforce
  then have "idle c se d1" using shutdown_ends [OF inv] by simp
  then have stopped: "rt_listener d1 = None" "daemon_ok d1" using idle_ok by (auto simp: idle_def)
  have kept: "tray_ok (s\<lparr>ty_system := (d', x)\<rparr>)" if "daemon_ok d'" for d'
    using assms(3) that by (simp add: tray_ok_def)
  show ?thesis
  proof (cases "amid \<and> rt_listener d \<noteq> None")
    case True
    then have "s' = s\<lparr>ty_system := (snd (rotate_credentials lib d), x)\<rparr>"
      using assms(1) by (simp add: finish_run_def s)
    then show ?thesis using True kept [OF rotated] by simp
  next
    case False
    then have "s' = s\<lparr>ty_system := (d1, x)\<rparr>"
      using assms(1) by (auto simp: finish_run_def s stop split: if_splits)
    then show ?thesis using kept [OF stopped(2)] stopped(1) by simp
  qed
qed

text \<open>What can put a listener into an empty slot.\<close>

fun resumes :: "tray_op \<Rightarrow> bool" where
  "resumes (ToggleRuns k) = True"
| "resumes (Background operation) = (operation = SetListener True)"
| "resumes _ = False"

lemma supervisor_takes_system [simp]: "ty_system (supervisor_takes ob s) = ty_system s"
  by (simp add: supervisor_takes_def split: list.split)

lemma tray_step_unheard:
  assumes "tray_ok s" and "rt_listener (fst (ty_system s)) = None" and "\<not> resumes operation"
  shows "rt_listener (fst (ty_system (tray_step lib hlib exec s operation))) = None"
proof (cases operation)
  case (Turn message)
  then show ?thesis using assms(2) by (simp add: loop_turn_frame)
next
  case (Background op)
  then show ?thesis
    using assms system_step_unheard [of "ty_system s" op lib hlib exec] by (simp add: tray_ok_def)
qed (use assms in \<open>simp_all add: send_events_def send_command_def toggle_reads_def\<close>)

lemma tray_run_unheard:
  assumes "random_ok lib" and "tray_ok s" and "rt_listener (fst (ty_system s)) = None"
    and "list_all (\<lambda>operation. \<not> resumes operation) operations"
  shows "rt_listener (fst (ty_system (foldl (tray_step lib hlib exec) s operations))) = None"
  using assms(2,3,4)
proof (induction operations arbitrary: s)
  case (Cons operation operations)
  have "tray_ok (tray_step lib hlib exec s operation)" by (rule tray_step_ok [OF assms(1) Cons.prems(1)])
  moreover have "rt_listener (fst (ty_system (tray_step lib hlib exec s operation))) = None"
    using tray_step_unheard [OF Cons.prems(1,2)] Cons.prems(3) by simp
  ultimately show ?case using Cons.IH Cons.prems(3) by simp
qed simp

section \<open>Properties\<close>

text \<open>C3: a background process that has started resumes its listener exactly when it was saved as enabled
  and could be started. From then on, whatever the tray, the device, the Settings window and the
  machine do, and in whatever order the steps of the spawned toggles fall between them, it is
  consistent, has at most one Settings process, keeps its supervisor until it was told to quit, and no
  Settings process remains once the supervisor has taken its quit. The shutdown leaves no listener, and
  none runs when the process ends, unless the listener was being rotated when it came, or a toggle or
  a request to resume the listener ran after it.\<close>

theorem background_process_consistent:
  assumes "start_daemon lib base w startup draws = (Inr startup_error, d)" and "random_ok lib"
  shows "\<exists>d0. load_runtime lib base w startup draws = (Inr (), d0)
    \<and> (rt_listener d \<noteq> None) = (ac_listener_enabled (config_of d0) \<and> \<not> startup_error)
    \<and> (let s = foldl (tray_step lib hlib exec) (tray_start (d, x)) operations;
           s' = foldl (tray_step lib hlib exec) (snd (finish_run lib amid s)) late in
         daemon_ok (fst (ty_system s)) \<and> daemon_ok (fst (ty_system s'))
       \<and> length (sv_processes (ty_supervisor s)) \<le> 1
       \<and> (ty_left s \<or> \<not> sv_stopped (ty_supervisor s))
       \<and> (sv_stopped (ty_supervisor s) \<longrightarrow> sv_processes (ty_supervisor s) = [])
       \<and> (rt_listener (fst (ty_system s')) = None \<or> amid \<or> list_ex resumes late))"
proof -
  obtain d0 where d0: "load_runtime lib base w startup draws = (Inr (), d0)" "daemon_ok d"
    "(rt_listener d \<noteq> None) = (ac_listener_enabled (config_of d0) \<and> \<not> startup_error)"
    using start_daemon_outcome [OF assms] by blast
  define s where "s = foldl (tray_step lib hlib exec) (tray_start (d, x)) operations"
  obtain r s1 where finish: "finish_run lib amid s = (r, s1)" by fastforce
  define s' where "s' = foldl (tray_step lib hlib exec) s1 late"
  have "tray_ok (tray_start (d, x))"
    using d0(2) by (simp add: tray_ok_def tray_start_def supervisor_start_def supervisor_ok_def)
  then have ok: "tray_ok s"
    unfolding s_def using tray.run_inv [of lib "tray_start (d, x)" hlib exec operations] assms(2) by blast
  have s1: "tray_ok s1" "rt_listener (fst (ty_system s1)) = None \<or> amid"
    using finish_run_ok [OF finish assms(2) ok] by simp_all
  then have "tray_ok s'"
    unfolding s'_def using tray.run_inv [of lib s1 hlib exec late] assms(2) by blast
  moreover have "rt_listener (fst (ty_system s')) = None \<or> amid \<or> list_ex resumes late"
    using tray_run_unheard [OF assms(2) s1(1), of late hlib exec] s1(2)
    by (auto simp: s'_def list_all_iff list_ex_iff)
  moreover have "length (sv_processes (ty_supervisor s)) \<le> 1"
    "sv_stopped (ty_supervisor s) \<longrightarrow> sv_processes (ty_supervisor s) = []"
    using ok by (auto simp: tray_ok_def supervisor_ok_def split: if_splits option.splits)
  ultimately show ?thesis using d0(1,3) ok
    by (auto simp: tray_ok_def Let_def finish s_def [symmetric] s'_def [symmetric])
qed

theorem background_process_consistent_witness:
  "\<exists>e d. start_daemon example_lib (Some ''C:/u'') \<lparr>files = Map.empty, answers = []\<rparr> False 0 = (Inr e, d)
    \<and> daemon_ok (fst (ty_system (foldl (tray_step example_lib example_http_lib example_exec) (tray_start (d, 0))
        [Signal (menu_event ''listener''), Turn QuitMessage, ToggleReads, ToggleRuns 0])))"
proof -
  obtain d where load: "load_runtime example_lib (Some ''C:/u'') \<lparr>files = Map.empty, answers = []\<rparr> False 0 = (Inr (), d)"
    using example_load by blast
  have random: "random_ok example_lib" by (simp add: random_ok_def example_lib_def)
  have "\<exists>e d'. start_daemon example_lib (Some ''C:/u'') \<lparr>files = Map.empty, answers = []\<rparr> False 0 = (Inr e, d')"
    by (cases "set_listener example_lib True d"; cases "fst (set_listener example_lib True d)")
      (auto simp: start_daemon_def load)
  then obtain e d' where start: "start_daemon example_lib (Some ''C:/u'') \<lparr>files = Map.empty, answers = []\<rparr> False 0 = (Inr e, d')"
    by blast
  from background_process_consistent [OF start random, of example_http_lib example_exec 0
      "[Signal (menu_event ''listener''), Turn QuitMessage, ToggleReads, ToggleRuns 0]" False "[]"] start show ?thesis
    unfolding Let_def by blast
qed

text \<open>
  The exception is real: the user asks to resume the listener and quits, the spawned toggle runs when
  \<open>shutdown\<close> has returned, and the listener it installs is never told to shut down.
\<close>

lemma toggle_outlives_shutdown:
  assumes "set_listener lib True d = (Inr (), d')" and "daemon_inv c se d" and "rt_listener d = None"
    and "\<not> ac_listener_enabled (config_of d)"
  shows "let s = foldl (tray_step lib hlib exec) (tray_start (d, x))
             [Signal [ToggleListener, QuitDaemon], Turn QuitMessage];
             s' = snd (finish_run lib False s);
             s'' = foldl (tray_step lib hlib exec) s' [ToggleReads, ToggleRuns 0] in
      ty_left s \<and> rt_listener (fst (ty_system s')) = None \<and> rt_listener (fst (ty_system s'')) \<noteq> None"
proof -
  have stop: "shutdown d = (Inr (), d)" using assms(3) by (simp add: shutdown_def take_and_stop_def)
  have "listener_outcome lib True d (Inr (), d')" using set_listener_outcome [OF assms(2), of lib True] assms(1) by simp
  then have "rt_listener d' \<noteq> None" by (simp add: listener_outcome_def)
  then show ?thesis
    using assms
    by (simp add: Let_def tray_start_def send_events_def loop_turn_eq collected_def send_command_def finish_run_def
        stop toggle_reads_def toggle_runs_def)
qed

text \<open>A click on the tray icon, the menu's Settings entry, or a second instance that finds the window
  brings up Settings: the next turn of the loop asks the supervisor, whose turn leaves a Settings
  process if one can be started and does not end at once.\<close>

theorem activation_opens_settings:
  assumes "OPEN_SETTINGS \<in> set messages \<or> OpenSettings \<in> set es"
    and "QuitDaemon \<notin> set (ty_events s)"
    and "supervisor_ok sv" and "\<not> sv_stopped sv" and "ob_spawned ob \<noteq> None" and "\<not> ob_ended_later ob"
  shows "let s1 = loop_turn (GotMessage messages es) s; s2 = loop_turn message s1 in
      Open \<in> set (drop (length (ty_commands s1)) (ty_commands s2))
    \<and> sv_child (supervisor_turn ob Open sv) \<noteq> None"
proof -
  let ?s1 = "loop_turn (GotMessage messages es) s"
  have "opens_due ?s1 > 0"
    using assms(1,2) by (auto simp: opens_due_def loop_turn_eq collected_def window_procs send_events_def count_list_0_iff)
  then have "Open \<in> set (drop (length (ty_commands ?s1)) (ty_commands (loop_turn message ?s1)))"
    by (simp add: loop_turn_commands)
  moreover have "sv_child (supervisor_turn ob Open sv) \<noteq> None"
    using assms(5,6) by (auto simp: spawn_def end_of_turn_def split: option.split)
  ultimately show ?thesis by (simp add: Let_def)
qed

theorem activation_opens_settings_witness:
  "let s1 = loop_turn (GotMessage [] (tray_event (Click True True))) (tray_start (example_daemon, 0 :: nat));
       s2 = loop_turn MessageError s1 in
     Open \<in> set (drop (length (ty_commands s1)) (ty_commands s2))
   \<and> sv_child (supervisor_turn \<lparr>ob_ended = False, ob_ended_later = False, ob_spawned = Some 7\<rparr> Open supervisor_start) \<noteq> None"
  by (rule activation_opens_settings)
    (simp_all add: tray_event_def tray_start_def supervisor_start_def supervisor_ok_def)

end
