(* ===== verification/Daemon_Host.thy ===== *)
theory Daemon_Host
  imports Daemon_Tray
begin

text \<open>
  The Windows calls around the background process and the form: the mode a process starts in
  (daemon/src/main.rs), the host's window, its messages and the window of the Settings process
  (windows\_host.rs), and the file dialog of the form (windows\_file\_picker.rs).

  Windows answers from lists, as in Daemon\_Base and Daemon\_Spawn; what a function does to the
  system is a trace of calls. Windows are numbers; the name the dialog gives is text in WTF-8, as paths
  are elsewhere, and \<open>to_string\<close> fails when it is not Unicode. \<open>FindWindowW\<close> and
  \<open>GetWindowThreadProcessId\<close> are the fields of \<open>desktop\<close>.
\<close>

section \<open>The mode of a process\<close>

datatype process_mode = SettingsMode | BackgroundMode

text \<open>\<open>main\<close>, on \<open>args_os()\<close>: the second argument decides.\<close>

definition main_mode :: "string list \<Rightarrow> process_mode" where
  "main_mode args =
     (if 1 < length args \<and> args ! 1 = ''--settings'' then SettingsMode else BackgroundMode)"

section \<open>The Settings window\<close>

type_synonym hwnd = nat

record desktop =
  find_window :: "string option \<Rightarrow> string option \<Rightarrow> hwnd option"
  window_process :: "hwnd \<Rightarrow> u32"

datatype window_call = RestoreWindow hwnd | ForegroundWindow hwnd | PostCloseTo hwnd | PostOpenTo hwnd

definition HOST_CLASS :: string where "HOST_CLASS = ''Esp32MediaDaemon.TrayHost''"

definition settings_window :: "desktop \<Rightarrow> u32 \<Rightarrow> hwnd option" where
  "settings_window desk process_id =
     (case find_window desk None (Some ''ESP32 Media Daemon'') of
        None \<Rightarrow> None
      | Some window \<Rightarrow> if window_process desk window = process_id then Some window else None)"

definition reveal_settings :: "desktop \<Rightarrow> u32 \<Rightarrow> window_call list" where
  "reveal_settings desk process_id =
     (case settings_window desk process_id of
        None \<Rightarrow> []
      | Some window \<Rightarrow> [RestoreWindow window, ForegroundWindow window])"

definition close_settings :: "desktop \<Rightarrow> u32 \<Rightarrow> window_call list" where
  "close_settings desk process_id =
     (case settings_window desk process_id of
        None \<Rightarrow> []
      | Some window \<Rightarrow> [PostCloseTo window])"

fun call_window :: "window_call \<Rightarrow> hwnd" where
  "call_window (RestoreWindow h) = h"
| "call_window (ForegroundWindow h) = h"
| "call_window (PostCloseTo h) = h"
| "call_window (PostOpenTo h) = h"

section \<open>The host's window and its messages\<close>

text \<open>
  \<open>MessageHost::new\<close>: the module handle, the class, which may exist already, and the window.
  \<open>RegisterClassW\<close> answers whether it failed and with \<open>ERROR_CLASS_ALREADY_EXISTS\<close>.
\<close>

datatype class_answer = ClassRegistered | ClassExists | ClassFailed

record host_answers =
  ha_module :: bool
  ha_class :: class_answer
  ha_window :: "hwnd option"

definition message_host_new :: "host_answers \<Rightarrow> hwnd option" where
  "message_host_new a =
     (if \<not> ha_module a then None
      else if ha_class a = ClassFailed then None
      else ha_window a)"

text \<open>\<open>Drop for MessageHost\<close>: the windows of the process without the host's.\<close>

definition destroy_host :: "hwnd \<Rightarrow> hwnd list \<Rightarrow> hwnd list" where
  "destroy_host h windows = removeAll h windows"

text \<open>What \<open>GetMessageW\<close> gives: a message for a window, \<open>WM_QUIT\<close>, or its error.\<close>

datatype fetched = Fetched hwnd nat | FetchedQuit | FetchError

definition dispatch_message :: "hwnd \<Rightarrow> fetched \<Rightarrow> 'x tray \<Rightarrow> (unit, bool) result \<times> 'x tray" where
  "dispatch_message host m s =
     (case m of
        FetchError \<Rightarrow> (Inl (), s)
      | FetchedQuit \<Rightarrow> (Inr False, s)
      | Fetched window message \<Rightarrow>
          (Inr True, if window = host then window_proc message s else s))"

text \<open>\<open>show_error\<close>: the text as the message box takes it, ended by a zero.\<close>

definition show_error_text :: "string \<Rightarrow> string" where
  "show_error_text message = message @ [CHR 0x00]"

section \<open>The file dialog\<close>

datatype file_kind = ExecutableFile | BatchFile | PowerShellFile

fun file_filter :: "file_kind \<Rightarrow> string \<times> string" where
  "file_filter ExecutableFile = (''Windows application (*.exe)'', ''*.exe'')"
| "file_filter BatchFile = (''Batch script (*.bat; *.cmd)'', ''*.bat;*.cmd'')"
| "file_filter PowerShellFile = (''PowerShell script (*.ps1)'', ''*.ps1'')"

datatype dialog_option =
    FileMustExist | PathMustExist | ForceFilesystem | StrictFileTypes | NoChangeDir | DontAddToRecent

datatype com_event =
    Initialized | DialogCreated | TitleSet string | FilterSet "string \<times> string"
  | OptionsRead | OptionsSet "dialog_option list" | Shown "hwnd option" | ResultTaken | NameTaken | NameFreed
  | ResultReleased | DialogReleased | Uninitialized

datatype com_error = ComCancelled | ComFailed nat | NotUnicode

text \<open>
  The dialog's calls answer from a list; the name the user chose is what \<open>GetDisplayName\<close> gives.
\<close>

record com =
  cm_answers :: "com_error option list"
  cm_options :: "dialog_option list"
  cm_name :: path
  cm_trace :: "com_event list"

definition com_did :: "com_event \<Rightarrow> com \<Rightarrow> com" where
  "com_did ev c = c\<lparr>cm_trace := cm_trace c @ [ev]\<rparr>"

definition com_call :: "com_event \<Rightarrow> com \<Rightarrow> (com_error, unit) result \<times> com" where
  "com_call ev c =
     (case cm_answers c of
        [] \<Rightarrow> (Inr (), com_did ev c)
      | a # as \<Rightarrow>
          (case a of
             None \<Rightarrow> (Inr (), com_did ev (c\<lparr>cm_answers := as\<rparr>))
           | Some e \<Rightarrow> (Inl e, c\<lparr>cm_answers := as\<rparr>)))"

text \<open>Leaving a scope runs the drop of its variable.\<close>

definition dropping :: "com_event \<Rightarrow> (com_error, 'a) result \<times> com \<Rightarrow> (com_error, 'a) result \<times> com" where
  "dropping ev = (\<lambda>(r, c). (r, com_did ev c))"

definition chosen_name :: "com \<Rightarrow> (com_error, string option) result \<times> com" where
  "chosen_name c =
     st_then (com_call ResultTaken c) (\<lambda>_ c.
       st_then (dropping ResultReleased (com_call NameTaken c)) (\<lambda>_ c.
         let found = (if utf8_valid (cm_name c) then Inr (cm_name c) else Inl NotUnicode);
             c = com_did NameFreed c
         in (and_then found (\<lambda>p. Inr (Some p)), c)))"

definition run_dialog :: "file_kind \<Rightarrow> hwnd option \<Rightarrow> com \<Rightarrow> (com_error, string option) result \<times> com" where
  "run_dialog kind owner c =
     st_then (com_call (TitleSet ''Choose an action file'') c) (\<lambda>_ c.
     st_then (com_call (FilterSet (file_filter kind)) c) (\<lambda>_ c.
     st_then (com_call OptionsRead c) (\<lambda>_ c.
     st_then (com_call (OptionsSet (cm_options c @
         [FileMustExist, PathMustExist, ForceFilesystem, StrictFileTypes, NoChangeDir, DontAddToRecent])) c) (\<lambda>_ c.
     st_match (com_call (Shown owner) c)
       (\<lambda>e c. (if e = ComCancelled then Inr None else Inl e, c))
       (\<lambda>_ c. chosen_name c)))))"

definition pick_file :: "file_kind \<Rightarrow> hwnd option \<Rightarrow> com \<Rightarrow> (com_error, string option) result \<times> com" where
  "pick_file kind owner c =
     st_then (com_call Initialized c) (\<lambda>_ c.
       dropping Uninitialized
         (st_then (com_call DialogCreated c) (\<lambda>_ c.
            dropping DialogReleased (run_dialog kind owner c))))"

section \<open>What the functions do to the system\<close>

text \<open>How many of a resource are held after a trace; \<open>None\<close> when one is given back that is not held.\<close>

fun held :: "com_event \<Rightarrow> com_event \<Rightarrow> nat \<Rightarrow> com_event list \<Rightarrow> nat option" where
  "held taken given n [] = Some n"
| "held taken given n (ev # evs) =
     (if ev = taken then held taken given (Suc n) evs
      else if ev = given then (if n = 0 then None else held taken given (n - 1) evs)
      else held taken given n evs)"

definition nothing_held :: "com_event list \<Rightarrow> bool" where
  "nothing_held evs \<longleftrightarrow>
     held Initialized Uninitialized 0 evs = Some 0 \<and> held DialogCreated DialogReleased 0 evs = Some 0
   \<and> held ResultTaken ResultReleased 0 evs = Some 0 \<and> held NameTaken NameFreed 0 evs = Some 0"

text \<open>A call extends the trace by its event, or fails and leaves it.\<close>

lemma com_call_cases:
  obtains (failed) e c' where "com_call ev c = (Inl e, c')" "cm_trace c' = cm_trace c" "cm_name c' = cm_name c"
  | (worked) c' where "com_call ev c = (Inr (), c')" "cm_trace c' = cm_trace c @ [ev]" "cm_name c' = cm_name c"
proof (cases "cm_answers c")
  case Nil
  then show thesis by (intro worked [of "com_did ev c"]) (simp_all add: com_call_def com_did_def)
next
  case (Cons a as)
  then show thesis
  proof (cases a)
    case None
    then show thesis using Cons
      by (intro worked [of "com_did ev (c\<lparr>cm_answers := as\<rparr>)"]) (simp_all add: com_call_def com_did_def)
  next
    case (Some e)
    then show thesis using Cons
      by (intro failed [of e "c\<lparr>cm_answers := as\<rparr>"]) (simp_all add: com_call_def)
  qed
qed

definition name_events :: "com_event list set" where
  "name_events = {[], [ResultTaken, ResultReleased], [ResultTaken, NameTaken, ResultReleased, NameFreed]}"

lemma chosen_name_trace:
  assumes "chosen_name c = (r, c')"
  shows "\<exists>evs. cm_trace c' = cm_trace c @ evs \<and> evs \<in> name_events
    \<and> (case r of Inr None \<Rightarrow> False | Inr (Some p) \<Rightarrow> p = cm_name c \<and> utf8_valid p | Inl e \<Rightarrow> True)"
proof (cases rule: com_call_cases [of ResultTaken c])
  case (failed e c1)
  then show ?thesis using assms by (auto simp: chosen_name_def name_events_def)
next
  case (worked c1)
  note one = this
  show ?thesis
  proof (cases rule: com_call_cases [of NameTaken c1])
    case (failed e c2)
    then show ?thesis using assms one by (auto simp: chosen_name_def dropping_def com_did_def name_events_def)
  next
    case (worked c2)
    then show ?thesis using assms one
      by (auto simp: chosen_name_def dropping_def com_did_def name_events_def Let_def split: if_splits)
  qed
qed

definition dialog_setup :: "file_kind \<Rightarrow> com \<Rightarrow> com_event list" where
  "dialog_setup kind c =
     [TitleSet ''Choose an action file'', FilterSet (file_filter kind), OptionsRead,
      OptionsSet (cm_options c @
        [FileMustExist, PathMustExist, ForceFilesystem, StrictFileTypes, NoChangeDir, DontAddToRecent])]"

lemma com_call_options: "com_call ev c = (r, c') \<Longrightarrow> cm_options c' = cm_options c"
  by (auto simp: com_call_def com_did_def split: list.splits option.splits)

lemma run_dialog_trace:
  assumes "run_dialog kind owner c = (r, c')"
  shows "\<exists>k evs. cm_trace c' = cm_trace c @ take k (dialog_setup kind c @ [Shown owner]) @ evs
    \<and> evs \<in> name_events \<and> (k < 5 \<longrightarrow> evs = []) \<and> k \<le> 5
    \<and> (case r of Inr None \<Rightarrow> k = 4 | Inr (Some p) \<Rightarrow> k = 5 \<and> p = cm_name c \<and> utf8_valid p | Inl e \<Rightarrow> True)"
proof (cases rule: com_call_cases [of "TitleSet ''Choose an action file''" c])
  case (failed e c1)
  then show ?thesis using assms by (intro exI [of _ 0]) (auto simp: run_dialog_def name_events_def)
next
  case (worked c1)
  note one = this
  show ?thesis
  proof (cases rule: com_call_cases [of "FilterSet (file_filter kind)" c1])
    case (failed e c2)
    then show ?thesis using assms one
      by (intro exI [of _ 1]) (auto simp: run_dialog_def name_events_def dialog_setup_def)
  next
    case (worked c2)
    note two = this
    show ?thesis
    proof (cases rule: com_call_cases [of OptionsRead c2])
      case (failed e c3)
      then show ?thesis using assms one two
        by (intro exI [of _ 2]) (auto simp: run_dialog_def name_events_def dialog_setup_def)
    next
      case (worked c3)
      note three = this
      have options: "cm_options c3 = cm_options c"
        using com_call_options one(1) two(1) three(1) by metis
      show ?thesis
      proof (cases rule: com_call_cases [of "OptionsSet (cm_options c3 @
         [FileMustExist, PathMustExist, ForceFilesystem, StrictFileTypes, NoChangeDir, DontAddToRecent])" c3])
        case (failed e c4)
        then show ?thesis using assms one two three
          by (intro exI [of _ 3]) (auto simp: run_dialog_def name_events_def dialog_setup_def)
      next
        case (worked c4)
        note four = this
        show ?thesis
        proof (cases rule: com_call_cases [of "Shown owner" c4])
          case (failed e c5)
          then show ?thesis using assms one two three four options
            by (intro exI [of _ 4]) (auto simp: run_dialog_def name_events_def dialog_setup_def split: if_splits)
        next
          case (worked c5)
          then have "chosen_name c5 = (r, c')" using assms one two three four by (simp add: run_dialog_def)
          from chosen_name_trace [OF this] show ?thesis using one two three four worked options
            by (intro exI [of _ 5]) (auto simp: dialog_setup_def split: sum.splits option.splits)
        qed
      qed
    qed
  qed
qed

lemma held_skip: "t \<notin> set evs \<Longrightarrow> g \<notin> set evs \<Longrightarrow> held t g n evs = Some n"
  by (induction t g n evs rule: held.induct) auto

lemma held_append:
  "held t g n (evs @ evs') = (case held t g n evs of None \<Rightarrow> None | Some m \<Rightarrow> held t g m evs')"
  by (induction t g n evs rule: held.induct) auto

lemma held_setup:
  "t \<in> {Initialized, DialogCreated, ResultTaken, NameTaken} \<Longrightarrow>
   g \<in> {Uninitialized, DialogReleased, ResultReleased, NameFreed} \<Longrightarrow>
     held t g n (take k (dialog_setup kind c @ [Shown owner])) = Some n"
proof (rule held_skip)
  have sub: "set (take k (dialog_setup kind c @ [Shown owner])) \<subseteq> set (dialog_setup kind c @ [Shown owner])"
    by (rule set_take_subset)
  show "t \<notin> set (take k (dialog_setup kind c @ [Shown owner]))"
    if "t \<in> {Initialized, DialogCreated, ResultTaken, NameTaken}"
    by (rule contra_subsetD [OF sub]) (use that in \<open>auto simp: dialog_setup_def\<close>)
  show "g \<notin> set (take k (dialog_setup kind c @ [Shown owner]))"
    if "g \<in> {Uninitialized, DialogReleased, ResultReleased, NameFreed}"
    by (rule contra_subsetD [OF sub]) (use that in \<open>auto simp: dialog_setup_def\<close>)
qed

lemma held_name:
  assumes "evs \<in> name_events"
  shows "held Initialized Uninitialized n evs = Some n" "held DialogCreated DialogReleased n evs = Some n"
    "held ResultTaken ResultReleased n evs = Some n" "held NameTaken NameFreed n evs = Some n"
  using assms by (auto simp: name_events_def)

definition whole_dialog :: "com_event list \<Rightarrow> com_event list" where
  "whole_dialog evs = [Initialized, DialogCreated] @ evs @ [DialogReleased, Uninitialized]"

lemma whole_dialog_balanced:
  assumes "evs \<in> name_events"
  shows "nothing_held (whole_dialog (take k (dialog_setup kind c @ [Shown owner]) @ evs))"
  by (simp add: nothing_held_def whole_dialog_def held_append held_setup held_name [OF assms] del: take_append)

lemma pick_file_trace:
  assumes "pick_file kind owner c = (r, c')"
  obtains (uninitialized) e where "r = Inl e" "cm_trace c' = cm_trace c"
  | (no_dialog) e where "r = Inl e" "cm_trace c' = cm_trace c @ [Initialized, Uninitialized]"
  | (dialog) k evs where "cm_trace c' = cm_trace c @ whole_dialog (take k (dialog_setup kind c @ [Shown owner]) @ evs)"
      "evs \<in> name_events" "k < 5 \<longrightarrow> evs = []" "k \<le> 5"
      "case r of Inr None \<Rightarrow> k = 4 | Inr (Some p) \<Rightarrow> k = 5 \<and> p = cm_name c \<and> utf8_valid p | Inl e \<Rightarrow> True"
proof (cases rule: com_call_cases [of Initialized c])
  case (failed e c1)
  then show thesis using assms by (intro uninitialized) (auto simp: pick_file_def)
next
  case (worked c1)
  note one = this
  show thesis
  proof (cases rule: com_call_cases [of DialogCreated c1])
    case (failed e c2)
    then show thesis using assms one by (intro no_dialog) (auto simp: pick_file_def dropping_def com_did_def)
  next
    case (worked c2)
    note two = this
    obtain c3 where run: "run_dialog kind owner c2 = (r, c3)"
      and c': "c' = com_did Uninitialized (com_did DialogReleased c3)"
      using assms one two by (auto simp: pick_file_def dropping_def split: prod.splits)
    have settings: "dialog_setup kind c2 = dialog_setup kind c" and name: "cm_name c2 = cm_name c"
      using com_call_options [OF one(1)] com_call_options [OF two(1)] one(3) two(3)
      by (simp_all add: dialog_setup_def)
    obtain k evs where "cm_trace c3 = cm_trace c2 @ take k (dialog_setup kind c @ [Shown owner]) @ evs"
      and facts: "evs \<in> name_events" "k < 5 \<longrightarrow> evs = []" "k \<le> 5"
        "case r of Inr None \<Rightarrow> k = 4 | Inr (Some p) \<Rightarrow> k = 5 \<and> p = cm_name c \<and> utf8_valid p | Inl e \<Rightarrow> True"
      using run_dialog_trace [OF run] unfolding settings name by blast
    then have "cm_trace c' = cm_trace c @ whole_dialog (take k (dialog_setup kind c @ [Shown owner]) @ evs)"
      using one(2) two(2) c' by (simp add: com_did_def whole_dialog_def)
    then show thesis using facts by (rule dialog)
  qed
qed

text \<open>The windows that a reveal or a close touches belong to the process it names.\<close>

lemma settings_window_owner:
  "settings_window desk process_id = Some w \<Longrightarrow>
     window_process desk w = process_id \<and> find_window desk None (Some ''ESP32 Media Daemon'') = Some w"
  by (auto simp: settings_window_def split: option.splits if_splits)

lemma only_own_windows:
  "list_all (\<lambda>c. window_process desk (call_window c) = process_id)
     (reveal_settings desk process_id @ close_settings desk process_id)"
  by (auto simp: reveal_settings_def close_settings_def dest: settings_window_owner split: option.split)

text \<open>The arguments of \<open>spawn_settings\<close> start the Settings mode, a start without arguments the other.\<close>

lemma spawned_mode: "main_mode [executable, ''--settings''] = SettingsMode"
  by (simp add: main_mode_def)

lemma plain_mode: "main_mode [executable] = BackgroundMode"
  by (simp add: main_mode_def)
section \<open>Properties\<close>

text \<open>C39: however the calls of the file dialog answer, everything it took is given back in the end and
  nothing before it was taken: the apartment, the dialog, the result and the memory of the name. A path is
  returned only after the dialog was shown with the filter of the action's kind and the options that make
  the file exist, and it is the name the dialog gave; without a path nothing was shown and accepted.\<close>

theorem dialog_gives_everything_back:
  "case pick_file kind owner \<lparr>cm_answers = answers', cm_options = os, cm_name = name, cm_trace = []\<rparr> of (r, c) \<Rightarrow>
     nothing_held (cm_trace c)
   \<and> (case r of
        Inr (Some p) \<Rightarrow> p = name \<and> utf8_valid p \<and> Shown owner \<in> set (cm_trace c)
          \<and> FilterSet (file_filter kind) \<in> set (cm_trace c)
          \<and> OptionsSet (os @ [FileMustExist, PathMustExist, ForceFilesystem, StrictFileTypes, NoChangeDir,
              DontAddToRecent]) \<in> set (cm_trace c)
      | Inr None \<Rightarrow> Shown owner \<notin> set (cm_trace c)
      | Inl e \<Rightarrow> True)"
proof -
  let ?c = "\<lparr>cm_answers = answers', cm_options = os, cm_name = name, cm_trace = []\<rparr>"
  obtain r c where run: "pick_file kind owner ?c = (r, c)" by fastforce
  show ?thesis
  proof (cases rule: pick_file_trace [OF run, case_names uninitialized no_dialog dialog])
    case (uninitialized e)
    then show ?thesis using run by (simp add: nothing_held_def)
  next
    case (no_dialog e)
    then show ?thesis using run by (simp add: nothing_held_def)
  next
    case (dialog k evs)
    have trace: "cm_trace c = whole_dialog (take k (dialog_setup kind ?c @ [Shown owner]) @ evs)"
      using dialog(1) by simp
    have balanced: "nothing_held (cm_trace c)" unfolding trace by (rule whole_dialog_balanced [OF dialog(2)])
    show ?thesis
    proof (cases r)
      case (Inl e)
      then show ?thesis using run balanced by simp
    next
      case (Inr found)
      show ?thesis
      proof (cases found)
        case None
        then have "k = 4" "evs = []" using Inr dialog(3,5) by simp_all
        then have "Shown owner \<notin> set (cm_trace c)"
          unfolding trace by (simp add: whole_dialog_def dialog_setup_def)
        then show ?thesis using run balanced Inr None by simp
      next
        case (Some p)
        then have "k = 5" "p = name" "utf8_valid p" using Inr dialog(5) by auto
        then show ?thesis
          using run balanced Inr Some by (simp add: trace whole_dialog_def dialog_setup_def)
      qed
    qed
  qed
qed

text \<open>An existing instance's host opens Settings for a second start, once.\<close>

lemma host_delivers_open:
  assumes "message_host_new a = Some host"
  shows "dispatch_message host (Fetched host OPEN_SETTINGS) s = (Inr True, s\<lparr>ty_open_requested := True\<rparr>)"
    and "take_open_request (s\<lparr>ty_open_requested := True\<rparr>) = (True, s\<lparr>ty_open_requested := False\<rparr>)"
    and "window \<noteq> host \<Longrightarrow> dispatch_message host (Fetched window m) s = (Inr True, s)"
  by (simp_all add: dispatch_message_def window_proc_def take_open_request_def)


end
