(* ===== verification/Daemon_Spawn.thy ===== *)
theory Daemon_Spawn
  imports Daemon_Management
begin

text \<open>
  Starting the Settings process (\<open>spawn\_settings\<close> and \<open>SettingsJob\<close> in
  daemon/src/adapters/windows\_management.rs): the process, the job that ends it with the daemon, its
  two pipes and the channel's thread, with every failure on the way. The calls answer from a list as
  elsewhere; a process in a job that is closed is ended by Windows (\<open>KILL\_ON\_JOB\_CLOSE\<close>).
\<close>

section \<open>Processes and jobs\<close>

record process_world =
  pw_answers :: "bool list"
  pw_running :: bool
  pw_job_open :: bool
  pw_limited :: bool
  pw_attached :: bool

text \<open>A call that may fail, with the error it becomes.\<close>

definition call_or :: "'e \<Rightarrow> process_world \<Rightarrow> ('e, unit) result \<times> process_world" where
  "call_or e w =
     (case pw_answers w of
        [] \<Rightarrow> (Inr (), w)
      | b # bs \<Rightarrow> (if b then Inr () else Inl e, w\<lparr>pw_answers := bs\<rparr>))"

definition close_job :: "process_world \<Rightarrow> process_world" where
  "close_job w = w\<lparr>pw_job_open := False, pw_running := (pw_running w \<and> \<not> (pw_attached w \<and> pw_limited w))\<rparr>"

definition kill_process :: "process_world \<Rightarrow> process_world" where
  "kill_process w = w\<lparr>pw_running := False\<rparr>"

text \<open>An early return drops the job.\<close>

definition closing :: "('e, unit) result \<times> process_world \<Rightarrow> ('e, unit) result \<times> process_world" where
  "closing rs = (case rs of (Inl e, w) \<Rightarrow> (Inl e, close_job w) | (Inr a, w) \<Rightarrow> (Inr a, w))"

text \<open>\<open>SettingsJob::assign\<close>: \<open>CreateJobObjectW\<close>, \<open>SetInformationJobObject\<close>, \<open>AssignProcessToJobObject\<close>.\<close>

definition assign_job :: "process_world \<Rightarrow> (unit, unit) result \<times> process_world" where
  "assign_job w =
     st_then (call_or () w) (\<lambda>_ w.
       closing
         (st_then (call_or () (w\<lparr>pw_job_open := True\<rparr>)) (\<lambda>_ w.
          st_then (call_or () (w\<lparr>pw_limited := True\<rparr>)) (\<lambda>_ w. (Inr (), w\<lparr>pw_attached := True\<rparr>)))))"

definition connect_pipes :: "process_world \<Rightarrow> (string, unit) result \<times> process_world" where
  "connect_pipes w =
     st_then (call_or ''Settings input pipe unavailable'' w) (\<lambda>_ w.
     st_then (call_or ''Settings output pipe unavailable'' w) (\<lambda>_ w.
       call_or ''Settings communication could not be started'' w))"

definition spawn_settings :: "process_world \<Rightarrow> (string, unit) result \<times> process_world" where
  "spawn_settings w =
     st_then (call_or ''current executable unavailable'' w) (\<lambda>_ w.
     st_then (call_or ''Settings process could not be started'' w) (\<lambda>_ w.
     st_match (assign_job (w\<lparr>pw_running := True\<rparr>))
       (\<lambda>_ w. (Inl ''Settings lifetime could not be secured'', kill_process w))
       (\<lambda>_ w. closing (connect_pipes w))))"

definition no_process :: "bool list \<Rightarrow> process_world" where
  "no_process bs =
     \<lparr>pw_answers = bs, pw_running = False, pw_job_open = False, pw_limited = False, pw_attached = False\<rparr>"

section \<open>What a start leaves behind\<close>

definition shape :: "process_world \<Rightarrow> bool \<times> bool \<times> bool \<times> bool" where
  "shape w = (pw_running w, pw_job_open w, pw_limited w, pw_attached w)"

lemma call_or_shape: "call_or e w = (r, w') \<Longrightarrow> shape w' = shape w"
  by (auto simp: call_or_def shape_def split: list.splits)

lemma call_or_cases:
  obtains w' where "call_or e w = (Inl e, w')" "shape w' = shape w"
  | w' where "call_or e w = (Inr (), w')" "shape w' = shape w"
  using call_or_shape by (cases "call_or e w") (fastforce simp: call_or_def split: list.splits if_splits)

lemma connect_pipes_shape:
  obtains e w' where "connect_pipes w = (Inl e, w')" "shape w' = shape w"
  | w' where "connect_pipes w = (Inr (), w')" "shape w' = shape w"
proof (cases rule: call_or_cases [of "''Settings input pipe unavailable''" w])
  case (1 w1)
  then show ?thesis by (intro that(1) [of _ w1]) (simp_all add: connect_pipes_def)
next
  case (2 w1)
  note one = this
  show ?thesis
  proof (cases rule: call_or_cases [of "''Settings output pipe unavailable''" w1])
    case (1 w2)
    then show ?thesis using one by (intro that(1) [of _ w2]) (simp_all add: connect_pipes_def)
  next
    case (2 w2)
    then show ?thesis using one that
      by (cases rule: call_or_cases [of "''Settings communication could not be started''" w2])
        (simp_all add: connect_pipes_def)
  qed
qed

lemma assign_job_shape:
  assumes "shape w = (True, False, False, False)"
  obtains w' where "assign_job w = (Inl (), w')" "\<not> pw_job_open w'"
  | w' where "assign_job w = (Inr (), w')" "shape w' = (True, True, True, True)"
proof (cases rule: call_or_cases [of "()" w])
  case (1 w1)
  then show ?thesis using assms by (intro that(1) [of w1]) (simp_all add: assign_job_def shape_def)
next
  case (2 w1)
  note one = this
  show ?thesis
  proof (cases rule: call_or_cases [of "()" "w1\<lparr>pw_job_open := True\<rparr>"])
    case (1 w2)
    then show ?thesis using one by (intro that(1) [of "close_job w2"]) (simp_all add: assign_job_def closing_def close_job_def)
  next
    case (2 w2)
    note two = this
    show ?thesis
    proof (cases rule: call_or_cases [of "()" "w2\<lparr>pw_limited := True\<rparr>"])
      case (1 w3)
      then show ?thesis using one two
        by (intro that(1) [of "close_job w3"]) (simp_all add: assign_job_def closing_def close_job_def)
    next
      case (2 w3)
      then show ?thesis using one two assms
        by (intro that(2) [of "w3\<lparr>pw_attached := True\<rparr>"]) (simp_all add: assign_job_def closing_def shape_def)
    qed
  qed
qed

text \<open>Whatever fails, a start that reports an error leaves no process and no job; one that succeeds leaves
  a process tied to an open job that ends it, which is what the supervisor is told.\<close>

theorem started_or_gone:
  "case spawn_settings (no_process bs) of
     (Inl _, w) \<Rightarrow> \<not> pw_running w \<and> \<not> pw_job_open w
   | (Inr _, w) \<Rightarrow> pw_running w \<and> pw_job_open w \<and> pw_attached w \<and> \<not> pw_running (close_job w)"
proof (cases rule: call_or_cases [of "''current executable unavailable''" "no_process bs"])
  case (1 w1)
  then show ?thesis by (simp add: spawn_settings_def no_process_def shape_def)
next
  case (2 w1)
  note one = this
  show ?thesis
  proof (cases rule: call_or_cases [of "''Settings process could not be started''" w1])
    case (1 w2)
    then show ?thesis using one by (simp add: spawn_settings_def no_process_def shape_def)
  next
    case (2 w2)
    note two = this
    have "shape (w2\<lparr>pw_running := True\<rparr>) = (True, False, False, False)"
      using one two by (simp add: shape_def no_process_def)
    then show ?thesis
    proof (cases rule: assign_job_shape)
      case (1 w3)
      then show ?thesis using one two by (simp add: spawn_settings_def kill_process_def)
    next
      case (2 w3)
      note three = this
      show ?thesis
        by (cases rule: connect_pipes_shape [of w3])
          (use one two three in \<open>simp_all add: spawn_settings_def closing_def close_job_def shape_def\<close>)
    qed
  qed
qed

end
