(* ===== verification/Daemon_Settings.thy ===== *)
theory Daemon_Settings
  imports Daemon_Management Daemon_Address
begin

text \<open>
  The Settings window (daemon/src/adapters/windows\_app.rs): the struct \<open>SettingsApp\<close>, the tasks it
  spawns on the runtime, the events they send back, and one frame of \<open>update\<close>.

  A widget is an input of the user with the guard under which egui lets it react (\<open>add\_enabled\<close>
  and the tab or dialog it is drawn in); drawing has no state. A spawned task is in \<open>sw\_tasks\<close>
  until it ends; ending it makes its one call of the client and queues its event. Dialogs of the
  file picker answer with a parameter of the input.
\<close>

section \<open>State\<close>

datatype ui_event =
    ListenerState bool "(string, unit) result"
  | ConfigState "(string, unit) result"
  | ActionTestResult "(management_error, unit) result"
  | ActionsSaved "(string, unit) result"
  | VoiceConfigApplied "(string, unit) result"
  | StartupState "(string, unit) result"
  | CredentialsRotated "(string, unit) result"
  | PairingToken "(string, string) result"
  | CaExported "(string, path) result"
  | SnapshotUpdated
  | UiDisconnected

text \<open>The futures given to \<open>handle.spawn\<close>, by what they capture.\<close>

datatype ui_task =
    TaskSetListener bool
  | TaskSaveActions "custom_action list"
  | TaskApplyVoice
  | TaskSetStartup bool
  | TaskReconfigure ip_addr u16
  | TaskTestAction action_id
  | TaskToken
  | TaskExportCa
  | TaskRotate
  | TaskRefresh

datatype settings_tab = Overview | Actions | Connection

record settings_app =
  sa_tab :: settings_tab
  sa_listener_enabled :: bool
  sa_listener_pending :: bool
  sa_actions_pending :: bool
  sa_startup_pending :: bool
  sa_status :: "string option"
  sa_bind_address :: string
  sa_port :: string
  sa_pairing_token :: "string option"
  sa_start_after_login :: bool
  sa_action_id :: string
  sa_action_name :: string
  sa_action_path :: string
  sa_interpreter_path :: string
  sa_action_args_json :: string
  sa_action_phrase :: string
  sa_action_run_as_admin :: bool
  sa_phrase_drafts :: "string \<rightharpoonup> string"
  sa_voice_apply_pending :: bool
  sa_action_kind :: nat
  sa_confirm_action :: "string option"
  sa_confirm_rotation :: bool
  sa_refresh_pending :: bool
  sa_last_refresh :: nat

text \<open>
  The window with what it shares: the client, the tasks whose call has not returned, the events of
  those whose call has and that have yet to wake the window, the channel of events (\<open>UiSignals\<close>,
  first in first out), and whether the viewport was told to close.
\<close>

record settings_window =
  sw_app :: settings_app
  sw_service :: settings_client
  sw_tasks :: "ui_task list"
  sw_returned :: "ui_event list"
  sw_events :: "ui_event list"
  sw_closing :: bool

definition setting_error :: "string \<Rightarrow> string \<Rightarrow> string" where
  "setting_error operation e = ''Error: '' @ operation @ '': '' @ e"

definition client_config :: "settings_client \<Rightarrow> app_config" where
  "client_config c = (case locked (cl_state c) of None \<Rightarrow> default_config | Some state \<Rightarrow> sn_config state)"

definition client_startup_error :: "settings_client \<Rightarrow> bool" where
  "client_startup_error c = (case locked (cl_state c) of None \<Rightarrow> False | Some state \<Rightarrow> sn_startup_error state)"

text \<open>The phrases of the actions as editable text; \<open>collect\<close> keeps the last of equal keys.\<close>

definition phrase_text :: "custom_action \<Rightarrow> string" where
  "phrase_text a = (case ca_phrase a of None \<Rightarrow> [] | Some phrase \<Rightarrow> phrase)"

definition drafts_of :: "custom_action list \<Rightarrow> string \<rightharpoonup> string" where
  "drafts_of actions = map_of (rev (map (\<lambda>a. (action_id_str (ca_id a), phrase_text a)) actions))"

definition settings_app_new :: "settings_client \<Rightarrow> bool \<Rightarrow> nat \<Rightarrow> settings_app" where
  "settings_app_new service startup_error now =
     (let config = client_config service in
       \<lparr>sa_tab = Overview, sa_listener_enabled = ac_listener_enabled config, sa_listener_pending = False,
        sa_actions_pending = False, sa_startup_pending = False,
        sa_status = (if startup_error
          then Some ''Saved listener could not start; check its address and port'' else None),
        sa_bind_address = ip_to_string (ac_bind_address config), sa_port = show_nat (unat (ac_port config)),
        sa_pairing_token = None, sa_start_after_login = ac_start_after_login config,
        sa_action_id = [], sa_action_name = [], sa_action_path = [], sa_interpreter_path = [],
        sa_action_args_json = ''[]'', sa_action_phrase = [], sa_action_run_as_admin = False,
        sa_phrase_drafts = drafts_of (ac_actions config), sa_voice_apply_pending = False, sa_action_kind = 0,
        sa_confirm_action = None, sa_confirm_rotation = False, sa_refresh_pending = False,
        sa_last_refresh = now\<rparr>)"

definition on_app :: "(settings_app \<Rightarrow> settings_app) \<Rightarrow> settings_window \<Rightarrow> settings_window" where
  "on_app f w = w\<lparr>sw_app := f (sw_app w)\<rparr>"

definition spawn_task :: "ui_task \<Rightarrow> settings_window \<Rightarrow> settings_window" where
  "spawn_task t w = w\<lparr>sw_tasks := sw_tasks w @ [t]\<rparr>"

definition with_status :: "string \<Rightarrow> settings_window \<Rightarrow> settings_window" where
  "with_status s = on_app (\<lambda>a. a\<lparr>sa_status := Some s\<rparr>)"

text \<open>\<open>send\_viewport\_cmd(Close)\<close>.\<close>

definition send_close :: "settings_window \<Rightarrow> settings_window" where
  "send_close w = w\<lparr>sw_closing := True\<rparr>"

section \<open>The operations that spawn a task\<close>

definition request_listener :: "bool \<Rightarrow> settings_window \<Rightarrow> settings_window" where
  "request_listener enabled w =
     (if sa_listener_pending (sw_app w) then w
      else spawn_task (TaskSetListener enabled)
        (on_app (\<lambda>a. a\<lparr>sa_listener_pending := True, sa_listener_enabled := enabled\<rparr>) w))"

definition ui_save_actions :: "custom_action list \<Rightarrow> settings_window \<Rightarrow> settings_window" where
  "ui_save_actions actions w =
     (if sa_actions_pending (sw_app w) then w
      else spawn_task (TaskSaveActions actions) (on_app (\<lambda>a. a\<lparr>sa_actions_pending := True\<rparr>) w))"

definition ui_apply_voice :: "settings_window \<Rightarrow> settings_window" where
  "ui_apply_voice w =
     (if sa_actions_pending (sw_app w) \<or> sa_voice_apply_pending (sw_app w) then w
      else spawn_task TaskApplyVoice (on_app (\<lambda>a. a\<lparr>sa_voice_apply_pending := True\<rparr>) w))"

definition draft_phrase :: "(string \<rightharpoonup> string) \<Rightarrow> custom_action \<Rightarrow> string option" where
  "draft_phrase drafts a =
     Option.bind (map_option trim (drafts (action_id_str (ca_id a)))) (\<lambda>p. if p = [] then None else Some p)"

definition save_phrases :: "settings_window \<Rightarrow> settings_window" where
  "save_phrases w =
     (if sa_actions_pending (sw_app w) then w
      else
        let actions = map (\<lambda>a. a\<lparr>ca_phrase := draft_phrase (sa_phrase_drafts (sw_app w)) a\<rparr>)
              (ac_actions (client_config (sw_service w)));
            candidate = (client_config (sw_service w))\<lparr>ac_actions := actions\<rparr>
        in if \<not> is_ok (validate candidate)
           then with_status ''Invalid, duplicate, or reserved voice phrase'' w
           else ui_save_actions actions w)"

definition set_startup :: "bool \<Rightarrow> settings_window \<Rightarrow> settings_window" where
  "set_startup enabled w =
     (if sa_startup_pending (sw_app w) then w
      else spawn_task (TaskSetStartup enabled) (on_app (\<lambda>a. a\<lparr>sa_startup_pending := True\<rparr>) w))"

text \<open>\<open>add\_action\<close>; \<open>from_json\<close> is \<open>serde\_json\<close>'s parser of a list of strings.\<close>

definition entered_action :: "settings_app \<Rightarrow> string list \<Rightarrow> configured_action" where
  "entered_action a args =
     (if sa_action_kind a = 0 then Launch (sa_action_path a) args None (sa_action_run_as_admin a)
      else if sa_action_kind a = 1 then Batch (sa_action_path a) args None
      else PowerShell (sa_interpreter_path a) (sa_action_path a) args None)"

definition new_action :: "settings_app \<Rightarrow> action_id \<Rightarrow> string list \<Rightarrow> custom_action" where
  "new_action a i args =
     \<lparr>ca_id = i, ca_name = trim (sa_action_name a), ca_enabled = True,
      ca_phrase = (if trim (sa_action_phrase a) = [] then None else Some (trim (sa_action_phrase a))),
      ca_action = entered_action a args\<rparr>"

definition add_action :: "(string \<Rightarrow> string list option) \<Rightarrow> settings_window \<Rightarrow> settings_window" where
  "add_action from_json w =
     (let a = sw_app w in
        case parse_action_id (trim (sa_action_id a)) of
          Inl _ \<Rightarrow> with_status ''Error: Action ID must match [a-z][a-z0-9_]{0,63}'' w
        | Inr i \<Rightarrow>
            (case from_json (sa_action_args_json a) of
               None \<Rightarrow> with_status ''Error: Arguments must be a JSON string array'' w
             | Some args \<Rightarrow>
                 let actions = ac_actions (client_config (sw_service w)) @ [new_action a i args];
                     candidate = (client_config (sw_service w))\<lparr>ac_actions := actions\<rparr>
                 in if \<not> is_ok (validate candidate) then with_status ''Error: Invalid action'' w
                    else ui_save_actions actions
                      (on_app (\<lambda>a. a\<lparr>sa_action_id := [], sa_action_name := [], sa_action_phrase := [],
                         sa_action_path := [], sa_action_run_as_admin := False\<rparr>) w)))"

section \<open>Inputs of the user\<close>

datatype file_input = Typed string | Picked "(string, string option) result"

text \<open>\<open>file\_path\_field\<close>: the new path and the error.\<close>

fun file_path_field :: "file_input \<Rightarrow> string \<Rightarrow> string \<times> string option" where
  "file_path_field (Typed s) p = (s, None)"
| "file_path_field (Picked (Inr (Some selected))) p = (selected, None)"
| "file_path_field (Picked (Inr None)) p = (p, None)"
| "file_path_field (Picked (Inl reason)) p = (p, Some (''Could not select a file: '' @ reason))"

datatype ui_input =
    SelectTab settings_tab
  | ToggleListenerBox
  | ToggleStartupBox
  | ToggleAdminBox action_id
  | EditPhrase action_id string
  | ToggleEnabledBox action_id
  | ClickTest action_id
  | ClickRemove action_id
  | ClickSavePhrases
  | ClickApplyVoice
  | EditActionId string
  | EditActionName string
  | EditActionPhrase string
  | SelectKind nat
  | PathField file_input
  | ToggleRunAsAdmin
  | InterpreterField file_input
  | EditArgs string
  | ClickAddAction
  | EditAddress string
  | EditPort string
  | ClickApplyAddress
  | ClickShowToken
  | ClickExportCa
  | ClickRotate
  | ClickClose
  | ClickRunTest
  | ClickCancelTest
  | ClickConfirmRotation
  | ClickCancelRotation

text \<open>The first action with the id, changed by \<open>f\<close>.\<close>

fun update_action :: "action_id \<Rightarrow> (custom_action \<Rightarrow> custom_action) \<Rightarrow> custom_action list \<Rightarrow> custom_action list" where
  "update_action i f [] = []"
| "update_action i f (a # as) = (if ca_id a = i then f a # as else a # update_action i f as)"

definition shown_action :: "action_id \<Rightarrow> settings_window \<Rightarrow> custom_action option" where
  "shown_action i w = List.find (\<lambda>a. ca_id a = i) (ac_actions (client_config (sw_service w)))"

definition set_run_as_admin :: "bool \<Rightarrow> custom_action \<Rightarrow> custom_action" where
  "set_run_as_admin b a =
     (case ca_action a of
        Launch program args wd old \<Rightarrow> a\<lparr>ca_action := Launch program args wd b\<rparr>
      | _ \<Rightarrow> a)"

definition draft_text :: "(string \<rightharpoonup> string) \<Rightarrow> custom_action \<Rightarrow> string" where
  "draft_text drafts a = (case drafts (action_id_str (ca_id a)) of None \<Rightarrow> [] | Some s \<Rightarrow> s)"

definition phrases_dirty :: "settings_window \<Rightarrow> bool" where
  "phrases_dirty w =
     list_ex (\<lambda>a. draft_text (sa_phrase_drafts (sw_app w)) a \<noteq> phrase_text a)
       (ac_actions (client_config (sw_service w)))"

definition voice_needs_apply :: "settings_window \<Rightarrow> bool" where
  "voice_needs_apply w =
     (let config = client_config (sw_service w) in
        case ac_published_voice config of
          None \<Rightarrow> True
        | Some p \<Rightarrow> pv_actions_revision p \<noteq> ac_actions_revision config)"

text \<open>A change of one listed action is a save of the whole list, guarded by its pending flag.\<close>

definition change_actions :: "(custom_action list \<Rightarrow> custom_action list) \<Rightarrow> settings_window \<Rightarrow> settings_window" where
  "change_actions f w = ui_save_actions (f (ac_actions (client_config (sw_service w)))) w"

definition apply_address :: "settings_window \<Rightarrow> settings_window" where
  "apply_address w =
     (case (parse_ip (sa_bind_address (sw_app w)), parse_unsigned 65535 (sa_port (sw_app w))) of
        (Some address, Some port) \<Rightarrow> spawn_task (TaskReconfigure address (word_of_nat port)) w
      | _ \<Rightarrow> with_status ''Enter a valid IP address and port'' w)"

definition edit_field :: "file_input \<Rightarrow> (settings_app \<Rightarrow> string)
    \<Rightarrow> (string \<Rightarrow> settings_app \<Rightarrow> settings_app) \<Rightarrow> settings_window \<Rightarrow> settings_window" where
  "edit_field input get put w =
     (case file_path_field input (get (sw_app w)) of
        (p, None) \<Rightarrow> on_app (put p) w
      | (p, Some e) \<Rightarrow> with_status e (on_app (put p) w))"

text \<open>The tabs' widgets.\<close>

fun overview_input :: "ui_input \<Rightarrow> settings_window \<Rightarrow> settings_window" where
  "overview_input ToggleListenerBox w =
     (if sa_listener_pending (sw_app w) then w
      else let w = on_app (\<lambda>a. a\<lparr>sa_listener_enabled := \<not> sa_listener_enabled a\<rparr>) w
           in request_listener (sa_listener_enabled (sw_app w)) w)"
| "overview_input ToggleStartupBox w =
     (if sa_startup_pending (sw_app w) then w
      else let w = on_app (\<lambda>a. a\<lparr>sa_start_after_login := \<not> sa_start_after_login a\<rparr>) w
           in set_startup (sa_start_after_login (sw_app w)) w)"
| "overview_input _ w = w"

fun listed_input :: "ui_input \<Rightarrow> custom_action \<Rightarrow> settings_window \<Rightarrow> settings_window" where
  "listed_input (ToggleAdminBox i) action w =
     (case ca_action action of
        Launch program args wd old \<Rightarrow> change_actions (update_action i (set_run_as_admin (\<not> old))) w
      | _ \<Rightarrow> w)"
| "listed_input (EditPhrase i s) action w =
     on_app (\<lambda>a. a\<lparr>sa_phrase_drafts := (sa_phrase_drafts a)(action_id_str i \<mapsto> s)\<rparr>) w"
| "listed_input (ToggleEnabledBox i) action w =
     change_actions (update_action i (\<lambda>item. item\<lparr>ca_enabled := \<not> ca_enabled action\<rparr>)) w"
| "listed_input (ClickTest i) action w =
     (if ca_enabled action then on_app (\<lambda>a. a\<lparr>sa_confirm_action := Some (action_id_str i)\<rparr>) w else w)"
| "listed_input (ClickRemove i) action w = change_actions (filter (\<lambda>a. ca_id a \<noteq> i)) w"
| "listed_input _ action w = w"

fun listed_id :: "ui_input \<Rightarrow> action_id option" where
  "listed_id (ToggleAdminBox i) = Some i"
| "listed_id (EditPhrase i s) = Some i"
| "listed_id (ToggleEnabledBox i) = Some i"
| "listed_id (ClickTest i) = Some i"
| "listed_id (ClickRemove i) = Some i"
| "listed_id _ = None"

fun form_input :: "(string \<Rightarrow> string list option) \<Rightarrow> ui_input \<Rightarrow> settings_window \<Rightarrow> settings_window" where
  "form_input from_json (EditActionId s) w = on_app (\<lambda>a. a\<lparr>sa_action_id := s\<rparr>) w"
| "form_input from_json (EditActionName s) w = on_app (\<lambda>a. a\<lparr>sa_action_name := s\<rparr>) w"
| "form_input from_json (EditActionPhrase s) w = on_app (\<lambda>a. a\<lparr>sa_action_phrase := s\<rparr>) w"
| "form_input from_json (SelectKind k) w = on_app (\<lambda>a. a\<lparr>sa_action_kind := min k 2\<rparr>) w"
| "form_input from_json (PathField input) w =
     edit_field input sa_action_path (\<lambda>p a. a\<lparr>sa_action_path := p\<rparr>) w"
| "form_input from_json ToggleRunAsAdmin w =
     (if sa_action_kind (sw_app w) = 0
      then on_app (\<lambda>a. a\<lparr>sa_action_run_as_admin := \<not> sa_action_run_as_admin a\<rparr>) w else w)"
| "form_input from_json (InterpreterField input) w =
     (if sa_action_kind (sw_app w) = 2
      then edit_field input sa_interpreter_path (\<lambda>p a. a\<lparr>sa_interpreter_path := p\<rparr>) w else w)"
| "form_input from_json (EditArgs s) w = on_app (\<lambda>a. a\<lparr>sa_action_args_json := s\<rparr>) w"
| "form_input from_json ClickAddAction w = add_action from_json w"
| "form_input from_json _ w = w"

text \<open>All widgets of the tab are disabled while a save is pending.\<close>

definition actions_input :: "(string \<Rightarrow> string list option) \<Rightarrow> ui_input \<Rightarrow> settings_window \<Rightarrow> settings_window" where
  "actions_input from_json input w =
     (if sa_actions_pending (sw_app w) then w
      else case listed_id input of
        Some i \<Rightarrow> (case shown_action i w of None \<Rightarrow> w | Some action \<Rightarrow> listed_input input action w)
      | None \<Rightarrow>
          if input = ClickSavePhrases then (if phrases_dirty w then save_phrases w else w)
          else if input = ClickApplyVoice
          then (if voice_needs_apply w \<and> \<not> phrases_dirty w \<and> \<not> sa_voice_apply_pending (sw_app w)
                then ui_apply_voice w else w)
          else form_input from_json input w)"

fun connection_input :: "ui_input \<Rightarrow> settings_window \<Rightarrow> settings_window" where
  "connection_input (EditAddress s) w =
     (if sa_listener_enabled (sw_app w) \<or> sa_listener_pending (sw_app w) then w
      else on_app (\<lambda>a. a\<lparr>sa_bind_address := s\<rparr>) w)"
| "connection_input (EditPort s) w =
     (if sa_listener_enabled (sw_app w) \<or> sa_listener_pending (sw_app w) then w
      else on_app (\<lambda>a. a\<lparr>sa_port := s\<rparr>) w)"
| "connection_input ClickApplyAddress w =
     (if sa_listener_enabled (sw_app w) \<or> sa_listener_pending (sw_app w) then w else apply_address w)"
| "connection_input ClickShowToken w = spawn_task TaskToken w"
| "connection_input ClickExportCa w = spawn_task TaskExportCa w"
| "connection_input ClickRotate w = on_app (\<lambda>a. a\<lparr>sa_confirm_rotation := True\<rparr>) w"
| "connection_input _ w = w"

text \<open>The two dialogs, drawn over whatever tab is shown.\<close>

fun dialog_input :: "ui_input \<Rightarrow> settings_window \<Rightarrow> settings_window" where
  "dialog_input ClickRunTest w =
     (case sa_confirm_action (sw_app w) of
        None \<Rightarrow> w
      | Some action_id \<Rightarrow>
          let w = on_app (\<lambda>a. a\<lparr>sa_confirm_action := None\<rparr>) w in
            (case parse_action_id action_id of Inl _ \<Rightarrow> w | Inr i \<Rightarrow> spawn_task (TaskTestAction i) w))"
| "dialog_input ClickCancelTest w = on_app (\<lambda>a. a\<lparr>sa_confirm_action := None\<rparr>) w"
| "dialog_input ClickConfirmRotation w =
     (if sa_confirm_rotation (sw_app w)
      then spawn_task TaskRotate (on_app (\<lambda>a. a\<lparr>sa_confirm_rotation := False\<rparr>) w) else w)"
| "dialog_input ClickCancelRotation w = on_app (\<lambda>a. a\<lparr>sa_confirm_rotation := False\<rparr>) w"
| "dialog_input _ w = w"

text \<open>Drawing the listed actions gives each a draft.\<close>

definition touch_drafts :: "settings_window \<Rightarrow> settings_window" where
  "touch_drafts w =
     (if sa_tab (sw_app w) \<noteq> Actions then w
      else on_app (\<lambda>a. a\<lparr>sa_phrase_drafts := foldl
          (\<lambda>drafts action. if drafts (action_id_str (ca_id action)) = None
             then drafts(action_id_str (ca_id action) \<mapsto> []) else drafts)
          (sa_phrase_drafts a) (ac_actions (client_config (sw_service w)))\<rparr>) w)"

definition is_dialog_input :: "ui_input \<Rightarrow> bool" where
  "is_dialog_input input \<longleftrightarrow> input \<in> {ClickRunTest, ClickCancelTest, ClickConfirmRotation, ClickCancelRotation}"

fun user_input :: "(string \<Rightarrow> string list option) \<Rightarrow> ui_input \<Rightarrow> settings_window \<Rightarrow> settings_window" where
  "user_input from_json (SelectTab t) w = touch_drafts (on_app (\<lambda>a. a\<lparr>sa_tab := t\<rparr>) w)"
| "user_input from_json ClickClose w = send_close w"
| "user_input from_json input w =
     (if is_dialog_input input then dialog_input input w
      else case sa_tab (sw_app w) of
        Overview \<Rightarrow> overview_input input w
      | Actions \<Rightarrow> actions_input from_json input w
      | Connection \<Rightarrow> connection_input input w)"

section \<open>Tasks\<close>

type_synonym channel = "request envelope \<Rightarrow> channel_answer"

definition client_set_listener :: "channel \<Rightarrow> bool \<Rightarrow> settings_client \<Rightarrow> (string, unit) result \<times> settings_client" where
  "client_set_listener channel enabled = applied channel (ReqSetListener enabled)"

definition client_save_actions ::
  "channel \<Rightarrow> custom_action list \<Rightarrow> settings_client \<Rightarrow> (string, unit) result \<times> settings_client" where
  "client_save_actions channel actions = applied channel (ReqSaveActions actions)"

definition client_apply_voice_config :: "channel \<Rightarrow> settings_client \<Rightarrow> (string, unit) result \<times> settings_client" where
  "client_apply_voice_config channel = applied channel ReqApplyVoiceConfig"

definition client_set_start_after_login ::
  "channel \<Rightarrow> bool \<Rightarrow> settings_client \<Rightarrow> (string, unit) result \<times> settings_client" where
  "client_set_start_after_login channel enabled = applied channel (ReqSetStartup enabled)"

definition client_reconfigure ::
  "channel \<Rightarrow> ip_addr \<Rightarrow> u16 \<Rightarrow> settings_client \<Rightarrow> (string, unit) result \<times> settings_client" where
  "client_reconfigure channel a p = applied channel (ReqReconfigure a p)"

definition client_rotate_credentials :: "channel \<Rightarrow> settings_client \<Rightarrow> (string, unit) result \<times> settings_client" where
  "client_rotate_credentials channel = applied channel ReqRotateCredentials"

fun run_task :: "channel \<Rightarrow> ui_task \<Rightarrow> settings_client \<Rightarrow> ui_event \<times> settings_client" where
  "run_task channel (TaskSetListener enabled) c =
     (let (r, c) = client_set_listener channel enabled c
      in (ListenerState (if is_ok r then enabled else ac_listener_enabled (client_config c)) r, c))"
| "run_task channel (TaskSaveActions actions) c = apfst ActionsSaved (client_save_actions channel actions c)"
| "run_task channel TaskApplyVoice c = apfst VoiceConfigApplied (client_apply_voice_config channel c)"
| "run_task channel (TaskSetStartup enabled) c =
     apfst StartupState (client_set_start_after_login channel enabled c)"
| "run_task channel (TaskReconfigure a p) c = apfst ConfigState (client_reconfigure channel a p c)"
| "run_task channel (TaskTestAction i) c = apfst ActionTestResult (client_test_action channel i c)"
| "run_task channel TaskToken c = apfst PairingToken (client_token channel c)"
| "run_task channel TaskExportCa c = apfst CaExported (client_export_ca channel c)"
| "run_task channel TaskRotate c = apfst CredentialsRotated (client_rotate_credentials channel c)"
| "run_task channel TaskRefresh c =
     (let (r, c) = refresh channel c in (if is_ok r then SnapshotUpdated else UiDisconnected, c))"

text \<open>A list without its element at \<open>k\<close>.\<close>

definition without :: "nat \<Rightarrow> 'a list \<Rightarrow> 'a list" where
  "without k xs = take k xs @ drop (Suc k) xs"

text \<open>\<open>wake\<close>: the event is queued.\<close>

definition wake :: "ui_event \<Rightarrow> settings_window \<Rightarrow> settings_window" where
  "wake event w = w\<lparr>sw_events := sw_events w @ [event]\<rparr>"

text \<open>
  The tasks are concurrent: between the return of a task's call, which stores the state it
  answered, and the waking of the window anything may happen, and neither follows the order in
  which the tasks were spawned.
\<close>

definition task_returns :: "channel \<Rightarrow> nat \<Rightarrow> settings_window \<Rightarrow> settings_window" where
  "task_returns channel k w =
     (if k \<ge> length (sw_tasks w) then w
      else
        let (event, c) = run_task channel (sw_tasks w ! k) (sw_service w)
        in w\<lparr>sw_service := c, sw_tasks := without k (sw_tasks w), sw_returned := sw_returned w @ [event]\<rparr>)"

definition task_wakes :: "nat \<Rightarrow> settings_window \<Rightarrow> settings_window" where
  "task_wakes k w =
     (if k \<ge> length (sw_returned w) then w
      else wake (sw_returned w ! k) (w\<lparr>sw_returned := without k (sw_returned w)\<rparr>))"

section \<open>A frame\<close>

definition status_of :: "(string, 'a) result \<Rightarrow> string \<Rightarrow> string \<Rightarrow> string" where
  "status_of r success operation = (case r of Inr _ \<Rightarrow> success | Inl e \<Rightarrow> setting_error operation e)"

fun test_status :: "(management_error, unit) result \<Rightarrow> string" where
  "test_status (Inr _) = ''Test was dispatched''"
| "test_status (Inl MeCancelled) = ''UAC prompt cancelled; action was not launched''"
| "test_status (Inl MeBusy) = setting_error ''testing action'' ''daemon is busy''"
| "test_status (Inl MeInvalidRequest) = setting_error ''testing action'' ''daemon rejected the request''"
| "test_status (Inl MeFailed) = setting_error ''testing action'' ''daemon could not complete the request''"

fun handle_event :: "ui_event \<Rightarrow> settings_window \<Rightarrow> settings_window" where
  "handle_event (ListenerState enabled r) w =
     with_status (status_of r (if enabled then ''Listener enabled'' else ''Listener paused'') ''updating listener'')
       (on_app (\<lambda>a. a\<lparr>sa_listener_pending := False, sa_listener_enabled := enabled\<rparr>) w)"
| "handle_event (ConfigState r) w =
     with_status (status_of r ''Configuration applied'' ''applying configuration'') w"
| "handle_event (CredentialsRotated r) w =
     with_status (status_of r ''Token and TLS trust rotated; pair clients again'' ''rotating credentials'')
       (on_app (\<lambda>a. a\<lparr>sa_pairing_token := (if is_ok r then None else sa_pairing_token a),
                    sa_listener_enabled := ac_listener_enabled (client_config (sw_service w))\<rparr>) w)"
| "handle_event (ActionsSaved r) w =
     with_status (status_of r ''Action configuration saved; Apply to publish voice changes''
         ''saving action configuration'')
       (on_app (\<lambda>a. a\<lparr>sa_actions_pending := False,
                    sa_phrase_drafts := (if is_ok r then drafts_of (ac_actions (client_config (sw_service w)))
                      else sa_phrase_drafts a)\<rparr>) w)"
| "handle_event (VoiceConfigApplied r) w =
     with_status (status_of r ''Voice settings published; say Jarvis, then update on the ESP32''
         ''publishing voice settings'')
       (on_app (\<lambda>a. a\<lparr>sa_voice_apply_pending := False\<rparr>) w)"
| "handle_event (StartupState r) w =
     with_status (status_of r ''Startup preference saved'' ''updating startup preference'')
       (on_app (\<lambda>a. a\<lparr>sa_startup_pending := False,
                    sa_start_after_login := ac_start_after_login (client_config (sw_service w))\<rparr>) w)"
| "handle_event (ActionTestResult r) w = with_status (test_status r) w"
| "handle_event (PairingToken r) w =
     with_status (status_of r ''Pairing token revealed'' ''retrieving pairing token'')
       (on_app (\<lambda>a. a\<lparr>sa_pairing_token := result_ok r\<rparr>) w)"
| "handle_event (CaExported r) w =
     with_status (case r of Inr p \<Rightarrow> ''CA exported to '' @ p | Inl e \<Rightarrow> setting_error ''exporting trusted CA'' e) w"
| "handle_event SnapshotUpdated w =
     (let config = client_config (sw_service w) in
        on_app (\<lambda>a. a\<lparr>sa_refresh_pending := False,
          sa_listener_enabled := (if sa_listener_pending a then sa_listener_enabled a else ac_listener_enabled config),
          sa_start_after_login := (if sa_startup_pending a then sa_start_after_login a
            else ac_start_after_login config)\<rparr>) w)"
| "handle_event UiDisconnected w =
     send_close (with_status ''Background process disconnected; closing Settings'' w)"

text \<open>The refresh every two seconds; \<open>now\<close> is a monotone clock in milliseconds.\<close>

definition refresh_due :: "nat \<Rightarrow> settings_window \<Rightarrow> settings_window" where
  "refresh_due now w =
     (if \<not> sa_refresh_pending (sw_app w) \<and> now - sa_last_refresh (sw_app w) \<ge> 2000
      then spawn_task TaskRefresh (on_app (\<lambda>a. a\<lparr>sa_refresh_pending := True, sa_last_refresh := now\<rparr>) w)
      else w)"

definition drain_events :: "settings_window \<Rightarrow> settings_window" where
  "drain_events w = fold handle_event (sw_events w) (w\<lparr>sw_events := []\<rparr>)"

definition update_frame ::
  "(string \<Rightarrow> string list option) \<Rightarrow> nat \<Rightarrow> ui_input list \<Rightarrow> settings_window \<Rightarrow> settings_window" where
  "update_frame from_json now inputs w =
     fold (user_input from_json) inputs (touch_drafts (drain_events (refresh_due now w)))"

text \<open>Dropping the window empties the channel.\<close>

definition drop_window :: "settings_window \<Rightarrow> settings_window" where
  "drop_window w = w\<lparr>sw_events := []\<rparr>"

text \<open>\<open>run\_settings\_mode\<close>, from the connected client on.\<close>

definition open_settings :: "settings_client \<Rightarrow> nat \<Rightarrow> settings_window" where
  "open_settings service now =
     \<lparr>sw_app = settings_app_new service (client_startup_error service) now, sw_service = service,
      sw_tasks = [], sw_returned = [], sw_events = [], sw_closing = False\<rparr>"

datatype window_op = Frame nat "ui_input list" | TaskReturns channel nat | TaskWakes nat

fun window_step :: "(string \<Rightarrow> string list option) \<Rightarrow> settings_window \<Rightarrow> window_op \<Rightarrow> settings_window" where
  "window_step from_json w (Frame now inputs) = update_frame from_json now inputs w"
| "window_step from_json w (TaskReturns channel k) = task_returns channel k w"
| "window_step from_json w (TaskWakes k) = task_wakes k w"

section \<open>Pending flags and the work they stand for\<close>

text \<open>
  Each flag that disables a widget is a slot: it is taken when a task is spawned and freed by that
  task's event. What is under way for a slot is a task that runs, before or after its call has
  returned, or its event in the channel.
\<close>

datatype slot = ListenerSlot | ActionsSlot | VoiceSlot | StartupSlot | RefreshSlot

lemma UNIV_slot: "UNIV = {ListenerSlot, ActionsSlot, VoiceSlot, StartupSlot, RefreshSlot}"
proof (rule set_eqI)
  fix s
  show "s \<in> UNIV \<longleftrightarrow> s \<in> {ListenerSlot, ActionsSlot, VoiceSlot, StartupSlot, RefreshSlot}" by (cases s) simp_all
qed

text \<open>The slots can be enumerated, so that a statement about all of them computes.\<close>

instantiation slot :: enum
begin

definition "enum_slot = [ListenerSlot, ActionsSlot, VoiceSlot, StartupSlot, RefreshSlot]"
definition "enum_all_slot P \<longleftrightarrow> list_all P [ListenerSlot, ActionsSlot, VoiceSlot, StartupSlot, RefreshSlot]"
definition "enum_ex_slot P \<longleftrightarrow> list_ex P [ListenerSlot, ActionsSlot, VoiceSlot, StartupSlot, RefreshSlot]"

instance
  by standard (simp_all add: enum_slot_def enum_all_slot_def enum_ex_slot_def UNIV_slot)

end

lemma all_slots:
  "(\<forall>s. P s) \<longleftrightarrow> P ListenerSlot \<and> P ActionsSlot \<and> P VoiceSlot \<and> P StartupSlot \<and> P RefreshSlot"
  using fun_cong [OF enum_all, of P] by (simp add: enum_all_slot_def del: enum_all)

fun pending :: "slot \<Rightarrow> settings_app \<Rightarrow> bool" where
  "pending ListenerSlot a = sa_listener_pending a"
| "pending ActionsSlot a = sa_actions_pending a"
| "pending VoiceSlot a = sa_voice_apply_pending a"
| "pending StartupSlot a = sa_startup_pending a"
| "pending RefreshSlot a = sa_refresh_pending a"

fun task_slot :: "ui_task \<Rightarrow> slot option" where
  "task_slot (TaskSetListener b) = Some ListenerSlot"
| "task_slot (TaskSaveActions as) = Some ActionsSlot"
| "task_slot TaskApplyVoice = Some VoiceSlot"
| "task_slot (TaskSetStartup b) = Some StartupSlot"
| "task_slot TaskRefresh = Some RefreshSlot"
| "task_slot _ = None"

fun event_slot :: "ui_event \<Rightarrow> slot option" where
  "event_slot (ListenerState b r) = Some ListenerSlot"
| "event_slot (ActionsSaved r) = Some ActionsSlot"
| "event_slot (VoiceConfigApplied r) = Some VoiceSlot"
| "event_slot (StartupState r) = Some StartupSlot"
| "event_slot SnapshotUpdated = Some RefreshSlot"
| "event_slot UiDisconnected = Some RefreshSlot"
| "event_slot _ = None"

text \<open>
  The widgets that a flag disables, by their inputs. The buttons for the token, the authority and
  the rotation, and the dialogs, have no flag.
\<close>

fun input_slots :: "ui_input \<Rightarrow> slot list" where
  "input_slots ToggleListenerBox = [ListenerSlot]"
| "input_slots (EditAddress s) = [ListenerSlot]"
| "input_slots (EditPort s) = [ListenerSlot]"
| "input_slots ClickApplyAddress = [ListenerSlot]"
| "input_slots ToggleStartupBox = [StartupSlot]"
| "input_slots ClickApplyVoice = [ActionsSlot, VoiceSlot]"
| "input_slots (ToggleAdminBox i) = [ActionsSlot]"
| "input_slots (EditPhrase i s) = [ActionsSlot]"
| "input_slots (ToggleEnabledBox i) = [ActionsSlot]"
| "input_slots (ClickTest i) = [ActionsSlot]"
| "input_slots (ClickRemove i) = [ActionsSlot]"
| "input_slots ClickSavePhrases = [ActionsSlot]"
| "input_slots (EditActionId s) = [ActionsSlot]"
| "input_slots (EditActionName s) = [ActionsSlot]"
| "input_slots (EditActionPhrase s) = [ActionsSlot]"
| "input_slots (SelectKind k) = [ActionsSlot]"
| "input_slots (PathField f) = [ActionsSlot]"
| "input_slots ToggleRunAsAdmin = [ActionsSlot]"
| "input_slots (InterpreterField f) = [ActionsSlot]"
| "input_slots (EditArgs s) = [ActionsSlot]"
| "input_slots ClickAddAction = [ActionsSlot]"
| "input_slots _ = []"

definition under_way :: "slot \<Rightarrow> settings_window \<Rightarrow> nat" where
  "under_way s w =
     length (filter (\<lambda>t. task_slot t = Some s) (sw_tasks w))
   + length (filter (\<lambda>e. event_slot e = Some s) (sw_returned w))
   + length (filter (\<lambda>e. event_slot e = Some s) (sw_events w))"

text \<open>The one flag that outlives its work: the refresh of a window that was told to close.\<close>

definition slots_ok :: "settings_window \<Rightarrow> bool" where
  "slots_ok w \<longleftrightarrow>
     (\<forall>s. under_way s w \<le> 1 \<and> (0 < under_way s w \<longrightarrow> pending s (sw_app w))
        \<and> (pending s (sw_app w) \<and> under_way s w = 0 \<longrightarrow> s = RefreshSlot \<and> sw_closing w))"

text \<open>A step of the user: nothing is spawned, or one task whose slot was free.\<close>

definition calm :: "settings_window \<Rightarrow> settings_window \<Rightarrow> bool" where
  "calm w w' \<longleftrightarrow> sw_tasks w' = sw_tasks w \<and> sw_returned w' = sw_returned w \<and> sw_events w' = sw_events w \<and> sw_service w' = sw_service w
     \<and> (sw_closing w \<longrightarrow> sw_closing w') \<and> (\<forall>s. pending s (sw_app w') = pending s (sw_app w))"

definition submits :: "ui_task \<Rightarrow> settings_window \<Rightarrow> settings_window \<Rightarrow> bool" where
  "submits t w w' \<longleftrightarrow> sw_tasks w' = sw_tasks w @ [t] \<and> sw_returned w' = sw_returned w \<and> sw_events w' = sw_events w \<and> sw_service w' = sw_service w
     \<and> (sw_closing w \<longrightarrow> sw_closing w')
     \<and> (\<forall>s. pending s (sw_app w') = (pending s (sw_app w) \<or> task_slot t = Some s))
     \<and> (\<forall>s. task_slot t = Some s \<longrightarrow> \<not> pending s (sw_app w))"

definition user_effect :: "settings_window \<Rightarrow> settings_window \<Rightarrow> bool" where
  "user_effect w w' \<longleftrightarrow> calm w w' \<or> (\<exists>t. submits t w w')"

lemmas window_updates = on_app_def spawn_task_def with_status_def

named_theorems effect_rules \<open>effects of the window's operations\<close>

lemma calm_refl [simp]: "calm w w"
  by (simp add: calm_def)

lemma on_app_calm: "(\<And>s. pending s (f (sw_app w)) = pending s (sw_app w)) \<Longrightarrow> calm w (on_app f w)"
  by (simp add: calm_def on_app_def)

text \<open>No other field matters to a slot.\<close>

lemma pending_updates [simp]:
  "pending s (a\<lparr>sa_tab := v1\<rparr>) = pending s a"
  "pending s (a\<lparr>sa_listener_enabled := v2\<rparr>) = pending s a"
  "pending s (a\<lparr>sa_status := v3\<rparr>) = pending s a"
  "pending s (a\<lparr>sa_bind_address := v4\<rparr>) = pending s a"
  "pending s (a\<lparr>sa_port := v4\<rparr>) = pending s a"
  "pending s (a\<lparr>sa_pairing_token := v3\<rparr>) = pending s a"
  "pending s (a\<lparr>sa_start_after_login := v2\<rparr>) = pending s a"
  "pending s (a\<lparr>sa_action_id := v4\<rparr>) = pending s a"
  "pending s (a\<lparr>sa_action_name := v4\<rparr>) = pending s a"
  "pending s (a\<lparr>sa_action_path := v4\<rparr>) = pending s a"
  "pending s (a\<lparr>sa_interpreter_path := v4\<rparr>) = pending s a"
  "pending s (a\<lparr>sa_action_args_json := v4\<rparr>) = pending s a"
  "pending s (a\<lparr>sa_action_phrase := v4\<rparr>) = pending s a"
  "pending s (a\<lparr>sa_action_run_as_admin := v2\<rparr>) = pending s a"
  "pending s (a\<lparr>sa_phrase_drafts := v5\<rparr>) = pending s a"
  "pending s (a\<lparr>sa_action_kind := v6\<rparr>) = pending s a"
  "pending s (a\<lparr>sa_confirm_action := v3\<rparr>) = pending s a"
  "pending s (a\<lparr>sa_confirm_rotation := v2\<rparr>) = pending s a"
  "pending s (a\<lparr>sa_last_refresh := v6\<rparr>) = pending s a"
  by (cases s; simp)+

lemma pending_flags [simp]:
  "pending s (a\<lparr>sa_listener_pending := v\<rparr>) = (if s = ListenerSlot then v else pending s a)"
  "pending s (a\<lparr>sa_actions_pending := v\<rparr>) = (if s = ActionsSlot then v else pending s a)"
  "pending s (a\<lparr>sa_voice_apply_pending := v\<rparr>) = (if s = VoiceSlot then v else pending s a)"
  "pending s (a\<lparr>sa_startup_pending := v\<rparr>) = (if s = StartupSlot then v else pending s a)"
  "pending s (a\<lparr>sa_refresh_pending := v\<rparr>) = (if s = RefreshSlot then v else pending s a)"
  by (cases s; simp)+

lemma calm_effect: "calm w w' \<Longrightarrow> user_effect w w'"
  by (simp add: user_effect_def)

lemma submits_effect: "submits t w w' \<Longrightarrow> user_effect w w'"
  by (auto simp: user_effect_def)

lemma effect_refl [simp, effect_rules]: "user_effect w w"
  by (simp add: calm_effect)

lemma with_status_calm: "calm w (with_status s w)"
  unfolding with_status_def by (rule on_app_calm) simp

lemma with_status_effect [effect_rules]: "user_effect w (with_status s w)"
  by (rule calm_effect [OF with_status_calm])

lemma effect_trans:
  "calm w w1 \<Longrightarrow> user_effect w1 w2 \<Longrightarrow> user_effect w w2"
  by (auto simp: user_effect_def calm_def submits_def)

lemma effect_then_calm:
  "user_effect w w1 \<Longrightarrow> calm w1 w2 \<Longrightarrow> user_effect w w2"
  by (auto simp: user_effect_def calm_def submits_def)

lemma app_effect [effect_rules]:
  "(\<And>s. pending s (f (sw_app w)) = pending s (sw_app w)) \<Longrightarrow> user_effect w (on_app f w)"
  by (rule calm_effect [OF on_app_calm])

text \<open>Spawning after taking the task's slot.\<close>

lemma submits_spawn:
  "(\<And>s. pending s (f (sw_app w)) = (pending s (sw_app w) \<or> task_slot t = Some s)) \<Longrightarrow>
     (\<And>s. task_slot t = Some s \<Longrightarrow> \<not> pending s (sw_app w)) \<Longrightarrow>
     submits t w (spawn_task t (on_app f w))"
  by (simp add: submits_def spawn_task_def on_app_def)

lemma spawn_effect:
  "(\<And>s. pending s (f (sw_app w)) = (pending s (sw_app w) \<or> task_slot t = Some s)) \<Longrightarrow>
     (\<And>s. task_slot t = Some s \<Longrightarrow> \<not> pending s (sw_app w)) \<Longrightarrow>
     user_effect w (spawn_task t (on_app f w))"
  by (rule submits_effect [OF submits_spawn])

lemma submits_free: "task_slot t = None \<Longrightarrow> submits t w (spawn_task t w)"
  by (simp add: submits_def spawn_task_def)

lemma request_listener_effect [effect_rules]: "user_effect w (request_listener b w)"
  unfolding request_listener_def by (auto intro!: spawn_effect)

lemma ui_save_actions_effect [effect_rules]: "user_effect w (ui_save_actions actions w)"
  unfolding ui_save_actions_def by (auto intro!: spawn_effect)

lemma ui_apply_voice_effect [effect_rules]: "user_effect w (ui_apply_voice w)"
  unfolding ui_apply_voice_def by (auto intro!: spawn_effect)

lemma set_startup_effect [effect_rules]: "user_effect w (set_startup b w)"
  unfolding set_startup_def by (auto intro!: spawn_effect)

lemma save_phrases_effect [effect_rules]: "user_effect w (save_phrases w)"
  unfolding save_phrases_def Let_def by (simp add: effect_rules)

lemma add_action_effect [effect_rules]: "user_effect w (add_action from_json w)"
proof -
  let ?clear = "on_app (\<lambda>a. a\<lparr>sa_action_id := [], sa_action_name := [], sa_action_phrase := [],
                         sa_action_path := [], sa_action_run_as_admin := False\<rparr>)"
  have "calm w (?clear w)" by (rule on_app_calm) simp
  then have "user_effect w (ui_save_actions actions (?clear w))" for actions
    by (rule effect_trans) (rule ui_save_actions_effect)
  then show ?thesis
    unfolding add_action_def Let_def by (simp add: with_status_effect split: sum.split option.split)
qed

lemma change_actions_effect [effect_rules]: "user_effect w (change_actions f w)"
  unfolding change_actions_def by (rule ui_save_actions_effect)

lemma spawn_free_effect [effect_rules]: "task_slot t = None \<Longrightarrow> user_effect w (spawn_task t w)"
  by (rule submits_effect [OF submits_free])

lemma apply_address_effect [effect_rules]: "user_effect w (apply_address w)"
  unfolding apply_address_def by (simp add: effect_rules split: option.split)

lemma edit_field_effect [effect_rules]:
  assumes "\<And>p a s. pending s (put p a) = pending s a"
  shows "user_effect w (edit_field input get put w)"
proof -
  have "calm w (on_app (put p) w)" for p by (rule on_app_calm) (rule assms)
  then show ?thesis
    unfolding edit_field_def
    by (simp add: calm_effect effect_then_calm [OF calm_effect with_status_calm] split: prod.split option.split)
qed

lemma overview_input_effect: "user_effect w (overview_input input w)"
proof -
  have flip: "calm w (on_app (\<lambda>a. a\<lparr>sa_listener_enabled := \<not> sa_listener_enabled a\<rparr>) w)"
    "calm w (on_app (\<lambda>a. a\<lparr>sa_start_after_login := \<not> sa_start_after_login a\<rparr>) w)"
    by (rule on_app_calm; simp)+
  show ?thesis
    by (cases input)
      (simp_all add: Let_def effect_trans [OF flip(1) request_listener_effect] effect_trans [OF flip(2) set_startup_effect])
qed

lemma listed_input_effect: "user_effect w (listed_input input action w)"
  by (cases input) (simp_all add: effect_rules split: configured_action.split)

lemma form_input_effect: "user_effect w (form_input from_json input w)"
  by (cases input) (simp_all add: effect_rules)

lemma actions_input_effect: "user_effect w (actions_input from_json input w)"
  unfolding actions_input_def
  by (simp add: effect_rules listed_input_effect form_input_effect split: option.split)

lemma connection_input_effect: "user_effect w (connection_input input w)"
  by (cases input) (simp_all add: effect_rules)

lemma dialog_input_effect: "user_effect w (dialog_input input w)"
proof -
  have clear: "calm w (on_app (\<lambda>a. a\<lparr>sa_confirm_action := None\<rparr>) w)"
    "calm w (on_app (\<lambda>a. a\<lparr>sa_confirm_rotation := False\<rparr>) w)"
    by (rule on_app_calm; simp)+
  have run: "user_effect w (spawn_task (TaskTestAction i) (on_app (\<lambda>a. a\<lparr>sa_confirm_action := None\<rparr>) w))" for i
    by (rule effect_trans [OF clear(1) spawn_free_effect]) simp
  have rotate: "user_effect w (spawn_task TaskRotate (on_app (\<lambda>a. a\<lparr>sa_confirm_rotation := False\<rparr>) w))"
    by (rule effect_trans [OF clear(2) spawn_free_effect]) simp
  show ?thesis
    using run rotate clear by (cases input) (simp_all add: Let_def calm_effect split: option.split sum.split)
qed

lemma touch_drafts_calm: "calm w (touch_drafts w)"
  unfolding touch_drafts_def by (simp add: on_app_calm)

lemma user_input_effect: "user_effect w (user_input from_json input w)"
proof -
  have tab: "user_effect w (case sa_tab (sw_app w) of
        Overview \<Rightarrow> overview_input input w
      | Actions \<Rightarrow> actions_input from_json input w
      | Connection \<Rightarrow> connection_input input w)"
    by (simp add: overview_input_effect actions_input_effect connection_input_effect split: settings_tab.split)
  show ?thesis
  proof (cases "\<exists>t. input = SelectTab t")
    case True
    then obtain t where t: "input = SelectTab t" by blast
    have "user_effect w (on_app (\<lambda>a. a\<lparr>sa_tab := t\<rparr>) w)" by (rule app_effect) simp
    then show ?thesis using effect_then_calm touch_drafts_calm t by simp
  next
    case False
    show ?thesis
    proof (cases "input = ClickClose")
      case True
      then show ?thesis by (simp add: calm_effect calm_def send_close_def)
    next
      case other: False
      then have "user_input from_json input w =
         (if is_dialog_input input then dialog_input input w
          else case sa_tab (sw_app w) of
            Overview \<Rightarrow> overview_input input w
          | Actions \<Rightarrow> actions_input from_json input w
          | Connection \<Rightarrow> connection_input input w)"
        using False other by (cases input; hypsubst; simp)
      then show ?thesis using tab dialog_input_effect by simp
    qed
  qed
qed

text \<open>A disabled widget does nothing, on whatever tab.\<close>

lemma disabled_input:
  assumes "s \<in> set (input_slots input)" and "pending s (sw_app w)"
  shows "user_input from_json input w = w"
  using assms
  by (cases input; cases "sa_tab (sw_app w)") (auto simp: is_dialog_input_def actions_input_def)

section \<open>Every step keeps the slots\<close>

lemma under_way_submits:
  "submits t w w' \<Longrightarrow> under_way s w' = under_way s w + (if task_slot t = Some s then 1 else 0)"
  by (simp add: under_way_def submits_def)

lemma slots_ok_effect:
  assumes "user_effect w w'" and "slots_ok w"
  shows "slots_ok w'"
  using assms(1) unfolding user_effect_def
proof
  assume "calm w w'"
  then show ?thesis using assms(2) by (auto simp: calm_def slots_ok_def under_way_def)
next
  assume "\<exists>t. submits t w w'"
  then obtain t where t: "submits t w w'" by blast
  have "under_way s w' \<le> 1 \<and> (0 < under_way s w' \<longrightarrow> pending s (sw_app w'))
      \<and> (pending s (sw_app w') \<and> under_way s w' = 0 \<longrightarrow> s = RefreshSlot \<and> sw_closing w')" for s
  proof (cases "task_slot t = Some s")
    case True
    then have "under_way s w = 0" using t assms(2) by (auto simp: submits_def slots_ok_def)
    then show ?thesis using True t under_way_submits [OF t] by (simp add: submits_def)
  next
    case False
    then have "under_way s w' = under_way s w" "pending s (sw_app w') = pending s (sw_app w)"
      using under_way_submits [OF t] t by (simp_all add: submits_def)
    then show ?thesis using assms(2) t by (auto simp: slots_ok_def submits_def)
  qed
  then show ?thesis by (simp add: slots_ok_def)
qed

text \<open>An event frees its slot and touches no other.\<close>

lemma handle_event_events [simp]: "handle_event e (w\<lparr>sw_events := es\<rparr>) = (handle_event e w)\<lparr>sw_events := es\<rparr>"
  by (cases e) (simp_all add: with_status_def on_app_def send_close_def Let_def)

lemma handle_event_keeps [simp]:
  "sw_tasks (handle_event e w) = sw_tasks w" "sw_service (handle_event e w) = sw_service w"
  "sw_returned (handle_event e w) = sw_returned w" "sw_events (handle_event e w) = sw_events w"
  "sw_closing (handle_event e w) = (sw_closing w \<or> e = UiDisconnected)"
  by (cases e; simp add: with_status_def on_app_def send_close_def Let_def)+

lemma handle_event_pending:
  "pending s (sw_app (handle_event e w)) =
     (pending s (sw_app w) \<and> (event_slot e = Some s \<longrightarrow> e = UiDisconnected))"
  by (cases e) (auto simp: with_status_def on_app_def send_close_def Let_def)

lemma under_way_event:
  "under_way s (w\<lparr>sw_events := e # es\<rparr>) =
     under_way s (w\<lparr>sw_events := es\<rparr>) + (if event_slot e = Some s then 1 else 0)"
  by (simp add: under_way_def)

lemma handle_event_slots:
  assumes "slots_ok (w\<lparr>sw_events := e # es\<rparr>)"
  shows "slots_ok ((handle_event e w)\<lparr>sw_events := es\<rparr>)"
proof -
  have same: "under_way s ((handle_event e w)\<lparr>sw_events := es\<rparr>) = under_way s (w\<lparr>sw_events := es\<rparr>)" for s
    by (simp add: under_way_def)
  have bound: "under_way s (w\<lparr>sw_events := e # es\<rparr>) \<le> 1" for s
    using assms unfolding slots_ok_def by blast
  have "under_way s (w\<lparr>sw_events := es\<rparr>) \<le> 1
      \<and> (0 < under_way s (w\<lparr>sw_events := es\<rparr>) \<longrightarrow> pending s (sw_app (handle_event e w)))
      \<and> (pending s (sw_app (handle_event e w)) \<and> under_way s (w\<lparr>sw_events := es\<rparr>) = 0
           \<longrightarrow> s = RefreshSlot \<and> sw_closing (handle_event e w))" for s
  proof (cases "event_slot e = Some s")
    case True
    then have "under_way s (w\<lparr>sw_events := es\<rparr>) = 0"
      using bound [of s] by (simp add: under_way_event)
    then show ?thesis using True
      by (cases "e = UiDisconnected") (auto simp: handle_event_pending simp del: handle_event.simps)
  next
    case False
    then have "under_way s (w\<lparr>sw_events := e # es\<rparr>) = under_way s (w\<lparr>sw_events := es\<rparr>)"
      "pending s (sw_app (handle_event e w)) = pending s (sw_app w)"
      by (simp_all add: under_way_event handle_event_pending)
    moreover have "(0 < under_way s (w\<lparr>sw_events := e # es\<rparr>) \<longrightarrow> pending s (sw_app w))
        \<and> (pending s (sw_app w) \<and> under_way s (w\<lparr>sw_events := e # es\<rparr>) = 0 \<longrightarrow> s = RefreshSlot \<and> sw_closing w)"
      using assms by (simp add: slots_ok_def)
    ultimately show ?thesis using bound [of s] by simp
  qed
  then show ?thesis unfolding slots_ok_def same by simp
qed

lemma drain_slots:
  "slots_ok (w\<lparr>sw_events := es\<rparr>) \<Longrightarrow> slots_ok (fold handle_event es (w\<lparr>sw_events := []\<rparr>))"
proof (induction es arbitrary: w)
  case (Cons e es)
  then show ?case using Cons.IH [OF handle_event_slots [OF Cons.prems]] by simp
qed simp

lemma refresh_due_effect: "user_effect w (refresh_due now w)"
  unfolding refresh_due_def by (auto intro!: spawn_effect)

lemma fold_inputs_slots: "slots_ok w \<Longrightarrow> slots_ok (fold (user_input from_json) inputs w)"
  by (induction inputs arbitrary: w) (simp_all add: slots_ok_effect [OF user_input_effect])

lemma update_frame_slots:
  assumes "slots_ok w"
  shows "slots_ok (update_frame from_json now inputs w)"
proof -
  have "slots_ok (refresh_due now w)" by (rule slots_ok_effect [OF refresh_due_effect assms])
  then have "slots_ok (drain_events (refresh_due now w))"
    unfolding drain_events_def by (intro drain_slots) simp
  then have "slots_ok (touch_drafts (drain_events (refresh_due now w)))"
    by (rule slots_ok_effect [OF calm_effect [OF touch_drafts_calm]])
  then show ?thesis unfolding update_frame_def by (rule fold_inputs_slots)
qed

text \<open>A task that ends hands its slot to its event.\<close>

lemma run_task_slot: "event_slot (fst (run_task channel t c)) = task_slot t"
  by (cases t) (simp_all add: apfst_def map_prod_def split: prod.split)

lemma filter_without:
  assumes "k < length xs"
  shows "length (filter P xs) = length (filter P (without k xs)) + of_bool (P (xs ! k))"
proof -
  have "length (filter P xs) = length (filter P (take k xs @ xs ! k # drop (Suc k) xs))"
    by (rule arg_cong [OF id_take_nth_drop [OF assms]])
  then show ?thesis by (simp add: without_def)
qed

lemma length_without: "k < length xs \<Longrightarrow> length (without k xs) = length xs - 1"
  by (simp add: without_def)

lemma in_without: "x \<in> set (without k xs) \<Longrightarrow> x \<in> set xs"
  by (auto simp: without_def dest: in_set_takeD in_set_dropD)

lemma task_returns_slots:
  assumes "slots_ok w"
  shows "slots_ok (task_returns channel k w)"
proof (cases "k < length (sw_tasks w)")
  case True
  obtain event c where run: "run_task channel (sw_tasks w ! k) (sw_service w) = (event, c)" by fastforce
  have event: "event_slot event = task_slot (sw_tasks w ! k)"
    using run_task_slot [of channel "sw_tasks w ! k" "sw_service w"] run by simp
  have "under_way s (task_returns channel k w) = under_way s w" for s
    using True filter_without [OF True, of "\<lambda>t. task_slot t = Some s"]
    by (simp add: task_returns_def run under_way_def event)
  moreover have "sw_app (task_returns channel k w) = sw_app w" "sw_closing (task_returns channel k w) = sw_closing w"
    using True by (simp_all add: task_returns_def run)
  ultimately show ?thesis using assms by (simp add: slots_ok_def)
qed (use assms in \<open>simp add: task_returns_def\<close>)

lemma task_wakes_slots:
  assumes "slots_ok w"
  shows "slots_ok (task_wakes k w)"
proof (cases "k < length (sw_returned w)")
  case True
  have "under_way s (task_wakes k w) = under_way s w" for s
    using True filter_without [OF True, of "\<lambda>e. event_slot e = Some s"]
    by (simp add: task_wakes_def wake_def under_way_def)
  moreover have "sw_app (task_wakes k w) = sw_app w" "sw_closing (task_wakes k w) = sw_closing w"
    using True by (simp_all add: task_wakes_def wake_def)
  ultimately show ?thesis using assms by (simp add: slots_ok_def)
qed (use assms in \<open>simp add: task_wakes_def\<close>)

interpretation window: stepper "window_step from_json" slots_ok
proof unfold_locales
  fix w operation
  assume "slots_ok w"
  then show "slots_ok (window_step from_json w operation)"
    by (cases operation) (simp_all add: update_frame_slots task_returns_slots task_wakes_slots)
qed

lemma open_settings_slots: "slots_ok (open_settings service now)"
  by (simp add: slots_ok_def all_slots under_way_def open_settings_def settings_app_new_def Let_def)

section \<open>The runs of a window\<close>

text \<open>Every running task returns, the first one first, and then every event wakes the window.\<close>

definition tasks_end :: "channel \<Rightarrow> settings_window \<Rightarrow> window_op list" where
  "tasks_end channel w =
     replicate (length (sw_tasks w)) (TaskReturns channel 0)
   @ replicate (length (sw_tasks w) + length (sw_returned w)) (TaskWakes 0)"

lemma all_tasks_return:
  "let w' = foldl (window_step from_json) w (replicate (length (sw_tasks w)) (TaskReturns channel 0)) in
     sw_tasks w' = [] \<and> length (sw_returned w') = length (sw_tasks w) + length (sw_returned w)"
proof (induction "length (sw_tasks w)" arbitrary: w)
  case (Suc n)
  have "length (sw_tasks (task_returns channel 0 w)) = n"
    "length (sw_returned (task_returns channel 0 w)) = Suc (length (sw_returned w))"
    using Suc.hyps(2) by (auto simp: task_returns_def length_without split: prod.split)
  then show ?case
    using Suc.hyps(1) [of "task_returns channel 0 w"] Suc.hyps(2) [symmetric] by (simp add: Let_def)
qed simp

lemma all_tasks_wake:
  assumes "n = length (sw_returned w)"
  shows "let w' = foldl (window_step from_json) w (replicate n (TaskWakes 0)) in
     sw_returned w' = [] \<and> sw_tasks w' = sw_tasks w"
  using assms
proof (induction n arbitrary: w)
  case (Suc n)
  have "n = length (sw_returned (task_wakes 0 w))" "sw_tasks (task_wakes 0 w) = sw_tasks w"
    using Suc.prems by (auto simp: task_wakes_def wake_def without_def)
  then show ?case using Suc.IH [of "task_wakes 0 w"] by (simp add: Let_def)
qed simp

lemma all_tasks_end:
  "let w' = foldl (window_step from_json) w (tasks_end channel w) in sw_tasks w' = [] \<and> sw_returned w' = []"
proof -
  let ?w = "foldl (window_step from_json) w (replicate (length (sw_tasks w)) (TaskReturns channel 0))"
  have "sw_tasks ?w = []" "length (sw_returned ?w) = length (sw_tasks w) + length (sw_returned w)"
    using all_tasks_return [of from_json w channel] by (simp_all add: Let_def)
  then show ?thesis
    using all_tasks_wake [of "length (sw_tasks w) + length (sw_returned w)" ?w from_json]
    by (simp add: tasks_end_def Let_def)
qed

lemma drained:
  "sw_events (drain_events w) = []" "sw_tasks (drain_events w) = sw_tasks w"
  "sw_returned (drain_events w) = sw_returned w"
proof -
  have "sw_events (fold handle_event es w') = sw_events w' \<and> sw_tasks (fold handle_event es w') = sw_tasks w'
      \<and> sw_returned (fold handle_event es w') = sw_returned w'" for es w'
    by (induction es arbitrary: w') (simp_all del: handle_event.simps)
  then show "sw_events (drain_events w) = []" "sw_tasks (drain_events w) = sw_tasks w"
    "sw_returned (drain_events w) = sw_returned w"
    by (simp_all add: drain_events_def)
qed

lemma idle_frame:
  assumes "sw_tasks w = []" and "sw_returned w = []" and "s \<noteq> RefreshSlot"
  shows "under_way s (update_frame from_json later [] w) = 0"
proof -
  let ?w = "drain_events (refresh_due later w)"
  have "set (sw_tasks (refresh_due later w)) \<subseteq> {TaskRefresh}" "sw_returned (refresh_due later w) = []"
    using assms(1,2) by (simp_all add: refresh_due_def window_updates)
  moreover have "sw_tasks (touch_drafts ?w) = sw_tasks (refresh_due later w)" "sw_events (touch_drafts ?w) = []"
    "sw_returned (touch_drafts ?w) = sw_returned (refresh_due later w)"
    using touch_drafts_calm [of ?w] drained [of "refresh_due later w"] by (simp_all add: calm_def)
  ultimately show ?thesis
    using assms(3) by (auto simp: under_way_def update_frame_def filter_empty_conv)
qed

section \<open>What is shown\<close>

text \<open>The header's label, the status line and whether it is painted as an error, and the line on the
  device's voice settings.\<close>

definition header_label :: "settings_app \<Rightarrow> string" where
  "header_label a =
     (if sa_listener_pending a then ''Updating'' @ [CHR 0xE2, CHR 0x80, CHR 0xA6]
      else if sa_listener_enabled a then ''Listener enabled'' else ''Listener paused'')"

definition status_line :: "settings_app \<Rightarrow> string" where
  "status_line a = (case sa_status a of None \<Rightarrow> ''Settings closes; your tray agent keeps running.'' | Some s \<Rightarrow> s)"

definition painted_as_error :: "settings_app \<Rightarrow> bool" where
  "painted_as_error a = (take 6 (status_line a) = ''Error:'')"

definition action_description :: "configured_action \<Rightarrow> string" where
  "action_description action =
     (case action of
        Media command \<Rightarrow> ''Media: '' @ media_command_str command
      | Launch program _ _ _ \<Rightarrow> ''Application: '' @ program
      | Batch script _ _ \<Rightarrow> ''Batch: '' @ script
      | PowerShell _ script _ _ \<Rightarrow> ''PowerShell: '' @ script)"

definition voice_line :: "app_config \<Rightarrow> string" where
  "voice_line config =
     (case ac_published_voice config of
        None \<Rightarrow> ''Voice settings have not been applied to the ESP.''
      | Some p \<Rightarrow>
          if pv_actions_revision p \<noteq> ac_actions_revision config
          then ''Saved action/phrase changes are not applied. Save phrases if needed, then Apply to ESP.''
          else if ac_acknowledged_voice_revision config = Some (pv_revision p)
          then ''ESP last confirmed voice settings revision '' @ show_nat (unat (pv_revision p)) @ ''.''
          else ''Voice settings revision '' @ show_nat (unat (pv_revision p)) @ '' is pending ESP sync/confirmation.'')"

text \<open>An event that reports a failure; a declined UAC prompt is not one.\<close>

fun event_failed :: "ui_event \<Rightarrow> bool" where
  "event_failed (ListenerState b r) = (\<not> is_ok r)"
| "event_failed (ConfigState r) = (\<not> is_ok r)"
| "event_failed (ActionTestResult r) = (r \<noteq> Inr () \<and> r \<noteq> Inl MeCancelled)"
| "event_failed (ActionsSaved r) = (\<not> is_ok r)"
| "event_failed (VoiceConfigApplied r) = (\<not> is_ok r)"
| "event_failed (StartupState r) = (\<not> is_ok r)"
| "event_failed (CredentialsRotated r) = (\<not> is_ok r)"
| "event_failed (PairingToken r) = (\<not> is_ok r)"
| "event_failed (CaExported r) = (\<not> is_ok r)"
| "event_failed SnapshotUpdated = False"
| "event_failed UiDisconnected = False"

lemma test_status_error: "(take 6 (test_status r) = ''Error:'') = (r \<noteq> Inr () \<and> r \<noteq> Inl MeCancelled)"
  by (cases r rule: test_status.cases) (simp_all add: setting_error_def)

lemma painted_with_status: "painted_as_error (sw_app (with_status s w)) = (take 6 s = ''Error:'')"
  by (simp add: painted_as_error_def status_line_def with_status_def on_app_def)

lemma painted_setting_error: "take 6 (setting_error operation e) = ''Error:''"
  by (simp add: setting_error_def)

section \<open>Properties\<close>



text \<open>The status line is painted as an error exactly when the handled event reports a failure; the
  periodic refresh leaves it as it was.\<close>

theorem failures_are_marked:
  "painted_as_error (sw_app (handle_event e w)) =
     (if e = SnapshotUpdated then painted_as_error (sw_app w) else event_failed e)"
proof (cases e)
  case SnapshotUpdated
  then show ?thesis by (simp add: painted_as_error_def status_line_def on_app_def Let_def)
next
  case UiDisconnected
  then show ?thesis
    by (simp add: painted_as_error_def status_line_def send_close_def with_status_def on_app_def)
qed (simp_all add: painted_with_status status_of_def painted_setting_error test_status_error split: sum.split)

end
