(* ===== verification/Daemon_Security.thy ===== *)
theory Daemon_Security
  imports Daemon_Runtime
begin

text \<open>
  Certificate provisioning (daemon/src/security.rs). The library rcgen is the parameter \<open>rcgen\<close>:
  generating a key (by the number of the draw), signing parameters with a key, by itself or by an
  issuer, and the PEM texts. What this code decides is the content of the parameters and the order
  of the calls.
\<close>

section \<open>Parameters\<close>

datatype san_type = DnsName string | IpName ip_addr

datatype key_usage = KeyCertSign | CrlSign

datatype is_ca = NoCa | Ca

record cert_params =
  cp_common_name :: string
  cp_is_ca :: is_ca
  cp_key_usages :: "key_usage list"
  cp_subject_alt_names :: "san_type list"

definition CA_COMMON_NAME :: string where "CA_COMMON_NAME = ''ESP32 Media Daemon Local CA''"
definition SERVER_COMMON_NAME :: string where "SERVER_COMMON_NAME = ''ESP32 Media Daemon''"

definition certificate_params :: "string \<Rightarrow> cert_params" where
  "certificate_params common_name =
     \<lparr>cp_common_name = common_name, cp_is_ca = NoCa, cp_key_usages = [], cp_subject_alt_names = []\<rparr>"

record ('key, 'cert) rcgen =
  rg_generate :: "nat \<Rightarrow> 'key option"
  rg_self_signed :: "cert_params \<Rightarrow> 'key \<Rightarrow> 'cert option"
  rg_signed_by :: "cert_params \<Rightarrow> 'key \<Rightarrow> 'cert \<Rightarrow> 'key \<Rightarrow> 'cert option"
  rg_pem :: "'cert \<Rightarrow> string"
  rg_key_pem :: "'key \<Rightarrow> string"

section \<open>Provisioning\<close>

definition ca_params :: cert_params where
  "ca_params = (certificate_params CA_COMMON_NAME)\<lparr>cp_is_ca := Ca, cp_key_usages := [KeyCertSign, CrlSign]\<rparr>"

definition leaf_params :: "ip_addr \<Rightarrow> cert_params" where
  "leaf_params host = (certificate_params SERVER_COMMON_NAME)
     \<lparr>cp_subject_alt_names := [DnsName ''localhost'', IpName (V4 127 0 0 1), IpName host]\<rparr>"

text \<open>The draws of one call are numbered \<open>2 * n\<close> and \<open>2 * n + 1\<close>, so that calls with different
  numbers draw different keys.\<close>

definition provision_tls :: "('key, 'cert) rcgen \<Rightarrow> nat \<Rightarrow> ip_addr \<Rightarrow> tls_material option" where
  "provision_tls rg n host =
     Option.bind (rg_generate rg (2 * n)) (\<lambda>ca_key.
     Option.bind (rg_self_signed rg ca_params ca_key) (\<lambda>ca_certificate.
     Option.bind (rg_generate rg (2 * n + 1)) (\<lambda>leaf_key.
     Option.bind (rg_signed_by rg (leaf_params host) leaf_key ca_certificate ca_key) (\<lambda>leaf_certificate.
       Some \<lparr>tm_certificate_pem = rg_pem rg leaf_certificate @ rg_pem rg ca_certificate,
             tm_server_private_key_pem = rg_key_pem rg leaf_key,
             tm_trusted_ca_certificate_pem = rg_pem rg ca_certificate,
             tm_ca_private_key_pem = rg_key_pem rg ca_key\<rparr>))))"

section \<open>The runtime with this provisioning\<close>

definition provisioned_by :: "('key, 'cert) rcgen \<Rightarrow> runtime_lib \<Rightarrow> bool" where
  "provisioned_by rg lib \<longleftrightarrow> rl_provision lib = provision_tls rg"

lemma provision_tls_Some:
  "provision_tls rg n host = Some tls \<longleftrightarrow>
     (\<exists>ca_key ca leaf_key leaf.
        rg_generate rg (2 * n) = Some ca_key \<and> rg_self_signed rg ca_params ca_key = Some ca
      \<and> rg_generate rg (2 * n + 1) = Some leaf_key
      \<and> rg_signed_by rg (leaf_params host) leaf_key ca ca_key = Some leaf
      \<and> tls = \<lparr>tm_certificate_pem = rg_pem rg leaf @ rg_pem rg ca, tm_server_private_key_pem = rg_key_pem rg leaf_key,
               tm_trusted_ca_certificate_pem = rg_pem rg ca, tm_ca_private_key_pem = rg_key_pem rg ca_key\<rparr>)"
  by (auto simp: provision_tls_def bind_eq_Some_conv)

text \<open>The served chain is the leaf for the bound address, signed by the exported authority.\<close>

definition chain_ok :: "('key, 'cert) rcgen \<Rightarrow> ip_addr \<Rightarrow> secrets \<Rightarrow> bool" where
  "chain_ok rg host s \<longleftrightarrow>
     (\<exists>ca_key ca leaf_key leaf.
        rg_self_signed rg ca_params ca_key = Some ca
      \<and> rg_signed_by rg (leaf_params host) leaf_key ca ca_key = Some leaf
      \<and> se_certificate_pem s = rg_pem rg leaf @ rg_pem rg ca
      \<and> se_ca_certificate_pem s = rg_pem rg ca
      \<and> se_server_key_pem s = rg_key_pem rg leaf_key \<and> se_ca_key_pem s = rg_key_pem rg ca_key)"

lemma provisioned_chain:
  assumes "provision_tls rg n host = Some tls"
    and "se_certificate_pem s = tm_certificate_pem tls" "se_server_key_pem s = tm_server_private_key_pem tls"
      "se_ca_certificate_pem s = tm_trusted_ca_certificate_pem tls" "se_ca_key_pem s = tm_ca_private_key_pem tls"
  shows "chain_ok rg host s"
  using assms unfolding provision_tls_Some chain_ok_def by fastforce

lemma new_secrets_chain:
  assumes "provisioned_by rg lib" and "new_secrets lib c d = (Inr s, d')"
  shows "chain_ok rg (ac_bind_address c) s"
  using assms
  by (auto simp: new_secrets_def provision_def draw_token_def result_simps provisioned_by_def
      elim!: provisioned_chain)

lemma rotate_tls_chain:
  assumes "provisioned_by rg lib" and "rotate_tls lib s host d = (Inr s', d')"
  shows "chain_ok rg host s' \<and> se_token s' = se_token s"
  using assms
  by (auto simp: rotate_tls_def provision_def result_simps provisioned_by_def elim!: provisioned_chain)

section \<open>What a client checks\<close>

text \<open>
  What a certificate says, by the parameters it was made of, its key and the key that signed it.
  That it says so is what rcgen promises of \<open>self_signed\<close> and \<open>signed_by\<close>: the view of a certificate
  is a parameter with these laws.
\<close>

record 'pub cert_view =
  vw_subject :: string
  vw_issuer :: string
  vw_ca :: is_ca
  vw_usages :: "key_usage list"
  vw_names :: "san_type list"
  vw_key :: 'pub
  vw_signer :: 'pub

definition certifies :: "cert_params \<Rightarrow> string \<Rightarrow> 'pub \<Rightarrow> 'pub \<Rightarrow> 'pub cert_view" where
  "certifies params issuer key signer =
     \<lparr>vw_subject = cp_common_name params, vw_issuer = issuer, vw_ca = cp_is_ca params,
      vw_usages = cp_key_usages params, vw_names = cp_subject_alt_names params, vw_key = key, vw_signer = signer\<rparr>"

definition certificates_say :: "('key, 'cert) rcgen \<Rightarrow> ('key \<Rightarrow> 'pub) \<Rightarrow> ('cert \<Rightarrow> 'pub cert_view) \<Rightarrow> bool" where
  "certificates_say rg pub view \<longleftrightarrow>
     (\<forall>p k c. rg_self_signed rg p k = Some c \<longrightarrow> view c = certifies p (cp_common_name p) (pub k) (pub k))
   \<and> (\<forall>p k i ik c. rg_signed_by rg p k i ik = Some c \<longrightarrow> view c = certifies p (vw_subject (view i)) (pub k) (pub ik))"

text \<open>
  The path validation of RFC 5280 for a chain of a server's certificate and one trusted authority:
  the names chain, the authority's key made the signature, the authority is one and its key usages,
  if it names any, let it sign certificates, the server's certificate is not an authority's, and the
  name asked for is among its alternative names.
\<close>

definition path_valid :: "'pub cert_view \<Rightarrow> 'pub cert_view \<Rightarrow> san_type \<Rightarrow> bool" where
  "path_valid leaf authority name \<longleftrightarrow>
     vw_issuer leaf = vw_subject authority \<and> vw_signer leaf = vw_key authority
   \<and> vw_ca authority = Ca \<and> (vw_usages authority = [] \<or> KeyCertSign \<in> set (vw_usages authority))
   \<and> vw_ca leaf = NoCa \<and> vw_subject leaf \<noteq> vw_subject authority \<and> name \<in> set (vw_names leaf)"

text \<open>The secrets serve such a chain, with the key of the server's certificate.\<close>

definition serves_path ::
  "('key, 'cert) rcgen \<Rightarrow> ('key \<Rightarrow> 'pub) \<Rightarrow> ('cert \<Rightarrow> 'pub cert_view) \<Rightarrow> ip_addr \<Rightarrow> secrets \<Rightarrow> bool" where
  "serves_path rg pub view host s \<longleftrightarrow>
     (\<exists>leaf authority key.
        se_certificate_pem s = rg_pem rg leaf @ rg_pem rg authority
      \<and> se_ca_certificate_pem s = rg_pem rg authority
      \<and> se_server_key_pem s = rg_key_pem rg key \<and> vw_key (view leaf) = pub key
      \<and> path_valid (view leaf) (view authority) (DnsName ''localhost'')
      \<and> path_valid (view leaf) (view authority) (IpName (V4 127 0 0 1))
      \<and> path_valid (view leaf) (view authority) (IpName host)
      \<and> (\<forall>other name. \<not> path_valid other (view leaf) name))"

lemma chain_serves_path:
  assumes "certificates_say rg pub view" and "chain_ok rg host s"
  shows "serves_path rg pub view host s"
proof -
  obtain ca_key ca leaf_key leaf where made: "rg_self_signed rg ca_params ca_key = Some ca"
    "rg_signed_by rg (leaf_params host) leaf_key ca ca_key = Some leaf"
    and stored: "se_certificate_pem s = rg_pem rg leaf @ rg_pem rg ca" "se_ca_certificate_pem s = rg_pem rg ca"
      "se_server_key_pem s = rg_key_pem rg leaf_key"
    using assms(2) unfolding chain_ok_def by blast
  have ca: "view ca = certifies ca_params (cp_common_name ca_params) (pub ca_key) (pub ca_key)"
    using assms(1) made(1) unfolding certificates_say_def by blast
  have leaf: "view leaf = certifies (leaf_params host) (vw_subject (view ca)) (pub leaf_key) (pub ca_key)"
    using assms(1) made(2) unfolding certificates_say_def by blast
  note says = path_valid_def leaf ca certifies_def ca_params_def leaf_params_def certificate_params_def
    CA_COMMON_NAME_def SERVER_COMMON_NAME_def
  have "path_valid (view leaf) (view ca) name" if "name \<in> {DnsName ''localhost'', IpName (V4 127 0 0 1), IpName host}" for name
    using that by (auto simp: says)
  moreover have "\<not> path_valid other (view leaf) name" for other name by (simp add: says)
  moreover have "vw_key (view leaf) = pub leaf_key" by (simp add: leaf certifies_def)
  ultimately show ?thesis
    unfolding serves_path_def using stored
    by (intro exI [of _ leaf] exI [of _ ca] exI [of _ leaf_key]) simp
qed

section \<open>Properties\<close>

text \<open>C24: a client that trusts the exported authority accepts the certificate that new or renewed secrets
  serve, for localhost, the loopback address and the bound address, by the path validation of RFC 5280, and
  the daemon holds that certificate's key; nothing passes that validation with this certificate in the
  place of the authority. Renewing keeps the token. That a certificate says what its parameters say is
  assumed of rcgen.\<close>

theorem served_chain_is_trusted:
  assumes "provisioned_by rg lib" and "certificates_say rg pub view"
  shows "(new_secrets lib c d = (Inr s, d') \<longrightarrow> serves_path rg pub view (ac_bind_address c) s)
    \<and> (rotate_tls lib s0 host d = (Inr s, d') \<longrightarrow> serves_path rg pub view host s \<and> se_token s = se_token s0)"
  using new_secrets_chain [OF assms(1)] rotate_tls_chain [OF assms(1)] chain_serves_path [OF assms(2)] by blast

text \<open>An rcgen whose keys are numbers and whose certificates are what they say.\<close>

definition example_rcgen :: "(nat, nat cert_view) rcgen" where
  "example_rcgen =
     \<lparr>rg_generate = Some, rg_self_signed = (\<lambda>p k. Some (certifies p (cp_common_name p) k k)),
      rg_signed_by = (\<lambda>p k issuer ik. Some (certifies p (vw_subject issuer) k ik)),
      rg_pem = vw_subject, rg_key_pem = show_nat\<rparr>"

theorem served_chain_is_trusted_witness:
  "\<exists>s d'. new_secrets (example_lib\<lparr>rl_provision := provision_tls example_rcgen\<rparr>) default_config example_daemon = (Inr s, d')
    \<and> serves_path example_rcgen (\<lambda>k. k) (\<lambda>c. c) (ac_bind_address default_config) s"
proof -
  let ?lib = "example_lib\<lparr>rl_provision := provision_tls example_rcgen\<rparr>"
  have "\<exists>s d'. new_secrets ?lib default_config example_daemon = (Inr s, d')"
    by (simp add: new_secrets_def provision_def provision_tls_def example_rcgen_def draw_token_def)
  then obtain s d' where new: "new_secrets ?lib default_config example_daemon = (Inr s, d')" by blast
  have "provisioned_by example_rcgen ?lib" by (simp add: provisioned_by_def)
  moreover have "certificates_say example_rcgen (\<lambda>k. k) (\<lambda>c. c)"
    by (simp add: certificates_say_def example_rcgen_def certifies_def)
  ultimately have "serves_path example_rcgen (\<lambda>k. k) (\<lambda>c. c) (ac_bind_address default_config) s"
    using served_chain_is_trusted new by blast
  then show ?thesis using new by blast
qed

end
