(* ===== verification/Daemon_Calls.thy ===== *)
theory Daemon_Calls
  imports Daemon_Management
begin

text \<open>
  The calls of the Settings window as they run at the same time (\<open>call_raw\<close>, \<open>call_worker\<close> and
  \<open>client_worker\<close> in daemon/src/adapters/windows\_management.rs): each call draws an id, tries to put
  itself into a queue of \<open>MAX_PENDING_REQUESTS\<close>, and waits for its reply with a time limit; one thread takes
  the calls, writes them to the pipe and reads the answers. The tasks that made the calls go on in
  any order. A call is told apart by its reply channel, a number here. The pipe is the one of
  Daemon\_Ipc when it works, and may break at any moment.
\<close>

section \<open>State\<close>

definition MAX_PENDING_REQUESTS :: nat where "MAX_PENDING_REQUESTS = 1"

record pending_call =
  pc_reply :: nat
  pc_id :: u64
  pc_request :: request

text \<open>The thread: between calls, with a request written, with its answer in the pipe, or ended.\<close>

datatype worker = Idle | Wrote pending_call | Holds pending_call "response envelope" | Stopped

record 'x calls =
  ca_manager :: "'x manager"
  ca_client :: settings_client
  ca_sending :: "pending_call list"    \<comment> \<open>have an id, before \<open>try_send\<close>\<close>
  ca_queue :: "pending_call list"
  ca_worker :: worker
  ca_awaiting :: "pending_call list"    \<comment> \<open>in \<open>recv_timeout\<close>\<close>
  ca_replies :: "(pending_call \<times> (string, response envelope) result) list"
  ca_next :: nat
  ca_returned :: "(pending_call \<times> (string, response) result) list"
  ca_served :: "(nat \<times> request \<times> response) list"    \<comment> \<open>by the daemon, in this order\<close>

definition calls_start :: "settings_client \<Rightarrow> 'x manager \<Rightarrow> 'x calls" where
  "calls_start client m =
     \<lparr>ca_manager = m, ca_client = client, ca_sending = [], ca_queue = [], ca_worker = Idle, ca_awaiting = [],
      ca_replies = [], ca_next = 0, ca_returned = [], ca_served = []\<rparr>"

section \<open>Steps\<close>

text \<open>The end of \<open>call_raw\<close>, once the channel has answered.\<close>

definition finish_call :: "u64 \<Rightarrow> channel_answer \<Rightarrow> settings_client \<Rightarrow> (string, response) result \<times> settings_client" where
  "finish_call i answer c =
     st_then (and_then (call_worker answer) (check_envelope i), c)
       (\<lambda>payload c.
         (Inr payload,
          case response_state payload of None \<Rightarrow> c | Some state \<Rightarrow> replace_state state c))"

text \<open>A call alone is the sequential \<open>call_raw\<close> of Daemon\_Management.\<close>

lemma call_raw_finish:
  "call_raw channel request c =
     (case next_request request c of (envelope, c') \<Rightarrow> finish_call (en_id envelope) (channel envelope) c')"
  by (simp add: call_raw_def finish_call_def Let_def split: prod.split)

definition return_call :: "pending_call \<Rightarrow> channel_answer \<Rightarrow> 'x calls \<Rightarrow> 'x calls" where
  "return_call c answer s =
     (let (result, client) = finish_call (pc_id c) answer (ca_client s) in
        s\<lparr>ca_client := client, ca_awaiting := removeAll c (ca_awaiting s),
          ca_replies := filter (\<lambda>(c', _). c' \<noteq> c) (ca_replies s),
          ca_returned := ca_returned s @ [(c, result)]\<rparr>)"

text \<open>A reply to a call that has given up goes nowhere.\<close>

definition reply_to :: "pending_call \<Rightarrow> (string, response envelope) result \<Rightarrow> 'x calls \<Rightarrow> 'x calls" where
  "reply_to c r s = (if c \<in> set (ca_awaiting s) then s\<lparr>ca_replies := ca_replies s @ [(c, r)]\<rparr> else s)"

definition send_call :: "pending_call \<Rightarrow> 'x calls \<Rightarrow> 'x calls" where
  "send_call c s =
     (if ca_worker s = Stopped then return_call c Disconnected s
      else if length (ca_queue s) \<ge> MAX_PENDING_REQUESTS then return_call c QueueFull s
      else s\<lparr>ca_queue := ca_queue s @ [c], ca_awaiting := ca_awaiting s @ [c]\<rparr>)"

definition call_of :: "nat \<Rightarrow> pending_call list \<Rightarrow> pending_call option" where
  "call_of k = find (\<lambda>c. pc_reply c = k)"

datatype call_event =
    Starts request | Sends nat | WorkerTakes | DaemonAnswers bool bool | WorkerReplies | PipeBreaks
  | Returns nat | TimesOut nat | DaemonWorks system_op

text \<open>
  An event that is not possible changes nothing. When the thread has ended, its calls' reply channels
  are closed, and waiting for one ends as if the time had run out.
\<close>

fun call_step :: "runtime_lib \<Rightarrow> http_lib \<Rightarrow> 'x executor \<Rightarrow> 'x calls \<Rightarrow> call_event \<Rightarrow> 'x calls" where
  "call_step lib hlib exec s (Starts request) =
     (let (envelope, client) = next_request request (ca_client s) in
        s\<lparr>ca_client := client, ca_next := ca_next s + 1,
          ca_sending := ca_sending s @ [\<lparr>pc_reply = ca_next s, pc_id = en_id envelope, pc_request = request\<rparr>]\<rparr>)"
| "call_step lib hlib exec s (Sends k) =
     (case call_of k (ca_sending s) of
        None \<Rightarrow> s
      | Some c \<Rightarrow> send_call c (s\<lparr>ca_sending := removeAll c (ca_sending s)\<rparr>))"
| "call_step lib hlib exec s WorkerTakes =
     (case (ca_worker s, ca_queue s) of
        (Idle, c # queue) \<Rightarrow> s\<lparr>ca_worker := Wrote c, ca_queue := queue\<rparr>
      | _ \<Rightarrow> s)"
| "call_step lib hlib exec s (DaemonAnswers free listener_free) =
     (case ca_worker s of
        Wrote c \<Rightarrow>
          let (response, m) = serve_envelope lib exec free listener_free (envelope_new (pc_id c) (pc_request c)) (ca_manager s)
          in s\<lparr>ca_manager := m, ca_worker := Holds c response,
               ca_served := ca_served s @ [(pc_reply c, pc_request c, en_payload response)]\<rparr>
      | _ \<Rightarrow> s)"
| "call_step lib hlib exec s WorkerReplies =
     (case ca_worker s of
        Holds c response \<Rightarrow> reply_to c (Inr response) (s\<lparr>ca_worker := Idle\<rparr>)
      | _ \<Rightarrow> s)"
| "call_step lib hlib exec s PipeBreaks =
     (let broken = (\<lambda>c. reply_to c (Inl ''Background process is disconnected'') (s\<lparr>ca_worker := Stopped, ca_queue := []\<rparr>))
      in case ca_worker s of Wrote c \<Rightarrow> broken c | Holds c _ \<Rightarrow> broken c | _ \<Rightarrow> s)"
| "call_step lib hlib exec s (Returns k) =
     (case call_of k (ca_awaiting s) of
        None \<Rightarrow> s
      | Some c \<Rightarrow>
          (case map_of (ca_replies s) c of
             Some r \<Rightarrow> return_call c (Replied r) s
           | None \<Rightarrow> if ca_worker s = Stopped then return_call c NoAnswer s else s))"
| "call_step lib hlib exec s (TimesOut k) =
     (case call_of k (ca_awaiting s) of
        None \<Rightarrow> s
      | Some c \<Rightarrow> return_call c NoAnswer s)"
| "call_step lib hlib exec s (DaemonWorks operation) =
     s\<lparr>ca_manager := (ca_manager s)\<lparr>mg_system := system_step lib hlib exec (mg_system (ca_manager s)) operation\<rparr>\<rparr>"

section \<open>Every answer reaches its call\<close>

fun written :: "worker \<Rightarrow> pending_call list" where
  "written (Wrote c) = [c]"
| "written _ = []"

text \<open>Where calls are before and when the daemon performs them, each in one place only.\<close>

definition path_of_calls :: "'x calls \<Rightarrow> nat list" where
  "path_of_calls s =
     map pc_reply (ca_sending s @ ca_queue s @ written (ca_worker s)) @ map fst (ca_served s)"

definition genuine :: "'x calls \<Rightarrow> pending_call \<Rightarrow> response envelope \<Rightarrow> bool" where
  "genuine s c response \<longleftrightarrow> en_version response = PROTOCOL_VERSION \<and> en_id response = pc_id c
     \<and> (pc_reply c, pc_request c, en_payload response) \<in> set (ca_served s)"

definition outcome_ok :: "'x calls \<Rightarrow> pending_call \<Rightarrow> (string, response) result \<Rightarrow> bool" where
  "outcome_ok s c r \<longleftrightarrow>
     (case r of
        Inr payload \<Rightarrow> (pc_reply c, pc_request c, payload) \<in> set (ca_served s)
      | Inl e \<Rightarrow>
          e \<in> {''Settings request queue is full'', ''Background process is disconnected'',
               ''Background process did not respond''}
        \<and> (e = ''Settings request queue is full'' \<longrightarrow> pc_reply c \<notin> set (path_of_calls s)))"

definition calls_ok :: "'x calls \<Rightarrow> bool" where
  "calls_ok s \<longleftrightarrow>
     distinct (path_of_calls s) \<and> (\<forall>k \<in> set (path_of_calls s). k < ca_next s)
   \<and> length (ca_queue s) \<le> MAX_PENDING_REQUESTS
   \<and> (\<forall>c response. ca_worker s = Holds c response \<longrightarrow> genuine s c response)
   \<and> (\<forall>c r. (c, r) \<in> set (ca_replies s) \<longrightarrow>
        (case r of Inr response \<Rightarrow> genuine s c response | Inl e \<Rightarrow> e = ''Background process is disconnected''))
   \<and> (\<forall>c r. (c, r) \<in> set (ca_returned s) \<longrightarrow> pc_reply c < ca_next s \<and> outcome_ok s c r)
   \<and> (\<forall>c \<in> set (ca_awaiting s). pc_reply c < ca_next s)"

lemma finish_call_result:
  "fst (finish_call i QueueFull c) = Inl ''Settings request queue is full''"
  "fst (finish_call i Disconnected c) = Inl ''Background process is disconnected''"
  "fst (finish_call i NoAnswer c) = Inl ''Background process did not respond''"
  "fst (finish_call i (Replied (Inl e)) c) = Inl e"
  "en_version response = PROTOCOL_VERSION \<Longrightarrow> en_id response = i \<Longrightarrow>
     fst (finish_call i (Replied (Inr response)) c) = Inr (en_payload response)"
  by (simp_all add: finish_call_def call_worker_def check_envelope_def)

text \<open>Later states know more answers, and no new place for an old call.\<close>

definition extends :: "'x calls \<Rightarrow> 'x calls \<Rightarrow> bool" where
  "extends s s' \<longleftrightarrow> set (ca_served s) \<subseteq> set (ca_served s') \<and> ca_next s \<le> ca_next s'
     \<and> (\<forall>k \<in> set (path_of_calls s'). k \<in> set (path_of_calls s) \<or> ca_next s \<le> k)"

lemma genuine_extends: "extends s s' \<Longrightarrow> genuine s c response \<Longrightarrow> genuine s' c response"
  by (auto simp: extends_def genuine_def)

lemma outcome_extends: "extends s s' \<Longrightarrow> pc_reply c < ca_next s \<Longrightarrow> outcome_ok s c r \<Longrightarrow> outcome_ok s' c r"
  by (cases r) (auto simp: extends_def outcome_ok_def)

lemma calls_okD:
  assumes "calls_ok s"
  shows "distinct (path_of_calls s)" "\<And>k. k \<in> set (path_of_calls s) \<Longrightarrow> k < ca_next s"
    "length (ca_queue s) \<le> MAX_PENDING_REQUESTS" "\<And>c response. ca_worker s = Holds c response \<Longrightarrow> genuine s c response"
    "\<And>c response. (c, Inr response) \<in> set (ca_replies s) \<Longrightarrow> genuine s c response"
    "\<And>c e. (c, Inl e) \<in> set (ca_replies s) \<Longrightarrow> e = ''Background process is disconnected''"
    "\<And>c r. (c, r) \<in> set (ca_returned s) \<Longrightarrow> pc_reply c < ca_next s \<and> outcome_ok s c r"
    "\<And>c. c \<in> set (ca_awaiting s) \<Longrightarrow> pc_reply c < ca_next s"
proof -
  note ok = assms [unfolded calls_ok_def]
  show "distinct (path_of_calls s)" "length (ca_queue s) \<le> MAX_PENDING_REQUESTS" using ok by blast+
  show "k < ca_next s" if "k \<in> set (path_of_calls s)" for k using ok that by blast
  show "genuine s c response" if "ca_worker s = Holds c response" for c response using ok that by blast
  have replies: "case r of Inr response \<Rightarrow> genuine s c response | Inl e \<Rightarrow> e = ''Background process is disconnected''"
    if "(c, r) \<in> set (ca_replies s)" for c r using ok that by blast
  show "genuine s c response" if "(c, Inr response) \<in> set (ca_replies s)" for c response using replies [OF that] by simp
  show "e = ''Background process is disconnected''" if "(c, Inl e) \<in> set (ca_replies s)" for c e
    using replies [OF that] by simp
  show "pc_reply c < ca_next s \<and> outcome_ok s c r" if "(c, r) \<in> set (ca_returned s)" for c r using ok that by blast
  show "pc_reply c < ca_next s" if "c \<in> set (ca_awaiting s)" for c using ok that by blast
qed

text \<open>A step that returns no call keeps the invariant when it extends the state.\<close>

lemma calls_ok_extends:
  assumes "calls_ok s" and "extends s s'" and "distinct (path_of_calls s')"
    and "\<And>k. k \<in> set (path_of_calls s') \<Longrightarrow> k < ca_next s'" and "length (ca_queue s') \<le> MAX_PENDING_REQUESTS"
    and "\<And>c response. ca_worker s' = Holds c response \<Longrightarrow> genuine s' c response"
    and "\<And>c response. (c, Inr response) \<in> set (ca_replies s') \<Longrightarrow> genuine s' c response"
    and "\<And>c e. (c, Inl e) \<in> set (ca_replies s') \<Longrightarrow> e = ''Background process is disconnected''"
    and "ca_returned s' = ca_returned s"
    and "\<And>c. c \<in> set (ca_awaiting s') \<Longrightarrow> pc_reply c < ca_next s'"
  shows "calls_ok s'"
  unfolding calls_ok_def
proof (intro conjI allI ballI impI)
  fix c r assume "(c, r) \<in> set (ca_returned s')"
  then have old: "pc_reply c < ca_next s" "outcome_ok s c r" using calls_okD(7) [OF assms(1)] assms(9) by auto
  then show "pc_reply c < ca_next s'" using assms(2) by (simp add: extends_def)
  show "outcome_ok s' c r" by (rule outcome_extends [OF assms(2) old])
next
  fix c r assume "(c, r) \<in> set (ca_replies s')"
  then show "case r of Inr response \<Rightarrow> genuine s' c response | Inl e \<Rightarrow> e = ''Background process is disconnected''"
    using assms(7,8) by (cases r) auto
qed (use assms in blast)+

lemma return_call_fields [simp]:
  "ca_sending (return_call c answer s) = ca_sending s" "ca_queue (return_call c answer s) = ca_queue s"
  "ca_worker (return_call c answer s) = ca_worker s" "ca_served (return_call c answer s) = ca_served s"
  "ca_next (return_call c answer s) = ca_next s" "ca_manager (return_call c answer s) = ca_manager s"
  "ca_awaiting (return_call c answer s) = removeAll c (ca_awaiting s)"
  "ca_replies (return_call c answer s) = filter (\<lambda>(c', _). c' \<noteq> c) (ca_replies s)"
  "ca_returned (return_call c answer s) = ca_returned s @ [(c, fst (finish_call (pc_id c) answer (ca_client s)))]"
  "path_of_calls (return_call c answer s) = path_of_calls s"
  by (simp_all add: return_call_def path_of_calls_def split: prod.split)

lemma return_call_same [simp]:
  "genuine (return_call c answer s) c' response = genuine s c' response"
  "outcome_ok (return_call c answer s) c' r = outcome_ok s c' r"
  by (simp add: genuine_def, cases r, simp_all add: outcome_ok_def)

lemma return_call_ok:
  assumes "calls_ok s" and "pc_reply c < ca_next s"
    and "outcome_ok s c (fst (finish_call (pc_id c) answer (ca_client s)))"
  shows "calls_ok (return_call c answer s)"
  unfolding calls_ok_def
proof (intro conjI allI ballI impI)
  note ok = calls_okD [OF assms(1)]
  fix c' r assume "(c', r) \<in> set (ca_returned (return_call c answer s))"
  then have "(c', r) \<in> set (ca_returned s) \<or> c' = c \<and> r = fst (finish_call (pc_id c) answer (ca_client s))" by auto
  then have "pc_reply c' < ca_next s \<and> outcome_ok s c' r" using ok(7) assms(2,3) by blast
  then show "pc_reply c' < ca_next (return_call c answer s)" "outcome_ok (return_call c answer s) c' r" by simp_all
next
  note ok = calls_okD [OF assms(1)]
  fix c' r assume "(c', r) \<in> set (ca_replies (return_call c answer s))"
  then have "(c', r) \<in> set (ca_replies s)" by simp
  then show "case r of Inr response \<Rightarrow> genuine (return_call c answer s) c' response
      | Inl e \<Rightarrow> e = ''Background process is disconnected''"
    using ok(5,6) by (cases r) simp_all
qed (use calls_okD [OF assms(1)] in simp_all)

lemma reply_to_ok:
  assumes "calls_ok s"
    and "case r of Inr response \<Rightarrow> genuine s c response | Inl e \<Rightarrow> e = ''Background process is disconnected''"
  shows "calls_ok (reply_to c r s)"
proof (cases "c \<in> set (ca_awaiting s)")
  case True
  note ok = calls_okD [OF assms(1)]
  let ?t = "s\<lparr>ca_replies := ca_replies s @ [(c, r)]\<rparr>"
  have path: "path_of_calls ?t = path_of_calls s" by (simp add: path_of_calls_def)
  have ext: "extends s ?t" by (simp add: extends_def path)
  have "calls_ok ?t"
  proof (rule calls_ok_extends [OF assms(1) ext])
    show "genuine ?t c' response" if "(c', Inr response) \<in> set (ca_replies ?t)" for c' response
    proof -
      have "genuine s c' response" using that assms(2) ok(5) [of c' response] by auto
      then show ?thesis by (rule genuine_extends [OF ext])
    qed
    show "e = ''Background process is disconnected''" if "(c', Inl e) \<in> set (ca_replies ?t)" for c' e
      using that assms(2) ok(6) [of c' e] by auto
    show "genuine ?t c' response" if "ca_worker ?t = Holds c' response" for c' response
      using that ok(4) [of c' response] genuine_extends [OF ext] by simp
  qed (use ok path in simp_all)
  then show ?thesis using True by (simp add: reply_to_def)
qed (use assms(1) in \<open>simp add: reply_to_def\<close>)

lemma call_of_Some: "call_of k cs = Some c \<Longrightarrow> c \<in> set cs \<and> pc_reply c = k"
  by (auto simp: call_of_def find_Some_iff)

text \<open>Leaving the list of senders takes the call off the path.\<close>

lemma path_without_sender:
  assumes "distinct (path_of_calls s)" and "c \<in> set (ca_sending s)"
  shows "path_of_calls (s\<lparr>ca_sending := removeAll c (ca_sending s)\<rparr>) = removeAll (pc_reply c) (path_of_calls s)"
proof -
  have "inj_on pc_reply (set (ca_sending s))"
    using assms(1) by (simp add: path_of_calls_def distinct_map)
  then have "map pc_reply (removeAll c (ca_sending s)) = removeAll (pc_reply c) (map pc_reply (ca_sending s))"
    using assms(2) by (intro map_removeAll_inj_on) (simp add: insert_absorb)
  moreover have "removeAll (pc_reply c) (map pc_reply (ca_queue s @ written (ca_worker s)) @ map fst (ca_served s)) =
      map pc_reply (ca_queue s @ written (ca_worker s)) @ map fst (ca_served s)"
    using assms by (intro removeAll_id) (force simp: path_of_calls_def)
  ultimately show ?thesis by (simp add: path_of_calls_def)
qed

lemma send_call_ok:
  assumes "calls_ok s" and "c \<in> set (ca_sending s)"
  shows "calls_ok (send_call c (s\<lparr>ca_sending := removeAll c (ca_sending s)\<rparr>))"
proof -
  let ?s = "s\<lparr>ca_sending := removeAll c (ca_sending s)\<rparr>"
  note ok = calls_okD [OF assms(1)]
  note path = path_without_sender [OF ok(1) assms(2)]
  have gone: "pc_reply c \<notin> set (path_of_calls ?s)" by (simp add: path)
  have bound: "pc_reply c < ca_next s" using ok(2) assms(2) by (auto simp: path_of_calls_def)
  have rest: "calls_ok ?s"
  proof (rule calls_ok_extends [OF assms(1)])
    show "distinct (path_of_calls ?s)" using ok(1) by (simp add: path distinct_removeAll)
    show "extends s ?s" by (simp add: extends_def path)
    show "k < ca_next ?s" if "k \<in> set (path_of_calls ?s)" for k using that ok(2) by (simp add: path)
  qed (use ok in \<open>simp_all add: genuine_def\<close>)
  show ?thesis
  proof (cases "ca_worker s = Stopped \<or> MAX_PENDING_REQUESTS \<le> length (ca_queue s)")
    case True
    then show ?thesis
      using rest bound gone
      by (auto simp: send_call_def outcome_ok_def finish_call_result intro!: return_call_ok)
  next
    case False
    let ?t = "?s\<lparr>ca_queue := ca_queue s @ [c], ca_awaiting := ca_awaiting s @ [c]\<rparr>"
    have path_t: "set (path_of_calls ?t) = insert (pc_reply c) (set (path_of_calls ?s))"
      by (auto simp: path_of_calls_def)
    have "calls_ok ?t"
    proof (rule calls_ok_extends [OF assms(1)])
      show "distinct (path_of_calls ?t)"
        using calls_okD(1) [OF rest] gone by (auto simp: path_of_calls_def)
      show "extends s ?t" using assms(2) by (auto simp: extends_def path_t path) (auto simp: path_of_calls_def)
      show "k < ca_next ?t" if "k \<in> set (path_of_calls ?t)" for k
        using that ok(2) bound by (auto simp: path_t path)
      show "length (ca_queue ?t) \<le> MAX_PENDING_REQUESTS" using False by simp
      show "pc_reply c' < ca_next ?t" if "c' \<in> set (ca_awaiting ?t)" for c' using that ok(8) bound by auto
    qed (use ok in \<open>simp_all add: genuine_def\<close>)
    then show ?thesis using False by (simp add: send_call_def)
  qed
qed

lemma starts_ok:
  assumes "calls_ok s"
  shows "calls_ok (call_step lib hlib exec s (Starts request))"
proof -
  note ok = calls_okD [OF assms]
  obtain envelope client where next_is: "next_request request (ca_client s) = (envelope, client)" by fastforce
  let ?t = "s\<lparr>ca_client := client, ca_next := Suc (ca_next s),
      ca_sending := ca_sending s @ [\<lparr>pc_reply = ca_next s, pc_id = en_id envelope, pc_request = request\<rparr>]\<rparr>"
  have path: "set (path_of_calls ?t) = insert (ca_next s) (set (path_of_calls s))"
    by (auto simp: path_of_calls_def)
  have new: "ca_next s \<notin> set (path_of_calls s)" using ok(2) by blast
  have "calls_ok ?t"
  proof (rule calls_ok_extends [OF assms])
    show "distinct (path_of_calls ?t)" using ok(1) new by (auto simp: path_of_calls_def)
    show ext: "extends s ?t" by (auto simp: extends_def path)
    show "k < ca_next ?t" if "k \<in> set (path_of_calls ?t)" for k
      using that ok(2) [of k] by (auto simp: path)
    show "pc_reply c < ca_next ?t" if "c \<in> set (ca_awaiting ?t)" for c using that ok(8) [of c] by simp
  qed (use ok in \<open>simp_all add: genuine_def\<close>)
  then show ?thesis by (simp add: next_is)
qed

lemma answers_ok:
  assumes "calls_ok s" and "ca_worker s = Wrote c"
  shows "calls_ok (call_step lib hlib exec s (DaemonAnswers free listener_free))"
proof -
  note ok = calls_okD [OF assms(1)]
  obtain payload m where answer: "dispatch_request lib exec free listener_free (pc_request c) (ca_manager s) = (payload, m)"
    by fastforce
  let ?t = "s\<lparr>ca_manager := m, ca_worker := Holds c (envelope_new (pc_id c) payload),
      ca_served := ca_served s @ [(pc_reply c, pc_request c, payload)]\<rparr>"
  have path: "set (path_of_calls ?t) = set (path_of_calls s)" by (auto simp: path_of_calls_def assms(2))
  have "calls_ok ?t"
  proof (rule calls_ok_extends [OF assms(1)])
    show "distinct (path_of_calls ?t)" using ok(1) by (auto simp: path_of_calls_def assms(2))
    show ext: "extends s ?t" by (auto simp: extends_def path)
    show "genuine ?t c' response" if "(c', Inr response) \<in> set (ca_replies ?t)" for c' response
      using that genuine_extends [OF ext ok(5)] by simp
    show "genuine ?t c' response" if "ca_worker ?t = Holds c' response" for c' response
      using that by (auto simp: genuine_def)
  qed (use ok path in simp_all)
  then show ?thesis by (simp add: assms(2) serve_envelope_current answer)
qed

lemma returns_ok:
  assumes "calls_ok s" and "c \<in> set (ca_awaiting s)" and "map_of (ca_replies s) c = Some r"
  shows "calls_ok (return_call c (Replied r) s)"
proof (rule return_call_ok [OF assms(1)])
  note ok = calls_okD [OF assms(1)]
  show "pc_reply c < ca_next s" using ok(8) assms(2) by blast
  have "(c, r) \<in> set (ca_replies s)" using assms(3) by (rule map_of_SomeD)
  then show "outcome_ok s c (fst (finish_call (pc_id c) (Replied r) (ca_client s)))"
    using ok(5,6) by (cases r) (auto simp: finish_call_result outcome_ok_def genuine_def)
qed

lemma gives_up_ok:
  assumes "calls_ok s" and "c \<in> set (ca_awaiting s)"
  shows "calls_ok (return_call c NoAnswer s)"
  using return_call_ok [OF assms(1), of c NoAnswer] calls_okD(8) [OF assms]
  by (simp add: finish_call_result outcome_ok_def)

lemma worker_takes_ok:
  assumes "calls_ok s"
  shows "calls_ok (call_step lib hlib exec s WorkerTakes)"
proof (cases "ca_worker s = Idle \<and> ca_queue s \<noteq> []")
  case True
  then obtain c queue where q: "ca_worker s = Idle" "ca_queue s = c # queue" by (cases "ca_queue s") auto
  note ok = calls_okD [OF assms]
  let ?t = "s\<lparr>ca_worker := Wrote c, ca_queue := queue\<rparr>"
  have path: "set (path_of_calls ?t) = set (path_of_calls s)" by (auto simp: path_of_calls_def q)
  have "calls_ok ?t"
  proof (rule calls_ok_extends [OF assms])
    show "distinct (path_of_calls ?t)" using ok(1) by (auto simp: path_of_calls_def q)
    show "extends s ?t" by (simp add: extends_def path)
    show "k < ca_next ?t" if "k \<in> set (path_of_calls ?t)" for k using that ok(2) by (simp add: path)
    show "length (ca_queue ?t) \<le> MAX_PENDING_REQUESTS" using ok(3) by (simp add: q)
  qed (use ok in \<open>simp_all add: genuine_def\<close>)
  then show ?thesis by (simp add: q)
next
  case False
  then show ?thesis using assms by (auto split: worker.split list.split)
qed

text \<open>The worker drops what it held.\<close>

lemma worker_drops_ok:
  assumes "calls_ok s" and "w = Idle \<or> w = Stopped" and "queue = ca_queue s \<or> queue = []"
  shows "calls_ok (s\<lparr>ca_worker := w, ca_queue := queue\<rparr>)"
proof (rule calls_ok_extends [OF assms(1)])
  note ok = calls_okD [OF assms(1)]
  let ?t = "s\<lparr>ca_worker := w, ca_queue := queue\<rparr>"
  show "distinct (path_of_calls ?t)" using ok(1) assms(2,3) by (auto simp: path_of_calls_def)
  show "extends s ?t" using assms(2,3) by (auto simp: extends_def path_of_calls_def)
  show "k < ca_next ?t" if "k \<in> set (path_of_calls ?t)" for k
    using that ok(2) assms(2,3) by (auto simp: path_of_calls_def)
  show "length (ca_queue ?t) \<le> MAX_PENDING_REQUESTS" using ok(3) assms(3) by auto
  show "genuine ?t c response" if "ca_worker ?t = Holds c response" for c response using that assms(2) by auto
qed (use calls_okD [OF assms(1)] in \<open>simp_all add: genuine_def\<close>)

lemma call_step_ok:
  assumes "calls_ok s"
  shows "calls_ok (call_step lib hlib exec s e)"
proof (cases e)
  case (Sends k)
  then show ?thesis
    using send_call_ok [OF assms] assms call_of_Some [of k "ca_sending s"] by (auto split: option.split)
next
  case (DaemonAnswers free listener_free)
  then show ?thesis using answers_ok [OF assms] assms by (cases "ca_worker s") auto
next
  case WorkerReplies
  show ?thesis
  proof (cases "ca_worker s")
    case (Holds c response)
    have "calls_ok (s\<lparr>ca_worker := Idle\<rparr>)" using worker_drops_ok [OF assms, of Idle "ca_queue s"] by simp
    from reply_to_ok [OF this, where r = "Inr response" and c = c] show ?thesis
      using WorkerReplies Holds calls_okD(4) [OF assms Holds] by (simp add: genuine_def)
  qed (use WorkerReplies assms in auto)
next
  case PipeBreaks
  have "calls_ok (reply_to c (Inl ''Background process is disconnected'') (s\<lparr>ca_worker := Stopped, ca_queue := []\<rparr>))" for c
    by (rule reply_to_ok [OF worker_drops_ok [OF assms]]) simp_all
  then show ?thesis using PipeBreaks assms by (cases "ca_worker s") (simp_all add: Let_def)
next
  case (Returns k)
  then show ?thesis
    using returns_ok [OF assms] gives_up_ok [OF assms] assms call_of_Some [of k "ca_awaiting s"]
    by (auto split: option.split)
next
  case (TimesOut k)
  then show ?thesis using gives_up_ok [OF assms] assms call_of_Some [of k "ca_awaiting s"] by (auto split: option.split)
next
  case (DaemonWorks operation)
  let ?t = "s\<lparr>ca_manager := (ca_manager s)\<lparr>mg_system := system_step lib hlib exec (mg_system (ca_manager s)) operation\<rparr>\<rparr>"
  have "path_of_calls ?t = path_of_calls s" by (simp add: path_of_calls_def)
  then have "calls_ok ?t"
    using calls_okD [OF assms] by (intro calls_ok_extends [OF assms]) (simp_all add: genuine_def extends_def)
  then show ?thesis by (simp only: DaemonWorks call_step.simps)
qed (use starts_ok [OF assms] worker_takes_ok [OF assms] in simp_all)

interpretation calling: stepper "call_step lib hlib exec" calls_ok
  for lib hlib exec
  by unfold_locales (rule call_step_ok)

lemma calls_start_ok: "calls_ok (calls_start client m)"
  by (simp add: calls_ok_def calls_start_def path_of_calls_def)

lemma returned_step: "set (ca_returned s) \<subseteq> set (ca_returned (call_step lib hlib exec s e))"
proof (cases e)
  case WorkerReplies
  then show ?thesis by (cases "ca_worker s") (simp_all add: reply_to_def)
next
  case PipeBreaks
  then show ?thesis by (cases "ca_worker s") (simp_all add: reply_to_def Let_def)
qed (auto simp: send_call_def Let_def split: option.split worker.split list.split prod.split)

lemma returned_stays: "set (ca_returned s) \<subseteq> set (ca_returned (foldl (call_step lib hlib exec) s events))"
proof (induction events arbitrary: s)
  case (Cons e events)
  show ?case unfolding foldl_Cons by (rule order_trans [OF returned_step Cons.IH])
qed simp

section \<open>Answers that overtake each other\<close>

text \<open>A refresh and a save of no actions at the same time: the daemon answers the refresh first, and the task
  that made it stores its answer last.\<close>

definition overtaking :: "call_event list" where
  "overtaking =
     [Starts ReqSnapshot, Starts (ReqSaveActions []), Sends 0, WorkerTakes, Sends 1, DaemonAnswers True True,
      WorkerReplies, WorkerTakes, DaemonAnswers True True, WorkerReplies, Returns 1, Returns 0]"

lemma overtaking_run:
  assumes "dispatch_request lib exec True True (ReqSaveActions []) m = (RespApplied (mg_snapshot m'), m')"
    and "cl_state client = Sound old"
  shows "foldl (call_step lib hlib exec) (calls_start client m) overtaking =
    (let first = \<lparr>pc_reply = 0, pc_id = cl_next_id client, pc_request = ReqSnapshot\<rparr>;
         second = \<lparr>pc_reply = 1, pc_id = cl_next_id client + 1, pc_request = ReqSaveActions []\<rparr>
     in \<lparr>ca_manager = m', ca_client = \<lparr>cl_state = Sound (mg_snapshot m), cl_next_id = cl_next_id client + 2\<rparr>,
         ca_sending = [], ca_queue = [], ca_worker = Idle, ca_awaiting = [], ca_replies = [], ca_next = 2,
         ca_returned = [(second, Inr (RespApplied (mg_snapshot m'))), (first, Inr (RespSnapshot (mg_snapshot m)))],
         ca_served = [(0, ReqSnapshot, RespSnapshot (mg_snapshot m)),
           (1, ReqSaveActions [], RespApplied (mg_snapshot m'))]\<rparr>)"
  using assms
  by (simp add: overtaking_def calls_start_def next_request_def call_of_def send_call_def MAX_PENDING_REQUESTS_def
      serve_envelope_current reply_to_def return_call_def finish_call_def call_worker_def check_envelope_def
      replace_state_def)

lemma example_save_dispatch:
  obtains m' :: "nat manager" where
    "dispatch_request example_lib example_exec True True (ReqSaveActions []) example_manager = (RespApplied (mg_snapshot m'), m')"
    "ac_actions (sn_config (mg_snapshot m')) = []"
proof -
  obtain d where d: "save_actions example_lib [] example_daemon = (Inr (), d)" using example_save by blast
  then obtain m' :: "nat manager" where op: "dispatch_request example_lib example_exec True True (ReqSaveActions []) example_manager =
      (RespApplied (mg_snapshot m'), m')" "mg_daemon m' = d"
    by (simp add: answer_operation_def example_manager_def)
  obtain revision where "daemon_inv (with_actions example_published [] revision) example_secrets d"
    using save_actions_outcome [OF example_daemon_inv, of example_lib "[]"] d
    by (auto simp: all_or_nothing_def split: option.splits)
  then have "ac_actions (sn_config (mg_snapshot m')) = []"
    using daemon_invD(3) op(2) by (simp add: snapshot_def with_actions_def)
  then show thesis using that op(1) by blast
qed

section \<open>Properties\<close>

text \<open>C35: whichever calls the window makes at the same time, and however they are sent, taken, answered,
  given up and continued, or the pipe breaks: at most one call waits in the queue; the daemon performs
  each call at most once; a call that returns a response returns the daemon's answer to that very
  request; otherwise it returns one of three errors, and one that found the queue full was not performed
  and never is.\<close>

theorem calls_get_their_answers:
  assumes "(c, r) \<in> set (ca_returned (foldl (call_step lib hlib exec) (calls_start client m) events))"
  shows "let s = foldl (call_step lib hlib exec) (calls_start client m) events;
             s' = foldl (call_step lib hlib exec) s later
         in length (ca_queue s) \<le> 1 \<and> distinct (map fst (ca_served s))
          \<and> (case r of
               Inr payload \<Rightarrow> (pc_reply c, pc_request c, payload) \<in> set (ca_served s)
             | Inl e \<Rightarrow>
                 e = ''Settings request queue is full'' \<and> pc_reply c \<notin> fst ` set (ca_served s')
               \<or> e = ''Background process is disconnected'' \<or> e = ''Background process did not respond'')"
proof -
  define s where "s = foldl (call_step lib hlib exec) (calls_start client m) events"
  define s' where "s' = foldl (call_step lib hlib exec) s later"
  have ok: "calls_ok s" unfolding s_def by (rule calling.run_inv [OF calls_start_ok])
  have "calls_ok s'" unfolding s'_def by (rule calling.run_inv [OF ok])
  moreover have "set (ca_returned s) \<subseteq> set (ca_returned s')" unfolding s'_def by (rule returned_stays)
  ultimately have later: "outcome_ok s' c r" using assms calls_okD(7) by (metis s_def subsetD)
  have now: "outcome_ok s c r" using calls_okD(7) [OF ok] assms by (simp add: s_def)
  have "length (ca_queue s) \<le> 1" "distinct (map fst (ca_served s))"
    using calls_okD(1,3) [OF ok] by (simp_all add: path_of_calls_def MAX_PENDING_REQUESTS_def)
  then show ?thesis
    unfolding Let_def s_def [symmetric] s'_def [symmetric]
    using now later by (cases r) (auto simp: outcome_ok_def path_of_calls_def)
qed

theorem calls_get_their_answers_witness:
  "\<exists>m' :: nat manager. (1, ReqSaveActions [], RespApplied (mg_snapshot m')) \<in>
     set (ca_served (foldl (call_step example_lib example_http_lib example_exec)
       (calls_start initial_client example_manager) overtaking))"
proof -
  obtain m' :: "nat manager" where op:
      "dispatch_request example_lib example_exec True True (ReqSaveActions []) example_manager = (RespApplied (mg_snapshot m'), m')"
    by (rule example_save_dispatch)
  obtain old where old: "cl_state initial_client = Sound old" by (simp add: initial_client_def)
  have "(\<lparr>pc_reply = 1, pc_id = cl_next_id initial_client + 1, pc_request = ReqSaveActions []\<rparr>,
      Inr (RespApplied (mg_snapshot m'))) \<in> set (ca_returned (foldl (call_step example_lib example_http_lib example_exec)
        (calls_start initial_client example_manager) overtaking))"
    using overtaking_run [OF op old] by (simp add: Let_def)
  from calls_get_their_answers [OF this, of "[]"] show ?thesis by (auto simp: Let_def)
qed

end
