(* ===== verification/Daemon_Checks_Windows.thy ===== *)
theory Daemon_Checks_Windows
  imports Daemon_Checks Daemon_Host Daemon_Spawn Daemon_Settings Daemon_Security Daemon_Executor Daemon_Calls
begin

text \<open>
  The unit tests of management.rs, security.rs and the Windows adapters on the model, as in
  Daemon\_Checks. Tests that start processes, activate COM classes or read images have no
  counterpart beyond the calls that are modelled.
\<close>

section \<open>Frames\<close>

definition from_bytes :: "string \<Rightarrow> reader" where
  "from_bytes = map Inr"

definition frames_reject_empty_oversized_and_truncated_data :: bool where
  "frames_reject_empty_oversized_and_truncated_data \<longleftrightarrow>
     list_all (\<lambda>bytes. \<not> is_ok (fst (read_frame (from_bytes bytes))))
       [replicate 4 (CHR 0x00), to_be_bytes (word_of_nat MAX_FRAME_BYTES + 1),
        [CHR 0x00, CHR 0x00, CHR 0x00, CHR 0x02, CHR ''{'']]
   \<and> \<not> is_ok (fst (write_frame [] \<lparr>wr_bytes = [], wr_answers = []\<rparr>))"

definition clean_eof_is_distinct_from_a_truncated_frame :: bool where
  "clean_eof_is_distinct_from_a_truncated_frame \<longleftrightarrow>
     fst (read_frame (from_bytes [])) = Inr None
   \<and> \<not> is_ok (fst (read_frame (from_bytes [CHR 0x00, CHR 0x00])))"

section \<open>The channel and its process\<close>

definition action_test_preserves_management_error_codes :: bool where
  "action_test_preserves_management_error_codes \<longleftrightarrow>
     list_all (\<lambda>code. action_test_result (Inr (RespError code)) = Inl code) [MeBusy, MeFailed]"

definition closing_the_settings_job_terminates_only_its_owned_child :: bool where
  "closing_the_settings_job_terminates_only_its_owned_child \<longleftrightarrow>
     (case assign_job ((no_process [])\<lparr>pw_running := True\<rparr>) of
        (r, w) \<Rightarrow> is_ok r \<and> pw_running w \<and> \<not> pw_running (close_job w))"

section \<open>Certificates\<close>

definition ca_and_server_have_distinct_subject_names :: bool where
  "ca_and_server_have_distinct_subject_names \<longleftrightarrow>
     cp_common_name (certificate_params CA_COMMON_NAME) \<noteq> cp_common_name (certificate_params SERVER_COMMON_NAME)"

section \<open>The Settings window\<close>

definition settings_errors_include_the_operation_and_cause :: bool where
  "settings_errors_include_the_operation_and_cause \<longleftrightarrow>
     setting_error ''saving action configuration'' ''disk is full''
       = ''Error: saving action configuration: disk is full''"

text \<open>A window with nothing in its channel; \<open>next_update\<close> takes the oldest event.\<close>

definition settings_updates_are_queued_without_a_background_ui_context :: "settings_window \<Rightarrow> bool" where
  "settings_updates_are_queued_without_a_background_ui_context w \<longleftrightarrow>
     sw_events (wake (ListenerState True (Inr ())) (w\<lparr>sw_events := []\<rparr>)) = [ListenerState True (Inr ())]"

definition rendering_a_file_field_does_not_change_or_run_its_path :: bool where
  "rendering_a_file_field_does_not_change_or_run_its_path \<longleftrightarrow>
     (let original = ''C:'' @ [CHR 0x5C] @ ''Apps'' @ [CHR 0x5C] @ ''Music Player'' @ [CHR 0x5C] @ ''player.exe''
      in file_path_field (Typed original) original = (original, None))"

section \<open>Host and file dialog\<close>

text \<open>The flag is \<open>False\<close> before; messages of other windows are left out.\<close>

definition reopen_is_delivered_without_a_settings_window_or_renderer :: "hwnd \<Rightarrow> 'x tray \<Rightarrow> bool" where
  "reopen_is_delivered_without_a_settings_window_or_renderer host s \<longleftrightarrow>
     (let (requested, s) = take_open_request (s\<lparr>ty_open_requested := False\<rparr>);
          (running, s) = dispatch_message host (Fetched host OPEN_SETTINGS) s;
          (reopened, s) = take_open_request s;
          (again, s) = take_open_request s
      in \<not> requested \<and> running = Inr True \<and> reopened \<and> \<not> again)"

definition picker_filters_match_the_supported_action_types :: bool where
  "picker_filters_match_the_supported_action_types \<longleftrightarrow>
     list_all (\<lambda>(kind, expected). snd (file_filter kind) = expected)
       [(ExecutableFile, ''*.exe''), (BatchFile, ''*.bat;*.cmd''), (PowerShellFile, ''*.ps1'')]"

section \<open>The executor\<close>

definition elevated_launch_semaphore_allows_only_one_active_prompt :: bool where
  "elevated_launch_semaphore_allows_only_one_active_prompt \<longleftrightarrow>
     (case try_acquire (wx_elevated (default_executor [] [] [])) of
        None \<Rightarrow> False
      | Some m \<Rightarrow> try_acquire m = None \<and> try_acquire (drop_permit m) \<noteq> None)"

definition elevated_argument_quoting_preserves_windows_argument_boundaries :: bool where
  "elevated_argument_quoting_preserves_windows_argument_boundaries \<longleftrightarrow>
     quote_windows_argument [] = [CHR 0x22, CHR 0x22]
   \<and> quote_windows_argument ''two words'' = [CHR 0x22] @ ''two words'' @ [CHR 0x22]
   \<and> quote_windows_argument (''a'' @ [CHR 0x22] @ ''b'') =
       [CHR 0x22] @ ''a'' @ [CHR 0x5C, CHR 0x22] @ ''b'' @ [CHR 0x22]
   \<and> quote_windows_argument (''a'' @ [CHR 0x5C, CHR 0x22] @ ''b'') =
       [CHR 0x22] @ ''a'' @ [CHR 0x5C, CHR 0x5C, CHR 0x5C, CHR 0x22] @ ''b'' @ [CHR 0x22]
   \<and> quote_windows_argument (''trailing'' @ [CHR 0x5C]) =
       [CHR 0x22] @ ''trailing'' @ [CHR 0x5C, CHR 0x5C, CHR 0x22]"

definition only_windows_uac_cancellation_is_classified_as_cancelled :: "string \<Rightarrow> string \<Rightarrow> bool" where
  "only_windows_uac_cancellation_is_classified_as_cancelled cancelled denied \<longleftrightarrow>
     map_runas_error \<lparr>er_code = HRESULT_CANCELLED, er_message = cancelled\<rparr> = ExCancelled
   \<and> (case map_runas_error \<lparr>er_code = 0x80070005, er_message = denied\<rparr> of
        ExFailedWithReason reason \<Rightarrow>
          strip_prefix ''Windows ShellExecuteEx failed (HRESULT 0x80070005): '' reason \<noteq> None
      | _ \<Rightarrow> False)"

definition playback_commands_use_global_media_keys :: bool where
  "playback_commands_use_global_media_keys \<longleftrightarrow>
     media_key_for_command Play = media_key_for_command Pause
   \<and> media_key_for_command Next = Some VK_MEDIA_NEXT_TRACK
   \<and> media_key_for_command Previous = Some VK_MEDIA_PREV_TRACK
   \<and> media_key_for_command Mute = None"

definition batch_rejects_shell_syntax_before_spawning :: bool where
  "batch_rejects_shell_syntax_before_spawning \<longleftrightarrow>
     \<not> is_ok (script_command (Batch (''C:'' @ [CHR 0x5C] @ ''Actions'' @ [CHR 0x5C] @ ''safe.cmd'')
        [''x&echo injected''] None))"

section \<open>They hold\<close>

lemma strip_own_prefix: "strip_prefix p (p @ s) = Some s"
  by (induction p) auto

lemma frame_tests:
  frames_reject_empty_oversized_and_truncated_data
  clean_eof_is_distinct_from_a_truncated_frame
proof -
  have zeros: "replicate 4 (CHR 0x00) = [CHR 0x00, CHR 0x00, CHR 0x00, CHR 0x00]" by (simp add: numeral_eq_Suc)
  have short: "read_exact 2 [Inr c] = (Inl UnexpectedEof, [])" for c by (simp add: numeral_2_eq_2)
  have "fst (read_frame (from_bytes [CHR 0x00, CHR 0x00, CHR 0x00, CHR 0x00])) = Inl InvalidData"
    "fst (read_frame (from_bytes [CHR 0x00, CHR 0x00, CHR 0x00, CHR 0x02, CHR ''{''])) = Inl UnexpectedEof"
    by (simp_all add: read_frame_def from_bytes_def from_be_bytes_def MAX_FRAME_BYTES_def numeral_3_eq_3 short)
  moreover have "to_be_bytes (word_of_nat MAX_FRAME_BYTES + 1) = [CHR 0x08, CHR 0x00, CHR 0x00, CHR 0x01]"
    by (simp add: to_be_bytes_def MAX_FRAME_BYTES_def char_of_def bit_Suc_0_iff)
  moreover have "fst (read_frame (from_bytes [CHR 0x08, CHR 0x00, CHR 0x00, CHR 0x01])) = Inl InvalidData"
    by (simp add: read_frame_def from_bytes_def from_be_bytes_def MAX_FRAME_BYTES_def numeral_3_eq_3)
  ultimately show frames_reject_empty_oversized_and_truncated_data
    by (simp add: frames_reject_empty_oversized_and_truncated_data_def write_frame_def zeros)
  show clean_eof_is_distinct_from_a_truncated_frame
    by (simp add: clean_eof_is_distinct_from_a_truncated_frame_def read_frame_def from_bytes_def numeral_3_eq_3)
qed

lemma window_tests:
  action_test_preserves_management_error_codes
  closing_the_settings_job_terminates_only_its_owned_child
  ca_and_server_have_distinct_subject_names
  settings_errors_include_the_operation_and_cause
  "settings_updates_are_queued_without_a_background_ui_context w"
  rendering_a_file_field_does_not_change_or_run_its_path
  "reopen_is_delivered_without_a_settings_window_or_renderer host s"
  picker_filters_match_the_supported_action_types
  by (simp_all add: action_test_preserves_management_error_codes_def
      closing_the_settings_job_terminates_only_its_owned_child_def assign_job_def no_process_def call_or_def
      closing_def close_job_def ca_and_server_have_distinct_subject_names_def certificate_params_def
      CA_COMMON_NAME_def SERVER_COMMON_NAME_def settings_errors_include_the_operation_and_cause_def setting_error_def
      settings_updates_are_queued_without_a_background_ui_context_def wake_def
      rendering_a_file_field_does_not_change_or_run_its_path_def Let_def
      reopen_is_delivered_without_a_settings_window_or_renderer_def dispatch_message_def window_proc_def
      take_open_request_def picker_filters_match_the_supported_action_types_def)

lemma executor_tests:
  elevated_launch_semaphore_allows_only_one_active_prompt
  elevated_argument_quoting_preserves_windows_argument_boundaries
  "only_windows_uac_cancellation_is_classified_as_cancelled cancelled denied"
  playback_commands_use_global_media_keys
  batch_rejects_shell_syntax_before_spawning
proof -
  show elevated_launch_semaphore_allows_only_one_active_prompt by code_simp
  show elevated_argument_quoting_preserves_windows_argument_boundaries by code_simp
  have "show_hresult 0x80070005 = ''80070005''" by (simp add: show_hresult_def hex_upper_def upt_rec)
  then show "only_windows_uac_cancellation_is_classified_as_cancelled cancelled denied"
    using strip_own_prefix [of "''Windows ShellExecuteEx failed (HRESULT 0x80070005): ''" denied]
    by (simp add: only_windows_uac_cancellation_is_classified_as_cancelled_def map_runas_error_def HRESULT_CANCELLED_def)
  show playback_commands_use_global_media_keys by (simp add: playback_commands_use_global_media_keys_def)
  show batch_rejects_shell_syntax_before_spawning by code_simp
qed

section \<open>The request queue\<close>

definition a_full_request_queue_rejects_without_retrying_or_replacing_work :: bool where
  "a_full_request_queue_rejects_without_retrying_or_replacing_work \<longleftrightarrow>
     (let first = \<lparr>pc_reply = 0, pc_id = 1, pc_request = ReqSnapshot\<rparr>;
          second = \<lparr>pc_reply = 1, pc_id = 2, pc_request = ReqRotateCredentials\<rparr>;
          s = send_call second ((calls_start initial_client example_manager)\<lparr>ca_queue := [first]\<rparr>)
      in ca_returned s = [(second, Inl ''Settings request queue is full'')] \<and> ca_queue s = [first])"

lemma queue_test: "a_full_request_queue_rejects_without_retrying_or_replacing_work"
  by (simp add: a_full_request_queue_rejects_without_retrying_or_replacing_work_def send_call_def calls_start_def
      MAX_PENDING_REQUESTS_def finish_call_result)

section \<open>Messages there and back\<close>

text \<open>
  A test that writes an envelope into an empty buffer and reads it back; the JSON codec is the pair
  of functions \<open>to_chunks\<close> and \<open>from_slice\<close>.
\<close>

definition sent_and_read ::
  "('m \<Rightarrow> string list option) \<Rightarrow> (string \<Rightarrow> 'm option) \<Rightarrow> 'm \<Rightarrow> 'm option" where
  "sent_and_read to_chunks from_slice message =
     (case write_message to_chunks message \<lparr>wr_bytes = [], wr_answers = []\<rparr> of
        (Inl _, _) \<Rightarrow> None
      | (Inr _, bytes) \<Rightarrow>
          (case fst (read_message from_slice (map Inr (wr_bytes bytes))) of
             Inl _ \<Rightarrow> None
           | Inr decoded \<Rightarrow> decoded))"

definition request_round_trips_with_version_and_correlation_id ::
  "(request envelope \<Rightarrow> string list option) \<Rightarrow> (string \<Rightarrow> request envelope option) \<Rightarrow> bool" where
  "request_round_trips_with_version_and_correlation_id to_chunks from_slice \<longleftrightarrow>
     (case sent_and_read to_chunks from_slice (envelope_new 42 (ReqSetListener True)) of
        None \<Rightarrow> False
      | Some decoded \<Rightarrow>
          en_version decoded = PROTOCOL_VERSION \<and> en_id decoded = 42
        \<and> en_payload decoded = ReqSetListener True)"

definition apply_voice_config_is_a_versioned_management_request ::
  "(request envelope \<Rightarrow> string list option) \<Rightarrow> (string \<Rightarrow> request envelope option) \<Rightarrow> bool" where
  "apply_voice_config_is_a_versioned_management_request to_chunks from_slice \<longleftrightarrow>
     (case sent_and_read to_chunks from_slice (envelope_new 7 ReqApplyVoiceConfig) of
        None \<Rightarrow> False
      | Some decoded \<Rightarrow> en_version decoded = PROTOCOL_VERSION \<and> en_payload decoded = ReqApplyVoiceConfig)"

definition action_cancellation_response_preserves_the_updated_snapshot ::
  "(response envelope \<Rightarrow> string list option) \<Rightarrow> (string \<Rightarrow> response envelope option) \<Rightarrow> bool" where
  "action_cancellation_response_preserves_the_updated_snapshot to_chunks from_slice \<longleftrightarrow>
     (case sent_and_read to_chunks from_slice
         (envelope_new 8 (RespActionCancelled
            \<lparr>sn_config = default_config, sn_diagnostics = [], sn_startup_error = False\<rparr>)) of
        None \<Rightarrow> False
      | Some decoded \<Rightarrow> (case en_payload decoded of RespActionCancelled state \<Rightarrow> True | _ \<Rightarrow> False))"

text \<open>A codec that undoes itself on a message that fits a frame.\<close>

definition codec_carries :: "('m \<Rightarrow> string list option) \<Rightarrow> (string \<Rightarrow> 'm option) \<Rightarrow> 'm \<Rightarrow> bool" where
  "codec_carries to_chunks from_slice m \<longleftrightarrow>
     (case to_chunks m of
        None \<Rightarrow> False
      | Some chunks \<Rightarrow> frame_ok (concat chunks) \<and> from_slice (concat chunks) = Some m)"

lemma sent_is_read:
  assumes "codec_carries to_chunks from_slice m"
  shows "sent_and_read to_chunks from_slice m = Some m"
proof -
  obtain chunks where chunks: "to_chunks m = Some chunks" "frame_ok (concat chunks)" "from_slice (concat chunks) = Some m"
    using assms by (auto simp: codec_carries_def split: option.splits)
  have "write_chunks chunks [] = (Inr (), concat chunks)"
    using chunks(2) by (intro write_chunks_fit) (simp add: frame_ok_def)
  then have "write_message to_chunks m \<lparr>wr_bytes = [], wr_answers = []\<rparr> =
      (Inr (), \<lparr>wr_bytes = frame_wire (concat chunks), wr_answers = []\<rparr>)"
    using chunks(1,2) by (simp add: write_message_def write_frame_quiet)
  moreover have "read_message from_slice (map Inr (frame_wire (concat chunks))) = (Inr (Some m), [])"
    using chunks(2,3) by (simp add: read_message_of_frame read_frame_Inr)
  ultimately show ?thesis by (simp add: sent_and_read_def)
qed

lemma round_trip_tests:
  "codec_carries to_chunks from_slice (envelope_new 42 (ReqSetListener True)) \<Longrightarrow>
     request_round_trips_with_version_and_correlation_id to_chunks from_slice"
  "codec_carries to_chunks from_slice (envelope_new 7 ReqApplyVoiceConfig) \<Longrightarrow>
     apply_voice_config_is_a_versioned_management_request to_chunks from_slice"
  "codec_carries to_chunks' from_slice' (envelope_new 8 (RespActionCancelled
       \<lparr>sn_config = default_config, sn_diagnostics = [], sn_startup_error = False\<rparr>)) \<Longrightarrow>
     action_cancellation_response_preserves_the_updated_snapshot to_chunks' from_slice'"
  by (simp_all add: request_round_trips_with_version_and_correlation_id_def
      apply_voice_config_is_a_versioned_management_request_def
      action_cancellation_response_preserves_the_updated_snapshot_def sent_is_read envelope_new_def)

section \<open>Properties\<close>

text \<open>The model passes the repository's unit tests: every assertion of theirs that is not about a
  library holds of the model's definitions, for every library, window and loop state a test leaves open.\<close>

theorem unit_tests_hold:
  "request_id_requires_exact_lower_hex \<and> parser_rejects_oversize from_slice
   \<and> time_validation_checks_expiry_boundary_skew_and_overflow
   \<and> batch_literals_are_quoted_safe_or_rejected \<and> action_ids_have_a_stable_safe_grammar
   \<and> voice_phrases_are_bounded_unique_and_non_reserved
   \<and> elevation_is_valid_only_for_executable_launch_actions
   \<and> disabled_phrase_drafts_do_not_count_toward_voice_limit_but_are_validated
   \<and> publish_captures_only_enabled_phrases \<and> default_is_disabled_and_loopback_only
   \<and> wildcard_public_and_ipv6_bind_addresses_are_rejected \<and> invalid_configuration_is_not_written encode p
   \<and> uac_cancellation_is_distinct_for_local_and_voice_actions
   \<and> action_failure_reason_is_kept_in_local_diagnostics
   \<and> request_executes_once_and_duplicate_does_not_dispatch_twice
   \<and> diagnostics_ring_keeps_only_the_newest_128_events
   \<and> config_apply_waits_for_dispatch_and_rejects_new_work_during_apply
   \<and> cache_rejects_saturation_instead_of_evicting_live_ids
   \<and> custom_action_uses_local_snapshot_only \<and> custom_action_fails_closed_for_unpublished_action_changes
   \<and> token_header_authentication_is_fixed_width (=)
   \<and> framing_requires_bounded_content_length_and_rejects_transfer_encoding
   \<and> clock_skew_and_expiry_have_distinct_responses lib
   \<and> frames_reject_empty_oversized_and_truncated_data \<and> clean_eof_is_distinct_from_a_truncated_frame
   \<and> action_test_preserves_management_error_codes
   \<and> closing_the_settings_job_terminates_only_its_owned_child
   \<and> a_full_request_queue_rejects_without_retrying_or_replacing_work
   \<and> ca_and_server_have_distinct_subject_names \<and> settings_errors_include_the_operation_and_cause
   \<and> settings_updates_are_queued_without_a_background_ui_context w
   \<and> rendering_a_file_field_does_not_change_or_run_its_path
   \<and> reopen_is_delivered_without_a_settings_window_or_renderer host s
   \<and> picker_filters_match_the_supported_action_types
   \<and> elevated_launch_semaphore_allows_only_one_active_prompt
   \<and> elevated_argument_quoting_preserves_windows_argument_boundaries
   \<and> only_windows_uac_cancellation_is_classified_as_cancelled cancelled denied
   \<and> playback_commands_use_global_media_keys \<and> batch_rejects_shell_syntax_before_spawning"
  by (intro conjI request_tests voice_phrase_tests config_tests draft_tests uac_test failure_reason_test
      duplicate_test ring_test apply_test saturation_test music_tests token_test handler_tests frame_tests
      window_tests queue_test executor_tests)

end
