(* ===== verification/Daemon_Server.thy ===== *)
theory Daemon_Server
  imports Daemon_System
begin

text \<open>
  The HTTPS server (daemon/src/http.rs, \<open>router\<close>, \<open>ListenerTask\<close> and \<open>serve_listener\<close>): which
  request reaches which handler, what the timeout of two seconds does to a handler that is
  waiting, and how a listener is started and told to stop.

  axum, tower and hyper are the fields of \<open>web_lib\<close>: matching a request against the table of
  routes, collecting a body under the limit, an empty response. A request's body is what the
  library reads it from, a value of any type. \<open>serve_request\<close> is one request at the running
  daemon; \<open>server_step\<close> mixes requests with the operations of Daemon\_System. The limit of eight
  connections is in Daemon\_Http.
\<close>

section \<open>Routing\<close>

datatype endpoint = MediaEndpoint | ActionsEndpoint | VoiceConfigEndpoint | VoiceConfigAckEndpoint

datatype route_method = GetRoute | PostRoute

record router =
  ro_routes :: "(string \<times> route_method \<times> endpoint) list"
  ro_timeout_status :: nat
  ro_timeout_ms :: nat
  ro_body_limit :: nat

definition daemon_router :: router where
  "daemon_router =
     \<lparr>ro_routes =
        [(''/v1/media'', PostRoute, MediaEndpoint),
         (''/v1/actions'', PostRoute, ActionsEndpoint),
         (''/v1/voice-config'', GetRoute, VoiceConfigEndpoint),
         (''/v1/voice-config/ack'', PostRoute, VoiceConfigAckEndpoint)],
      ro_timeout_status = 408, ro_timeout_ms = 2000,
      ro_body_limit = BODY_LIMIT\<rparr>"

text \<open>
  axum and tower: \<open>wb_route\<close> finds the handler of a method and a path in a table or answers by
  itself, \<open>wb_collect\<close> reads a body for the extractor \<open>Bytes\<close> under a limit or answers by itself,
  \<open>wb_status\<close> is the empty response of a status.
\<close>

record 'stream web_lib =
  wb_route :: "(string \<times> route_method \<times> endpoint) list \<Rightarrow> string \<Rightarrow> string \<Rightarrow> (http_response, endpoint) result"
  wb_collect :: "nat \<Rightarrow> 'stream \<Rightarrow> (http_response, string) result"
  wb_status :: "nat \<Rightarrow> http_response"

record 'stream http_request =
  rq_method :: string
  rq_path :: string
  rq_headers :: header_map
  rq_stream :: 'stream

text \<open>
  What axum documents of these: a path is served by the routes it was registered with, for the
  methods of \<open>get\<close> (with HEAD) and \<open>post\<close>.
\<close>

fun serves :: "route_method \<Rightarrow> string \<Rightarrow> bool" where
  "serves GetRoute m \<longleftrightarrow> m \<in> {''GET'', ''HEAD''}"
| "serves PostRoute m \<longleftrightarrow> m = ''POST''"

definition axum_routes :: "'stream web_lib \<Rightarrow> bool" where
  "axum_routes web \<longleftrightarrow>
     (\<forall>table method path. case wb_route web table method path of
        Inl r \<Rightarrow> True
      | Inr e \<Rightarrow> \<exists>m. (path, m, e) \<in> set table \<and> serves m method)"

section \<open>Handlers under the timeout\<close>

text \<open>
  \<open>TimeoutLayer\<close> drops a handler that has not finished after two seconds, at the await it is
  waiting in. The await where the time runs out is given with the request: the collection of the
  body, the executor (with whether its work had been handed over and so goes on), the mutex of
  the lifecycle, the writer's turn in \<open>replace_config\<close>. A handler that never comes to that await
  finishes.
\<close>

datatype pace = InTime | SlowBody | SlowExecutor bool | SlowMutex | SlowWriter

datatype outcome = Answered "http_response option" | CutOff

definition slow_dispatch ::
  "http_lib \<Rightarrow> 'x executor \<Rightarrow> bool \<Rightarrow> (http_response option, 'r) result
   \<Rightarrow> ('r \<Rightarrow> dispatcher \<Rightarrow> (dispatch_error, configured_action) result \<times> dispatcher)
   \<Rightarrow> http_state \<times> 'x \<Rightarrow> outcome \<times> http_state \<times> 'x" where
  "slow_dispatch lib exec started checked admit = (\<lambda>(state, x).
     (case checked of
        Inl response \<Rightarrow> (Answered response, state, x)
      | Inr request \<Rightarrow>
          (case admit request (hs_dispatcher state) of
             (Inl err, d) \<Rightarrow> (Answered (dispatch_error_response lib err), state\<lparr>hs_dispatcher := d\<rparr>, x)
           | (Inr action, d) \<Rightarrow>
               (CutOff, state\<lparr>hs_dispatcher := d\<rparr>, if started then snd (exec action x) else x))))"

definition finished :: "http_response option \<times> 'a \<Rightarrow> outcome \<times> 'a" where
  "finished = (\<lambda>(response, s). (Answered response, s))"

definition media_call ::
  "http_lib \<Rightarrow> 'x executor \<Rightarrow> bool \<Rightarrow> nat option \<Rightarrow> pace \<Rightarrow> header_map \<Rightarrow> string \<Rightarrow> http_state \<times> 'x
   \<Rightarrow> outcome \<times> http_state \<times> 'x" where
  "media_call lib exec free clock pace headers body = (\<lambda>(state, x).
     (case pace of
        SlowExecutor started \<Rightarrow>
          slow_dispatch lib exec started (check_request lib (lb_media lib) state headers body)
            (\<lambda>q. media_admit q (now_ms clock) free) (state, x)
      | _ \<Rightarrow> finished (media lib exec free clock headers body (state, x))))"

definition custom_call ::
  "http_lib \<Rightarrow> 'x executor \<Rightarrow> bool \<Rightarrow> nat option \<Rightarrow> pace \<Rightarrow> header_map \<Rightarrow> string \<Rightarrow> http_state \<times> 'x
   \<Rightarrow> outcome \<times> http_state \<times> 'x" where
  "custom_call lib exec free clock pace headers body = (\<lambda>(state, x).
     (case pace of
        SlowExecutor started \<Rightarrow>
          slow_dispatch lib exec started (check_request lib (lb_custom lib) state headers body)
            (\<lambda>q. custom_admit q (now_ms clock) free) (state, x)
      | _ \<Rightarrow> finished (custom_action_handler lib exec free clock headers body (state, x))))"

definition ack_call ::
  "http_lib \<Rightarrow> pace \<Rightarrow> header_map \<Rightarrow> string \<Rightarrow> http_state \<times> world \<Rightarrow> outcome \<times> http_state \<times> world" where
  "ack_call lib pace headers body = (\<lambda>(state, w).
     (case ack_request lib headers body state of
        Inl response \<Rightarrow> (Answered response, state, w)
      | Inr revision \<Rightarrow>
          if pace = SlowMutex then (CutOff, state, w)
          else if pace = SlowWriter then
            (case ack_prepare lib revision state w of
               (Inl response, w') \<Rightarrow> (Answered response, state, w')
             | (Inr config, w') \<Rightarrow>
                 if replace_config_admit config = Inr () then (CutOff, state, w')
                 else (Answered (error_response lib 500 ''server_error''), state, w'))
          else finished (voice_config_ack lib headers body (state, w))))"

section \<open>The router\<close>

definition endpoint_call ::
  "http_lib \<Rightarrow> 'x executor \<Rightarrow> bool \<Rightarrow> nat option \<Rightarrow> pace \<Rightarrow> header_map \<Rightarrow> endpoint \<Rightarrow> string
   \<Rightarrow> http_state \<times> 'x \<times> world \<Rightarrow> outcome \<times> http_state \<times> 'x \<times> world" where
  "endpoint_call lib exec free clock pace headers e body = (\<lambda>(state, x, w).
     (case e of
        MediaEndpoint \<Rightarrow>
          let (out, state', x') = media_call lib exec free clock pace headers body (state, x)
          in (out, state', x', w)
      | ActionsEndpoint \<Rightarrow>
          let (out, state', x') = custom_call lib exec free clock pace headers body (state, x)
          in (out, state', x', w)
      | VoiceConfigEndpoint \<Rightarrow> (Answered (voice_config lib headers state), state, x, w)
      | VoiceConfigAckEndpoint \<Rightarrow>
          let (out, state', w') = ack_call lib pace headers body (state, w)
          in (out, state', x, w')))"

text \<open>\<open>voice_config\<close> has no extractor of the body, so its body is never collected.\<close>

definition routed ::
  "'stream web_lib \<Rightarrow> pace \<Rightarrow> 'stream http_request \<Rightarrow> (http_response, outcome + endpoint \<times> string) result" where
  "routed web pace rq =
     and_then (wb_route web (ro_routes daemon_router) (rq_method rq) (rq_path rq)) (\<lambda>e.
       if e = VoiceConfigEndpoint then Inr (Inr (e, []))
       else if pace = SlowBody then Inr (Inl CutOff)
       else and_then (wb_collect web (ro_body_limit daemon_router) (rq_stream rq)) (\<lambda>body.
         Inr (Inr (e, body))))"

definition respond :: "'stream web_lib \<Rightarrow> outcome \<Rightarrow> http_response option" where
  "respond web out =
     (case out of
        Answered response \<Rightarrow> response
      | CutOff \<Rightarrow> Some (wb_status web (ro_timeout_status daemon_router)))"

definition router_call ::
  "'stream web_lib \<Rightarrow> http_lib \<Rightarrow> 'x executor \<Rightarrow> bool \<Rightarrow> nat option \<Rightarrow> pace \<Rightarrow> 'stream http_request
   \<Rightarrow> http_state \<times> 'x \<times> world \<Rightarrow> http_response option \<times> http_state \<times> 'x \<times> world" where
  "router_call web lib exec free clock pace rq s =
     (case routed web pace rq of
        Inl response \<Rightarrow> (Some response, s)
      | Inr (Inl out) \<Rightarrow> (respond web out, s)
      | Inr (Inr (e, body)) \<Rightarrow>
          let (out, s') = endpoint_call lib exec free clock pace (rq_headers rq) e body s
          in (respond web out, s'))"

text \<open>A request at the running daemon; without a listener nobody answers.\<close>

definition serve_request ::
  "'stream web_lib \<Rightarrow> http_lib \<Rightarrow> 'x executor \<Rightarrow> bool \<Rightarrow> nat option \<Rightarrow> pace \<Rightarrow> 'stream http_request
   \<Rightarrow> 'x system \<Rightarrow> http_response option \<times> 'x system" where
  "serve_request web lib exec free clock pace rq = (\<lambda>(d, x).
     (case rt_listener d of
        None \<Rightarrow> (None, (d, x))
      | Some l \<Rightarrow>
          let (response, state, x', w) =
            router_call web lib exec free clock pace rq (http_state_of d l, x, os_world d)
          in (response, ((put_http_state state d)\<lparr>os_world := w\<rparr>, x'))))"
section \<open>What a call changes\<close>

definition head_ok :: "http_lib \<Rightarrow> http_state \<Rightarrow> header_map \<Rightarrow> string \<Rightarrow> bool" where
  "head_ok lib state headers body \<longleftrightarrow>
     authorized lib state headers \<and> json_content_type headers \<and> valid_framing headers body"

lemma rejected_check:
  assumes "\<not> head_ok lib state headers body"
  shows "\<exists>response. check_request lib from_slice state headers body = Inl response"
proof (cases "check_request lib from_slice state headers body")
  case (Inr q)
  then show ?thesis using assms by (simp add: check_request_Inr head_ok_def)
qed simp

lemma rejected_call:
  assumes "\<not> head_ok lib state headers body" and "e \<noteq> VoiceConfigEndpoint"
    and "endpoint_call lib exec free clock pace headers e body (state, x, w) = (out, s')"
  shows "s' = (state, x, w)"
proof -
  obtain r where "check_request lib (lb_media lib) state headers body = Inl r"
    using rejected_check [OF assms(1)] by blast
  then have media: "media_call lib exec free clock pace headers body (state, x) = (Answered r, state, x)"
    by (simp add: media_call_def slow_dispatch_def finished_def media_def split: pace.split)
  obtain r' where "check_request lib (lb_custom lib) state headers body = Inl r'"
    using rejected_check [OF assms(1)] by blast
  then have custom: "custom_call lib exec free clock pace headers body (state, x) = (Answered r', state, x)"
    by (simp add: custom_call_def slow_dispatch_def finished_def custom_action_handler_def split: pace.split)
  have "\<exists>r. ack_request lib headers body state = Inl r"
    using assms(1) by (auto simp: ack_request_def head_ok_def)
  then obtain r'' where ack: "ack_call lib pace headers body (state, w) = (Answered r'', state, w)"
    by (auto simp: ack_call_def)
  show ?thesis
    using assms(2,3) by (cases e) (simp_all add: endpoint_call_def media custom ack)
qed

text \<open>A call keeps the configuration in memory and the dispatcher in order, however it ends.\<close>

lemma slow_dispatch_keeps:
  assumes "slow_dispatch lib exec started checked admit (state, x) = (out, state', x')"
    and "\<And>q r d. admit q (hs_dispatcher state) = (r, d) \<Longrightarrow> dispatcher_keeps (hs_dispatcher state) d"
  shows "state_keeps state state'"
proof (cases checked)
  case (Inl response)
  then show ?thesis using assms(1) state_keeps_refl by (simp add: slow_dispatch_def)
next
  case (Inr q)
  obtain r d where admit: "admit q (hs_dispatcher state) = (r, d)" by fastforce
  then have "state' = state\<lparr>hs_dispatcher := d\<rparr>"
    using assms(1) Inr by (cases r) (auto simp: slow_dispatch_def)
  then show ?thesis using assms(2) [OF admit] by (simp add: state_keeps_def)
qed

lemma media_call_keeps:
  assumes "media_call lib exec free clock pace headers body (state, x) = (out, state', x')"
  shows "state_keeps state state'"
proof (cases "\<exists>started. pace = SlowExecutor started")
  case True
  then obtain started where "slow_dispatch lib exec started
      (check_request lib (lb_media lib) state headers body) (\<lambda>q. media_admit q (now_ms clock) free) (state, x)
      = (out, state', x')"
    using assms by (auto simp: media_call_def)
  then show ?thesis by (rule slow_dispatch_keeps) (use keeps_admit [of "MediaJob _"] in simp)
next
  case False
  then have "finished (media lib exec free clock headers body (state, x)) = (out, state', x')"
    using assms by (cases pace) (auto simp: media_call_def)
  then obtain r where "media lib exec free clock headers body (state, x) = (r, state', x')"
    by (auto simp: finished_def split: prod.splits)
  then show ?thesis by (rule media_keeps)
qed

lemma custom_call_keeps:
  assumes "custom_call lib exec free clock pace headers body (state, x) = (out, state', x')"
  shows "state_keeps state state'"
proof (cases "\<exists>started. pace = SlowExecutor started")
  case True
  then obtain started where "slow_dispatch lib exec started
      (check_request lib (lb_custom lib) state headers body) (\<lambda>q. custom_admit q (now_ms clock) free) (state, x)
      = (out, state', x')"
    using assms by (auto simp: custom_call_def)
  then show ?thesis by (rule slow_dispatch_keeps) (use keeps_admit [of "CustomJob _"] in simp)
next
  case False
  then have "finished (custom_action_handler lib exec free clock headers body (state, x)) = (out, state', x')"
    using assms by (cases pace) (auto simp: custom_call_def)
  then obtain r where "custom_action_handler lib exec free clock headers body (state, x) = (r, state', x')"
    by (auto simp: finished_def split: prod.splits)
  then show ?thesis by (rule custom_keeps)
qed

lemma put_same [simp]: "put_http_state (http_state_of d l) d = d"
  by (simp add: put_http_state_def http_state_of_def)

lemma world_inv: "daemon_inv c s (d\<lparr>os_world := w\<rparr>) = daemon_inv c s d"
  by (rule daemon_inv_core) (simp add: core_def)
text \<open>The acknowledgment: nothing, all of it, or the file alone.\<close>

definition acknowledged_on_disk ::
  "http_lib \<Rightarrow> app_config \<Rightarrow> u64 \<Rightarrow> daemon \<Rightarrow> listener_task \<Rightarrow> world \<Rightarrow> bool" where
  "acknowledged_on_disk lib c revision d l w \<longleftrightarrow>
     ack_check lib revision (http_state_of d l) = Inr (config_path d, with_acknowledged c revision)
   \<and> config_ok (with_acknowledged c revision)
   \<and> (case lb_encode lib (with_acknowledged c revision) of
        None \<Rightarrow> False
      | Some encoded \<Rightarrow> files w = (files (os_world d))(config_path d \<mapsto> encoded @ [CHR 0x0A]))"

lemma cut_acknowledgment:
  assumes "daemon_inv c s d" and "ln_config_path l = config_path d"
    and "ack_prepare lib revision (http_state_of d l) (os_world d) = (Inr config, w)"
  shows "config = with_acknowledged c revision \<and> acknowledged_on_disk lib c revision d l w"
proof -
  obtain p where check: "ack_check lib revision (http_state_of d l) = Inr (p, config)"
    and save: "save (lb_encode lib) p config (os_world d) = (Inr (), w)"
    using assms(3) by (auto simp: ack_prepare_Inr)
  have "p = config_path d" and config: "config = with_acknowledged c revision"
    using check assms(2) daemon_invD(1) [OF assms(1)]
    by (auto simp: ack_check_Inr http_state_of_def with_acknowledged_def)
  then show ?thesis using check save_Inr [OF save] by (auto simp: acknowledged_on_disk_def)
qed

lemma ack_call_cases:
  assumes inv: "daemon_inv c s d" and l: "ln_config_path l = config_path d"
    and call: "ack_call lib pace headers body (http_state_of d l, os_world d) = (out, state, w)"
  obtains (unchanged) "state = http_state_of d l" "files w = files (os_world d)"
  | (committed) revision where "ack_request lib headers body (http_state_of d l) = Inr revision"
      "acknowledged_on_disk lib c revision d l w"
      "put_http_state state d = with_config (with_acknowledged c revision) d"
      "out = Answered (json lib 200 (VoiceAckReply revision ''active''))"
  | (cut) revision where "ack_request lib headers body (http_state_of d l) = Inr revision"
      "acknowledged_on_disk lib c revision d l w"
      "state = http_state_of d l" "out = CutOff" "pace = SlowWriter"
proof (cases "ack_request lib headers body (http_state_of d l)")
  case (Inl r)
  then show thesis using call by (intro unchanged) (auto simp: ack_call_def)
next
  case (Inr revision)
  note request = Inr
  consider "pace = SlowMutex" | "pace = SlowWriter" | "pace \<noteq> SlowMutex" "pace \<noteq> SlowWriter" by blast
  then show thesis
  proof cases
    case 1
    then show thesis using call request by (intro unchanged) (auto simp: ack_call_def)
  next
    case 2
    obtain r w1 where prep: "ack_prepare lib revision (http_state_of d l) (os_world d) = (r, w1)" by fastforce
    show thesis
    proof (cases r)
      case (Inl e)
      then show thesis
        using call request prep 2 by (intro unchanged) (auto simp: ack_call_def dest: ack_prepare_Inl_files)
    next
      case (Inr config)
      note prepared = cut_acknowledgment [OF inv l prep [unfolded Inr]]
      then have "replace_config_admit config = Inr ()"
        by (simp add: replace_config_admit_iff acknowledged_on_disk_def)
      then have "out = CutOff" "state = http_state_of d l" "w = w1"
        using call request prep Inr 2 by (simp_all add: ack_call_def)
      then show thesis using cut [OF request] prepared 2 by simp
    qed
  next
    case 3
    then obtain r where run: "voice_config_ack lib headers body (http_state_of d l, os_world d) = (r, state, w)"
      and out: "out = Answered r"
      using call request by (auto simp: ack_call_def finished_def split: prod.splits)
    from ack_cases [OF inv l run] show thesis
    proof (elim disjE exE conjE)
      assume "state = http_state_of d l" "files w = files (os_world d)"
      then show thesis by (rule unchanged)
    next
      fix rev encoded
      assume rev: "ack_request lib headers body (http_state_of d l) = Inr rev"
        and facts: "ack_check lib rev (http_state_of d l) = Inr (config_path d, with_acknowledged c rev)"
          "config_ok (with_acknowledged c rev)" "lb_encode lib (with_acknowledged c rev) = Some encoded"
          "files w = (files (os_world d))(config_path d \<mapsto> encoded @ [CHR 0x0A])"
        and put: "put_http_state state d = with_config (with_acknowledged c rev) d"
        and r: "r = json lib 200 (VoiceAckReply rev ''active'')"
      have "acknowledged_on_disk lib c rev d l w"
        unfolding acknowledged_on_disk_def facts(3) option.case using facts by blast
      then show thesis using committed [OF rev _ put] out r by blast
    qed
  qed
qed

lemma with_acknowledged_inv:
  assumes "daemon_inv c s d" and "acknowledged_on_disk lib c revision d l w"
  shows "daemon_inv (with_acknowledged c revision) s (with_config (with_acknowledged c revision) d)"
proof (rule with_config_inv [OF assms(1)])
  show "config_ok (with_acknowledged c revision)" using assms(2) by (simp add: acknowledged_on_disk_def)
  show "secrets_ok (with_acknowledged c revision) s"
    using daemon_invD(5) [OF assms(1)] by (simp add: secrets_ok_def with_acknowledged_def)
  show "pred_option (listener_ok (rt_directory d) (with_acknowledged c revision) s) (rt_listener d)"
    using daemon_invD(7) [OF assms(1)]
    by (cases "rt_listener d") (simp_all add: listener_ok_def with_acknowledged_def)
qed

text \<open>A request leaves a consistent daemon behind, wherever the timeout cuts it.\<close>

lemma serve_request_inv:
  assumes inv: "daemon_inv c s d"
    and run: "serve_request web lib exec free clock pace rq (d, x) = (response, (d', x'))"
  shows "\<exists>c'. daemon_inv c' s d'"
proof (cases "rt_listener d")
  case None
  then show ?thesis using run inv by (auto simp: serve_request_def)
next
  case (Some l)
  have l: "ln_config_path l = config_path d"
    using daemon_invD(7) [OF inv] Some by (simp add: listener_ok_def)
  obtain state w where call: "router_call web lib exec free clock pace rq (http_state_of d l, x, os_world d)
      = (response, state, x', w)"
    and d': "d' = (put_http_state state d)\<lparr>os_world := w\<rparr>"
    using run Some by (auto simp: serve_request_def Let_def split: prod.splits)
  consider (untouched) "state = http_state_of d l"
    | (called) e body out where
        "endpoint_call lib exec free clock pace (rq_headers rq) e body (http_state_of d l, x, os_world d)
          = (out, state, x', w)"
    using call by (auto simp: router_call_def Let_def split: sum.splits prod.splits)
  then show ?thesis
  proof cases
    case untouched
    then show ?thesis using d' inv by (auto simp: world_inv)
  next
    case called
    have kept: "\<exists>c'. daemon_inv c' s d'" if "state_keeps (http_state_of d l) state"
      using put_keeps [OF inv that] d' by (auto simp: world_inv)
    show ?thesis
    proof (cases e)
      case MediaEndpoint
      then show ?thesis
        using called by (intro kept) (auto simp: endpoint_call_def Let_def dest: media_call_keeps split: prod.splits)
    next
      case ActionsEndpoint
      then show ?thesis
        using called by (intro kept) (auto simp: endpoint_call_def Let_def dest: custom_call_keeps split: prod.splits)
    next
      case VoiceConfigEndpoint
      then show ?thesis using called kept state_keeps_refl by (auto simp: endpoint_call_def)
    next
      case VoiceConfigAckEndpoint
      then have "ack_call lib pace (rq_headers rq) body (http_state_of d l, os_world d) = (out, state, w)"
        using called by (auto simp: endpoint_call_def Let_def split: prod.splits)
      then show ?thesis
      proof (cases rule: ack_call_cases [OF inv l, consumes 1, case_names unchanged committed cut])
        case unchanged
        then show ?thesis using kept state_keeps_refl by simp
      next
        case (committed revision)
        then show ?thesis using with_acknowledged_inv [OF inv committed(2)] d' by (auto simp: world_inv)
      next
        case (cut revision)
        then show ?thesis using kept state_keeps_refl by simp
      qed
    qed
  qed
qed
section \<open>Requests and the executor\<close>

text \<open>The dispatch that a request asks for.\<close>

definition requested_job :: "'stream web_lib \<Rightarrow> http_lib \<Rightarrow> 'stream http_request \<Rightarrow> job option" where
  "requested_job web lib rq =
     (case routed web InTime rq of
        Inr (Inr (MediaEndpoint, body)) \<Rightarrow> map_option MediaJob (lb_media lib body)
      | Inr (Inr (ActionsEndpoint, body)) \<Rightarrow> map_option CustomJob (lb_custom lib body)
      | _ \<Rightarrow> None)"

text \<open>What a dispatch may do, cut short or not: the cache of an admitted job and its action once.\<close>

definition dispatch_effect ::
  "'x executor \<Rightarrow> job \<Rightarrow> u64 \<Rightarrow> dispatcher \<times> 'x \<Rightarrow> dispatcher \<times> 'x \<Rightarrow> bool" where
  "dispatch_effect exec job now = (\<lambda>(d, x) (d', x').
     \<exists>free r d0. job_admit job now free d = (r, d0) \<and> dp_seen d' = dp_seen d0
       \<and> (case r of Inl e \<Rightarrow> x' = x | Inr action \<Rightarrow> x' = x \<or> x' = snd (exec action x)))"

lemma with_executor_effect:
  assumes "with_executor exec (job_admit job now free d) complete x = (r, d', x')"
    and "\<And>answer d0. dp_seen (snd (complete answer d0)) = dp_seen d0"
  shows "dispatch_effect exec job now (d, x) (d', x')"
proof -
  obtain r0 d0 where admit: "job_admit job now free d = (r0, d0)" by fastforce
  show ?thesis
  proof (cases r0)
    case (Inl e)
    then have "d' = d0 \<and> x' = x" using assms(1) admit by (simp add: with_executor_def)
    then show ?thesis using admit Inl unfolding dispatch_effect_def by fastforce
  next
    case (Inr action)
    obtain answer x1 where exec: "exec action x = (answer, x1)" by fastforce
    then have "d' = snd (complete answer d0)" and "x' = snd (exec action x)"
      using assms(1) admit Inr by (auto simp: with_executor_def split: prod.splits)
    then show ?thesis using admit Inr assms(2) [of answer d0] unfolding dispatch_effect_def by fastforce
  qed
qed

lemma slow_dispatch_effect:
  assumes "slow_dispatch lib exec started checked admit (state, x) = (out, state', x')"
    and "\<And>q. admit q (hs_dispatcher state) = job_admit (to_job q) now free (hs_dispatcher state)"
  shows "state' = state \<and> x' = x
    \<or> (\<exists>q. checked = Inr q \<and> dispatch_effect exec (to_job q) now (hs_dispatcher state, x) (hs_dispatcher state', x'))"
proof (cases checked)
  case (Inl response)
  then show ?thesis using assms(1) by (simp add: slow_dispatch_def)
next
  case (Inr q)
  obtain r d where admit: "job_admit (to_job q) now free (hs_dispatcher state) = (r, d)" by fastforce
  then have "hs_dispatcher state' = d" and "case r of Inl e \<Rightarrow> x' = x | Inr action \<Rightarrow> x' = x \<or> x' = snd (exec action x)"
    using assms Inr by (auto simp: slow_dispatch_def split: sum.splits)
  then show ?thesis using admit Inr unfolding dispatch_effect_def by fastforce
qed

lemma media_effect:
  assumes "media_call lib exec free clock pace headers body (state, x) = (out, state', x')"
  shows "state' = state \<and> x' = x
    \<or> (\<exists>q. lb_media lib body = Some q
        \<and> dispatch_effect exec (MediaJob q) (now_ms clock) (hs_dispatcher state, x) (hs_dispatcher state', x'))"
proof (cases "\<exists>started. pace = SlowExecutor started")
  case True
  then obtain started where "slow_dispatch lib exec started
      (check_request lib (lb_media lib) state headers body) (\<lambda>q. media_admit q (now_ms clock) free) (state, x)
      = (out, state', x')"
    using assms by (auto simp: media_call_def)
  then show ?thesis by (auto dest!: slow_dispatch_effect [where to_job = MediaJob] simp: check_request_Inr)
next
  case False
  then have "finished (media lib exec free clock headers body (state, x)) = (out, state', x')"
    using assms by (cases pace) (auto simp: media_call_def)
  then obtain r where run: "media lib exec free clock headers body (state, x) = (r, state', x')"
    by (auto simp: finished_def split: prod.splits)
  show ?thesis
  proof (cases "check_request lib (lb_media lib) state headers body")
    case (Inl e)
    then show ?thesis using run by (simp add: media_def)
  next
    case (Inr q)
    obtain r1 d x1 where disp: "dispatch_media exec q (now_ms clock) free (hs_dispatcher state, x) = (r1, d, x1)"
      by (metis prod_cases3)
    then have "hs_dispatcher state' = d" "x' = x1" using run Inr by (auto simp: media_def Let_def)
    moreover have "dispatch_effect exec (MediaJob q) (now_ms clock) (hs_dispatcher state, x) (d, x1)"
      using disp by (intro with_executor_effect [where complete = "media_complete q" and free = free])
        (simp_all add: dispatch_media_def complete_frame)
    ultimately show ?thesis using Inr by (auto simp: check_request_Inr)
  qed
qed

lemma custom_effect:
  assumes "custom_call lib exec free clock pace headers body (state, x) = (out, state', x')"
  shows "state' = state \<and> x' = x
    \<or> (\<exists>q. lb_custom lib body = Some q
        \<and> dispatch_effect exec (CustomJob q) (now_ms clock) (hs_dispatcher state, x) (hs_dispatcher state', x'))"
proof (cases "\<exists>started. pace = SlowExecutor started")
  case True
  then obtain started where "slow_dispatch lib exec started
      (check_request lib (lb_custom lib) state headers body) (\<lambda>q. custom_admit q (now_ms clock) free) (state, x)
      = (out, state', x')"
    using assms by (auto simp: custom_call_def)
  then show ?thesis by (auto dest!: slow_dispatch_effect [where to_job = CustomJob] simp: check_request_Inr)
next
  case False
  then have "finished (custom_action_handler lib exec free clock headers body (state, x)) = (out, state', x')"
    using assms by (cases pace) (auto simp: custom_call_def)
  then obtain r where run: "custom_action_handler lib exec free clock headers body (state, x) = (r, state', x')"
    by (auto simp: finished_def split: prod.splits)
  show ?thesis
  proof (cases "check_request lib (lb_custom lib) state headers body")
    case (Inl e)
    then show ?thesis using run by (simp add: custom_action_handler_def)
  next
    case (Inr q)
    obtain r1 d x1 where disp: "dispatch_custom exec q (now_ms clock) free (hs_dispatcher state, x) = (r1, d, x1)"
      by (metis prod_cases3)
    then have "hs_dispatcher state' = d" "x' = x1" using run Inr by (auto simp: custom_action_handler_def Let_def)
    moreover have "dispatch_effect exec (CustomJob q) (now_ms clock) (hs_dispatcher state, x) (d, x1)"
      using disp by (intro with_executor_effect [where complete = "custom_complete q" and free = free])
        (simp_all add: dispatch_custom_def complete_frame)
    ultimately show ?thesis using Inr by (auto simp: check_request_Inr)
  qed
qed

lemma replace_config_seen: "dp_seen (snd (replace_config c d)) = dp_seen d"
  proof (cases "replace_config c d")
  case (Pair r d')
  then have "dp_seen d' = dp_seen d"
    by (cases r) (auto dest: replace_config_Inl simp: replace_config_Inr)
  then show ?thesis using Pair by simp
qed

lemma ack_call_seen:
  assumes "ack_call lib pace headers body (state, w) = (out, state', w')"
  shows "dp_seen (hs_dispatcher state') = dp_seen (hs_dispatcher state)"
proof -
  have commit: "dp_seen (hs_dispatcher (snd (ack_commit lib revision config state))) = dp_seen (hs_dispatcher state)"
    for revision config
    using replace_config_seen [of config "hs_dispatcher state"]
    by (auto simp: ack_commit_def split: prod.split sum.split lock.split)
  then have committed: "ack_commit lib revision config state = (r, st) \<Longrightarrow>
      dp_seen (hs_dispatcher st) = dp_seen (hs_dispatcher state)" for revision config r st
    by (metis snd_conv)
  have "dp_seen (hs_dispatcher (fst (snd (voice_config_ack lib headers body (state, w))))) = dp_seen (hs_dispatcher state)"
    using committed by (auto simp: voice_config_ack_def split: sum.split prod.splits)
  then show ?thesis
    using assms by (auto simp: ack_call_def finished_def split: sum.splits if_splits prod.splits)
qed
lemma serve_request_effect:
  assumes "serve_request web lib exec free clock pace rq (d, x) = (response, (d', x'))"
  shows "dp_seen (rt_dispatcher d') = dp_seen (rt_dispatcher d) \<and> x' = x
    \<or> (\<exists>job. requested_job web lib rq = Some job
        \<and> dispatch_effect exec job (now_ms clock) (rt_dispatcher d, x) (rt_dispatcher d', x'))"
proof (cases "rt_listener d")
  case None
  then show ?thesis using assms by (simp add: serve_request_def)
next
  case (Some l)
  obtain state w where call: "router_call web lib exec free clock pace rq (http_state_of d l, x, os_world d)
      = (response, state, x', w)"
    and d': "d' = (put_http_state state d)\<lparr>os_world := w\<rparr>"
    using assms Some by (auto simp: serve_request_def Let_def split: prod.splits)
  have shared: "rt_dispatcher d' = hs_dispatcher state" "hs_dispatcher (http_state_of d l) = rt_dispatcher d"
    by (simp_all add: d' put_http_state_def http_state_of_def)
  consider (untouched) "state = http_state_of d l" "x' = x"
    | (called) e body out where "routed web pace rq = Inr (Inr (e, body))"
        "endpoint_call lib exec free clock pace (rq_headers rq) e body (http_state_of d l, x, os_world d)
          = (out, state, x', w)"
    using call by (auto simp: router_call_def Let_def split: sum.splits prod.splits)
  then show ?thesis
  proof cases
    case untouched
    then show ?thesis using shared by simp
  next
    case called
    have routed: "routed web InTime rq = Inr (Inr (e, body))"
      using called(1) by (auto simp: routed_def result_simps split: if_splits)
    show ?thesis
    proof (cases e)
      case MediaEndpoint
      then have "media_call lib exec free clock pace (rq_headers rq) body (http_state_of d l, x) = (out, state, x')"
        using called(2) by (auto simp: endpoint_call_def Let_def split: prod.splits)
      then show ?thesis
        using media_effect [of lib exec free clock pace "rq_headers rq" body "http_state_of d l" x out state x']
          shared routed MediaEndpoint by (auto simp: requested_job_def)
    next
      case ActionsEndpoint
      then have "custom_call lib exec free clock pace (rq_headers rq) body (http_state_of d l, x) = (out, state, x')"
        using called(2) by (auto simp: endpoint_call_def Let_def split: prod.splits)
      then show ?thesis
        using custom_effect [of lib exec free clock pace "rq_headers rq" body "http_state_of d l" x out state x']
          shared routed ActionsEndpoint by (auto simp: requested_job_def)
    next
      case VoiceConfigEndpoint
      then show ?thesis using called(2) shared by (auto simp: endpoint_call_def)
    next
      case VoiceConfigAckEndpoint
      then have "x' = x" "ack_call lib pace (rq_headers rq) body (http_state_of d l, os_world d) = (out, state, w)"
        using called(2) by (auto simp: endpoint_call_def Let_def split: prod.splits)
      then show ?thesis using ack_call_seen shared by metis
    qed
  qed
qed

lemma effect_remembers:
  assumes "dispatch_effect exec job now (d, x) (d', x')"
    and "remembers (content (dp_seen d)) i e" and "now < e"
  shows "remembers (content (dp_seen d')) i e"
proof -
  obtain free r d0 where admit: "job_admit job now free d = (r, d0)" and seen: "dp_seen d' = dp_seen d0"
    using assms(1) by (auto simp: dispatch_effect_def)
  show ?thesis using job_admit_seen [OF admit] reserve_remembers [OF assms(2,3)] assms(2) seen by auto
qed

lemma effect_executed:
  assumes "dispatch_effect exec job now (d, x) (d', x')" and "x' \<noteq> x"
    and "job_reservation job = Some (i, e)"
  shows "remembers (content (dp_seen d')) i e"
    and "remembers (content (dp_seen d)) i e0 \<Longrightarrow> e0 \<le> now"
proof -
  obtain free r d0 where admit: "job_admit job now free d = (r, d0)" and seen: "dp_seen d' = dp_seen d0"
    and answer: "case r of Inl e \<Rightarrow> x' = x | Inr action \<Rightarrow> x' = x \<or> x' = snd (exec action x)"
    using assms(1) by (auto simp: dispatch_effect_def)
  obtain action where "r = Inr action" using answer assms(2) by (cases r) auto
  then have accepted: "reserve i e now d = (Inr (), d0)"
    using job_admit_accepted admit assms(3) by blast
  show "remembers (content (dp_seen d')) i e" using reserve_accepted [OF accepted] seen by simp
  show "e0 \<le> now" if "remembers (content (dp_seen d)) i e0"
    using reserve_refused [OF that] accepted not_le by blast
qed

text \<open>Requests one after the other, each with the answer of the lifecycle lock, the clock and its pace.\<close>

type_synonym 'stream arrival = "bool \<times> nat option \<times> pace \<times> 'stream http_request"

definition serve_arrival ::
  "'stream web_lib \<Rightarrow> http_lib \<Rightarrow> 'x executor \<Rightarrow> 'x system \<Rightarrow> 'stream arrival \<Rightarrow> 'x system" where
  "serve_arrival web lib exec s = (\<lambda>(free, clock, pace, rq).
     snd (serve_request web lib exec free clock pace rq s))"

definition arrived_before :: "u64 \<Rightarrow> 'stream arrival \<Rightarrow> bool" where
  "arrived_before e = (\<lambda>(free, clock, pace, rq). now_ms clock < e)"

lemma arrival_remembers:
  assumes "remembers (content (dp_seen (rt_dispatcher (fst s)))) i e" and "arrived_before e a"
  shows "remembers (content (dp_seen (rt_dispatcher (fst (serve_arrival web lib exec s a))))) i e"
proof -
  obtain d x free clock pace rq where s: "s = (d, x)" and a: "a = (free, clock, pace, rq)"
    by (metis prod_cases4 surj_pair)
  obtain response d' x' where run: "serve_request web lib exec free clock pace rq (d, x) = (response, (d', x'))"
    by (metis prod_cases3)
  have "remembers (content (dp_seen (rt_dispatcher d'))) i e"
    using serve_request_effect [OF run] assms s a
    by (auto simp: arrived_before_def intro: effect_remembers)
  then show ?thesis using run s a by (simp add: serve_arrival_def)
qed

lemma arrivals_remember:
  assumes "list_all (arrived_before e) as" and "remembers (content (dp_seen (rt_dispatcher (fst s)))) i e"
  shows "remembers (content (dp_seen (rt_dispatcher (fst (foldl (serve_arrival web lib exec) s as))))) i e"
  using assms by (induction as arbitrary: s) (simp_all add: arrival_remembers)
section \<open>The listener task\<close>

text \<open>
  \<open>ListenerTask\<close> holds the sending half of a watch channel; \<open>serve_listener\<close> spawns a task that
  waits on the receiving half and passes a shutdown on to the server's handle. Of tokio's channel
  is used what it documents: \<open>changed\<close> answers an unseen value before it reports that the sender
  is gone, and \<open>send\<close> fails without storing the value when no receiver is left.
\<close>

datatype server_error = ServerTls | ServerServe | ServerJoin string

record listener_control =
  lc_value :: bool
  lc_unseen :: bool
  lc_sender :: bool
  lc_watching :: bool
  lc_grace_ms :: "nat option"

definition listener_start :: "world \<Rightarrow> (server_error, listener_control) result \<times> world" where
  "listener_start w =
     st_then (io_step (\<lambda>_. ServerServe) w) (\<lambda>_ w.    \<comment> \<open>bind\<close>
     st_then (io_step (\<lambda>_. ServerServe) w) (\<lambda>_ w.    \<comment> \<open>into_std\<close>
     st_then (io_step (\<lambda>_. ServerTls) w) (\<lambda>_ w.    \<comment> \<open>from_pem\<close>
       (Inr \<lparr>lc_value = False, lc_unseen = False, lc_sender = True, lc_watching = True,
             lc_grace_ms = None\<rparr>, w))))"

text \<open>
  \<open>serve_tls\<close> makes the same calls and then serves in place, until the server returns; \<open>served\<close> is
  what \<open>serve_listener\<close> answers then.
\<close>

definition serve_tls :: "(server_error, unit) result \<Rightarrow> world \<Rightarrow> (server_error, unit) result \<times> world" where
  "serve_tls served w =
     st_then (io_step (\<lambda>_. ServerServe) w) (\<lambda>_ w.    \<comment> \<open>bind\<close>
     st_then (io_step (\<lambda>_. ServerServe) w) (\<lambda>_ w.    \<comment> \<open>into_std\<close>
     st_then (io_step (\<lambda>_. ServerTls) w) (\<lambda>_ w.    \<comment> \<open>from_pem\<close>
       (served, w))))"

definition request_shutdown :: "listener_control \<Rightarrow> listener_control" where
  "request_shutdown l =
     (if lc_sender l \<and> lc_watching l then l\<lparr>lc_value := True, lc_unseen := True\<rparr> else l)"

text \<open>The spawned task runs: \<open>changed().await\<close> is ready when a value is unseen or the sender gone.\<close>

definition shutdown_watch :: "listener_control \<Rightarrow> listener_control" where
  "shutdown_watch l =
     (if \<not> lc_watching l then l
      else if lc_unseen l
      then l\<lparr>lc_unseen := False, lc_watching := False,
             lc_grace_ms := if lc_value l then Some 2000 else lc_grace_ms l\<rparr>
      else if \<not> lc_sender l then l\<lparr>lc_watching := False\<rparr>
      else l)"

definition drop_listener :: "listener_control \<Rightarrow> listener_control" where
  "drop_listener l = l\<lparr>lc_sender := False\<rparr>"

text \<open>
  \<open>stop\<close>: the shutdown is requested, then the task awaited and with it the sender dropped. The
  task's end is the answer of the join: a panic's message, or what the server returned.
\<close>

definition stop_listener ::
  "(string, (server_error, unit) result) result \<Rightarrow> listener_control
   \<Rightarrow> (server_error, unit) result \<times> listener_control" where
  "stop_listener joined l =
     (and_then (map_err ServerJoin joined) (\<lambda>answer. answer),
      drop_listener (shutdown_watch (request_shutdown l)))"

datatype listener_event = ShutdownRequested | WatcherRan | ListenerDropped

fun listener_step :: "listener_control \<Rightarrow> listener_event \<Rightarrow> listener_control" where
  "listener_step l ShutdownRequested = request_shutdown l"
| "listener_step l WatcherRan = shutdown_watch l"
| "listener_step l ListenerDropped = drop_listener l"

text \<open>
  The server is told to shut down only on request, and a listener whose handle was dropped
  without a request is never told.
\<close>

definition never_asked :: "listener_control \<Rightarrow> bool" where
  "never_asked l \<longleftrightarrow> lc_grace_ms l = None \<and> \<not> lc_unseen l \<and> \<not> lc_sender l"

interpretation abandoned: stepper listener_step never_asked
proof unfold_locales
  fix l ev assume "never_asked l"
  then show "never_asked (listener_step l ev)"
    by (cases ev) (auto simp: never_asked_def request_shutdown_def shutdown_watch_def drop_listener_def)
qed

lemma abandoned_listener_keeps_serving:
  assumes "listener_start w = (Inr l, w')"
  shows "lc_grace_ms (foldl listener_step (drop_listener l) events) = None"
proof -
  have "never_asked (drop_listener l)"
    using assms by (auto simp: listener_start_def result_simps never_asked_def drop_listener_def)
  from abandoned.run_inv [OF this, of events] show ?thesis by (simp add: never_asked_def)
qed

text \<open>A requested shutdown reaches the server at the watcher's next run, even if the handle is gone.\<close>

definition asked :: "listener_control \<Rightarrow> bool" where
  "asked l \<longleftrightarrow> lc_grace_ms l = Some 2000 \<and> \<not> lc_watching l \<or> lc_watching l \<and> lc_unseen l \<and> lc_value l"

interpretation told: stepper listener_step asked
proof unfold_locales
  fix l ev assume "asked l"
  then show "asked (listener_step l ev)"
    by (cases ev) (auto simp: asked_def request_shutdown_def shutdown_watch_def drop_listener_def)
qed

lemma watcher_ran_asked: "asked l \<Longrightarrow> lc_grace_ms (shutdown_watch l) = Some 2000"
  by (auto simp: asked_def shutdown_watch_def)

lemma requested_shutdown_arrives:
  assumes "lc_sender l" and "lc_watching l"
  shows "lc_grace_ms (shutdown_watch (foldl listener_step (request_shutdown l) events)) = Some 2000"
proof -
  have "asked (request_shutdown l)" using assms by (simp add: asked_def request_shutdown_def)
  then show ?thesis by (intro watcher_ran_asked told.run_inv)
qed

lemma stopped_listener_was_told:
  "lc_sender l \<Longrightarrow> lc_watching l \<Longrightarrow> lc_grace_ms (snd (stop_listener joined l)) = Some 2000"
  using requested_shutdown_arrives [of l "[]"] by (simp add: stop_listener_def drop_listener_def)

text \<open>The runtime sees a listener's start as one fallible call; the three calls refine it.\<close>

lemma listener_start_calls:
  "answers w = [None, None, None] \<Longrightarrow> is_ok (fst (listener_start w))"
  "answers w = None # Some k # as \<Longrightarrow> fst (listener_start w) = Inl ServerServe"
  by (simp_all add: listener_start_def io_step_def ask_def)

text \<open>Serving in place fails exactly where starting a task would, and otherwise answers for the server.\<close>

lemma serve_tls_start:
  "serve_tls served w = st_then (listener_start w) (\<lambda>_ w. (served, w))"
proof -
  obtain r1 w1 where 1: "io_step (\<lambda>_. ServerServe) w = (r1, w1)" by fastforce
  obtain r2 w2 where 2: "io_step (\<lambda>_. ServerServe) w1 = (r2, w2)" by fastforce
  obtain r3 w3 where 3: "io_step (\<lambda>_. ServerTls) w2 = (r3, w3)" by fastforce
  show ?thesis by (cases r1; cases r2; cases r3) (simp_all add: serve_tls_def listener_start_def 1 2 3)
qed

section \<open>The daemon and its clients\<close>

text \<open>A management operation, or a request of the device.\<close>

definition server_step ::
  "'stream web_lib \<Rightarrow> runtime_lib \<Rightarrow> http_lib \<Rightarrow> 'x executor \<Rightarrow> 'x system \<Rightarrow> system_op + 'stream arrival
   \<Rightarrow> 'x system" where
  "server_step web rlib lib exec s ev =
     (case ev of
        Inl op \<Rightarrow> system_step rlib lib exec s op
      | Inr arrival \<Rightarrow> serve_arrival web lib exec s arrival)"

lemma serve_arrival_ok:
  assumes "daemon_ok (fst s)"
  shows "daemon_ok (fst (serve_arrival web lib exec s a))"
proof -
  obtain d x free clock pace rq where s: "s = (d, x)" and a: "a = (free, clock, pace, rq)"
    by (metis prod_cases4 surj_pair)
  obtain response d' x' where run: "serve_request web lib exec free clock pace rq (d, x) = (response, (d', x'))"
    by (metis prod_cases3)
  obtain c secrets where inv: "daemon_inv c secrets d" using assms s daemon_ok_inv by auto
  have "daemon_ok d'" using serve_request_inv [OF inv run] daemon_ok_inv by blast
  then show ?thesis using run s a by (simp add: serve_arrival_def)
qed

interpretation server: stepper "server_step web rlib lib exec" "\<lambda>s. random_ok rlib \<longrightarrow> daemon_ok (fst s)"
  for web rlib lib exec
  by unfold_locales
    (auto simp: server_step_def serve_arrival_ok intro: system_step_ok split: sum.split)

section \<open>Properties\<close>

text \<open>A router that matches literal paths, and a daemon that it serves.\<close>

definition example_web :: "string web_lib" where
  "example_web =
     \<lparr>wb_route = (\<lambda>table method path.
        case List.find (\<lambda>(p, m, e). p = path \<and> serves m method) table of
          None \<Rightarrow> Inl \<lparr>rp_status = 404, rp_content_type = None, rp_content_length = Some ''0'', rp_body = []\<rparr>
        | Some (p, m, e) \<Rightarrow> Inr e),
      wb_collect = (\<lambda>limit body.
        if length body \<le> limit then Inr body
        else Inl \<lparr>rp_status = 413, rp_content_type = None, rp_content_length = None, rp_body = ''too long''\<rparr>),
      wb_status = (\<lambda>n. \<lparr>rp_status = n, rp_content_type = None, rp_content_length = Some ''0'', rp_body = []\<rparr>)\<rparr>"

lemma example_web_routes: "axum_routes example_web"
  by (auto simp: axum_routes_def example_web_def dest: find_member split: option.split)

definition example_post :: "string \<Rightarrow> string http_request" where
  "example_post path =
     \<lparr>rq_method = ''POST'', rq_path = path, rq_headers = example_headers, rq_stream = ''b''\<rparr>"

lemma example_routed:
  "routed example_web InTime (example_post ''/v1/media'') = Inr (Inr (MediaEndpoint, ''b''))"
  "routed example_web (SlowExecutor b) (example_post ''/v1/media'') = Inr (Inr (MediaEndpoint, ''b''))"
  "routed example_web SlowWriter (example_post ''/v1/voice-config/ack'') = Inr (Inr (VoiceConfigAckEndpoint, ''b''))"
  by (simp_all add: routed_def example_post_def example_web_def daemon_router_def BODY_LIMIT_def)

text \<open>C10: at every request, from any client and wherever the timeout cuts it, the daemon, its files and
  its executor are untouched unless the request is a POST to one of the three writing paths, its body was
  read within the limit of 512 bytes, and its head carries the listener's token, the JSON content type
  and the exact length of the body.\<close>

theorem effects_need_an_authorized_request:
  assumes "axum_routes web"
    and "serve_request web lib exec free clock pace rq (d, x) = (response, (d', x'))"
    and "(d', x') \<noteq> (d, x)"
  shows "\<exists>l body. rt_listener d = Some l \<and> rq_method rq = ''POST''
    \<and> rq_path rq \<in> {''/v1/media'', ''/v1/actions'', ''/v1/voice-config/ack''}
    \<and> wb_collect web 512 (rq_stream rq) = Inr body \<and> length body \<le> 512
    \<and> verify_header (lb_ct_eq lib) (ln_token l) (get_str (rq_headers rq) ''authorization'')
    \<and> json_content_type (rq_headers rq) \<and> valid_framing (rq_headers rq) body"
proof -
  obtain l where l: "rt_listener d = Some l"
    using assms(2,3) by (cases "rt_listener d") (auto simp: serve_request_def)
  obtain state w where call: "router_call web lib exec free clock pace rq (http_state_of d l, x, os_world d)
      = (response, state, x', w)"
    and d': "d' = (put_http_state state d)\<lparr>os_world := w\<rparr>"
    using assms(2) l by (auto simp: serve_request_def Let_def split: prod.splits)
  have changed: "(state, x', w) \<noteq> (http_state_of d l, x, os_world d)"
    using assms(3) d' by auto
  then obtain e body out where routed: "routed web pace rq = Inr (Inr (e, body))"
    and ends: "endpoint_call lib exec free clock pace (rq_headers rq) e body (http_state_of d l, x, os_world d)
      = (out, state, x', w)"
    using call by (auto simp: router_call_def Let_def split: sum.splits prod.splits)
  have writes: "e \<noteq> VoiceConfigEndpoint" using ends changed by (auto simp: endpoint_call_def)
  have head: "head_ok lib (http_state_of d l) (rq_headers rq) body"
    using rejected_call [OF _ writes ends] changed by blast
  have route: "wb_route web (ro_routes daemon_router) (rq_method rq) (rq_path rq) = Inr e"
    and body: "wb_collect web 512 (rq_stream rq) = Inr body"
    using routed writes by (auto simp: routed_def daemon_router_def BODY_LIMIT_def result_simps split: if_splits)
  moreover have "\<exists>m. (rq_path rq, m, e) \<in> set (ro_routes daemon_router) \<and> serves m (rq_method rq)"
    using assms(1) route by (fastforce simp: axum_routes_def split: sum.splits)
  ultimately show ?thesis
    using l writes head body valid_framing_body [of "rq_headers rq" body]
    by (auto simp: head_ok_def authorized_def http_state_of_def daemon_router_def)
qed
lemma serving_dispatcher: "rt_dispatcher serving_daemon = example_dispatcher\<lparr>dp_config := Sound serving_config\<rparr>"
  by (simp add: serving_daemon_def with_config_def example_daemon_def)

lemma serving_state:
  "http_state_of serving_daemon serving_listener =
     example_state\<lparr>hs_dispatcher := rt_dispatcher serving_daemon, hs_config := Sound serving_config,
       hs_config_path := Some (config_path serving_daemon)\<rparr>"
  by (simp add: http_state_of_def serving_daemon_def serving_listener_def with_config_def example_daemon_def
      example_state_def)

lemma serving_head:
  "authorized example_http_lib (http_state_of serving_daemon serving_listener) example_headers"
  using example_authorized by (simp add: authorized_def serving_state)

lemma serving_check:
  "check_request example_http_lib (lb_media example_http_lib)
     (http_state_of serving_daemon serving_listener) example_headers ''b'' = Inr example_media"
  by (simp add: check_request_Inr serving_head example_content_type example_framing)
    (simp add: example_http_lib_def)

lemma serving_admit:
  "media_admit example_media 2000 True (rt_dispatcher serving_daemon) =
     (Inr (Media Play), (rt_dispatcher serving_daemon)\<lparr>dp_seen := Sound
        [\<lparr>rs_id = RequestId ''a'', rs_expires_at_ms = 6000\<rparr>]\<rparr>)"
  unfolding media_admit_Inr
  by (simp add: example_media_def validate_time_Inr reserve_Inr serving_dispatcher example_dispatcher_def)

text \<open>A media command that the timeout cut off after its work was handed to the executor.\<close>

definition cut_daemon :: daemon where
  "cut_daemon = serving_daemon\<lparr>rt_dispatcher := (rt_dispatcher serving_daemon)\<lparr>dp_seen := Sound
     [\<lparr>rs_id = RequestId ''a'', rs_expires_at_ms = 6000\<rparr>]\<rparr>\<rparr>"

lemma example_cut_media:
  "serve_request example_web example_http_lib example_exec True (Some 2000) (SlowExecutor True)
     (example_post ''/v1/media'') (serving_daemon, 0)
   = (Some (wb_status example_web 408), (cut_daemon, 1))"
proof -
  have "rt_listener serving_daemon = Some serving_listener" by (simp add: serving_daemon_def)
  moreover have "media_call example_http_lib example_exec True (Some 2000) (SlowExecutor True) example_headers ''b''
      (http_state_of serving_daemon serving_listener, 0) =
      (CutOff, (http_state_of serving_daemon serving_listener)\<lparr>hs_dispatcher := (rt_dispatcher serving_daemon)\<lparr>dp_seen := Sound
        [\<lparr>rs_id = RequestId ''a'', rs_expires_at_ms = 6000\<rparr>]\<rparr>\<rparr>, 1)"
    by (simp add: media_call_def slow_dispatch_def serving_check now_ms_def usize_max_def)
      (simp add: serving_admit http_state_of_def example_exec_def)
  moreover have "rq_headers (example_post ''/v1/media'') = example_headers" by (simp add: example_post_def)
  moreover have "put_http_state ((http_state_of serving_daemon serving_listener)\<lparr>hs_dispatcher := dp\<rparr>) serving_daemon
      = serving_daemon\<lparr>rt_dispatcher := dp\<rparr>" for dp
    by (simp add: put_http_state_def http_state_of_def)
  ultimately show ?thesis
    by (simp add: serve_request_def router_call_def example_routed endpoint_call_def respond_def
        daemon_router_def cut_daemon_def)
qed

lemma example_job: "requested_job example_web example_http_lib (example_post ''/v1/media'') = Some (MediaJob example_media)"
  by (simp add: requested_job_def example_routed) (simp add: example_http_lib_def)

theorem effects_need_an_authorized_request_witness:
  "verify_header (lb_ct_eq example_http_lib) (ln_token serving_listener) (get_str example_headers ''authorization'')
   \<and> valid_framing example_headers ''b''"
proof -
  have "(cut_daemon, 1) \<noteq> (serving_daemon, 0 :: nat)" by simp
  from effects_need_an_authorized_request [OF example_web_routes example_cut_media this]
  show ?thesis by (auto simp: serving_daemon_def example_post_def example_web_def split: if_splits)
qed

text \<open>C9: a command of the device is carried out at most once while it lives. Once a request has reached
  the executor, even if the timeout dropped it and answered 408 before it finished, no later request with
  the same id reaches the executor before the first one's expiry, whatever other requests come between.\<close>

theorem command_carried_out_once:
  assumes "serve_request web lib exec free clock pace rq (d, x) = (response, (d1, x1))" and "x1 \<noteq> x"
    and "requested_job web lib rq = Some job" and "job_reservation job = Some (i, e)"
    and "list_all (arrived_before e) between"
    and "foldl (serve_arrival web lib exec) (d1, x1) between = (d2, x2)"
    and "serve_request web lib exec free' clock' pace' rq' (d2, x2) = (response', (d3, x3))"
    and "requested_job web lib rq' = Some job'" and "job_reservation job' = Some (i, e')"
    and "now_ms clock' < e"
  shows "x3 = x2"
proof (rule ccontr)
  assume "x3 \<noteq> x2"
  have "dispatch_effect exec job (now_ms clock) (rt_dispatcher d, x) (rt_dispatcher d1, x1)"
    using serve_request_effect [OF assms(1)] assms(2,3) by auto
  then have "remembers (content (dp_seen (rt_dispatcher d1))) i e"
    using effect_executed(1) assms(2,4) by metis
  then have "remembers (content (dp_seen (rt_dispatcher d2))) i e"
    using arrivals_remember [OF assms(5), of "(d1, x1)" i web lib exec] assms(6) by simp
  moreover have "dispatch_effect exec job' (now_ms clock') (rt_dispatcher d2, x2) (rt_dispatcher d3, x3)"
    using serve_request_effect [OF assms(7)] assms(8) \<open>x3 \<noteq> x2\<close> by auto
  ultimately have "e \<le> now_ms clock'" using effect_executed(2) \<open>x3 \<noteq> x2\<close> assms(9) by metis
  then show False using assms(10) by simp
qed

theorem command_carried_out_once_witness:
  "\<exists>response d. serve_request example_web example_http_lib example_exec True (Some 3000) InTime
     (example_post ''/v1/media'') (cut_daemon, 1) = (response, (d, 1))"
proof -
  obtain response d x where run: "serve_request example_web example_http_lib example_exec True (Some 3000) InTime
     (example_post ''/v1/media'') (cut_daemon, 1) = (response, (d, x))" by (metis prod_cases3)
  have live: "now_ms (Some 3000) < 6000" by (simp add: now_ms_def usize_max_def)
  have reserved: "job_reservation (MediaJob example_media) = Some (RequestId ''a'', 6000)"
    by (simp add: example_media_def)
  have "x = 1"
    by (rule command_carried_out_once [OF example_cut_media _ example_job reserved _ _ run example_job reserved live,
          where between = "[]"]) simp_all
  then show ?thesis using run by blast
qed

text \<open>C13: the only file a request writes is the configuration, and the only change it makes to the
  configuration in memory is the same one: acknowledging the revision that is published and current, for a
  request with the listener's token. Disk, memory and dispatcher hold it before the device is answered with
  success, except when the timeout cut the acknowledgment while it waited for running actions: then the
  device is answered 408, the file holds the acknowledgment and the memory does not.\<close>

theorem acknowledgment_may_be_cut:
  assumes "daemon_inv c s d" and "rt_listener d = Some l"
    and "serve_request web lib exec free clock pace rq (d, x) = (response, (d', x'))"
    and "files (os_world d') \<noteq> files (os_world d) \<or> rt_config d' \<noteq> rt_config d"
  shows "x' = x \<and> authorized lib (http_state_of d l) (rq_headers rq)
    \<and> (\<exists>p encoded. ac_published_voice c = Some p \<and> pv_actions_revision p = ac_actions_revision c
      \<and> lb_encode lib (with_acknowledged c (pv_revision p)) = Some encoded
      \<and> files (os_world d') = (files (os_world d))(config_path d \<mapsto> encoded @ [CHR 0x0A])
      \<and> (rt_config d' = Sound (with_acknowledged c (pv_revision p)) \<and> dp_config (rt_dispatcher d') = rt_config d'
           \<and> response = json lib 200 (VoiceAckReply (pv_revision p) ''active'')
         \<or> pace = SlowWriter \<and> response = Some (wb_status web 408)
           \<and> rt_config d' = Sound c \<and> rt_dispatcher d' = rt_dispatcher d))"
proof -
  have path: "ln_config_path l = config_path d"
    using daemon_invD(7) [OF assms(1)] assms(2) by (simp add: listener_ok_def)
  obtain state w where call: "router_call web lib exec free clock pace rq (http_state_of d l, x, os_world d)
      = (response, state, x', w)"
    and d': "d' = (put_http_state state d)\<lparr>os_world := w\<rparr>"
    using assms(2,3) by (auto simp: serve_request_def Let_def split: prod.splits)
  have written: "files w \<noteq> files (os_world d) \<or> hs_config state \<noteq> hs_config (http_state_of d l)"
    using assms(4) by (simp add: d' put_http_state_def http_state_of_def)
  then obtain e body out where
    ends: "endpoint_call lib exec free clock pace (rq_headers rq) e body (http_state_of d l, x, os_world d)
      = (out, state, x', w)" and response: "response = respond web out"
    using call by (auto simp: router_call_def Let_def split: sum.splits prod.splits)
  have "e = VoiceConfigAckEndpoint"
    using ends written
    by (cases e)
      (auto simp: endpoint_call_def Let_def state_keeps_def dest: media_call_keeps custom_call_keeps split: prod.splits)
  then have ack: "ack_call lib pace (rq_headers rq) body (http_state_of d l, os_world d) = (out, state, w)"
    and x': "x' = x"
    using ends by (auto simp: endpoint_call_def Let_def split: prod.splits)
  have saved: "\<exists>p encoded. ac_published_voice c = Some p \<and> pv_revision p = revision
      \<and> pv_actions_revision p = ac_actions_revision c
      \<and> lb_encode lib (with_acknowledged c revision) = Some encoded
      \<and> files w = (files (os_world d))(config_path d \<mapsto> encoded @ [CHR 0x0A])"
    if "acknowledged_on_disk lib c revision d l w" for revision
    using that daemon_invD(1) [OF assms(1)]
    by (auto simp: acknowledged_on_disk_def ack_check_Inr http_state_of_def split: option.splits)
  from ack show ?thesis
  proof (cases rule: ack_call_cases [OF assms(1) path, consumes 1, case_names unchanged committed cut])
    case unchanged
    then show ?thesis using written by simp
  next
    case (committed revision)
    then show ?thesis
      using saved [OF committed(2)] x' response by (auto simp: d' with_config_def ack_request_Inr respond_def)
  next
    case (cut revision)
    then show ?thesis
      using saved [OF cut(2)] response x' daemon_invD(1) [OF assms(1)]
      by (auto simp: d' respond_def daemon_router_def ack_request_Inr)
  qed
qed

lemma example_ack_prepare:
  "ack_prepare example_http_lib 1 (http_state_of serving_daemon serving_listener) (os_world serving_daemon) =
     (Inr (with_acknowledged serving_config 1),
      \<lparr>files = [config_path serving_daemon \<mapsto> ''cfg'' @ [CHR 0x0A]], answers = []\<rparr>)"
proof -
  have valid: "config_ok (with_acknowledged serving_config 1)"
  proof -
    have "validate (with_acknowledged serving_config 1) = Inr ()" by code_simp
    then show ?thesis by (simp add: validate_iff)
  qed
  have check: "ack_check example_http_lib 1 (http_state_of serving_daemon serving_listener) =
      Inr (config_path serving_daemon, with_acknowledged serving_config 1)"
    by (simp add: ack_check_Inr serving_state serving_config_def example_published_def example_config_def
        default_config_def with_acknowledged_def)
  have parent: "path_has_parent (config_path serving_daemon)" by code_simp
  have world: "os_world serving_daemon = \<lparr>files = Map.empty, answers = []\<rparr>"
    by (simp add: serving_daemon_def with_config_def example_daemon_def)
  have "lb_encode example_http_lib (with_acknowledged serving_config 1) = Some ''cfg''"
    by (simp add: example_http_lib_def)
  then show ?thesis
    unfolding ack_prepare_Inr
    using check save_quiet [OF valid parent, of "lb_encode example_http_lib" "''cfg''" "os_world serving_daemon"] world
    by simp
qed

theorem acknowledgment_may_be_cut_witness:
  "\<exists>response d'. serve_request example_web example_http_lib example_exec True (Some 2000) SlowWriter
      (example_post ''/v1/voice-config/ack'') (serving_daemon, 0) = (response, (d', 0))
    \<and> files (os_world d') (config_path serving_daemon) = Some (''cfg'' @ [CHR 0x0A])
    \<and> rt_config d' = Sound serving_config \<and> ac_acknowledged_voice_revision serving_config = None"
proof -
  have "ack_request example_http_lib example_headers ''b'' (http_state_of serving_daemon serving_listener) = Inr 1"
    by (simp add: ack_request_Inr serving_head example_content_type example_framing)
      (simp add: example_http_lib_def)
  moreover have "replace_config_admit (with_acknowledged serving_config 1) = Inr ()" by code_simp
  ultimately have call: "ack_call example_http_lib SlowWriter example_headers ''b''
      (http_state_of serving_daemon serving_listener, os_world serving_daemon) =
      (CutOff, http_state_of serving_daemon serving_listener,
       \<lparr>files = [config_path serving_daemon \<mapsto> ''cfg'' @ [CHR 0x0A]], answers = []\<rparr>)"
    by (simp add: ack_call_def example_ack_prepare)
  have "rt_listener serving_daemon = Some serving_listener"
    and "rq_headers (example_post ''/v1/voice-config/ack'') = example_headers"
    by (simp_all add: serving_daemon_def example_post_def)
  then obtain response d' where run:
    "serve_request example_web example_http_lib example_exec True (Some 2000) SlowWriter
      (example_post ''/v1/voice-config/ack'') (serving_daemon, 0) = (response, (d', 0))"
    and d': "d' = serving_daemon\<lparr>os_world := \<lparr>files = [config_path serving_daemon \<mapsto> ''cfg'' @ [CHR 0x0A]], answers = []\<rparr>\<rparr>"
    using call by (simp add: serve_request_def router_call_def example_routed endpoint_call_def)
  have "files (os_world d') \<noteq> files (os_world serving_daemon)"
    by (simp add: d') (simp add: serving_daemon_def with_config_def example_daemon_def fun_upd_eqD)
  from acknowledgment_may_be_cut [OF serving_inv \<open>rt_listener serving_daemon = Some serving_listener\<close> run] this
  have "files (os_world d') (config_path serving_daemon) = Some (''cfg'' @ [CHR 0x0A])"
    by (auto simp: example_http_lib_def)
  moreover have "rt_config d' = Sound serving_config"
    by (simp add: d') (simp add: serving_daemon_def with_config_def)
  moreover have "ac_acknowledged_voice_revision serving_config = None" by code_simp
  ultimately show ?thesis using run by blast
qed

text \<open>C2: a daemon that has loaded is consistent after any sequence of management operations and device
  requests, whatever the timeout cuts and whatever fails: its configuration is valid, the dispatcher runs
  on the same one, the secrets hold a token and belong to the bound address, the caches are in order, and a
  listener runs only while enabled, on the configured address, with the current token and certificate.\<close>

theorem served_daemon_consistent:
  assumes "load_runtime rlib dir w startup draws = (Inr (), d0)" and "random_ok rlib"
  shows "case foldl (server_step web rlib lib exec) (d0, x) events of (d, _) \<Rightarrow>
    \<exists>c s. rt_config d = Sound c \<and> dp_config (rt_dispatcher d) = Sound c \<and> config_ok c
      \<and> rt_secrets d = Sound s \<and> parse_token (se_token s) \<noteq> None
      \<and> se_host s = ip_to_string (ac_bind_address c)
      \<and> dispatcher_ok (rt_dispatcher d)
      \<and> (case rt_listener d of
           None \<Rightarrow> True
         | Some l \<Rightarrow>
             ac_listener_enabled c \<and> ln_address l = ac_bind_address c \<and> ln_port l = ac_port c
           \<and> ln_certificate l = se_certificate_pem s \<and> ln_key l = se_server_key_pem s
           \<and> parse_token (se_token s) = Some (ln_token l) \<and> ln_config_path l = config_path d)"
proof -
  obtain d y where run: "foldl (server_step web rlib lib exec) (d0, x) events = (d, y)" by fastforce
  have "daemon_ok d"
    using server.run_inv [of rlib "(d0, x)" web lib exec events] loaded_ok [OF assms] assms(2) run by simp
  then obtain c s where inv: "daemon_inv c s d" using daemon_ok_inv by blast
  then show ?thesis
    using daemon_invD [OF inv] run
    by (cases "rt_listener d")
      (auto simp: daemon_inv_def secrets_ok_def listener_ok_def intro!: exI [of _ c] exI [of _ s])
qed

theorem served_daemon_consistent_witness:
  "\<exists>d c. load_runtime example_lib (Some ''C:/u'') \<lparr>files = Map.empty, answers = []\<rparr> False 0 = (Inr (), d)
    \<and> rt_config (fst (foldl (server_step example_web example_lib example_http_lib example_exec) (d, 0)
        [Inl (SetListener True), Inr (True, Some 2000, SlowExecutor True, example_post ''/v1/media'')]))
      = Sound c \<and> config_ok c"
proof -
  obtain d where load: "load_runtime example_lib (Some ''C:/u'') \<lparr>files = Map.empty, answers = []\<rparr> False 0 = (Inr (), d)"
    using example_load by blast
  have "random_ok example_lib" by (simp add: random_ok_def example_lib_def)
  from served_daemon_consistent [OF load this, of example_web example_http_lib example_exec 0
      "[Inl (SetListener True), Inr (True, Some 2000, SlowExecutor True, example_post ''/v1/media'')]"]
  show ?thesis using load by (auto split: prod.splits)
qed

end
