(* ===== verification/Daemon_Connections.thy ===== *)
theory Daemon_Connections
  imports Daemon_Server
begin

text \<open>
  The connections of the server (\<open>serve\_listener\<close> and \<open>LimitedAcceptor\<close> in daemon/src/http.rs): the accepted
  streams with their permits. When a connection ends, by the timeout of its handshake, by that of its
  headers, after its reply or because the peer is gone, is decided by the libraries; each end is a step
  that drops the stream.
\<close>

section \<open>Streams and permits\<close>

record connections =
  cs_acceptor :: limited_acceptor
  cs_open :: "nat list"
  cs_next :: nat

definition connections_start :: connections where
  "connections_start = \<lparr>cs_acceptor = limited_acceptor_new MAX_CONNECTIONS, cs_open = [], cs_next = 0\<rparr>"

datatype connection_event = Connects | Ends nat

text \<open>A connection that is turned away has no stream; one that ends drops its stream, and the permit with it.\<close>

fun connection_step :: "connections \<Rightarrow> connection_event \<Rightarrow> connections" where
  "connection_step s Connects =
     (case accept (cs_acceptor s) of
        Inl _ \<Rightarrow> s
      | Inr a \<Rightarrow> s\<lparr>cs_acceptor := a, cs_next := cs_next s + 1, cs_open := cs_open s @ [cs_next s]\<rparr>)"
| "connection_step s (Ends i) =
     (if i \<in> set (cs_open s)
      then s\<lparr>cs_acceptor := drop_stream (cs_acceptor s), cs_open := remove1 i (cs_open s)\<rparr>
      else s)"

section \<open>Streams and permits agree\<close>

definition connections_ok :: "connections \<Rightarrow> bool" where
  "connections_ok s \<longleftrightarrow> conns.pool_ok (cs_acceptor s) \<and> la_streams (cs_acceptor s) = length (cs_open s)
     \<and> distinct (cs_open s) \<and> list_all (\<lambda>i. i < cs_next s) (cs_open s)"

lemma connection_step_ok:
  assumes "connections_ok s"
  shows "connections_ok (connection_step s e)"
proof (cases e)
  case Connects
  show ?thesis
  proof (cases "accept (cs_acceptor s)")
    case (Inr a)
    then have "conns.pool_ok a" "la_streams a = Suc (length (cs_open s))"
      using assms conns.acquire_ok [of "cs_acceptor s" a] conns.acquire_Some [of "cs_acceptor s" a]
      by (simp_all add: connections_ok_def)
    then show ?thesis using assms Connects Inr by (auto simp: connections_ok_def list_all_iff)
  qed (use assms Connects in simp)
next
  case (Ends i)
  have "conns.pool_ok (drop_stream (cs_acceptor s))"
    using assms conns.release_ok by (simp add: connections_ok_def)
  moreover have "la_streams (drop_stream (cs_acceptor s)) = la_streams (cs_acceptor s) - 1"
    by (simp add: drop_stream_def)
  ultimately show ?thesis using assms Ends
    by (auto simp: connections_ok_def list_all_iff length_remove1 dest: notin_set_remove1 set_mp [OF set_remove1_subset])
qed

interpretation connection: stepper connection_step connections_ok
  by unfold_locales (rule connection_step_ok)

lemma connections_start_ok: "connections_ok connections_start"
  by (simp add: connections_ok_def connections_start_def conns.pool_ok_def limited_acceptor_new_def)

section \<open>Properties\<close>

text \<open>C11: however connections come and end, at most eight are open; one that comes is turned away exactly
  while eight are, and is open afterwards otherwise; and the end of any open connection makes room for
  the next, so that no permit is lost.\<close>

theorem slots_are_freed:
  "let s = foldl connection_step connections_start events in
     length (cs_open s) \<le> 8
   \<and> connection_step s Connects =
       (if length (cs_open s) = 8 then s
        else s\<lparr>cs_acceptor := cs_acceptor (connection_step s Connects), cs_next := cs_next s + 1,
               cs_open := cs_open s @ [cs_next s]\<rparr>)
   \<and> cs_next s \<notin> set (cs_open s)
   \<and> (\<forall>i \<in> set (cs_open s).
        let s' = connection_step (connection_step s (Ends i)) Connects in
          cs_next s \<in> set (cs_open s') \<and> i \<notin> set (cs_open s') \<and> length (cs_open s') = length (cs_open s))"
proof -
  define s where "s = foldl connection_step connections_start events"
  have ok: "connections_ok s" unfolding s_def by (rule connection.run_inv [OF connections_start_ok])
  then have pool: "la_permits (cs_acceptor s) + length (cs_open s) = 8" "la_streams (cs_acceptor s) = length (cs_open s)"
    and ids: "distinct (cs_open s)" "list_all (\<lambda>i. i < cs_next s) (cs_open s)"
    unfolding connections_ok_def conns.pool_ok_def by (simp_all add: MAX_CONNECTIONS_def)
  have fresh: "cs_next s \<notin> set (cs_open s)" using ids(2) by (auto simp: list_all_iff)
  have next_fits: "cs_next s \<in> set (cs_open s') \<and> i \<notin> set (cs_open s') \<and> length (cs_open s') = length (cs_open s)"
    if i: "i \<in> set (cs_open s)" and s': "s' = connection_step (connection_step s (Ends i)) Connects" for i s'
  proof -
    have "length (cs_open s) > 0" using i by (cases "cs_open s") auto
    then have "la_streams (cs_acceptor s) \<noteq> 0" "i \<noteq> cs_next s" using pool(2) i fresh by auto
    then show ?thesis using i ids(1) \<open>length (cs_open s) > 0\<close>
      by (simp add: s' accept_def drop_stream_def length_remove1)
  qed
  moreover have "connection_step s Connects = s" if "length (cs_open s) = 8"
    using pool that by (simp add: accept_def)
  moreover have "connection_step s Connects = s\<lparr>cs_acceptor := cs_acceptor (connection_step s Connects),
      cs_next := cs_next s + 1, cs_open := cs_open s @ [cs_next s]\<rparr>" if "length (cs_open s) \<noteq> 8"
    using pool that by (simp add: accept_def)
  ultimately show ?thesis using pool(1) fresh by (simp add: Let_def flip: s_def)
qed

text \<open>Nine connections come, the ninth is turned away; then one ends and another comes.\<close>

theorem slots_are_freed_witness:
  "let s = foldl connection_step connections_start (replicate 9 Connects) in
     cs_open s = [0, 1, 2, 3, 4, 5, 6, 7]
   \<and> cs_next s \<in> set (cs_open (connection_step (connection_step s (Ends 3)) Connects))"
proof -
  have "cs_open (foldl connection_step connections_start (replicate 9 Connects)) = [0, 1, 2, 3, 4, 5, 6, 7]"
    by code_simp
  then show ?thesis
    using slots_are_freed [of "replicate 9 Connects"] by (simp add: Let_def del: connection_step.simps)
qed

end
