(* ===== verification/Daemon_Disk.thy ===== *)
theory Daemon_Disk
  imports Daemon_Server Daemon_Address
begin

text \<open>
  What a start of the program would find on the disk (windows\_runtime.rs, config.rs,
  secret\_store.rs), compared with what the running program has in memory. Every operation of the
  runtime and every request keeps the two together, wherever it fails: \<open>synced\<close> is the relation
  between them, and each lemma follows the calls of one operation in their order.
\<close>

section \<open>What a start finds\<close>

text \<open>
  The configuration that a start without failures would read: the file's, or the default when
  there is none or it does not hold a valid one.
\<close>

definition stored_config :: "runtime_lib \<Rightarrow> path \<Rightarrow> (path \<Rightarrow> string option) \<Rightarrow> app_config" where
  "stored_config lib dir fs =
     fst (load_config lib (join_path dir ''config.json'') \<lparr>files = fs, answers = []\<rparr>)"

text \<open>A stored configuration may be ahead of the one in memory by one acknowledgment.\<close>

definition ahead :: "app_config \<Rightarrow> app_config \<Rightarrow> bool" where
  "ahead cd c \<longleftrightarrow>
     cd = c
   \<or> (case ac_published_voice c of
        None \<Rightarrow> False
      | Some p \<Rightarrow> cd = with_acknowledged c (pv_revision p))"

text \<open>The stored secrets carry the token \<open>t\<close>.\<close>

definition stored_token :: "runtime_lib \<Rightarrow> path \<Rightarrow> (path \<Rightarrow> string option) \<Rightarrow> string \<Rightarrow> bool" where
  "stored_token lib dir fs t \<longleftrightarrow>
     (\<exists>s plain enc. rl_encode_secrets lib s = Some plain \<and> protect (rl_crypt lib) plain = Some enc
        \<and> fs (join_path dir ''secrets.dpapi'') = Some enc \<and> se_token s = t)"

definition disk_holds :: "runtime_lib \<Rightarrow> path \<Rightarrow> (path \<Rightarrow> string option) \<Rightarrow> app_config \<Rightarrow> string \<Rightarrow> bool" where
  "disk_holds lib dir fs c t \<longleftrightarrow>
     fs (join_path dir ''config.json'') \<noteq> None
   \<and> ahead (stored_config lib dir fs) c
   \<and> stored_token lib dir fs t"

text \<open>
  Memory and disk agree: on the token \<open>t\<close>, and on the configuration up to an acknowledgment.
\<close>

definition synced :: "runtime_lib \<Rightarrow> path \<Rightarrow> string \<Rightarrow> daemon \<Rightarrow> bool" where
  "synced lib dir t d \<longleftrightarrow>
     (case (rt_config d, rt_secrets d) of
        (Sound c, Sound s) \<Rightarrow>
          se_token s = t \<and> locks_sound (rt_dispatcher d) \<and> rt_directory d = dir
        \<and> disk_holds lib dir (files (os_world d)) c t
      | _ \<Rightarrow> False)"

text \<open>
  What the libraries promise: what was encoded and encrypted can be decrypted and decoded, and
  new certificates for an address can be made and stored.
\<close>

definition codecs_ok :: "runtime_lib \<Rightarrow> bool" where
  "codecs_ok lib \<longleftrightarrow>
     (\<forall>c encoded. config_ok c \<and> rl_encode lib c = Some encoded \<longrightarrow>
        rl_decode lib (encoded @ [CHR 0x0A]) = Some c)
   \<and> (\<forall>s plain. rl_encode_secrets lib s = Some plain \<longrightarrow>
        plain \<noteq> [] \<and> rl_decode_secrets lib plain = Some s)
   \<and> (\<forall>plain enc. rl_crypt lib True plain = Some enc \<longrightarrow>
        length enc \<le> u32_max \<and> rl_crypt lib False enc = Some plain)"

definition renewed :: "secrets \<Rightarrow> ip_addr \<Rightarrow> tls_material \<Rightarrow> secrets" where
  "renewed s host tls =
     s\<lparr>se_host := ip_to_string host,
       se_certificate_pem := tm_certificate_pem tls,
       se_server_key_pem := tm_server_private_key_pem tls,
       se_ca_certificate_pem := tm_trusted_ca_certificate_pem tls,
       se_ca_key_pem := tm_ca_private_key_pem tls\<rparr>"

definition renewal_ok :: "runtime_lib \<Rightarrow> bool" where
  "renewal_ok lib \<longleftrightarrow>
     (\<forall>n host s. bind_allowed host \<and> parse_token (se_token s) \<noteq> None \<longrightarrow>
        (\<exists>tls plain enc. rl_provision lib n host = Some tls
           \<and> rl_encode_secrets lib (renewed s host tls) = Some plain
           \<and> protect (rl_crypt lib) plain = Some enc))"

text \<open>The libraries of one program: the handlers store the configuration as the runtime does.\<close>

definition durable_libs :: "runtime_lib \<Rightarrow> http_lib \<Rightarrow> bool" where
  "durable_libs lib hlib \<longleftrightarrow>
     codecs_ok lib \<and> renewal_ok lib \<and> random_ok lib \<and> lb_encode hlib = rl_encode lib"

section \<open>Writing to the disk\<close>

lemma join_path_eq [simp]: "join_path dir a = join_path dir b \<longleftrightarrow> a = b"
  by (simp add: join_path_def)

lemma ahead_refl [simp]: "ahead c c"
  by (simp add: ahead_def)

lemma stored_config_same:
  "fs' (join_path dir ''config.json'') = fs (join_path dir ''config.json'') \<Longrightarrow>
     stored_config lib dir fs' = stored_config lib dir fs"
  by (cases "fs (join_path dir ''config.json'')")
    (simp_all add: stored_config_def load_config_def load_def read_file_def io_step_quiet Let_def)

lemma stored_token_same:
  "fs' (join_path dir ''secrets.dpapi'') = fs (join_path dir ''secrets.dpapi'') \<Longrightarrow>
     stored_token lib dir fs' t = stored_token lib dir fs t"
  by (simp add: stored_token_def)

lemma stored_config_written:
  assumes "codecs_ok lib" and "config_ok c" and "rl_encode lib c = Some encoded"
    and "fs (join_path dir ''config.json'') = Some (encoded @ [CHR 0x0A])"
  shows "stored_config lib dir fs = c"
proof -
  have "rl_decode lib (encoded @ [CHR 0x0A]) = Some c" using assms(1-3) by (auto simp: codecs_ok_def)
  moreover have "validate c = Inr ()" using assms(2) by (simp add: validate_iff)
  ultimately show ?thesis
    using assms(4) by (simp add: stored_config_def load_config_def load_def read_file_def io_step_quiet)
qed

lemma stored_config_ok: "config_ok (stored_config lib dir fs)"
  unfolding stored_config_def by (rule load_config_ok) (rule surjective_pairing)

lemma syncedE:
  assumes "synced lib dir t d"
  obtains c s where "rt_config d = Sound c" "rt_secrets d = Sound s" "se_token s = t"
    "locks_sound (rt_dispatcher d)" "disk_holds lib (rt_directory d) (files (os_world d)) c t"
    "rt_directory d = dir"
  using assms by (auto simp: synced_def split: lock.splits)

lemma synced_frame:
  assumes "synced lib dir t d"
    and "rt_config d' = rt_config d" "rt_secrets d' = rt_secrets d" "rt_directory d' = rt_directory d"
      "locks_sound (rt_dispatcher d) \<Longrightarrow> locks_sound (rt_dispatcher d')"
    and "\<And>name. name \<in> {''config.json'', ''secrets.dpapi''} \<Longrightarrow>
      files (os_world d') (join_path (rt_directory d) name) = files (os_world d) (join_path (rt_directory d) name)"
  shows "synced lib dir t d'"
proof -
  have "files (os_world d') (config_path d) = files (os_world d) (config_path d)"
    "files (os_world d') (secrets_path d) = files (os_world d) (secrets_path d)"
    using assms(6) by simp_all
  then show ?thesis
    using assms(1-5) stored_config_same [of "files (os_world d')" "rt_directory d" "files (os_world d)" lib]
      stored_token_same [of "files (os_world d')" "rt_directory d" "files (os_world d)" lib t]
    by (auto simp: synced_def disk_holds_def split: lock.splits)
qed

lemma synced_quiet: "synced lib dir t d \<Longrightarrow> quiet d rs \<Longrightarrow> synced lib dir t (snd rs)"
  by (erule synced_frame) (auto simp: quiet_def dest: core_fields)

lemma synced_listener: "synced lib dir t (d\<lparr>rt_listener := l\<rparr>) = synced lib dir t d"
  by (cases "rt_config d"; cases "rt_secrets d") (simp_all add: synced_def)

text \<open>Secrets with the same token are as good.\<close>

lemma synced_secrets:
  assumes "synced lib dir t d" and "se_token s' = t"
  shows "synced lib dir t (d\<lparr>rt_secrets := Sound s'\<rparr>)"
  using assms by (auto simp: synced_def split: lock.splits)

text \<open>Storing the configuration: the disk first, then the memory.\<close>

lemma disk_holds_config:
  assumes "codecs_ok lib" and "save_config lib c' d = (Inr (), d')"
    and "disk_holds lib (rt_directory d) (files (os_world d)) c t"
  shows "disk_holds lib (rt_directory d) (files (os_world d')) c' t"
proof -
  obtain encoded where saved: "config_ok c'" "rl_encode lib c' = Some encoded"
    "files (os_world d') = (files (os_world d))(config_path d \<mapsto> encoded @ [CHR 0x0A])"
    using save_config_Inr [OF assms(2)] by blast
  have "stored_config lib (rt_directory d) (files (os_world d')) = c'"
    by (rule stored_config_written [OF assms(1) saved(1,2)]) (simp add: saved(3))
  moreover have "stored_token lib (rt_directory d) (files (os_world d')) t"
    using assms(3) by (simp add: disk_holds_def saved(3) stored_token_def)
  ultimately show ?thesis by (simp add: disk_holds_def saved(3))
qed

lemma synced_commit:
  assumes "codecs_ok lib" and "synced lib dir t d" and "save_config lib c' d = (Inr (), d')"
  shows "synced lib dir t (snd (commit_config c' (d'\<lparr>rt_listener := l\<rparr>)))"
    and "fst (commit_config c' (d'\<lparr>rt_listener := l\<rparr>)) = Inr ()"
proof -
  from assms(2) obtain c s where mem: "rt_config d = Sound c" "rt_secrets d = Sound s" "se_token s = t"
    "locks_sound (rt_dispatcher d)" "disk_holds lib (rt_directory d) (files (os_world d)) c t" "rt_directory d = dir"
    by (rule syncedE)
  have "config_ok c'" and core: "core d' = core d" using save_config_Inr [OF assms(3)] by auto
  then have commit: "commit_config c' (d'\<lparr>rt_listener := l\<rparr>) = (Inr (), with_config c' (d'\<lparr>rt_listener := l\<rparr>))"
    using mem(1,4) core_fields [OF core] by (intro commit_config_ok [of _ c]) simp_all
  then show "fst (commit_config c' (d'\<lparr>rt_listener := l\<rparr>)) = Inr ()" by simp
  show "synced lib dir t (snd (commit_config c' (d'\<lparr>rt_listener := l\<rparr>)))"
    using disk_holds_config [OF assms(1,3) mem(5)] mem core_fields [OF core]
    by (simp add: commit synced_def with_config_def) (simp add: locks_sound_def)
qed

lemma synced_save_failed: "synced lib dir t d \<Longrightarrow> save_config lib c' d = (Inl e, d') \<Longrightarrow> synced lib dir t d'"
  using synced_quiet [of lib dir t d "(Inl e, d')"] save_config_Inl by (simp add: quiet_def)

lemma synced_store:
  assumes "codecs_ok lib" and "synced lib dir t d"
  shows "synced lib dir t (snd (store_config lib c' d))"
proof (cases "save_config lib c' d")
  case (Pair r d')
  show ?thesis
  proof (cases r)
    case (Inl e)
    then show ?thesis using synced_save_failed [OF assms(2)] Pair by (simp add: store_config_def)
  next
    case (Inr u)
    then show ?thesis
      using synced_commit(1) [OF assms, of c' d' "rt_listener d'"] Pair by (simp add: store_config_def)
  qed
qed

text \<open>Storing the secrets.\<close>

lemma save_secrets_stores:
  assumes "save_secrets lib d = (Inr u, d')" and "rt_secrets d = Sound s"
  shows "stored_token lib (rt_directory d) (files (os_world d')) (se_token s)"
    and "files (os_world d') (config_path d) = files (os_world d) (config_path d)"
proof -
  obtain plain enc where saved: "rl_encode_secrets lib s = Some plain" "protect (rl_crypt lib) plain = Some enc"
    "files (os_world d') = (files (os_world d))(secrets_path d \<mapsto> enc)"
    using save_secrets_Inr [OF assms] by blast
  then show "stored_token lib (rt_directory d) (files (os_world d')) (se_token s)"
    unfolding stored_token_def by (intro exI [of _ s] exI [of _ plain] exI [of _ enc]) simp
  show "files (os_world d') (config_path d) = files (os_world d) (config_path d)" by (simp add: saved(3))
qed

lemma disk_holds_secrets:
  assumes "save_secrets lib d = (Inr u, d')" and "rt_secrets d = Sound s"
    and "disk_holds lib (rt_directory d) (files (os_world d)) c t"
  shows "disk_holds lib (rt_directory d) (files (os_world d')) c (se_token s)"
  using save_secrets_stores [OF assms(1,2)] assms(3)
    stored_config_same [of "files (os_world d')" "rt_directory d" "files (os_world d)" lib]
  by (simp add: disk_holds_def)

lemma synced_save_secrets:
  assumes "synced lib dir t d"
  shows "synced lib dir t (snd (save_secrets lib d))"
proof (cases "save_secrets lib d")
  case (Pair r d')
  from assms obtain c s where mem: "rt_config d = Sound c" "rt_secrets d = Sound s" "se_token s = t"
    "locks_sound (rt_dispatcher d)" "disk_holds lib (rt_directory d) (files (os_world d)) c t" "rt_directory d = dir"
    by (rule syncedE)
  note core = save_secrets_core [OF Pair]
  show ?thesis
  proof (cases r)
    case (Inl e)
    then show ?thesis
      using synced_quiet [OF assms, of "(r, d')"] save_secrets_failed Pair by (simp add: quiet_def)
  next
    case (Inr u)
    then show ?thesis
      using disk_holds_secrets [OF Pair [unfolded Inr] mem(2,5)] mem core_fields [OF core] Pair
      by (simp add: synced_def)
  qed
qed

section \<open>Every operation keeps memory and disk together\<close>

lemma synced_then:
  "synced lib dir t (snd rs) \<Longrightarrow> (\<And>a d. rs = (Inr a, d) \<Longrightarrow> synced lib dir t d \<Longrightarrow> synced lib dir t (snd (f a d)))
     \<Longrightarrow> synced lib dir t (snd (st_then rs f))"
  by (cases rs; cases "fst rs") auto

lemma synced_match:
  "synced lib dir t (snd rs) \<Longrightarrow> (\<And>e d. rs = (Inl e, d) \<Longrightarrow> synced lib dir t d \<Longrightarrow> synced lib dir t (snd (f e d)))
     \<Longrightarrow> (\<And>a d. rs = (Inr a, d) \<Longrightarrow> synced lib dir t d \<Longrightarrow> synced lib dir t (snd (g a d)))
     \<Longrightarrow> synced lib dir t (snd (st_match rs f g))"
  by (cases rs; cases "fst rs") auto

lemma synced_failed: "synced lib dir t (snd rs) \<Longrightarrow> synced lib dir t (snd (failed rs))"
  by (cases rs; cases "fst rs") (simp_all add: failed_def)

lemma synced_take_and_stop: "synced lib dir t d \<Longrightarrow> synced lib dir t (snd (take_and_stop d))"
  using synced_quiet [OF _ quiet_io, of lib dir t "d\<lparr>rt_listener := None\<rparr>"]
  by (auto simp: take_and_stop_def synced_listener intro: synced_then split: option.split)

lemma synced_startup: "synced lib dir t d \<Longrightarrow> synced lib dir t (snd (configure_startup b d))"
  by (rule synced_quiet [OF _ configure_startup_quiet])

lemma synced_start_listener: "synced lib dir t d \<Longrightarrow> synced lib dir t (snd (start_listener c d))"
  by (rule synced_quiet [OF _ start_listener_quiet])

lemma synced_save_actions:
  "codecs_ok lib \<Longrightarrow> synced lib dir t d \<Longrightarrow> synced lib dir t (snd (save_actions lib actions d))"
  unfolding save_actions_def Let_def by (auto intro!: synced_then synced_store)

lemma synced_apply_voice:
  "codecs_ok lib \<Longrightarrow> synced lib dir t d \<Longrightarrow> synced lib dir t (snd (apply_voice_config lib d))"
  unfolding apply_voice_config_def by (auto intro!: synced_then synced_store split: prod.split)

lemma synced_set_startup:
  assumes "codecs_ok lib" and "synced lib dir t d"
  shows "synced lib dir t (snd (set_start_after_login lib b d))"
  unfolding set_start_after_login_def Let_def
proof (rule synced_then [OF synced_startup [OF assms(2)]])
  fix a d1 assume d1: "synced lib dir t d1"
  let ?c = "(config_of d)\<lparr>ac_start_after_login := b\<rparr>"
  show "synced lib dir t (snd (st_match (save_config lib ?c d1)
      (\<lambda>e da. (Inl e, snd (configure_startup (ac_start_after_login (config_of d)) da)))
      (\<lambda>_ d. commit_config ?c d)))"
  proof (rule st_match_rule)
    fix e d2 assume "save_config lib ?c d1 = (Inl e, d2)"
    then show "synced lib dir t (snd (Inl e, snd (configure_startup (ac_start_after_login (config_of d)) d2)))"
      using synced_save_failed [OF d1] synced_startup by simp
  next
    fix u d2 assume "save_config lib ?c d1 = (Inr u, d2)"
    then show "synced lib dir t (snd (commit_config ?c d2))"
      using synced_commit(1) [OF assms(1) d1, of ?c d2 "rt_listener d2"] by simp
  qed
qed

lemma synced_set_listener:
  assumes "codecs_ok lib" and "synced lib dir t d"
  shows "synced lib dir t (snd (set_listener lib b d))"
proof -
  let ?c = "(config_of d)\<lparr>ac_listener_enabled := b\<rparr>"
  have on: "synced lib dir t (snd (st_match (start_listener ?c d)
            (\<lambda>_ d. failed (store_config lib (?c\<lparr>ac_listener_enabled := False\<rparr>) d))
            (\<lambda>listener d.
          st_match (save_config lib ?c d)
            (\<lambda>e d. (Inl e, snd (call_os d)))
            (\<lambda>_ d. commit_config ?c (d\<lparr>rt_listener := Some listener\<rparr>)))))"
  proof (rule synced_match [OF synced_start_listener [OF assms(2)]])
    fix e d1 assume "synced lib dir t d1"
    then show "synced lib dir t (snd (failed (store_config lib (?c\<lparr>ac_listener_enabled := False\<rparr>) d1)))"
      by (intro synced_failed synced_store assms(1))
  next
    fix l d1 assume d1: "synced lib dir t d1"
    show "synced lib dir t (snd (st_match (save_config lib ?c d1)
            (\<lambda>e d. (Inl e, snd (call_os d)))
            (\<lambda>_ d. commit_config ?c (d\<lparr>rt_listener := Some l\<rparr>))))"
    proof (rule st_match_rule)
      fix e d2 assume "save_config lib ?c d1 = (Inl e, d2)"
      then show "synced lib dir t (snd (Inl e, snd (call_os d2)))"
        using synced_save_failed [OF d1] synced_quiet [OF _ quiet_io] by simp
    next
      fix u d2 assume "save_config lib ?c d1 = (Inr u, d2)"
      then show "synced lib dir t (snd (commit_config ?c (d2\<lparr>rt_listener := Some l\<rparr>)))"
        using synced_commit(1) [OF assms(1) d1] by simp
    qed
  qed
  have off: "synced lib dir t (snd (st_then (take_and_stop d) (\<lambda>_ d. store_config lib ?c d)))"
    by (intro synced_then synced_take_and_stop synced_store assms)
  show ?thesis using on off assms(2) by (cases b) (simp_all add: set_listener_def Let_def)
qed

lemma synced_shutdown: "synced lib dir t d \<Longrightarrow> synced lib dir t (snd (shutdown d))"
  unfolding shutdown_def by (auto intro!: synced_then synced_take_and_stop)

lemma synced_export:
  assumes "synced lib dir t d"
  shows "synced lib dir t (snd (export_ca d))"
proof -
  obtain s where "rt_secrets d = Sound s" using assms by (rule syncedE)
  obtain r d' where out: "on_world (atomic_write (ca_path d) (se_ca_certificate_pem s)) d = (r, d')" by fastforce
  have "files (os_world d') = files (os_world d)
      \<or> files (os_world d') = (files (os_world d))(ca_path d \<mapsto> se_ca_certificate_pem s)"
    using out atomic_write_Inr atomic_write_Inl by (cases r) (fastforce simp: on_world_Inr on_world_Inl)+
  then have "synced lib dir t d'"
    using core_fields [OF on_world_core [OF out]] by (intro synced_frame [OF assms]) auto
  then show ?thesis
    using out \<open>rt_secrets d = Sound s\<close> by (cases r) (simp_all add: export_ca_def)
qed

lemma synced_rotate_tls:
  assumes "synced lib dir t d" and "rt_secrets d = Sound s"
  shows "synced lib dir t (snd (st_then (rotate_tls lib s a d) (\<lambda>s d. set_secrets s d)))"
proof (rule synced_then [OF synced_quiet [OF assms(1) rotate_tls_quiet]])
  fix s' d1 assume tls: "rotate_tls lib s a d = (Inr s', d1)" and d1: "synced lib dir t d1"
  have "se_token s' = t" using assms rotate_tls_Inr [OF tls] by (auto elim: syncedE)
  moreover have "set_secrets s' d1 = (Inr (), d1\<lparr>rt_secrets := Sound s'\<rparr>)"
    using rotate_tls_Inr [OF tls] core_fields(4) [of d1 d] assms(2) by (intro set_secrets_ok) simp
  ultimately show "synced lib dir t (snd (set_secrets s' d1))" using synced_secrets [OF d1] by simp
qed

lemma synced_set_secrets:
  assumes "synced lib dir t d" and "se_token s' = t"
  shows "synced lib dir t (snd (set_secrets s' d))"
proof -
  obtain s where "rt_secrets d = Sound s" using assms(1) by (rule syncedE)
  then show ?thesis using synced_secrets [OF assms] by (simp add: set_secrets_ok)
qed

lemma synced_reconfigure:
  assumes "codecs_ok lib" and "synced lib dir t d"
  shows "synced lib dir t (snd (reconfigure lib a p free d))"
proof -
  obtain s where s: "rt_secrets d = Sound s" "se_token s = t" using assms(2) by (rule syncedE)
  let ?c = "(config_of d)\<lparr>ac_bind_address := a, ac_port := p\<rparr>"
  have stored: "synced lib dir t (snd (st_match (save_config lib ?c d1)
          (\<lambda>e d. st_then (set_secrets s d) (\<lambda>_ d. (Inl e, snd (save_secrets lib d))))
          (\<lambda>_ d. commit_config ?c d)))" if d1: "synced lib dir t d1" for d1
  proof (rule st_match_rule)
    fix e d2 assume "save_config lib ?c d1 = (Inl e, d2)"
    then have "synced lib dir t d2" by (rule synced_save_failed [OF d1])
    then show "synced lib dir t (snd (st_then (set_secrets s d2) (\<lambda>_ d. (Inl e, snd (save_secrets lib d)))))"
      by (auto intro!: synced_then synced_set_secrets synced_save_secrets s)
  next
    fix u d2 assume "save_config lib ?c d1 = (Inr u, d2)"
    then show "synced lib dir t (snd (commit_config ?c d2))"
      using synced_commit(1) [OF assms(1) d1, of ?c d2 "rt_listener d2"] by simp
  qed
  let ?rest = "\<lambda>_ d. st_match (save_secrets lib d)
          (\<lambda>e d. st_then (set_secrets s d) (\<lambda>_ d. (Inl e, d)))
          (\<lambda>_ d. st_match (save_config lib ?c d)
          (\<lambda>e d. st_then (set_secrets s d) (\<lambda>_ d. (Inl e, snd (save_secrets lib d))))
          (\<lambda>_ d. commit_config ?c d))"
  have rest: "synced lib dir t (snd (?rest u d1))" if "synced lib dir t d1" for u :: unit and d1
    by (rule synced_match [OF synced_save_secrets [OF that]])
      (auto intro!: synced_then synced_set_secrets s(2) intro: stored)
  have "synced lib dir t (snd (if se_host s \<noteq> ip_to_string a
           then st_then (rotate_tls lib s a d) (\<lambda>s d. set_secrets s d) else (Inr (), d)))"
    using synced_rotate_tls [OF assms(2) s(1)] assms(2) by simp
  note all = synced_then [OF this, of ?rest, OF rest]
  show ?thesis
    using all assms(2) s(1) by (cases "validate ?c") (simp_all add: reconfigure_def Let_def)
qed

text \<open>The rotation replaces the token on both sides, or on neither.\<close>

lemma synced_restart: "synced lib dir t d \<Longrightarrow> synced lib dir t (snd (restart was c d))"
  by (auto simp: restart_def synced_listener intro!: synced_then synced_start_listener)

lemma synced_swap:
  assumes "codecs_ok lib" and "synced lib dir t d" and "rt_secrets d = Sound s"
  shows "\<exists>t'. synced lib dir t' (snd (st_match (save_secrets lib (d\<lparr>rt_secrets := Sound s'\<rparr>))
          (\<lambda>_ d. st_then (set_secrets s d) (\<lambda>_ d. failed (restart was c d)))
          (\<lambda>_ d.
             if \<not> was then (Inr (), d)
             else
               st_match (start_listener c d)
                 (\<lambda>_ d. failed (store_config lib (c\<lparr>ac_listener_enabled := False\<rparr>) d))
                 (\<lambda>listener d. (Inr (), d\<lparr>rt_listener := Some listener\<rparr>)))))"
proof (cases "save_secrets lib (d\<lparr>rt_secrets := Sound s'\<rparr>)")
  case (Pair r d1)
  note core = core_fields [OF save_secrets_core [OF Pair]]
  show ?thesis
  proof (cases r)
    case (Inl e)
    have "synced lib dir t (d1\<lparr>rt_secrets := Sound s\<rparr>)"
      using save_secrets_failed [OF Pair [unfolded Inl]] core assms(3)
      by (intro synced_frame [OF assms(2)]) simp_all
    moreover have "set_secrets s d1 = (Inr (), d1\<lparr>rt_secrets := Sound s\<rparr>)"
      using core by (intro set_secrets_ok) simp
    ultimately have "synced lib dir t (snd (st_then (set_secrets s d1) (\<lambda>_ d. failed (restart was c d))))"
      by (simp add: synced_failed synced_restart)
    then show ?thesis using Pair Inl by auto
  next
    case (Inr u)
    from assms(2) obtain cc where mem: "rt_config d = Sound cc" "locks_sound (rt_dispatcher d)"
      "disk_holds lib (rt_directory d) (files (os_world d)) cc t" "rt_directory d = dir" by (rule syncedE)
    have "disk_holds lib (rt_directory d) (files (os_world d1)) cc (se_token s')"
      using disk_holds_secrets [OF Pair [unfolded Inr], of s' cc t] mem(3) by simp
    then have d1: "synced lib dir (se_token s') d1" using mem core by (simp add: synced_def)
    have "synced lib dir (se_token s') (snd (st_match (start_listener c d1)
                 (\<lambda>_ d. failed (store_config lib (c\<lparr>ac_listener_enabled := False\<rparr>) d))
                 (\<lambda>listener d. (Inr (), d\<lparr>rt_listener := Some listener\<rparr>))))"
      by (rule synced_match [OF synced_start_listener [OF d1]])
        (auto simp: synced_listener intro: synced_failed synced_store assms(1))
    then show ?thesis using Pair Inr d1 by (intro exI [of _ "se_token s'"]) simp
  qed
qed

lemma synced_rotate:
  assumes "codecs_ok lib" and "synced lib dir t d"
  shows "\<exists>t'. synced lib dir t' (snd (rotate_credentials lib d))"
proof -
  let ?c = "config_of d"
  obtain r1 d1 where stop: "take_and_stop d = (r1, d1)" by fastforce
  have d1: "synced lib dir t d1" using synced_take_and_stop [OF assms(2)] stop by simp
  obtain r2 d2 where fresh: "new_secrets lib ?c d1 = (r2, d2)" by fastforce
  have d2: "synced lib dir t d2" using synced_quiet [OF d1 new_secrets_quiet [of d1 lib ?c]] fresh by simp
  then obtain s where s: "rt_secrets d2 = Sound s" by (rule syncedE)
  show ?thesis
  proof (cases r1)
    case (Inl e)
    then show ?thesis using stop d1 by (auto simp: rotate_credentials_def)
  next
    case (Inr was)
    show ?thesis
    proof (cases r2)
      case (Inl e)
      have "synced lib dir t (snd (failed (restart was ?c d2)))" by (intro synced_failed synced_restart d2)
      then show ?thesis using stop Inr fresh Inl by (auto simp: rotate_credentials_def)
    next
      case (Inr s')
      show ?thesis
        using synced_swap [OF assms(1) d2 s, of s' was ?c] stop \<open>r1 = Inr was\<close> fresh Inr s
        by (simp add: rotate_credentials_def Let_def set_secrets_ok [OF s])
    qed
  qed
qed

section \<open>Requests\<close>

lemma synced_put:
  assumes "synced lib dir t d" and "state_keeps (http_state_of d l) state"
  shows "synced lib dir t (put_http_state state d)"
  by (rule synced_frame [OF assms(1)])
    (use assms(2) in \<open>auto simp: put_http_state_def state_keeps_def http_state_of_def dispatcher_keeps_def\<close>)

lemma synced_files:
  "synced lib dir t (d\<lparr>os_world := w\<rparr>) = synced lib dir t d" if "files w = files (os_world d)"
  using that by (cases "rt_config d"; cases "rt_secrets d") (simp_all add: synced_def)

text \<open>A configuration written by a handler, with the memory following or not.\<close>

lemma disk_holds_written:
  assumes "codecs_ok lib" and "disk_holds lib dir fs c t" and "config_ok c'" and "rl_encode lib c' = Some encoded"
    and "ahead c' c''"
  shows "disk_holds lib dir (fs(join_path dir ''config.json'' \<mapsto> encoded @ [CHR 0x0A])) c'' t"
proof -
  have "stored_config lib dir (fs(join_path dir ''config.json'' \<mapsto> encoded @ [CHR 0x0A])) = c'"
    by (rule stored_config_written [OF assms(1,3,4)]) simp
  then show ?thesis using assms(2,5) by (simp add: disk_holds_def stored_token_def)
qed

lemma synced_acknowledged:
  assumes "codecs_ok lib" and "synced lib dir t d" and "rt_config d = Sound c"
    and "ac_published_voice c = Some p" and "config_ok (with_acknowledged c (pv_revision p))"
    and "rl_encode lib (with_acknowledged c (pv_revision p)) = Some encoded"
    and "files w = (files (os_world d))(config_path d \<mapsto> encoded @ [CHR 0x0A])"
  shows "synced lib dir t ((with_config (with_acknowledged c (pv_revision p)) d)\<lparr>os_world := w\<rparr>)"
    and "synced lib dir t (d\<lparr>os_world := w\<rparr>)"
proof -
  from assms(2,3) obtain s where mem: "rt_secrets d = Sound s" "se_token s = t"
    "locks_sound (rt_dispatcher d)" "disk_holds lib (rt_directory d) (files (os_world d)) c t" "rt_directory d = dir"
    by (auto elim: syncedE)
  note disk = disk_holds_written [OF assms(1) mem(4) assms(5,6)]
  show "synced lib dir t ((with_config (with_acknowledged c (pv_revision p)) d)\<lparr>os_world := w\<rparr>)"
    using mem assms(7) disk [of "with_acknowledged c (pv_revision p)"]
    by (simp add: synced_def with_config_def locks_sound_def)
  have "ahead (with_acknowledged c (pv_revision p)) c" using assms(4) by (simp add: ahead_def)
  then show "synced lib dir t (d\<lparr>os_world := w\<rparr>)"
    using mem assms(3,7) disk [of c] by (simp add: synced_def)
qed

lemma acknowledged_revision:
  assumes "acknowledged_on_disk hlib c revision d l w" and "rt_config d = Sound c"
  obtains p encoded where "ac_published_voice c = Some p" "revision = pv_revision p"
    "config_ok (with_acknowledged c (pv_revision p))" "lb_encode hlib (with_acknowledged c (pv_revision p)) = Some encoded"
    "files w = (files (os_world d))(config_path d \<mapsto> encoded @ [CHR 0x0A])"
  using assms by (auto simp: acknowledged_on_disk_def ack_check_Inr http_state_of_def split: option.splits)

lemma synced_request:
  assumes codecs: "codecs_ok lib" and same: "lb_encode hlib = rl_encode lib"
    and inv: "daemon_inv c s d" and synced: "synced lib dir t d"
    and run: "serve_request web hlib exec free clock pace rq (d, x) = (response, (d', x'))"
  shows "synced lib dir t d'"
proof (cases "rt_listener d")
  case None
  then show ?thesis using run synced by (auto simp: serve_request_def)
next
  case (Some l)
  have l: "ln_config_path l = config_path d"
    using daemon_invD(7) [OF inv] Some by (simp add: listener_ok_def)
  obtain state w where call: "router_call web hlib exec free clock pace rq (http_state_of d l, x, os_world d)
      = (response, state, x', w)"
    and d': "d' = (put_http_state state d)\<lparr>os_world := w\<rparr>"
    using run Some by (auto simp: serve_request_def Let_def split: prod.splits)
  have kept: "synced lib dir t d'" if "state_keeps (http_state_of d l) state" "files w = files (os_world d)"
    using synced_put [OF synced that(1)] that(2) by (simp add: d' synced_files put_http_state_def)
  consider (untouched) "state = http_state_of d l" "w = os_world d"
    | (called) e body out where
        "endpoint_call hlib exec free clock pace (rq_headers rq) e body (http_state_of d l, x, os_world d)
          = (out, state, x', w)"
    using call by (auto simp: router_call_def Let_def split: sum.splits prod.splits)
  then show ?thesis
  proof cases
    case untouched
    then show ?thesis using kept state_keeps_refl by simp
  next
    case called
    show ?thesis
    proof (cases "e = VoiceConfigAckEndpoint")
      case False
      then have "state_keeps (http_state_of d l) state \<and> w = os_world d"
        using called
        by (cases e) (auto simp: endpoint_call_def Let_def state_keeps_refl dest: media_call_keeps custom_call_keeps
            split: prod.splits)
      then show ?thesis using kept by simp
    next
      case True
      then have "ack_call hlib pace (rq_headers rq) body (http_state_of d l, os_world d) = (out, state, w)"
        using called by (auto simp: endpoint_call_def Let_def split: prod.splits)
      then show ?thesis
      proof (cases rule: ack_call_cases [OF inv l, consumes 1, case_names unchanged committed cut])
        case unchanged
        then show ?thesis using kept state_keeps_refl by simp
      next
        case (committed revision)
        from committed(2) daemon_invD(1) [OF inv] show ?thesis
          by (rule acknowledged_revision)
            (use synced_acknowledged(1) [OF codecs synced daemon_invD(1) [OF inv]] committed(3) same in \<open>simp add: d'\<close>)
      next
        case (cut revision)
        from cut(2) daemon_invD(1) [OF inv] show ?thesis
          by (rule acknowledged_revision)
            (use synced_acknowledged(2) [OF codecs synced daemon_invD(1) [OF inv]] cut(3) same in \<open>simp add: d'\<close>)
      qed
    qed
  qed
qed

lemma synced_handlers:
  assumes "synced lib dir t d"
  shows "synced lib dir t (fst (snd (serve_media hlib exec free clock headers body (d, x))))"
    and "synced lib dir t (fst (snd (serve_custom hlib exec free clock headers body (d, x))))"
    and "synced lib dir t (fst (snd (runtime_test_action exec i free (d, x))))"
proof -
  show "synced lib dir t (fst (snd (serve_media hlib exec free clock headers body (d, x))))"
  proof (cases "rt_listener d")
    case (Some l)
    obtain response state x' where m: "media hlib exec free clock headers body (http_state_of d l, x) = (response, state, x')"
      by (metis prod_cases3)
    show ?thesis using synced_put [OF assms media_keeps [OF m]] Some m by (simp add: serve_media_def)
  qed (use assms in \<open>simp add: serve_media_def\<close>)
  show "synced lib dir t (fst (snd (serve_custom hlib exec free clock headers body (d, x))))"
  proof (cases "rt_listener d")
    case (Some l)
    obtain response state x' where m: "custom_action_handler hlib exec free clock headers body (http_state_of d l, x)
        = (response, state, x')" by (metis prod_cases3)
    show ?thesis using synced_put [OF assms custom_keeps [OF m]] Some m by (simp add: serve_custom_def)
  qed (use assms in \<open>simp add: serve_custom_def\<close>)
  obtain r dispatcher x' where run: "test_action exec i free (rt_dispatcher d, x) = (r, dispatcher, x')"
    by (metis prod_cases3)
  have "synced lib dir t (d\<lparr>rt_dispatcher := dispatcher\<rparr>)"
    by (rule synced_frame [OF assms]) (use dispatch_keeps(3) [OF run] in \<open>auto simp: dispatcher_keeps_def\<close>)
  then show "synced lib dir t (fst (snd (runtime_test_action exec i free (d, x))))"
    using run by (simp add: runtime_test_action_def)
qed

lemma synced_ack:
  assumes codecs: "codecs_ok lib" and same: "lb_encode hlib = rl_encode lib"
    and inv: "daemon_inv c s d" and synced: "synced lib dir t d"
  shows "synced lib dir t (fst (snd (serve_ack hlib headers body (d, x))))"
proof (cases "rt_listener d")
  case None
  then show ?thesis using synced by (simp add: serve_ack_def)
next
  case (Some l)
  have l: "ln_config_path l = config_path d"
    using daemon_invD(7) [OF inv] Some by (simp add: listener_ok_def)
  obtain response state w where ack: "voice_config_ack hlib headers body (http_state_of d l, os_world d) = (response, state, w)"
    by (metis prod_cases3)
  have step: "fst (snd (serve_ack hlib headers body (d, x))) = (put_http_state state d)\<lparr>os_world := w\<rparr>"
    using Some ack by (simp add: serve_ack_def)
  from ack_cases [OF inv l ack] show ?thesis
  proof
    assume "state = http_state_of d l \<and> files w = files (os_world d)"
    then show ?thesis using step synced by (simp add: synced_files)
  next
    assume "\<exists>revision encoded. ack_request hlib headers body (http_state_of d l) = Inr revision
         \<and> ack_check hlib revision (http_state_of d l) = Inr (config_path d, with_acknowledged c revision)
         \<and> put_http_state state d = with_config (with_acknowledged c revision) d
         \<and> config_ok (with_acknowledged c revision)
         \<and> lb_encode hlib (with_acknowledged c revision) = Some encoded
         \<and> files w = (files (os_world d))(config_path d \<mapsto> encoded @ [CHR 0x0A])
         \<and> response = json hlib 200 (VoiceAckReply revision ''active'')"
    then obtain revision encoded where put: "put_http_state state d = with_config (with_acknowledged c revision) d"
      and disk: "acknowledged_on_disk hlib c revision d l w"
      by (auto simp: acknowledged_on_disk_def)
    from disk daemon_invD(1) [OF inv] show ?thesis
      by (rule acknowledged_revision)
        (use synced_acknowledged(1) [OF codecs synced daemon_invD(1) [OF inv]] put step same in simp)
  qed
qed

lemma synced_rotates:
  assumes "codecs_ok lib" and "lb_encode hlib = rl_encode lib" and "daemon_ok (fst s)" and "synced lib dir t (fst s)"
  shows "ev \<noteq> Inl Rotate \<Longrightarrow> synced lib dir t (fst (server_step web lib hlib exec s ev))"
    and "\<exists>t'. synced lib dir t' (fst (server_step web lib hlib exec s ev))"
proof -
  obtain d x where s: "s = (d, x)" by fastforce
  obtain c se where inv: "daemon_inv c se d" using assms(3) daemon_ok_inv by (auto simp: s)
  have synced: "synced lib dir t d" using assms(4) by (simp add: s)
  note handlers = synced_handlers [OF synced] synced_ack [OF assms(1,2) inv synced]
  have request: "synced lib dir t (fst (serve_arrival web hlib exec s a))" for a
    using synced_request [OF assms(1,2) inv synced]
    by (cases a; cases "serve_request web hlib exec (fst a) (fst (snd a)) (fst (snd (snd a))) (snd (snd (snd a))) (d, x)")
      (auto simp: s serve_arrival_def)
  have op: "synced lib dir t (fst (system_step lib hlib exec s op))" if "op \<noteq> Rotate" for op
    using that assms(1) synced handlers
    by (cases op)
      (simp_all add: s synced_save_actions synced_apply_voice synced_set_startup synced_set_listener
        synced_reconfigure synced_export synced_shutdown)
  show kept: "synced lib dir t (fst (server_step web lib hlib exec s ev))" if "ev \<noteq> Inl Rotate"
    using that request op by (cases ev) (auto simp: server_step_def)
  show "\<exists>t'. synced lib dir t' (fst (server_step web lib hlib exec s ev))"
  proof (cases "ev = Inl Rotate")
    case True
    then show ?thesis using synced_rotate [OF assms(1) synced] by (simp add: s server_step_def)
  qed (use kept in blast)
qed

end
