(* ===== verification/Daemon_Restart.thy ===== *)
theory Daemon_Restart
  imports Daemon_Disk
begin

text \<open>
  The daemon over many lives (\<open>WindowsRuntime::load\<close> in windows\_runtime.rs): it is installed, works,
  fails, crashes at any point, also while it starts, and is started again on the files it left.
  Reached states are the inductive predicates \<open>carries_on\<close> and \<open>lived\<close>; what holds in all of them is
  \<open>recoverable\<close>.
\<close>

section \<open>Lives\<close>

abbreviation home :: "path \<Rightarrow> path" where
  "home base \<equiv> join_path base ''Esp32MediaDaemon''"

text \<open>\<open>restarted\<close>: a start of the program, without failures, on the files that were left.\<close>

definition restarted ::
  "runtime_lib \<Rightarrow> path \<Rightarrow> (path \<Rightarrow> string option) \<Rightarrow> bool \<Rightarrow> nat \<Rightarrow> (runtime_error, unit) result \<times> daemon" where
  "restarted lib base fs startup draws = load_runtime lib (Some base) \<lparr>files = fs, answers = []\<rparr> startup draws"

text \<open>
  \<open>cut_start\<close>: the machine goes down after \<open>k\<close> calls of a start, so that every later call fails. A
  start makes fewer than 32 calls.
\<close>

definition cut_start ::
  "runtime_lib \<Rightarrow> path \<Rightarrow> (path \<Rightarrow> string option) \<Rightarrow> nat \<Rightarrow> io_kind \<Rightarrow> bool \<Rightarrow> nat
   \<Rightarrow> (runtime_error, unit) result \<times> daemon" where
  "cut_start lib base fs k e startup draws =
     load_runtime lib (Some base) \<lparr>files = fs, answers = replicate k None @ replicate 32 (Some e)\<rparr> startup draws"

text \<open>
  \<open>stumbling_start\<close>: a start whose first five calls succeed, with any failures later. When both files
  exist these five create the directory, find and read the configuration, and find and read the
  secrets, and the later ones write.
\<close>

definition stumbling_start ::
  "runtime_lib \<Rightarrow> path \<Rightarrow> (path \<Rightarrow> string option) \<Rightarrow> io_kind option list \<Rightarrow> bool \<Rightarrow> nat
   \<Rightarrow> (runtime_error, unit) result \<times> daemon" where
  "stumbling_start lib base fs as startup draws =
     load_runtime lib (Some base) \<lparr>files = fs, answers = replicate 5 None @ as\<rparr> startup draws"

text \<open>
  An event in the life of a process: the machine's next calls are given their answers, or an
  operation or a request runs. A crash inside an operation is the operation with answers that
  are all errors from some call on: what it did to the files is what it did before that call.
\<close>

datatype 'stream life_event = Calls "io_kind option list" | Runs "system_op + 'stream arrival"

fun life_step ::
  "'stream web_lib \<Rightarrow> runtime_lib \<Rightarrow> http_lib \<Rightarrow> 'x executor \<Rightarrow> 'x system \<Rightarrow> 'stream life_event \<Rightarrow> 'x system" where
  "life_step web lib hlib exec (d, x) (Calls as) = (d\<lparr>os_world := (os_world d)\<lparr>answers := as\<rparr>\<rparr>, x)"
| "life_step web lib hlib exec s (Runs ev) = server_step web lib hlib exec s ev"

text \<open>
  \<open>carries_on\<close>: what can become of a daemon, over any number of lives, while nobody asks it to
  rotate its credentials. Each start has its own random draws. A start either has no failure, or
  fails only after its readings, or is cut off: from some call on all its calls fail. A start that
  does not read what is there because a single call fails is not among them: that one makes new
  credentials (\<open>failed_read_unpairs\<close> below). After a start that failed or was cut off only the
  files have changed; the memory shown is that of the last process that ran.
\<close>

inductive carries_on ::
  "'stream web_lib \<Rightarrow> runtime_lib \<Rightarrow> http_lib \<Rightarrow> 'x executor \<Rightarrow> path \<Rightarrow> 'x system \<Rightarrow> 'x system \<Rightarrow> bool"
  for web lib hlib exec base s0 where
  Same: "carries_on web lib hlib exec base s0 s0"
| Event: "carries_on web lib hlib exec base s0 s \<Longrightarrow> ev \<noteq> Runs (Inl Rotate) \<Longrightarrow>
     carries_on web lib hlib exec base s0 (life_step web lib hlib exec s ev)"
| Start: "carries_on web lib hlib exec base s0 (d, x) \<Longrightarrow>
     restarted lib base (files (os_world d)) startup draws = (Inr (), d') \<Longrightarrow>
     carries_on web lib hlib exec base s0 (d', x')"
| Stumble: "carries_on web lib hlib exec base s0 (d, x) \<Longrightarrow>
     stumbling_start lib base (files (os_world d)) as startup draws = (r, d') \<Longrightarrow>
     carries_on web lib hlib exec base s0
       (case r of Inr _ \<Rightarrow> (d', x') | Inl _ \<Rightarrow> (d\<lparr>os_world := os_world d'\<rparr>, x))"
| Cut: "carries_on web lib hlib exec base s0 (d, x) \<Longrightarrow>
     cut_start lib base (files (os_world d)) k e startup draws = (r, d') \<Longrightarrow>
     carries_on web lib hlib exec base s0 (d\<lparr>os_world := os_world d'\<rparr>, x)"

text \<open>
  \<open>lived\<close>: the states of a daemon that was installed on any files, through any number of lives,
  rotations included.
\<close>

inductive lived ::
  "'stream web_lib \<Rightarrow> runtime_lib \<Rightarrow> http_lib \<Rightarrow> 'x executor \<Rightarrow> path \<Rightarrow> 'x system \<Rightarrow> bool"
  for web lib hlib exec base where
  Installed: "restarted lib base fs startup draws = (Inr (), d) \<Longrightarrow> lived web lib hlib exec base (d, x)"
| Rotated: "lived web lib hlib exec base s \<Longrightarrow>
     lived web lib hlib exec base (life_step web lib hlib exec s (Runs (Inl Rotate)))"
| Carried: "lived web lib hlib exec base s \<Longrightarrow> carries_on web lib hlib exec base s s' \<Longrightarrow>
     lived web lib hlib exec base s'"

section \<open>A start without failures\<close>

text \<open>Reading, when no call fails.\<close>

lemma load_config_quiet:
  assumes "answers w = []"
  shows "load_config lib (join_path dir ''config.json'') w = (stored_config lib dir (files w), w)"
  using assms
  by (cases w; cases "files w (join_path dir ''config.json'')")
    (auto simp: stored_config_def load_config_def load_def read_file_def io_step_quiet Let_def split: sum.split)

lemma read_secrets_quiet:
  assumes "codecs_ok lib" and "answers w = []" and "rl_encode_secrets lib s = Some plain"
    and "protect (rl_crypt lib) plain = Some enc" and "files w p = Some enc"
  shows "read_secrets lib p w = (Inr s, w)"
proof -
  have "length enc \<le> u32_max \<and> rl_crypt lib False enc = Some plain" and plain: "plain \<noteq> [] \<and> rl_decode_secrets lib plain = Some s"
    using assms(1,3) protect_Some [OF assms(4)] unfolding codecs_ok_def by blast+
  then have "unprotect (rl_crypt lib) enc = Some plain" by (simp add: unprotect_def transform_def)
  then show ?thesis using assms(2,5) plain by (simp add: read_secrets_def read_file_def io_step_quiet)
qed

lemma save_secrets_quiet:
  assumes "answers (os_world d) = []" and "path_has_parent (secrets_path d)" and "rt_secrets d = Sound s"
    and "rl_encode_secrets lib s = Some plain" and "protect (rl_crypt lib) plain = Some enc"
  shows "save_secrets lib d =
    (Inr (), d\<lparr>os_world := (os_world d)\<lparr>files := (files (os_world d))(secrets_path d \<mapsto> enc)\<rparr>\<rparr>)"
  using assms by (simp add: save_secrets_def on_world_def atomic_write_def io_step_quiet)

text \<open>
  The secrets of a start that finds and reads the stored ones: these, renewed when they belong to
  another address.
\<close>

lemma load_secrets_found:
  assumes "renewal_ok lib"
    and found: "file_exists (secrets_path d) (os_world d) = (True, w1)"
    and read: "read_secrets lib (secrets_path d) w1 = (Inr s, w2)"
    and "rl_encode_secrets lib s = Some plain" and "protect (rl_crypt lib) plain = Some enc"
    and "parse_token (se_token s) \<noteq> None" and "config_ok c"
  obtains s' plain' enc' n where "load_secrets lib c d = (Inr s', d\<lparr>os_world := w2, os_draws := n\<rparr>)"
    "se_token s' = se_token s" "rl_encode_secrets lib s' = Some plain'" "protect (rl_crypt lib) plain' = Some enc'"
proof -
  let ?a = "ac_bind_address c" and ?d = "d\<lparr>os_world := w2\<rparr>"
  have start: "load_secrets lib c d =
      (if se_host s \<noteq> ip_to_string ?a then rotate_tls lib s ?a ?d else (Inr s, ?d))"
    using found read assms(6) by (auto simp: load_secrets_def on_world_def)
  show thesis
  proof (cases "se_host s = ip_to_string ?a")
    case True
    show thesis by (rule that [of s "os_draws d" plain enc]) (use True start assms(4,5) in simp_all)
  next
    case False
    have "bind_allowed ?a" using assms(7) by (simp add: config_ok_def)
    then obtain tls plain' enc' where tls: "rl_provision lib (os_draws d) ?a = Some tls"
      "rl_encode_secrets lib (renewed s ?a tls) = Some plain'" "protect (rl_crypt lib) plain' = Some enc'"
      using assms(1,6) unfolding renewal_ok_def by blast
    have "rotate_tls lib s ?a ?d = (Inr (renewed s ?a tls), ?d\<lparr>os_draws := os_draws d + 1\<rparr>)"
      by (simp add: rotate_tls_def provision_def tls(1) renewed_def)
    then show thesis
      by (intro that [of "renewed s ?a tls" "os_draws d + 1" plain' enc']) (use False start tls in \<open>simp_all add: renewed_def\<close>)
  qed
qed

text \<open>After its five reading calls such a start only stores the secrets.\<close>

lemma start_reads:
  assumes "renewal_ok lib"
    and call: "io_step (\<lambda>_. RuntimeError) w = (Inr (), w0)"
    and config: "file_exists (join_path (home base) ''config.json'') w0 = (True, w1)"
      "load_config lib (join_path (home base) ''config.json'') w1 = (c, w2)"
    and secrets: "file_exists (join_path (home base) ''secrets.dpapi'') w2 = (True, w3)"
      "read_secrets lib (join_path (home base) ''secrets.dpapi'') w3 = (Inr s, w4)"
    and s: "rl_encode_secrets lib s = Some plain" "protect (rl_crypt lib) plain = Some enc"
      "parse_token (se_token s) \<noteq> None"
  obtains s' plain' enc' d where "load_runtime lib (Some base) w startup draws = save_secrets lib d"
    "rt_secrets d = Sound s'" "se_token s' = se_token s"
    "rl_encode_secrets lib s' = Some plain'" "protect (rl_crypt lib) plain' = Some enc'"
    "rt_config d = Sound c" "rt_listener d = None" "rt_directory d = home base" "os_world d = w4"
    "locks_sound (rt_dispatcher d)"
proof -
  let ?m = "machine (home base) w startup draws"
  have os: "os_world ?m = w" "rt_directory ?m = home base" by (simp_all add: machine_def)
  have c: "config_ok c" using load_config_ok [OF config(2)] by simp
  obtain s' plain' enc' n where loaded: "load_secrets lib c (?m\<lparr>os_world := w2\<rparr>) = (Inr s', ?m\<lparr>os_world := w4, os_draws := n\<rparr>)"
    "se_token s' = se_token s" "rl_encode_secrets lib s' = Some plain'" "protect (rl_crypt lib) plain' = Some enc'"
    by (rule load_secrets_found [OF assms(1) _ _ s c, of "?m\<lparr>os_world := w2\<rparr>" w3 w4])
      (use secrets os in simp_all)
  obtain dispatcher where dispatcher: "new_dispatcher c = Inr dispatcher"
    using c by (simp add: new_dispatcher_def validate_iff [symmetric])
  let ?d = "?m\<lparr>os_world := w4, os_draws := n, rt_dispatcher := dispatcher, rt_config := Sound c, rt_secrets := Sound s',
    rt_listener := None\<rparr>"
  have io: "call_os ?m = (Inr (), ?m\<lparr>os_world := w0\<rparr>)" using call by (simp add: on_world_def os)
  have "load_runtime lib (Some base) w startup draws = save_secrets lib ?d"
    using io config loaded(1) dispatcher by (simp add: load_runtime_def os)
  then show thesis
    by (rule that) (use loaded(2-4) os new_dispatcher_sound [OF dispatcher] in simp_all)
qed

lemma restart_succeeds:
  assumes "codecs_ok lib" and "renewal_ok lib" and "disk_holds lib (home base) fs c t"
    and "path_has_parent (join_path (home base) ''secrets.dpapi'')" and "parse_token t \<noteq> None"
  shows "\<exists>d s. restarted lib base fs startup draws = (Inr (), d) \<and> rt_secrets d = Sound s \<and> se_token s = t
    \<and> rt_config d = Sound (stored_config lib (home base) fs) \<and> rt_listener d = None"
proof -
  let ?w = "\<lparr>files = fs, answers = []\<rparr>"
  obtain s plain enc where s: "rl_encode_secrets lib s = Some plain" "protect (rl_crypt lib) plain = Some enc"
    "fs (join_path (home base) ''secrets.dpapi'') = Some enc" "se_token s = t"
    using assms(3) by (auto simp: disk_holds_def stored_token_def)
  obtain s' plain' enc' d where d: "load_runtime lib (Some base) ?w startup draws = save_secrets lib d"
    "rt_secrets d = Sound s'" "se_token s' = se_token s"
    "rl_encode_secrets lib s' = Some plain'" "protect (rl_crypt lib) plain' = Some enc'"
    "rt_config d = Sound (stored_config lib (home base) fs)" "rt_listener d = None" "rt_directory d = home base"
    "os_world d = ?w"
    by (rule start_reads [OF assms(2) _ _ _ _ _ s(1,2), of ?w ?w base ?w "stored_config lib (home base) fs" ?w ?w ?w startup draws])
      (use assms(3,5) s load_config_quiet [of ?w lib "home base"] read_secrets_quiet [OF assms(1) _ s(1,2)] in
        \<open>simp_all add: io_step_quiet file_exists_def ask_def disk_holds_def\<close>)
  then show ?thesis
    using save_secrets_quiet [of d s' lib plain' enc'] assms(4) s(4) by (simp add: restarted_def)
qed

text \<open>A start that succeeded leaves memory and disk together.\<close>

lemma read_secrets_files: "read_secrets lib p w = (r, w') \<Longrightarrow> files w' = files w"
  by (cases r) (auto simp: read_secrets_def read_file_def result_simps dest!: files_io_stepD)

lemma read_secrets_frame: "quiet d (on_world (read_secrets lib p) d)"
  by (cases "read_secrets lib p (os_world d)") (simp add: quiet_def on_world_def read_secrets_files)

lemma load_secrets_frame: "quiet d (load_secrets lib c d)"
proof -
  obtain present w where found: "file_exists (secrets_path d) (os_world d) = (present, w)" by fastforce
  have w: "files w = files (os_world d)"
    using found files_ask [of "os_world d"] by (cases "ask (os_world d)") (auto simp: file_exists_def)
  let ?d = "d\<lparr>os_world := w\<rparr>"
  have "quiet ?d (load_secrets lib c d)"
    unfolding load_secrets_def found Let_def prod.case
    by (intro quiet_then) (auto intro: quiet_match read_secrets_frame new_secrets_quiet rotate_tls_quiet quiet_refl)
  then show ?thesis by (simp add: quiet_def w)
qed

lemma atomic_write_parent: "atomic_write p contents w = (Inr u, w') \<Longrightarrow> path_has_parent p"
  by (auto simp: atomic_write_def split: if_splits)

lemma restarted_synced:
  assumes "codecs_ok lib" and "restarted lib base fs startup draws = (Inr (), d)"
  shows "\<exists>t. synced lib (home base) t d" and "path_has_parent (join_path (home base) ''secrets.dpapi'')"
proof -
  let ?w = "\<lparr>files = fs, answers = []\<rparr>" and ?c = "stored_config lib (home base) fs"
  let ?m = "machine (home base) ?w startup draws"
  have os: "os_world ?m = ?w" "rt_directory ?m = home base" by (simp_all add: machine_def)
  have same: "?m\<lparr>os_world := ?w\<rparr> = ?m" by (simp add: machine_def)
  have io: "call_os ?m = (Inr (), ?m)" by (simp add: on_world_def io_step_quiet os machine_def)
  let ?found = "fs (join_path (home base) ''config.json'') \<noteq> None"
  have "file_exists (join_path (home base) ''config.json'') ?w = (?found, ?w)"
    by (simp add: file_exists_def ask_def)
  moreover have "load_config lib (join_path (home base) ''config.json'') ?w = (?c, ?w)"
    using load_config_quiet [of ?w lib "home base"] by simp
  ultimately obtain s d2 dispatcher d3 where s: "load_secrets lib ?c ?m = (Inr s, d2)"
    and dispatcher: "new_dispatcher ?c = Inr dispatcher"
    and d3: "(let d = d2\<lparr>rt_dispatcher := dispatcher, rt_config := Sound ?c,
                       rt_secrets := Sound s, rt_listener := None\<rparr>
             in if ?found then (Inr (), d) else save_config lib ?c d) = (Inr (), d3)"
    and saved: "save_secrets lib d3 = (Inr (), d)"
    using assms(2) io by (auto simp: restarted_def load_runtime_def os same st_then_Inr map_err_Inr Let_def)
  let ?d = "d2\<lparr>rt_dispatcher := dispatcher, rt_config := Sound ?c, rt_secrets := Sound s, rt_listener := None\<rparr>"
  have d2: "files (os_world d2) = fs" "rt_directory d2 = home base"
    using quietD [OF load_secrets_frame s] core_fields(1) [of d2 ?m] os by simp_all
  have config: "files (os_world d3) (join_path (home base) ''config.json'') \<noteq> None
      \<and> stored_config lib (home base) (files (os_world d3)) = ?c \<and> core d3 = core ?d"
  proof (cases ?found)
    case True
    then show ?thesis using d3 d2(1) by auto
  next
    case False
    then have "save_config lib ?c ?d = (Inr (), d3)" using d3 by simp
    from save_config_Inr [OF this] obtain encoded where enc: "config_ok ?c" "core d3 = core ?d" "rl_encode lib ?c = Some encoded"
      "files (os_world d3) = fs(join_path (home base) ''config.json'' \<mapsto> encoded @ [CHR 0x0A])"
      using d2 by auto
    then show ?thesis
      using stored_config_written [OF assms(1) enc(1,3), of "files (os_world d3)" "home base"] by simp
  qed
  then have fields: "rt_directory d3 = home base" "rt_secrets d3 = Sound s" "rt_config d3 = Sound ?c"
    "rt_dispatcher d3 = dispatcher"
    using core_fields [of d3 ?d] d2(2) by simp_all
  note stores = save_secrets_stores [OF saved fields(2)] and core = core_fields [OF save_secrets_core [OF saved]]
  have "disk_holds lib (home base) (files (os_world d)) ?c (se_token s)"
    using stores config fields(1) stored_config_same [of "files (os_world d)" "home base" "files (os_world d3)" lib]
    by (simp add: disk_holds_def)
  then have "synced lib (home base) (se_token s) d"
    using core fields new_dispatcher_sound [OF dispatcher] by (simp add: synced_def)
  then show "\<exists>t. synced lib (home base) t d" ..
  show "path_has_parent (join_path (home base) ''secrets.dpapi'')"
    using saved fields(1,2) atomic_write_parent by (fastforce simp: save_secrets_def result_simps)
qed

section \<open>A start that is cut off\<close>

text \<open>\<open>failing\<close>: at least the next \<open>m\<close> calls fail; \<open>cutting\<close>: from the first that fails, \<open>m\<close> do.\<close>

definition failing :: "nat \<Rightarrow> world \<Rightarrow> bool" where
  "failing m w \<longleftrightarrow> (\<exists>n e. m \<le> n \<and> answers w = replicate n (Some e))"

definition cutting :: "nat \<Rightarrow> world \<Rightarrow> bool" where
  "cutting m w \<longleftrightarrow> (\<exists>k n e. m \<le> n \<and> answers w = replicate k None @ replicate n (Some e))"

lemma failing_mono: "failing m w \<Longrightarrow> n \<le> m \<Longrightarrow> failing n w"
  by (auto simp: failing_def intro: order_trans)

lemma cutting_mono: "cutting m w \<Longrightarrow> n \<le> m \<Longrightarrow> cutting n w"
  unfolding cutting_def by (meson order_trans)

lemma failing_ask:
  assumes "failing (Suc m) w" and "ask w = (a, w')"
  shows "a \<noteq> None \<and> failing m w'"
proof -
  obtain n e where n: "Suc m \<le> n" "answers w = replicate n (Some e)" using assms(1) by (auto simp: failing_def)
  then obtain n' where "n = Suc n'" by (cases n) auto
  then show ?thesis using assms(2) n by (auto simp: ask_def failing_def)
qed

lemma cutting_ask:
  assumes "cutting (Suc m) w" and "ask w = (a, w')"
  shows "a = None \<and> cutting (Suc m) w' \<or> a \<noteq> None \<and> failing m w'"
proof -
  obtain k n e where n: "Suc m \<le> n" "answers w = replicate k None @ replicate n (Some e)"
    using assms(1) by (auto simp: cutting_def)
  show ?thesis
  proof (cases k)
    case 0
    then have "failing (Suc m) w" using n by (auto simp: failing_def)
    then show ?thesis using failing_ask assms(2) by blast
  next
    case (Suc k')
    then have "a = None" "answers w' = replicate k' None @ replicate n (Some e)"
      using assms(2) n by (auto simp: ask_def)
    then show ?thesis using n(1) by (auto simp: cutting_def)
  qed
qed

lemma failing_io: "failing (Suc m) w \<Longrightarrow> io_step conv w = (r, w') \<Longrightarrow> isl r \<and> failing m w'"
  using failing_ask [of m w] by (cases "ask w") (auto simp: io_step_def split: option.splits)

lemma cutting_io:
  "cutting (Suc m) w \<Longrightarrow> io_step conv w = (r, w') \<Longrightarrow> r = Inr () \<and> cutting (Suc m) w' \<or> isl r \<and> failing m w'"
  using cutting_ask [of m w] by (cases "ask w") (auto simp: io_step_def split: option.splits)

text \<open>Nothing is written by a machine that has failed.\<close>

lemma failing_save_config:
  assumes "failing (Suc m) (os_world d)" and "save_config lib c d = (r, d')"
  shows "isl r \<and> files (os_world d') = files (os_world d)"
proof -
  have "r \<noteq> Inr ()"
    using assms failing_io [OF assms(1), of Io]
    by (auto simp: save_config_def on_world_Inr save_def result_simps split: if_splits)
  then show ?thesis using save_config_Inl [of lib c d _ d'] assms(2) by (cases r) auto
qed

lemma failing_save_secrets:
  assumes "failing (Suc m) (os_world d)" and "save_secrets lib d = (r, d')"
  shows "isl r \<and> files (os_world d') = files (os_world d)"
proof -
  have "r \<noteq> Inr ()"
    using assms failing_io [OF assms(1), of "\<lambda>_. RuntimeError"]
    by (auto simp: save_secrets_def on_world_Inr atomic_write_def result_simps split: if_splits)
  then show ?thesis using save_secrets_failed [of lib d _ d'] assms(2) by (cases r) auto
qed

lemma failing_exists:
  "failing (Suc m) w \<Longrightarrow> file_exists p w = (found, w') \<Longrightarrow> \<not> found \<and> failing m w'"
  using failing_ask [of m w] by (cases "ask w") (auto simp: file_exists_def)

lemma cutting_exists:
  "cutting (Suc m) w \<Longrightarrow> file_exists p w = (found, w') \<Longrightarrow> files w p \<noteq> None \<Longrightarrow>
     found \<and> cutting (Suc m) w' \<or> \<not> found \<and> failing m w'"
  using cutting_ask [of m w] files_ask [of w] by (cases "ask w") (auto simp: file_exists_def)

lemma file_exists_files: "file_exists p w = (found, w') \<Longrightarrow> files w' = files w"
  using files_ask [of w] by (cases "ask w") (auto simp: file_exists_def)

lemma load_config_world: "load_config lib p w = (c, w') \<Longrightarrow> w' = snd (io_step Io w)"
  by (cases "io_step Io w"; cases "fst (io_step Io w)")
    (auto simp: load_config_def load_def read_file_def Let_def ok_or_def split: prod.splits option.splits)

lemma read_secrets_world: "on_world (read_secrets lib p) d = (r, d') \<Longrightarrow> os_world d' = snd (io_step Io (os_world d))"
  by (cases "io_step Io (os_world d)"; cases "fst (io_step Io (os_world d))")
    (auto simp: on_world_def read_secrets_def read_file_def ok_or_def split: prod.splits option.splits)

lemma new_secrets_world: "new_secrets lib c d = (r, d') \<Longrightarrow> os_world d' = os_world d"
  by (cases r) (auto simp: new_secrets_def provision_def draw_token_def result_simps)

lemma rotate_tls_world: "rotate_tls lib s host d = (r, d') \<Longrightarrow> os_world d' = os_world d"
  by (cases r) (auto simp: rotate_tls_def provision_def result_simps)

text \<open>The secrets of such a start: the stored token, or the machine has failed by then.\<close>

lemma cut_load_secrets:
  assumes "codecs_ok lib" and "stored_token lib (rt_directory d) (files (os_world d)) t" and "parse_token t \<noteq> None"
    and "load_secrets lib c d = (Inr s, d')"
  shows "failing (m + 2) (os_world d) \<Longrightarrow> failing m (os_world d')"
    and "cutting (m + 2) (os_world d) \<Longrightarrow> se_token s = t \<or> failing m (os_world d')"
proof -
  obtain sd plain enc where sd: "rl_encode_secrets lib sd = Some plain" "protect (rl_crypt lib) plain = Some enc"
    "files (os_world d) (secrets_path d) = Some enc" "se_token sd = t"
    using assms(2) by (auto simp: stored_token_def)
  obtain found w where found: "file_exists (secrets_path d) (os_world d) = (found, w)" by fastforce
  let ?d = "d\<lparr>os_world := w\<rparr>"
  obtain s1 d1 where first: "(if found
            then st_match (on_world (read_secrets lib (secrets_path ?d)) ?d)
                   (\<lambda>_ d. new_secrets lib c d) (\<lambda>secrets d. (Inr secrets, d))
            else new_secrets lib c ?d) = (Inr s1, d1)"
    and repair: "(if parse_token (se_token s1) = None then new_secrets lib c d1
              else if se_host s1 \<noteq> ip_to_string (ac_bind_address c)
              then rotate_tls lib s1 (ac_bind_address c) d1
              else (Inr s1, d1)) = (Inr s, d')"
    using assms(4) found by (auto simp: load_secrets_def st_then_Inr Let_def)
  have world: "os_world d' = os_world d1"
    using repair new_secrets_world rotate_tls_world by (auto split: if_splits)
  show "failing m (os_world d')" if "failing (m + 2) (os_world d)"
  proof -
    have "\<not> found \<and> failing (Suc m) w" using failing_exists [of "Suc m" "os_world d" "secrets_path d" found w] that found by simp
    then show ?thesis
      using first world new_secrets_world [of lib c ?d] failing_mono [of "Suc m" w m] by auto
  qed
  show "se_token s = t \<or> failing m (os_world d')" if cut: "cutting (m + 2) (os_world d)"
  proof -
    consider "\<not> found" "failing (Suc m) w" | "found" "cutting (Suc m) w"
      using cutting_exists [of "Suc m" "os_world d" "secrets_path d" found w] cut found sd(3)
        cutting_mono [of "Suc (Suc m)" w "Suc m"] that by auto
    then show ?thesis
    proof cases
      case 1
      then show ?thesis using first world new_secrets_world [of lib c ?d] failing_mono [of "Suc m" w m] by auto
    next
      case 2
      obtain r2 d2 where read: "on_world (read_secrets lib (secrets_path d)) ?d = (r2, d2)" by fastforce
      obtain r3 w3 where io: "io_step Io w = (r3, w3)" by fastforce
      have w3: "os_world d2 = w3" using read_secrets_world [OF read] io by simp
      have d1: "os_world d1 = os_world d2"
        using first 2(1) read new_secrets_world [of lib c d2] by (cases r2) auto
      from cutting_io [OF 2(2) io] show ?thesis
      proof
        assume "r3 = Inr () \<and> cutting (Suc m) w3"
        then have "read_secrets lib (secrets_path d) w = (Inr sd, w3)"
          using read_secrets_quiet [OF assms(1) _ sd(1,2), of "\<lparr>files = files w, answers = []\<rparr>" "secrets_path d"]
            sd(3) file_exists_files [OF found] io files_io_stepD [OF io]
          by (auto simp: read_secrets_def read_file_def io_step_quiet result_simps)
        then have "s1 = sd" using first 2(1) by (simp add: on_world_def)
        then have "se_token s = t"
          using repair sd(4) assms(3) rotate_tls_Inr [of lib sd "ac_bind_address c" d1 s d'] by (auto split: if_splits)
        then show ?thesis ..
      next
        assume "isl r3 \<and> failing m w3"
        then show ?thesis using world d1 w3 by simp
      qed
    qed
  qed
qed

lemma cut_end:
  assumes "disk_holds lib dir fs c t" and "files (os_world d) = fs" "rt_directory d = dir" "rt_secrets d = Sound s"
    and "se_token s = t \<and> found \<or> failing 1 (os_world d)"
    and "st_then (if found then (Inr (), d) else save_config lib cc d) (\<lambda>_ d. save_secrets lib d) = (r, d')"
  shows "disk_holds lib dir (files (os_world d')) c t"
proof -
  have kept: "disk_holds lib dir (files (os_world d')) c t" if "save_secrets lib d = (r, d')"
    "se_token s = t \<or> failing 1 (os_world d)"
  proof (cases r)
    case (Inl e)
    then show ?thesis using save_secrets_failed [of lib d e d'] that(1) assms(1,2) by simp
  next
    case (Inr u)
    then have "se_token s = t" using failing_save_secrets [of 0 d lib r d'] that by auto
    then show ?thesis using disk_holds_secrets [of lib d u d' s c t] that(1) Inr assms(1-4) by simp
  qed
  show ?thesis
  proof (cases found)
    case True
    then show ?thesis using kept assms(5,6) by auto
  next
    case False
    obtain r1 d1 where save: "save_config lib cc d = (r1, d1)" by fastforce
    then have "isl r1 \<and> files (os_world d1) = fs"
      using failing_save_config [of 0 d lib cc r1 d1] False assms(2,5) by simp
    then show ?thesis using save assms(1,6) False by (cases r1) auto
  qed
qed

lemma cut_start_keeps:
  assumes "codecs_ok lib" and "disk_holds lib (home base) fs c t" and "parse_token t \<noteq> None"
    and "cut_start lib base fs k e startup draws = (r, d)"
  shows "disk_holds lib (home base) (files (os_world d)) c t"
proof -
  let ?w = "\<lparr>files = fs, answers = replicate k None @ replicate 32 (Some e)\<rparr>"
  let ?m = "machine (home base) ?w startup draws"
  have present: "fs (join_path (home base) ''config.json'') \<noteq> None" and token: "stored_token lib (home base) fs t"
    using assms(2) by (auto simp: disk_holds_def)
  obtain r0 d0 where io: "call_os ?m = (r0, d0)" by fastforce
  have d0: "rt_directory d0 = home base" "files (os_world d0) = fs"
    using quietD [OF quiet_io io] core_fields(1) [of d0 ?m] by (simp_all add: machine_def)
  show ?thesis
  proof (cases r0)
    case (Inl err)
    then have "d = d0" using assms(4) io by (simp add: cut_start_def load_runtime_def)
    then show ?thesis using d0 assms(2) by simp
  next
    case (Inr u)
    have "cutting 32 ?w" by (auto simp: cutting_def)
    moreover have "io_step (\<lambda>_. RuntimeError) ?w = (Inr (), os_world d0)"
      using io Inr by (simp add: on_world_Inr machine_def)
    ultimately have cut0: "cutting 32 (os_world d0)"
      using cutting_io [of 31 ?w "\<lambda>_. RuntimeError" "Inr ()" "os_world d0"] by simp
    obtain found w1 where found: "file_exists (config_path d0) (os_world d0) = (found, w1)" by fastforce
    obtain cc w2 where config: "load_config lib (config_path d0) w1 = (cc, w2)" by fastforce
    have w2: "w2 = snd (io_step Io w1)" "files w2 = fs"
      using load_config_world [OF config] file_exists_files [OF found] d0(2) by simp_all
    let ?d = "d0\<lparr>os_world := w2\<rparr>"
    have w1: "found \<and> cutting 32 w1 \<or> \<not> found \<and> failing 31 w1"
      using cutting_exists [of 31 "os_world d0"] cut0 found d0 present by simp
    obtain r3 d3 where secrets: "load_secrets lib cc ?d = (r3, d3)" by fastforce
    have d3: "rt_directory d3 = home base" "files (os_world d3) = fs"
      using quietD [OF load_secrets_frame secrets] core_fields(1) [of d3 ?d] d0 w2(2) by simp_all
    have start: "load_runtime lib (Some base) ?w startup draws =
      st_then (load_secrets lib cc ?d) (\<lambda>secrets d.
             st_then (map_err (\<lambda>_. RuntimeError) (new_dispatcher cc), d) (\<lambda>dispatcher d.
             let d = d\<lparr>rt_dispatcher := dispatcher, rt_config := Sound cc,
                       rt_secrets := Sound secrets, rt_listener := None\<rparr>
             in st_then (if found then (Inr (), d) else save_config lib cc d) (\<lambda>_ d. save_secrets lib d)))"
      using io Inr found config by (simp add: load_runtime_def)
    show ?thesis
    proof (cases r3)
      case (Inl err)
      then have "d = d3" using assms(4) start secrets by (simp add: cut_start_def)
      then show ?thesis using d3 assms(2) by simp
    next
      case (Inr s)
      obtain dispatcher where dispatcher: "new_dispatcher cc = Inr dispatcher"
        using load_config_ok [OF config] by (simp add: new_dispatcher_def validate_iff [symmetric])
      let ?d3 = "d3\<lparr>rt_dispatcher := dispatcher, rt_config := Sound cc, rt_secrets := Sound s, rt_listener := None\<rparr>"
      have stored: "stored_token lib (rt_directory ?d) (files (os_world ?d)) t" using token d0 w2(2) by simp
      note last = cut_load_secrets [OF assms(1) stored assms(3) secrets [unfolded Inr], of 20]
      have end1: "found \<and> (se_token s = t \<or> failing 20 (os_world d3)) \<or> \<not> found \<and> failing 20 (os_world d3)"
      proof -
        obtain r4 where io4: "io_step Io w1 = (r4, w2)" using w2(1) by (metis surjective_pairing)
        have "cutting 22 w2 \<or> failing 22 w2" if "cutting 32 w1"
          using cutting_io [of 31 w1 Io r4 w2] that io4 failing_mono [of 31 w2 22] cutting_mono [of 32 w2 22] by auto
        moreover have "failing 22 w2" if "failing 31 w1"
          using failing_io [of 30 w1 Io r4 w2] that io4 failing_mono [of 30 w2 22] by simp
        ultimately show ?thesis using w1 last by auto
      qed
      have "se_token s = t \<and> found \<or> failing 1 (os_world ?d3)"
        using end1 failing_mono [of 20 "os_world d3" 1] by auto
      moreover have "st_then (if found then (Inr (), ?d3) else save_config lib cc ?d3) (\<lambda>_ d. save_secrets lib d) = (r, d)"
        using assms(4) start secrets Inr dispatcher by (simp add: cut_start_def Let_def)
      ultimately show ?thesis
        using cut_end [OF assms(2), of ?d3 s found cc r d] d3 by simp
    qed
  qed
qed

section \<open>Every life\<close>

definition recoverable :: "runtime_lib \<Rightarrow> path \<Rightarrow> string \<Rightarrow> daemon \<Rightarrow> bool" where
  "recoverable lib base t d \<longleftrightarrow>
     daemon_ok d \<and> synced lib (home base) t d \<and> path_has_parent (join_path (home base) ''secrets.dpapi'')"

lemma recoverable_token: "recoverable lib base t d \<Longrightarrow> token_for_pairing d = Inr t \<and> parse_token t \<noteq> None"
  using daemon_ok_inv [of d] daemon_invD(2,5) [of _ _ d]
  by (fastforce simp: recoverable_def synced_def token_for_pairing_def secrets_ok_def split: lock.splits)

lemma restarted_recoverable:
  assumes "durable_libs lib hlib" and "restarted lib base fs startup draws = (Inr (), d)"
  shows "\<exists>t. recoverable lib base t d"
  using assms restarted_synced [of lib base fs startup draws d] loaded_ok [of lib _ _ _ _ d]
  by (fastforce simp: recoverable_def durable_libs_def restarted_def)

lemma restart_recovers:
  assumes libs: "durable_libs lib hlib" and rec: "recoverable lib base t d"
  shows "\<exists>d'. restarted lib base (files (os_world d)) startup draws = (Inr (), d') \<and> recoverable lib base t d'
    \<and> rt_listener d' = None \<and> (\<exists>c c'. rt_config d = Sound c \<and> rt_config d' = Sound c' \<and> ahead c' c)"
proof -
  have parsed: "parse_token t \<noteq> None" using recoverable_token [OF rec] by simp
  have "synced lib (home base) t d" and parent: "path_has_parent (join_path (home base) ''secrets.dpapi'')"
    using rec by (auto simp: recoverable_def)
  then obtain c where mem: "rt_config d = Sound c" "disk_holds lib (home base) (files (os_world d)) c t"
    by (auto elim: syncedE)
  obtain d' s where d': "restarted lib base (files (os_world d)) startup draws = (Inr (), d')" "rt_secrets d' = Sound s"
    "se_token s = t" "rt_config d' = Sound (stored_config lib (home base) (files (os_world d)))" "rt_listener d' = None"
    using restart_succeeds [OF _ _ mem(2) parent parsed, of startup draws] libs unfolding durable_libs_def by blast
  obtain t' where t': "recoverable lib base t' d'" using restarted_recoverable [OF libs d'(1)] by blast
  then have "t' = t" using recoverable_token [OF t'] d'(2,3) by (simp add: token_for_pairing_def)
  then show ?thesis using d' t' mem by (auto simp: disk_holds_def)
qed

lemma life_step_recoverable:
  assumes libs: "durable_libs lib hlib" and rec: "recoverable lib base t (fst s)"
  shows "ev \<noteq> Runs (Inl Rotate) \<Longrightarrow> recoverable lib base t (fst (life_step web lib hlib exec s ev))"
    and "\<exists>t'. recoverable lib base t' (fst (life_step web lib hlib exec s ev))"
proof -
  have s: "daemon_ok (fst s)" "synced lib (home base) t (fst s)" "path_has_parent (join_path (home base) ''secrets.dpapi'')"
    using rec by (auto simp: recoverable_def)
  have calls: "recoverable lib base t (fst (life_step web lib hlib exec s ev))" if "ev = Calls as" for as
    using that rec by (cases s) (auto simp: recoverable_def synced_files daemon_ok_inv world_inv)
  have ok: "daemon_ok (fst (server_step web lib hlib exec s e))" for e
    using server.step_inv [of lib s web hlib exec e] s(1) libs by (simp add: durable_libs_def)
  note synced = synced_rotates [OF _ _ s(1,2), of hlib]
  show "recoverable lib base t (fst (life_step web lib hlib exec s ev))" if "ev \<noteq> Runs (Inl Rotate)"
    using that calls ok synced(1) libs s(3) by (cases ev) (auto simp: recoverable_def durable_libs_def)
  show "\<exists>t'. recoverable lib base t' (fst (life_step web lib hlib exec s ev))"
    using calls ok synced(2) libs s(3) by (cases ev) (auto simp: recoverable_def durable_libs_def)
qed

lemma cut_recoverable:
  assumes libs: "durable_libs lib hlib" and rec: "recoverable lib base t d"
    and cut: "cut_start lib base (files (os_world d)) k e startup draws = (r, d')"
  shows "recoverable lib base t (d\<lparr>os_world := os_world d'\<rparr>)"
proof -
  have parsed: "parse_token t \<noteq> None" using recoverable_token [OF rec] by simp
  have "synced lib (home base) t d" using rec by (simp add: recoverable_def)
  then obtain c s where mem: "rt_config d = Sound c" "rt_secrets d = Sound s" "se_token s = t"
    "locks_sound (rt_dispatcher d)" "disk_holds lib (home base) (files (os_world d)) c t" "rt_directory d = home base"
    by (auto elim: syncedE)
  have "disk_holds lib (home base) (files (os_world d')) c t"
    by (rule cut_start_keeps [OF _ mem(5) parsed cut]) (use libs in \<open>simp add: durable_libs_def\<close>)
  then show ?thesis
    using rec mem by (auto simp: recoverable_def synced_def daemon_ok_inv world_inv)
qed

text \<open>Calls that succeed.\<close>

lemma passing_calls:
  "io_step conv \<lparr>files = fs, answers = None # as\<rparr> = (Inr (), \<lparr>files = fs, answers = as\<rparr>)"
  "file_exists p \<lparr>files = fs, answers = None # as\<rparr> = (fs p \<noteq> None, \<lparr>files = fs, answers = as\<rparr>)"
  "load_config lib (join_path dir ''config.json'') \<lparr>files = fs, answers = None # as\<rparr>
     = (stored_config lib dir fs, \<lparr>files = fs, answers = as\<rparr>)"
proof -
  show io: "io_step conv \<lparr>files = fs, answers = None # as\<rparr> = (Inr (), \<lparr>files = fs, answers = as\<rparr>)" for conv :: "io_kind \<Rightarrow> 'a"
    by (simp add: io_step_def ask_def)
  show "file_exists p \<lparr>files = fs, answers = None # as\<rparr> = (fs p \<noteq> None, \<lparr>files = fs, answers = as\<rparr>)"
    by (simp add: file_exists_def ask_def)
  have step: "io_step Io \<lparr>files = fs, answers = None # as\<rparr> = (Inr (), \<lparr>files = fs, answers = as\<rparr>)"
    by (simp add: io_step_def ask_def)
  show "load_config lib (join_path dir ''config.json'') \<lparr>files = fs, answers = None # as\<rparr>
     = (stored_config lib dir fs, \<lparr>files = fs, answers = as\<rparr>)"
    using step
    by (cases "fs (join_path dir ''config.json'')")
      (auto simp: stored_config_def load_config_def load_def read_file_def io_step_quiet Let_def split: sum.split)
qed

lemma read_secrets_passing:
  assumes "codecs_ok lib" and "rl_encode_secrets lib s = Some plain"
    and "protect (rl_crypt lib) plain = Some enc" and "fs p = Some enc"
  shows "read_secrets lib p \<lparr>files = fs, answers = None # as\<rparr> = (Inr s, \<lparr>files = fs, answers = as\<rparr>)"
  using read_secrets_quiet [OF assms(1) _ assms(2,3), of "\<lparr>files = fs, answers = []\<rparr>" p] assms(4)
  by (auto simp: read_secrets_def read_file_def io_step_def ask_def result_simps split: sum.splits)

lemma stumbling_start_recoverable:
  assumes libs: "durable_libs lib hlib" and rec: "recoverable lib base t d"
    and start: "stumbling_start lib base (files (os_world d)) as startup draws = (r, d')"
  shows "case r of Inr _ \<Rightarrow> recoverable lib base t d' | Inl _ \<Rightarrow> recoverable lib base t (d\<lparr>os_world := os_world d'\<rparr>)"
proof -
  have parsed: "parse_token t \<noteq> None" using recoverable_token [OF rec] by simp
  have lib: "codecs_ok lib" "renewal_ok lib" "random_ok lib" using libs by (simp_all add: durable_libs_def)
  have "synced lib (home base) t d" using rec by (simp add: recoverable_def)
  then obtain c where mem: "disk_holds lib (home base) (files (os_world d)) c t" by (auto elim: syncedE)
  let ?fs = "files (os_world d)"
  let ?w = "\<lambda>n. \<lparr>files = ?fs, answers = replicate n None @ as\<rparr>"
  have calls: "replicate 5 None @ as = None # replicate 4 None @ as" "replicate 4 None @ as = None # replicate 3 None @ as"
    "replicate 3 None @ as = None # replicate 2 None @ as" "replicate 2 None @ as = None # replicate 1 None @ as"
    "replicate 1 None @ as = None # as" by (simp_all add: numeral_eq_Suc)
  obtain s plain enc where s: "rl_encode_secrets lib s = Some plain" "protect (rl_crypt lib) plain = Some enc"
    "?fs (join_path (home base) ''secrets.dpapi'') = Some enc" "se_token s = t"
    using mem by (auto simp: disk_holds_def stored_token_def)
  obtain s' plain' enc' d1 where d1: "load_runtime lib (Some base) (?w 5) startup draws = save_secrets lib d1"
    "rt_secrets d1 = Sound s'" "se_token s' = se_token s"
    "rl_encode_secrets lib s' = Some plain'" "protect (rl_crypt lib) plain' = Some enc'"
    "rt_config d1 = Sound (stored_config lib (home base) ?fs)" "rt_listener d1 = None" "rt_directory d1 = home base"
    "os_world d1 = \<lparr>files = ?fs, answers = as\<rparr>" "locks_sound (rt_dispatcher d1)"
    by (rule start_reads [OF lib(2) _ _ _ _ _ s(1,2), of "?w 5" "?w 4" base "?w 3" "stored_config lib (home base) ?fs"
          "?w 2" "?w 1" "\<lparr>files = ?fs, answers = as\<rparr>" startup draws])
      (use mem parsed s read_secrets_passing [OF lib(1) s(1,2), of ?fs "join_path (home base) ''secrets.dpapi''" as] in
        \<open>simp_all add: calls passing_calls disk_holds_def\<close>)
  have saved: "save_secrets lib d1 = (r, d')" using start d1(1) by (simp add: stumbling_start_def)
  show ?thesis
  proof (cases r)
    case (Inl e)
    then have "files (os_world d') = ?fs" using save_secrets_failed [of lib d1 e d'] saved d1(9) by simp
    then show ?thesis
      using Inl rec by (auto simp: recoverable_def synced_def daemon_ok_inv world_inv split: lock.splits)
  next
    case (Inr u)
    then have "daemon_ok d'"
      using start loaded_ok [OF _ lib(3)] by (simp add: stumbling_start_def)
    moreover have "disk_holds lib (home base) (files (os_world d')) (stored_config lib (home base) ?fs) t"
      using disk_holds_secrets [of lib d1 u d' s' "stored_config lib (home base) ?fs" t] saved Inr d1(2,3,8,9) s(4) mem
      by (simp add: disk_holds_def)
    then have "synced lib (home base) t d'"
      using core_fields [OF save_secrets_core [OF saved]] d1(2,3,6,8,10) s(4) by (simp add: synced_def)
    ultimately show ?thesis using Inr rec by (simp add: recoverable_def)
  qed
qed

lemma carries_on_recoverable:
  assumes "durable_libs lib hlib" and "recoverable lib base t (fst s0)" and "carries_on web lib hlib exec base s0 s"
  shows "recoverable lib base t (fst s)"
  using assms(3)
proof (induction rule: carries_on.induct)
  case Same
  then show ?case by (rule assms(2))
next
  case (Event s ev)
  then show ?case using life_step_recoverable(1) [OF assms(1)] by blast
next
  case (Start d x startup draws d' x')
  then show ?case using restart_recovers [OF assms(1), of base t d startup draws] by simp
next
  case (Stumble d x as startup draws r d' x')
  then show ?case using stumbling_start_recoverable [OF assms(1), of base t d as startup draws r d'] by (simp split: sum.splits)
next
  case (Cut d x k e startup draws r d')
  then show ?case using cut_recoverable [OF assms(1)] by simp
qed

lemma lived_recoverable:
  assumes "durable_libs lib hlib" and "lived web lib hlib exec base s"
  shows "\<exists>t. recoverable lib base t (fst s)"
  using assms(2)
proof (induction rule: lived.induct)
  case (Installed fs startup draws d x)
  then show ?case using restarted_recoverable [OF assms(1)] by simp
next
  case (Rotated s)
  then show ?case using life_step_recoverable(2) [OF assms(1)] by blast
next
  case (Carried s s')
  then show ?case using carries_on_recoverable [OF assms(1)] by blast
qed

section \<open>An interrupted change of the address\<close>

text \<open>
  \<open>reconfigure\<close> stores the secrets of the new address first. When the configuration cannot be stored
  after them and putting the old secrets back fails too, memory has the old secrets and the disk
  has the new address's, with the same token.
\<close>

lemma reconfigure_interrupted:
  assumes "idle c s d" and "config_ok (moved c a p)" and "se_host s \<noteq> ip_to_string a"
    and "rotate_tls lib s a d = (Inr s', d1)"
    and "save_secrets lib (d1\<lparr>rt_secrets := Sound s'\<rparr>) = (Inr (), d2)"
    and "save_config lib (moved c a p) d2 = (Inl e, d3)"
    and "save_secrets lib (d3\<lparr>rt_secrets := Sound s\<rparr>) = (Inl e', d4)"
  shows "reconfigure lib a p True d = (Inl e, d4)"
    and "idle c s d4 \<and> secrets_on_disk lib s' d4 \<and> se_token s' = se_token s \<and> se_host s' = ip_to_string a"
proof -
  have tls: "se_token s' = se_token s" "se_host s' = ip_to_string a" and core1: "core d1 = core d"
    using rotate_tls_Inr [OF assms(4)] by auto
  have mem: "rt_secrets d1 = Sound s" using core_fields(4) [OF core1] idle_fields(2) [OF assms(1)] by simp
  have disk2: "core d2 = core (d1\<lparr>rt_secrets := Sound s'\<rparr>)" "secrets_on_disk lib s' d2"
    using save_secrets_on_disk [OF assms(5)] by simp_all
  have d3: "core d3 = core d2" "files (os_world d3) = files (os_world d2)" using save_config_Inl [OF assms(6)] by auto
  have d4: "core d4 = core (d3\<lparr>rt_secrets := Sound s\<rparr>)" "files (os_world d4) = files (os_world d3)"
    using save_secrets_failed [OF assms(7)] by auto
  have "rt_secrets d3 = Sound s'" using core_fields(4) [OF d3(1)] core_fields(4) [OF disk2(1)] by simp
  then have old: "set_secrets s d3 = (Inr (), d3\<lparr>rt_secrets := Sound s\<rparr>)" by (rule set_secrets_ok)
  have "validate (moved c a p) = Inr ()" using assms(2) by (simp add: validate_iff)
  then show "reconfigure lib a p True d = (Inl e, d4)"
    using idle_fields(1,3,6) [OF assms(1)] assms(3-7) old set_secrets_ok [OF mem, of s']
    by (simp add: reconfigure_def moved_def Let_def)
  have "core d4 = core d"
    using d4(1) d3(1) disk2(1) core1 idle_fields(2) [OF assms(1)] by (simp add: core_def)
  moreover have "secrets_on_disk lib s' d4"
    using secrets_on_disk_same [OF disk2(2)] d3 d4 core_fields(1) [OF d3(1)] core_fields(1) [OF d4(1)] by simp
  ultimately show "idle c s d4 \<and> secrets_on_disk lib s' d4 \<and> se_token s' = se_token s \<and> se_host s' = ip_to_string a"
    using assms(1) idle_core tls by blast
qed

text \<open>
  A start that finds secrets of another address than the configuration's renews certificates and
  authority: whoever trusts the authority that was exported before no longer trusts the daemon.
\<close>

lemma foreign_secrets_renewed:
  assumes "codecs_ok lib" and "renewal_ok lib" and "answers (os_world d) = []" and "secrets_on_disk lib s d"
    and "parse_token (se_token s) \<noteq> None" and "config_ok c" and "se_host s \<noteq> ip_to_string (ac_bind_address c)"
  shows "\<exists>tls. rl_provision lib (os_draws d) (ac_bind_address c) = Some tls
    \<and> load_secrets lib c d = (Inr (renewed s (ac_bind_address c) tls), d\<lparr>os_draws := os_draws d + 1\<rparr>)"
proof -
  obtain plain enc where stored: "rl_encode_secrets lib s = Some plain" "protect (rl_crypt lib) plain = Some enc"
    "files (os_world d) (secrets_path d) = Some enc"
    using assms(4) by (auto simp: secrets_on_disk_def)
  have "bind_allowed (ac_bind_address c)" using assms(6) by (simp add: config_ok_def)
  then obtain tls where tls: "rl_provision lib (os_draws d) (ac_bind_address c) = Some tls"
    using assms(2,5) unfolding renewal_ok_def by blast
  have present: "file_exists (secrets_path d) (os_world d) = (True, os_world d)"
    using assms(3) stored(3) by (simp add: file_exists_def ask_def)
  have "load_secrets lib c d = rotate_tls lib s (ac_bind_address c) d"
    using present read_secrets_quiet [OF assms(1,3) stored] assms(5,7)
    by (auto simp: load_secrets_def on_world_def)
  also have "\<dots> = (Inr (renewed s (ac_bind_address c) tls), d\<lparr>os_draws := os_draws d + 1\<rparr>)"
    by (simp add: rotate_tls_def provision_def tls renewed_def)
  finally show ?thesis using tls by blast
qed

section \<open>Properties\<close>

text \<open>C5: whatever happened to an installed daemon, through any number of lives, with any failures of its
  operations and requests, a crash at any point and starts that failed after reading their two files or
  were cut off anywhere, the next start without failures succeeds and finds what the last life had: the
  same pairing token and the same configuration, except that an acknowledgment by the device which only
  the disk has is there. It is consistent and no listener runs yet. Left out are starts in which a single
  call fails before both files are read, and later calls work.\<close>

theorem restart_resumes:
  assumes "durable_libs lib hlib" and "lived web lib hlib exec base (d, x)"
  shows "\<exists>d' c s c' s'. daemon_inv c s d
    \<and> restarted lib base (files (os_world d)) startup draws = (Inr (), d')
    \<and> daemon_inv c' s' d' \<and> rt_listener d' = None \<and> se_token s' = se_token s
    \<and> (c' = c \<or> (\<exists>p. ac_published_voice c = Some p
         \<and> c' = c\<lparr>ac_acknowledged_voice_revision := Some (pv_revision p)\<rparr>))"
proof -
  obtain t where rec: "recoverable lib base t d" using lived_recoverable [OF assms] by auto
  then obtain c s where inv: "daemon_inv c s d" using daemon_ok_inv by (auto simp: recoverable_def)
  obtain d' c' where d': "restarted lib base (files (os_world d)) startup draws = (Inr (), d')" "recoverable lib base t d'"
    "rt_listener d' = None" "rt_config d' = Sound c'" "ahead c' c"
    using restart_recovers [OF assms(1) rec, of startup draws] daemon_invD(1) [OF inv] by auto
  obtain s' where inv': "daemon_inv c' s' d'"
    using d'(2,4) daemon_ok_inv daemon_invD(1) by (fastforce simp: recoverable_def)
  have "se_token s' = se_token s"
    using recoverable_token [OF rec] recoverable_token [OF d'(2)] daemon_invD(6) [OF inv] daemon_invD(6) [OF inv']
    by (simp add: token_for_pairing_def)
  moreover have "c' = c \<or> (\<exists>p. ac_published_voice c = Some p
      \<and> c' = c\<lparr>ac_acknowledged_voice_revision := Some (pv_revision p)\<rparr>)"
    using d'(5) by (auto simp: ahead_def with_acknowledged_def split: option.splits)
  ultimately show ?thesis using inv inv' d'(1,3) by blast
qed

text \<open>C4: a paired device stays paired: as long as nobody rotates the credentials and every start that is not
  cut off can read the two files, the pairing token is the same after any operations and requests with any
  failures, after crashes and after restarts, and it is the token that a running listener admits.\<close>

theorem pairing_survives:
  assumes "durable_libs lib hlib" and "lived web lib hlib exec base s0" and "carries_on web lib hlib exec base s0 s"
  shows "\<exists>t. token_for_pairing (fst s0) = Inr t \<and> token_for_pairing (fst s) = Inr t
    \<and> (\<forall>l. rt_listener (fst s) = Some l \<longrightarrow> parse_token t = Some (ln_token l))"
proof -
  obtain t where rec: "recoverable lib base t (fst s0)" using lived_recoverable [OF assms(1,2)] by blast
  have now: "recoverable lib base t (fst s)" by (rule carries_on_recoverable [OF assms(1) rec assms(3)])
  then obtain c se where inv: "daemon_inv c se (fst s)" using daemon_ok_inv by (auto simp: recoverable_def)
  have "parse_token t = Some (ln_token l)" if "rt_listener (fst s) = Some l" for l
    using that daemon_invD(7) [OF inv] recoverable_token [OF now] daemon_invD(6) [OF inv]
    by (auto simp: listener_ok_def token_for_pairing_def)
  then show ?thesis using recoverable_token [OF rec] recoverable_token [OF now] by blast
qed

text \<open>
  Libraries for which the promises hold: the secrets are stored as the token and the host, with
  constant certificates; the configurations that can be stored are the default and the default with
  the listener switched on.
\<close>

definition plain_tls :: tls_material where
  "plain_tls =
     \<lparr>tm_certificate_pem = ''cert'', tm_server_private_key_pem = ''key'', tm_trusted_ca_certificate_pem = ''ca'',
      tm_ca_private_key_pem = ''cakey''\<rparr>"

definition plain_secrets :: "string \<Rightarrow> string \<Rightarrow> secrets" where
  "plain_secrets token host =
     \<lparr>se_token = token, se_host = host, se_certificate_pem = ''cert'', se_server_key_pem = ''key'',
      se_ca_certificate_pem = ''ca'', se_ca_key_pem = ''cakey''\<rparr>"

definition plain_lib :: runtime_lib where
  "plain_lib =
     \<lparr>rl_encode = (\<lambda>c. if c = default_config then Some ''off''
        else if c = default_config\<lparr>ac_listener_enabled := True\<rparr> then Some ''on'' else None),
      rl_decode = (\<lambda>encoded. if encoded = ''off'' @ [CHR 0x0A] then Some default_config
        else if encoded = ''on'' @ [CHR 0x0A] then Some (default_config\<lparr>ac_listener_enabled := True\<rparr>) else None),
      rl_encode_secrets = (\<lambda>s. if s = plain_secrets (se_token s) (se_host s) \<and> length (se_token s) = 64
          \<and> length (se_host s) \<le> 15 then Some (se_token s @ se_host s) else None),
      rl_decode_secrets = (\<lambda>plain. Some (plain_secrets (take 64 plain) (drop 64 plain))),
      rl_crypt = (\<lambda>encrypt plain. if length plain \<le> 100 then Some plain else None),
      rl_provision = (\<lambda>n host. Some plain_tls),
      rl_random = (\<lambda>n. replicate 32 0)\<rparr>"

lemma ip_short:
  assumes "bind_allowed a"
  shows "length (ip_to_string a) \<le> 15"
proof (cases a)
  case (V4 a1 b c d)
  have "length (show_nat (unat o8)) \<le> 3" for o8 :: u8
  proof -
    have "unat o8 < 2 ^ LENGTH(8)" by (rule unsigned_less)
    then show ?thesis using octet_text [of "unat o8"] by simp
  qed
  then have "length (show_nat (unat a1)) + length (show_nat (unat b)) + length (show_nat (unat c))
      + length (show_nat (unat d)) \<le> 3 + 3 + 3 + 3" by (intro add_mono)
  then show ?thesis using V4 by simp
next
  case (V6 x)
  then show ?thesis using assms by (simp add: bind_allowed_def)
qed

lemma plain_codecs: "codecs_ok plain_lib"
proof -
  have "default_config \<noteq> default_config\<lparr>ac_listener_enabled := True\<rparr>" by (simp add: default_config_def)
  then have "rl_decode plain_lib (encoded @ [CHR 0x0A]) = Some c" if "rl_encode plain_lib c = Some encoded" for c encoded
    using that by (auto simp: plain_lib_def split: if_splits)
  moreover have "plain \<noteq> [] \<and> rl_decode_secrets plain_lib plain = Some s"
    if "rl_encode_secrets plain_lib s = Some plain" for s plain
  proof -
    have "s = plain_secrets (se_token s) (se_host s)" "length (se_token s) = 64" "plain = se_token s @ se_host s"
      using that by (auto simp: plain_lib_def split: if_splits)
    then show ?thesis by (auto simp: plain_lib_def)
  qed
  moreover have "length enc \<le> u32_max \<and> rl_crypt plain_lib False enc = Some plain"
    if "rl_crypt plain_lib True plain = Some enc" for plain enc
    using that by (auto simp: plain_lib_def u32_max_def split: if_splits)
  ultimately show ?thesis unfolding codecs_ok_def by blast
qed

lemma plain_stored:
  assumes "length token = 64" and "length host \<le> 15"
  shows "rl_encode_secrets plain_lib (plain_secrets token host) = Some (token @ host)"
    and "protect (rl_crypt plain_lib) (token @ host) = Some (token @ host)"
  using assms by (auto simp: plain_lib_def plain_secrets_def protect_def transform_def u32_max_def)

lemma plain_renewal: "renewal_ok plain_lib"
proof -
  have "\<exists>tls plain enc. rl_provision plain_lib n host = Some tls
      \<and> rl_encode_secrets plain_lib (renewed s host tls) = Some plain \<and> protect (rl_crypt plain_lib) plain = Some enc"
    if "bind_allowed host" "parse_token (se_token s) \<noteq> None" for n host s
  proof -
    have "length (se_token s) = 64" using that(2) by (auto simp: parse_token_def split: if_splits)
    moreover have "renewed s host plain_tls = plain_secrets (se_token s) (ip_to_string host)"
      by (cases s) (simp add: renewed_def plain_secrets_def plain_tls_def)
    moreover have "rl_provision plain_lib n host = Some plain_tls" by (simp add: plain_lib_def)
    ultimately show ?thesis using plain_stored ip_short [OF that(1)] by metis
  qed
  then show ?thesis unfolding renewal_ok_def by blast
qed

definition plain_hlib :: http_lib where
  "plain_hlib = example_http_lib\<lparr>lb_encode := rl_encode plain_lib\<rparr>"

lemma plain_durable: "durable_libs plain_lib plain_hlib"
  using plain_codecs plain_renewal by (simp add: durable_libs_def plain_hlib_def random_ok_def) (simp add: plain_lib_def)

lemma plain_token: "length (token_bytes (generate (replicate 32 0))) = 64"
  "parse_token (token_bytes (generate (replicate 32 0))) \<noteq> None"
  using generate_wf [of "replicate 32 0"] parse_token_Some by (fastforce simp: wf_token_def)+

lemma plain_paths: "path_has_parent (join_path (home ''C:/u'') ''config.json'')"
  "path_has_parent (join_path (home ''C:/u'') ''secrets.dpapi'')"
  by code_simp+

lemma plain_fresh:
  "new_secrets plain_lib default_config d =
     (Inr (plain_secrets (token_bytes (generate (replicate 32 0))) (ip_to_string (ac_bind_address default_config))),
      d\<lparr>os_draws := os_draws d + 2\<rparr>)"
  "se_host (plain_secrets token host) = host" "se_token (plain_secrets token host) = token"
  by (simp_all add: new_secrets_def provision_def draw_token_def plain_lib_def plain_secrets_def plain_tls_def)

lemma plain_save:
  assumes "path_has_parent p" and "answers w = []"
  shows "save (rl_encode plain_lib) p default_config w = (Inr (), w\<lparr>files := (files w)(p \<mapsto> ''off'' @ [CHR 0x0A])\<rparr>)"
proof -
  have "rl_encode plain_lib default_config = Some ''off''" by (simp add: plain_lib_def)
  then show ?thesis
    using save_quiet [OF default_config_ok assms(1), of "rl_encode plain_lib" "''off''" w] assms(2) by simp
qed

lemma plain_load: "\<exists>d. restarted plain_lib ''C:/u'' Map.empty False 0 = (Inr (), d)"
proof -
  have host: "length (ip_to_string (ac_bind_address default_config)) \<le> 15" by code_simp
  have valid: "validate default_config = Inr ()" using default_config_ok by (simp add: validate_iff)
  show ?thesis
    unfolding restarted_def load_runtime_def
    using plain_paths plain_token valid
    by (simp add: machine_def on_world_def io_step_quiet file_exists_def ask_def load_config_def load_def
        read_file_def load_secrets_def plain_fresh new_dispatcher_def save_config_def plain_save
        save_secrets_def plain_stored [OF plain_token(1) host] atomic_write_def Let_def)
qed

text \<open>A start on files left before, whose reading of the secrets fails.\<close>

definition plain_files :: "path \<Rightarrow> string option" where
  "plain_files =
     [join_path (home ''C:/u'') ''config.json'' \<mapsto> ''off'' @ [CHR 0x0A],
      join_path (home ''C:/u'') ''secrets.dpapi'' \<mapsto> ''old'']"

text \<open>
  A start whose fifth call fails, which reads the secrets: creating the directory, finding and
  reading the configuration and finding the secrets have succeeded.
\<close>

definition unread_secrets :: "io_kind \<Rightarrow> io_kind option list" where
  "unread_secrets e = [None, None, None, None, Some e]"

text \<open>C23: a start that cannot read the stored secrets, for whatever passing reason, does not fail: it makes
  new credentials and stores them over the old ones, so that every paired device is locked out although
  nobody rotated anything.\<close>

theorem failed_read_unpairs:
  assumes "load_runtime lib (Some base) \<lparr>files = fs, answers = unread_secrets e\<rparr> startup draws = (Inr (), d)"
    and "random_ok lib" and "fs (join_path (home base) ''config.json'') \<noteq> None"
    and "fs (join_path (home base) ''secrets.dpapi'') \<noteq> None"
  shows "\<exists>s. rt_secrets d = Sound s \<and> secrets_on_disk lib s d
    \<and> se_token s = token_bytes (generate (rl_random lib (draws + 1)))"
proof -
  let ?w = "\<lparr>files = fs, answers = unread_secrets e\<rparr>"
  let ?m = "machine (home base) ?w startup draws"
  let ?c = "stored_config lib (home base) fs"
  let ?d = "?m\<lparr>os_world := \<lparr>files = fs, answers = []\<rparr>\<rparr>"
  have "call_os ?m = (Inr (), ?m\<lparr>os_world := \<lparr>files = fs, answers = [None, None, None, Some e]\<rparr>\<rparr>)"
    by (simp add: on_world_def io_step_def ask_def machine_def unread_secrets_def)
  moreover have "file_exists (join_path (home base) ''config.json'') \<lparr>files = fs, answers = [None, None, None, Some e]\<rparr>
      = (True, \<lparr>files = fs, answers = [None, None, Some e]\<rparr>)"
    using assms(3) by (simp add: file_exists_def ask_def)
  moreover obtain c where "load_config lib (join_path (home base) ''config.json'')
      \<lparr>files = fs, answers = [None, None, Some e]\<rparr> = (c, \<lparr>files = fs, answers = [None, Some e]\<rparr>)"
    using load_config_world by (cases "load_config lib (join_path (home base) ''config.json'')
      \<lparr>files = fs, answers = [None, None, Some e]\<rparr>") (fastforce simp: io_step_def ask_def)
  moreover have "load_secrets lib c (?m\<lparr>os_world := \<lparr>files = fs, answers = [None, Some e]\<rparr>\<rparr>) =
      new_secrets lib c ?d" for c
  proof -
    obtain r d1 where fresh: "new_secrets lib c ?d = (r, d1)" by fastforce
    have "secrets_ok c s" if "r = Inr s" for s
      using new_secrets_Inr [of lib c ?d s d1] fresh that assms(2) by (simp add: random_ok_def)
    then show ?thesis
      using assms(4) fresh
      by (cases r) (auto simp: load_secrets_def file_exists_def ask_def machine_def on_world_def read_secrets_def
          read_file_def io_step_def secrets_ok_def Let_def)
  qed
  ultimately obtain c s d1 dispatcher where fresh: "new_secrets lib c ?d = (Inr s, d1)"
    and saved: "save_secrets lib (d1\<lparr>rt_dispatcher := dispatcher, rt_config := Sound c, rt_secrets := Sound s,
      rt_listener := None\<rparr>) = (Inr (), d)"
    using assms(1)
    by (auto simp: load_runtime_def machine_def st_then_Inr map_err_Inr Let_def)
  have "se_token s = token_bytes (generate (rl_random lib (draws + 1)))"
    using new_secrets_token [OF fresh] by (simp add: machine_def)
  moreover have "secrets_on_disk lib s d" "rt_secrets d = Sound s"
    using save_secrets_on_disk [OF saved] core_fields(4) [OF save_secrets_core [OF saved]] by simp_all
  ultimately show ?thesis by blast
qed

lemma plain_unread:
  "\<exists>d. load_runtime plain_lib (Some ''C:/u'') \<lparr>files = plain_files, answers = unread_secrets OtherIo\<rparr> False 0 = (Inr (), d)"
proof -
  have host: "length (ip_to_string (ac_bind_address default_config)) \<le> 15" by code_simp
  have valid: "validate default_config = Inr ()" using default_config_ok by (simp add: validate_iff)
  have stored: "plain_files (join_path (home ''C:/u'') ''config.json'') = Some (''off'' @ [CHR 0x0A])"
    "plain_files (join_path (home ''C:/u'') ''secrets.dpapi'') = Some ''old''"
    "rl_decode plain_lib (''off'' @ [CHR 0x0A]) = Some default_config"
    by (simp_all add: plain_files_def plain_lib_def)
  show ?thesis
    unfolding load_runtime_def
    using plain_paths plain_token valid stored
    by (simp add: machine_def on_world_def io_step_def unread_secrets_def file_exists_def ask_def load_config_def load_def
        read_file_def read_secrets_def load_secrets_def plain_fresh new_dispatcher_def
        save_secrets_def plain_stored [OF plain_token(1) host] atomic_write_def Let_def)
qed

theorem failed_read_unpairs_witness:
  "\<exists>d s. load_runtime plain_lib (Some ''C:/u'') \<lparr>files = plain_files, answers = unread_secrets OtherIo\<rparr> False 0 = (Inr (), d)
    \<and> plain_files (join_path (home ''C:/u'') ''secrets.dpapi'') = Some ''old''
    \<and> rt_secrets d = Sound s \<and> secrets_on_disk plain_lib s d"
proof -
  have stored: "plain_files (join_path (home ''C:/u'') ''config.json'') \<noteq> None"
    "plain_files (join_path (home ''C:/u'') ''secrets.dpapi'') = Some ''old''" by (simp_all add: plain_files_def)
  have random: "random_ok plain_lib" using plain_durable by (simp add: durable_libs_def)
  obtain d where load: "load_runtime plain_lib (Some ''C:/u'') \<lparr>files = plain_files, answers = unread_secrets OtherIo\<rparr> False 0
      = (Inr (), d)" using plain_unread by blast
  from failed_read_unpairs [OF load random stored(1)] show ?thesis using load stored(2) by auto
qed

theorem restart_resumes_witness:
  "\<exists>d0 d1 x1 d2. restarted plain_lib ''C:/u'' Map.empty False 0 = (Inr (), d0)
    \<and> foldl (life_step example_web plain_lib plain_hlib example_exec) (d0, 0)
        [Runs (Inl (SetListener True)), Calls [None, None, Some OtherIo], Runs (Inl Rotate)] = (d1, x1)
    \<and> restarted plain_lib ''C:/u'' (files (os_world d1)) True 9 = (Inr (), d2) \<and> rt_listener d2 = None"
proof -
  obtain d0 where d0: "restarted plain_lib ''C:/u'' Map.empty False 0 = (Inr (), d0)" using plain_load by blast
  obtain d1 x1 where run: "foldl (life_step example_web plain_lib plain_hlib example_exec) (d0, 0)
      [Runs (Inl (SetListener True)), Calls [None, None, Some OtherIo], Runs (Inl Rotate)] = (d1, x1)" by fastforce
  let ?step = "life_step example_web plain_lib plain_hlib example_exec"
  have "carries_on example_web plain_lib plain_hlib example_exec ''C:/u'' (d0, 0)
      (?step (?step (d0, 0) (Runs (Inl (SetListener True)))) (Calls [None, None, Some OtherIo]))"
    by (rule carries_on.Event [OF carries_on.Event [OF carries_on.Same]]) simp_all
  from lived.Rotated [OF lived.Carried [OF lived.Installed [OF d0] this]]
  have "lived example_web plain_lib plain_hlib example_exec ''C:/u'' (d1, x1)" using run by simp
  from restart_resumes [OF plain_durable this, of True 9] show ?thesis using d0 run by blast
qed

theorem pairing_survives_witness:
  "\<exists>d0 d1 x1 d2 t. restarted plain_lib ''C:/u'' Map.empty False 0 = (Inr (), d0)
    \<and> life_step example_web plain_lib plain_hlib example_exec (d0, 0) (Runs (Inl (SetListener True))) = (d1, x1)
    \<and> restarted plain_lib ''C:/u'' (files (os_world d1)) True 9 = (Inr (), d2)
    \<and> token_for_pairing d0 = Inr t \<and> token_for_pairing d2 = Inr t"
proof -
  obtain d0 where d0: "restarted plain_lib ''C:/u'' Map.empty False 0 = (Inr (), d0)" using plain_load by blast
  obtain d1 x1 where run: "life_step example_web plain_lib plain_hlib example_exec (d0, 0) (Runs (Inl (SetListener True))) = (d1, x1)"
    by fastforce
  have lived: "lived example_web plain_lib plain_hlib example_exec ''C:/u'' (d0, 0)" by (rule lived.Installed [OF d0])
  have on: "carries_on example_web plain_lib plain_hlib example_exec ''C:/u'' (d0, 0) (d1, x1)"
    using carries_on.Event [OF carries_on.Same, of "Runs (Inl (SetListener True))" example_web plain_lib plain_hlib
        example_exec "''C:/u''" "(d0, 0)"] run by simp
  obtain t d2 where d2: "restarted plain_lib ''C:/u'' (files (os_world d1)) True 9 = (Inr (), d2)"
    using restart_recovers [OF plain_durable] carries_on_recoverable [OF plain_durable _ on] lived_recoverable [OF plain_durable lived]
    by fastforce
  have "carries_on example_web plain_lib plain_hlib example_exec ''C:/u'' (d0, 0) (d2, 0)"
    by (rule carries_on.Start [OF on d2])
  from pairing_survives [OF plain_durable lived this] show ?thesis using d0 run d2 by auto
qed

end
