(* ===== verification/Daemon_Run.thy ===== *)
theory Daemon_Run
  imports Daemon_Server Daemon_Host Daemon_Settings
begin

text \<open>
  The life of a process from its first call to its last (daemon/src/adapters/windows\_app.rs, \<open>run\<close>
  and \<open>run\_settings\_mode\<close>): what is taken in which order, every early return, the message loop of
  Daemon\_Tray, the way out, and what leaving the scopes gives back. What the outside answers to
  each call is \<open>run\_answers\<close>; the loop's events are a list, and a run whose list ends before the
  loop was left has not returned (\<open>None\<close>).
\<close>

section \<open>What a process holds\<close>

datatype resource =
    InstanceMutex | MtaUsage | AsyncThreads | ServiceHandle | EnteredRuntime | HostWindow hwnd | TrayIcon

datatype process_event =
  Took resource | GaveBack resource | ActivatedInstance | ShowedError string | AskedListener

record 'x background =
  bg_trace :: "process_event list"
  bg_tray :: "'x tray option"
  bg_supervised :: bool

datatype run_error =
    InstanceFailed | MtaFailed | AsyncFailed | LoadFailed | HostFailed | TrayFailed string
  | SupervisorFailed | MessagesFailed | ShutdownFailed

definition happened :: "process_event \<Rightarrow> 'x background \<Rightarrow> 'x background" where
  "happened ev p = p\<lparr>bg_trace := bg_trace p @ [ev]\<rparr>"

text \<open>
  \<open>Drop for WindowsRuntime\<close>, when the last handle goes: nobody else can hold the listener's lock
  then, and a listener that is there is asked to shut down. The supervisor's thread has a
  handle of its own until it stops, so that \<open>run\<close> drops the last one only when it started none.
\<close>

definition drop_runtime :: "'x background \<Rightarrow> 'x background" where
  "drop_runtime p =
     (case bg_tray p of
        None \<Rightarrow> p
      | Some s \<Rightarrow> if rt_listener (fst (ty_system s)) \<noteq> None then happened AskedListener p else p)"

fun give_back :: "resource \<Rightarrow> 'x background \<Rightarrow> 'x background" where
  "give_back ServiceHandle p =
     happened (GaveBack ServiceHandle) (if bg_supervised p then p else drop_runtime p)"
| "give_back r p = happened (GaveBack r) p"

text \<open>A variable's scope: its value is taken, the rest of the function runs, and its drop follows
  on every return.\<close>

type_synonym 'x returned = "(run_error, unit) result option \<times> 'x background"

definition holding :: "resource \<Rightarrow> ('x background \<Rightarrow> 'x returned) \<Rightarrow> 'x background \<Rightarrow> 'x returned" where
  "holding r body p =
     (case body (happened (Took r) p) of
        (None, p) \<Rightarrow> (None, p)
      | (Some result, p) \<Rightarrow> (Some result, give_back r p))"

definition returning :: "(run_error, unit) result \<Rightarrow> 'x background \<Rightarrow> 'x returned" where
  "returning result p = (Some result, p)"

section \<open>The tray\<close>

text \<open>The calls of \<open>create\_tray\<close> answer from a list, a text for an error.\<close>

definition outside :: "string option list \<Rightarrow> (string, unit) result \<times> string option list" where
  "outside calls =
     (case calls of
        [] \<Rightarrow> (Inr (), [])
      | a # as \<Rightarrow> ((case a of None \<Rightarrow> Inr () | Some e \<Rightarrow> Inl e), as))"

definition tray_menu :: "(string \<times> string) list" where
  "tray_menu =
     [(''settings'', ''Settings''), (''listener'', ''Pause / resume listener''), (''quit'', ''Quit'')]"

fun append_items :: "(string \<times> string) list \<Rightarrow> string option list \<Rightarrow> (string, unit) result \<times> string option list" where
  "append_items [] as = (Inr (), as)"
| "append_items (item # items) as = st_then (outside as) (\<lambda>_ as. append_items items as)"

text \<open>The embedded picture is decoded, and made an icon.\<close>

definition tray_icon :: "string option list \<Rightarrow> (string, unit) result \<times> string option list" where
  "tray_icon as = st_then (outside as) (\<lambda>_ as. outside as)"

definition create_tray :: "string option list \<Rightarrow> (string, unit) result \<times> string option list" where
  "create_tray as =
     st_then (append_items tray_menu as) (\<lambda>_ as.
     st_then (tray_icon as) (\<lambda>_ as. outside as))"

section \<open>The background process\<close>

text \<open>How the loop is left: \<open>quitting\<close>, \<open>WM\_QUIT\<close>, or the error of \<open>dispatch\_message\<close>.\<close>

definition loop_exit :: "message_result \<Rightarrow> 'x tray \<Rightarrow> (run_error, unit) result" where
  "loop_exit message s =
     (if QuitDaemon \<in> set (ty_events s) then Inr ()
      else if message = MessageError then Inl MessagesFailed
      else Inr ())"

fun message_loop ::
  "runtime_lib \<Rightarrow> http_lib \<Rightarrow> 'x executor \<Rightarrow> tray_op list \<Rightarrow> 'x tray \<Rightarrow> (run_error, unit) result option \<times> 'x tray" where
  "message_loop lib hlib exec [] s = (None, s)"
| "message_loop lib hlib exec (Turn message # ops) s =
     (let s' = tray_step lib hlib exec s (Turn message) in
        if ty_left s' then (Some (loop_exit message s), s') else message_loop lib hlib exec ops s')"
| "message_loop lib hlib exec (operation # ops) s =
     message_loop lib hlib exec ops (tray_step lib hlib exec s operation)"

text \<open>
  \<open>SettingsSupervisor::quit\<close> has sent its command (\<open>loop\_turn\<close>) and waits for the reply, at most
  \<open>SHUTDOWN\_TIMEOUT\<close> and a second: what the other threads do meanwhile is a list, in it the
  commands the supervisor's thread takes. Then the service is shut down, whatever holds the lifecycle
  lock, and the other threads go on until the process ends.
\<close>

record way_out =
  wo_waited :: "tray_op list"
  wo_amid :: bool
  wo_late :: "tray_op list"

definition leave_loop ::
  "runtime_lib \<Rightarrow> http_lib \<Rightarrow> 'x executor \<Rightarrow> way_out \<Rightarrow> 'x tray \<Rightarrow> (run_error, unit) result \<times> 'x tray" where
  "leave_loop lib hlib exec way s =
     (let s = foldl (tray_step lib hlib exec) s (wo_waited way);
          (r, s) = finish_run lib (wo_amid way) s
      in (map_err (\<lambda>_. ShutdownFailed) r, foldl (tray_step lib hlib exec) s (wo_late way)))"

definition run_loop ::
  "runtime_lib \<Rightarrow> http_lib \<Rightarrow> 'x executor \<Rightarrow> tray_op list \<Rightarrow> way_out \<Rightarrow> 'x tray
   \<Rightarrow> 'x background \<Rightarrow> 'x returned" where
  "run_loop lib hlib exec ops way s p =
     (case message_loop lib hlib exec ops s of
        (None, s) \<Rightarrow> (None, p\<lparr>bg_tray := Some s\<rparr>)
      | (Some (Inl e), s) \<Rightarrow> returning (Inl e) (p\<lparr>bg_tray := Some s\<rparr>)
      | (Some (Inr _), s) \<Rightarrow>
          let (result, s) = leave_loop lib hlib exec way s in returning result (p\<lparr>bg_tray := Some s\<rparr>))"

record run_answers =
  ra_mutex :: bool
  ra_handles :: nat
  ra_found :: "bool list"
  ra_mta :: bool
  ra_async :: bool
  ra_base :: "path option"
  ra_world :: world
  ra_startup :: bool
  ra_draws :: nat
  ra_host :: host_answers
  ra_tray :: "string option list"
  ra_supervisor :: bool

text \<open>From the tray on; \<open>SettingsSupervisor::start\<close> fails when its thread cannot be started.\<close>

definition run_tray ::
  "runtime_lib \<Rightarrow> http_lib \<Rightarrow> 'x executor \<Rightarrow> run_answers \<Rightarrow> tray_op list \<Rightarrow> way_out \<Rightarrow> 'x tray
   \<Rightarrow> 'x background \<Rightarrow> 'x returned" where
  "run_tray lib hlib exec a ops way s p =
     (case fst (create_tray (ra_tray a)) of
        Inl e \<Rightarrow> returning (Inl (TrayFailed e)) (happened (ShowedError (''Could not create the system tray: '' @ e)) p)
      | Inr _ \<Rightarrow> holding TrayIcon (\<lambda>p.
          if \<not> ra_supervisor a then returning (Inl SupervisorFailed) p
          else run_loop lib hlib exec ops way s (p\<lparr>bg_supervised := True\<rparr>)) p)"

definition run_service ::
  "runtime_lib \<Rightarrow> http_lib \<Rightarrow> 'x executor \<Rightarrow> run_answers \<Rightarrow> 'x \<Rightarrow> tray_op list \<Rightarrow> way_out
   \<Rightarrow> 'x background \<Rightarrow> 'x returned" where
  "run_service lib hlib exec a x ops way p =
     (case start_daemon lib (ra_base a) (ra_world a) (ra_startup a) (ra_draws a) of
        (Inl _, _) \<Rightarrow> returning (Inl LoadFailed) p
      | (Inr startup_error, d) \<Rightarrow>
          holding ServiceHandle (holding EnteredRuntime (\<lambda>p.
            case message_host_new (ra_host a) of
              None \<Rightarrow> returning (Inl HostFailed) p
            | Some h \<Rightarrow> holding (HostWindow h) (run_tray lib hlib exec a ops way (tray_start (d, x))) p))
          (p\<lparr>bg_tray := Some (tray_start (d, x))\<rparr>))"

definition run_instance ::
  "runtime_lib \<Rightarrow> http_lib \<Rightarrow> 'x executor \<Rightarrow> run_answers \<Rightarrow> 'x \<Rightarrow> tray_op list \<Rightarrow> way_out
   \<Rightarrow> 'x background \<Rightarrow> 'x returned" where
  "run_instance lib hlib exec a x ops way p =
     (if \<not> ra_mta a then returning (Inl MtaFailed) p
      else holding MtaUsage (\<lambda>p.
        if \<not> ra_async a then returning (Inl AsyncFailed) p
        else holding AsyncThreads (run_service lib hlib exec a x ops way) p) p)"

definition process_start :: "'x background" where
  "process_start = \<lparr>bg_trace = [], bg_tray = None, bg_supervised = False\<rparr>"

definition run ::
  "runtime_lib \<Rightarrow> http_lib \<Rightarrow> 'x executor \<Rightarrow> run_answers \<Rightarrow> 'x \<Rightarrow> tray_op list \<Rightarrow> way_out \<Rightarrow> 'x returned" where
  "run lib hlib exec a x ops way =
     (case fst (acquire_single_instance (ra_mutex a) (ra_handles a)) of
        Inl _ \<Rightarrow> returning (Inl InstanceFailed) process_start
      | Inr False \<Rightarrow> returning (Inr ())
          (if activate_existing_instance (ra_found a) then happened ActivatedInstance process_start else process_start)
      | Inr True \<Rightarrow> holding InstanceMutex (run_instance lib hlib exec a x ops way) process_start)"

section \<open>The Settings process\<close>

datatype settings_error = ConnectFailed string | SettingsAsyncFailed | EventLoopFailed | SettingsExited int

text \<open>A pump of the window's event loop runs frames, beside the tasks that end, or says that the
  application exited.\<close>

datatype pump = Pumped "window_op list" | PumpExit int

fun pump_settings ::
  "(string \<Rightarrow> string list option) \<Rightarrow> pump list \<Rightarrow> settings_window \<Rightarrow> (settings_error, unit) result option \<times> settings_window" where
  "pump_settings from_json [] w = (None, w)"
| "pump_settings from_json (Pumped ops # ps) w = pump_settings from_json ps (foldl (window_step from_json) w ops)"
| "pump_settings from_json (PumpExit code # ps) w =
     (Some (if code \<noteq> 0 then Inl (SettingsExited code) else Inr ()), w)"

definition run_settings_mode ::
  "(string \<Rightarrow> string list option) \<Rightarrow> (string, settings_client) result \<Rightarrow> bool \<Rightarrow> bool \<Rightarrow> nat \<Rightarrow> pump list
   \<Rightarrow> (settings_error, unit) result option \<times> settings_window option" where
  "run_settings_mode from_json connected async events now pumps =
     (case connected of
        Inl e \<Rightarrow> (Some (Inl (ConnectFailed e)), None)
      | Inr service \<Rightarrow>
          if \<not> async then (Some (Inl SettingsAsyncFailed), None)
          else if \<not> events then (Some (Inl EventLoopFailed), None)
          else case pump_settings from_json pumps (open_settings service now) of
            (None, w) \<Rightarrow> (None, Some w)
          | (Some result, w) \<Rightarrow> (Some result, Some (drop_window w)))"

section \<open>Scopes give back what they took\<close>

text \<open>The variables in scope after a trace; \<open>None\<close> when something else than the last is given back.\<close>

fun in_scope :: "resource list \<Rightarrow> process_event list \<Rightarrow> resource list option" where
  "in_scope rs [] = Some rs"
| "in_scope rs (Took r # evs) = in_scope (r # rs) evs"
| "in_scope rs (GaveBack r # evs) =
     (case rs of [] \<Rightarrow> None | r' # rs' \<Rightarrow> if r' = r then in_scope rs' evs else None)"
| "in_scope rs (ev # evs) = in_scope rs evs"

fun taken :: "process_event list \<Rightarrow> resource list" where
  "taken [] = []"
| "taken (Took r # evs) = r # taken evs"
| "taken (ev # evs) = taken evs"

lemma in_scope_append:
  "in_scope rs (xs @ ys) = (case in_scope rs xs of None \<Rightarrow> None | Some rs' \<Rightarrow> in_scope rs' ys)"
  by (induction rs xs rule: in_scope.induct) (simp_all split: list.split)

lemma taken_append: "taken (xs @ ys) = taken xs @ taken ys"
  by (induction xs rule: taken.induct) simp_all

lemma give_back_trace:
  "\<exists>ask. bg_trace (give_back r p) = bg_trace p @ ask @ [GaveBack r] \<and> ask \<in> {[], [AskedListener]}"
  by (cases r) (auto simp: happened_def drop_runtime_def split: option.split)

lemma give_back_frame [simp]:
  "bg_tray (give_back r p) = bg_tray p" "bg_supervised (give_back r p) = bg_supervised p"
  by (cases r; auto simp: happened_def drop_runtime_def split: option.split)+

lemma happened_frame [simp]:
  "bg_tray (happened ev p) = bg_tray p" "bg_supervised (happened ev p) = bg_supervised p"
  "bg_trace (happened ev p) = bg_trace p @ [ev]"
  by (simp_all add: happened_def)

text \<open>A body whose scopes are closed when it returns, and that took a prefix of \<open>rs\<close> on the way.\<close>

definition scoped :: "resource list \<Rightarrow> ('x background \<Rightarrow> 'x returned) \<Rightarrow> bool" where
  "scoped rs body \<longleftrightarrow> (\<forall>p r p'. body p = (Some r, p') \<longrightarrow>
     (\<exists>evs n. bg_trace p' = bg_trace p @ evs \<and> (\<forall>st. in_scope st evs = Some st) \<and> taken evs = take n rs))"

lemma scopedI:
  assumes "\<And>p r p'. body p = (Some r, p') \<Longrightarrow>
     \<exists>evs n. bg_trace p' = bg_trace p @ evs \<and> (\<forall>st. in_scope st evs = Some st) \<and> taken evs = take n rs"
  shows "scoped rs body"
  using assms by (simp add: scoped_def)

lemma scopedE:
  assumes "scoped rs body" and "body p = (Some r, p')"
  obtains evs n where "bg_trace p' = bg_trace p @ evs" "\<And>st. in_scope st evs = Some st" "taken evs = take n rs"
  using assms unfolding scoped_def by blast

lemma holding_cases:
  assumes "holding r body p = (Some res, p')"
  obtains q where "body (happened (Took r) p) = (Some res, q)" "p' = give_back r q"
  using assms by (auto simp: holding_def split: prod.splits option.splits)

lemma scoped_holding [intro]:
  assumes "scoped rs body"
  shows "scoped (r # rs) (holding r body)"
proof (rule scopedI)
  fix p res p' assume "holding r body p = (Some res, p')"
  then obtain q where q: "body (happened (Took r) p) = (Some res, q)" "p' = give_back r q"
    by (rule holding_cases)
  obtain evs n where evs: "bg_trace q = bg_trace p @ Took r # evs" "\<And>st. in_scope st evs = Some st"
      "taken evs = take n rs"
    using scopedE [OF assms q(1)] by auto
  obtain ask where ask: "bg_trace p' = bg_trace q @ ask @ [GaveBack r]" "ask \<in> {[], [AskedListener]}"
    using give_back_trace q(2) by blast
  have "in_scope st (Took r # evs @ ask @ [GaveBack r]) = Some st" for st
    using ask(2) evs(2) by (auto simp: in_scope_append)
  moreover have "taken (Took r # evs @ ask @ [GaveBack r]) = take (Suc n) (r # rs)"
    using ask(2) evs(3) by (auto simp: taken_append)
  ultimately show "\<exists>evs n. bg_trace p' = bg_trace p @ evs \<and> (\<forall>st. in_scope st evs = Some st) \<and> taken evs = take n (r # rs)"
    using evs(1) ask(1) by (metis append.assoc append_Cons)
qed

lemma scoped_returning [intro]: "scoped rs (returning r)"
  by (rule scopedI) (auto simp: returning_def intro!: exI [of _ "[]"] exI [of _ 0])

lemma scoped_shown [intro]: "scoped rs (\<lambda>p. returning r (happened (ShowedError t) p))"
  by (rule scopedI) (auto simp: returning_def intro!: exI [of _ 0])

text \<open>Assignments leave the trace.\<close>

lemma scoped_assign:
  assumes "scoped rs body" and "\<And>p. bg_trace (f p) = bg_trace p"
  shows "scoped rs (\<lambda>p. body (f p))"
  using assms unfolding scoped_def by metis

lemma scoped_run_loop: "scoped rs (run_loop lib hlib exec ops way s)"
  by (rule scopedI)
    (auto simp: run_loop_def returning_def split: prod.splits option.splits sum.splits
      intro!: exI [of _ "[]"] exI [of _ 0])

lemma scoped_run_tray: "scoped [TrayIcon] (run_tray lib hlib exec a ops way s)"
proof (cases "fst (create_tray (ra_tray a))")
  case (Inl e)
  then show ?thesis unfolding run_tray_def by (simp add: scoped_shown)
next
  case (Inr u)
  have "scoped [] (\<lambda>p. if \<not> ra_supervisor a then returning (Inl SupervisorFailed) p
      else run_loop lib hlib exec ops way s (p\<lparr>bg_supervised := True\<rparr>))"
    using scoped_assign [OF scoped_run_loop, of "\<lambda>p. p\<lparr>bg_supervised := True\<rparr>"]
    by (cases "ra_supervisor a") (simp_all add: scoped_returning)
  then show ?thesis unfolding run_tray_def by (auto simp: Inr)
qed

text \<open>The resources of \<open>run\<close> in the order of its variables; the host's window is its own.\<close>

definition host_window :: "run_answers \<Rightarrow> hwnd" where
  "host_window a = (case message_host_new (ra_host a) of None \<Rightarrow> 0 | Some h \<Rightarrow> h)"

definition held_by_run :: "run_answers \<Rightarrow> resource list" where
  "held_by_run a = [InstanceMutex, MtaUsage, AsyncThreads, ServiceHandle, EnteredRuntime, HostWindow (host_window a), TrayIcon]"

lemma scoped_run_service:
  "scoped [ServiceHandle, EnteredRuntime, HostWindow (host_window a), TrayIcon] (run_service lib hlib exec a x ops way)"
proof (cases "start_daemon lib (ra_base a) (ra_world a) (ra_startup a) (ra_draws a)")
  case (Pair r d)
  let ?s = "tray_start (d, x)"
  have host: "scoped [HostWindow (host_window a), TrayIcon] (\<lambda>p.
      case message_host_new (ra_host a) of
        None \<Rightarrow> returning (Inl HostFailed) p
      | Some h \<Rightarrow> holding (HostWindow h) (run_tray lib hlib exec a ops way ?s) p)"
    by (cases "message_host_new (ra_host a)") (auto simp: host_window_def intro!: scoped_holding scoped_run_tray)
  show ?thesis
  proof (cases r)
    case (Inl e)
    then show ?thesis unfolding run_service_def by (simp add: Pair scoped_returning)
  next
    case (Inr e)
    have "scoped [ServiceHandle, EnteredRuntime, HostWindow (host_window a), TrayIcon] (holding ServiceHandle (holding EnteredRuntime (\<lambda>p.
        case message_host_new (ra_host a) of
          None \<Rightarrow> returning (Inl HostFailed) p
        | Some h \<Rightarrow> holding (HostWindow h) (run_tray lib hlib exec a ops way ?s) p)))"
      using host by (intro scoped_holding)
    from scoped_assign [OF this, of "\<lambda>p. p\<lparr>bg_tray := Some ?s\<rparr>"] show ?thesis
      unfolding run_service_def by (simp add: Pair Inr)
  qed
qed

lemma scoped_run_instance: "scoped (tl (held_by_run a)) (run_instance lib hlib exec a x ops way)"
  unfolding run_instance_def held_by_run_def
  by (cases "ra_mta a"; cases "ra_async a") (auto intro!: scoped_holding scoped_run_service)

lemma run_trace:
  assumes "run lib hlib exec a x ops way = (Some r, p)"
  shows "in_scope [] (bg_trace p) = Some [] \<and> (\<exists>n. taken (bg_trace p) = take n (held_by_run a))"
proof (cases "fst (acquire_single_instance (ra_mutex a) (ra_handles a)) = Inr True")
  case True
  have "scoped (held_by_run a) (holding InstanceMutex (run_instance lib hlib exec a x ops way))"
    using scoped_holding [OF scoped_run_instance, of InstanceMutex] by (simp add: held_by_run_def)
  moreover have "holding InstanceMutex (run_instance lib hlib exec a x ops way) process_start = (Some r, p)"
    using assms True by (simp add: run_def)
  ultimately show ?thesis by (rule scopedE) (auto simp: process_start_def)
next
  case False
  then show ?thesis using assms
    by (auto simp: run_def returning_def process_start_def split: sum.splits bool.splits if_splits intro!: exI [of _ 0])
qed

section \<open>How the loop is left\<close>

text \<open>Once the loop was left by a quit, the supervisor has stopped or the quit is in its queue.\<close>

definition quit_under_way :: "'x tray \<Rightarrow> bool" where
  "quit_under_way s \<longleftrightarrow> ty_left s \<and> (sv_stopped (ty_supervisor s) \<or> Quit \<in> set (ty_commands s))"

lemma supervisor_takes_left [simp]: "ty_left (supervisor_takes ob s) = ty_left s"
  by (simp add: supervisor_takes_def split: list.split)

lemma supervisor_takes_quit:
  assumes "quit_under_way s"
  shows "quit_under_way (supervisor_takes ob s)"
  using assms
  by (auto simp: quit_under_way_def supervisor_takes_def supervisor_turn_stops simp del: supervisor_turn.simps
    split: list.split)

interpretation quitting: stepper "tray_step lib hlib exec" quit_under_way
  for lib hlib and exec :: "'x executor"
proof unfold_locales
  fix s :: "'x tray" and operation assume quit: "quit_under_way s"
  show "quit_under_way (tray_step lib hlib exec s operation)"
  proof (cases operation)
    case (SupervisorTakes ob)
    then show ?thesis using supervisor_takes_quit [OF quit] by simp
  qed (use quit in \<open>auto simp: quit_under_way_def send_events_def send_command_def toggle_reads_def toggle_runs_def Let_def
      split: prod.split\<close>)
qed

text \<open>The tray's menu or \<open>WM\_QUIT\<close> asked for it.\<close>

definition told_to_quit :: "tray_op list \<Rightarrow> bool" where
  "told_to_quit ops \<longleftrightarrow> Turn QuitMessage \<in> set ops
     \<or> (\<exists>es. QuitDaemon \<in> set es \<and> (Signal es \<in> set ops \<or> (\<exists>ms. Turn (GotMessage ms es) \<in> set ops)))"

lemma told_to_quit_later: "told_to_quit ops \<Longrightarrow> told_to_quit (operation # ops)"
  by (auto simp: told_to_quit_def)

lemma quit_comes_from:
  assumes "QuitDaemon \<in> set (ty_events (tray_step lib hlib exec s operation))"
  shows "QuitDaemon \<in> set (ty_events s) \<or> told_to_quit (operation # ops)"
proof (cases operation)
  case (Turn message)
  then show ?thesis using assms
    by (cases message) (auto simp: told_to_quit_def loop_turn_eq collected_def window_procs send_command_def send_events_def
        split: if_splits)
next
  case (Signal es)
  then show ?thesis using assms by (auto simp: told_to_quit_def send_events_def)
next
  case (SupervisorTakes ob)
  then show ?thesis using assms by (auto simp: supervisor_takes_def split: list.splits if_splits)
next
  case (ToggleRuns k)
  then show ?thesis using assms by (auto simp: toggle_runs_def Let_def split: prod.splits if_splits)
qed (use assms in \<open>auto simp: send_command_def toggle_reads_def split: if_splits\<close>)

lemma message_loop_told:
  "message_loop lib hlib exec ops s = (Some (Inr ()), s') \<Longrightarrow> \<not> ty_left s \<Longrightarrow>
     QuitDaemon \<in> set (ty_events s) \<or> told_to_quit ops"
proof (induction ops arbitrary: s)
  case (Cons operation ops)
  let ?s = "tray_step lib hlib exec s operation"
  show ?case
  proof (cases "\<exists>message. operation = Turn message \<and> ty_left ?s")
    case True
    then obtain message where turn: "operation = Turn message" "ty_left ?s" by blast
    then have "loop_exit message s = Inr ()" using Cons.prems by (simp add: Let_def)
    moreover have "ty_left (loop_turn message s)" using turn Cons.prems(2) by simp
    ultimately show ?thesis using Cons.prems(2)
      by (cases message) (auto simp: turn(1) loop_exit_def loop_turn_frame told_to_quit_def split: if_splits)
  next
    case False
    have "\<not> ty_left ?s"
    proof (cases operation)
      case (Turn message)
      then show ?thesis using False by simp
    qed (use Cons.prems(2) in \<open>auto simp: send_events_def send_command_def toggle_reads_def toggle_runs_def Let_def
        split: prod.split\<close>)
    moreover from this have "message_loop lib hlib exec ops ?s = (Some (Inr ()), s')"
      using Cons.prems(1) by (cases operation) (auto simp: Let_def simp del: tray_step.simps)
    ultimately show ?thesis
      using Cons.IH [of ?s] quit_comes_from told_to_quit_later by blast
  qed
qed simp

lemma message_loop_ends:
  assumes "message_loop lib hlib exec ops s = (Some r, s')" and "random_ok lib" and "tray_ok s" and "\<not> ty_left s"
  shows "tray_ok s' \<and> (r = Inr () \<and> quit_under_way s' \<or> r = Inl MessagesFailed)"
  using assms
proof (induction ops arbitrary: s)
  case Nil
  then show ?case by simp
next
  case (Cons operation ops)
  let ?s = "tray_step lib hlib exec s operation"
  have ok: "tray_ok ?s" by (rule tray_step_ok [OF Cons.prems(2,3)])
  show ?case
  proof (cases "\<exists>message. operation = Turn message \<and> ty_left ?s")
    case False
    have "\<not> ty_left ?s"
    proof (cases operation)
      case (Turn message)
      then show ?thesis using False by simp
    qed (use Cons.prems(4) in \<open>auto simp: send_events_def send_command_def toggle_reads_def toggle_runs_def Let_def split: prod.split\<close>)
    moreover from this have "message_loop lib hlib exec ops ?s = (Some r, s')"
      using Cons.prems(1) by (cases operation) (auto simp: Let_def simp del: tray_step.simps)
    ultimately show ?thesis using Cons.IH [of ?s] Cons.prems(2) ok by blast
  next
    case True
    then obtain message where turn: "operation = Turn message" and left: "ty_left ?s" by blast
    then have s': "s' = loop_turn message s" and r: "r = loop_exit message s"
      using Cons.prems(1,4) by (auto simp: Let_def)
    have "ty_left s'" using left Cons.prems(4) by (simp add: turn s')
    then show ?thesis
      using ok Cons.prems(4)
      by (cases message) (auto simp: turn s' r loop_exit_def quit_under_way_def loop_turn_frame loop_turn_commands)
  qed
qed

text \<open>What can leave a listener behind: the rotation of a running one that \<open>shutdown\<close> falls into, and
  what resumes one after it.\<close>

definition resumed :: "way_out \<Rightarrow> bool" where
  "resumed way \<longleftrightarrow> wo_amid way \<or> list_ex resumes (wo_late way)"

lemma finish_run_quit:
  "finish_run lib amid s = (r, s') \<Longrightarrow> quit_under_way s' = quit_under_way s"
  by (auto simp: finish_run_def quit_under_way_def split: prod.splits if_splits)

lemma leave_loop_ends:
  assumes "leave_loop lib hlib exec way s = (r, s')" and "random_ok lib" and "tray_ok s" and "quit_under_way s"
  shows "r \<in> {Inr (), Inl ShutdownFailed} \<and> daemon_ok (fst (ty_system s'))
    \<and> (rt_listener (fst (ty_system s')) = None \<or> resumed way)
    \<and> (sv_processes (ty_supervisor s') = [] \<or> Quit \<in> set (ty_commands s'))"
proof -
  let ?s = "foldl (tray_step lib hlib exec) s (wo_waited way)"
  have ok: "tray_ok ?s" using tray.run_inv assms(2,3) by blast
  have quit: "quit_under_way ?s" by (rule quitting.run_inv) (rule assms(4))
  obtain r1 s1 where finish: "finish_run lib (wo_amid way) ?s = (r1, s1)" by fastforce
  have s': "s' = foldl (tray_step lib hlib exec) s1 (wo_late way)" "r = map_err (\<lambda>_. ShutdownFailed) r1"
    using assms(1) finish by (simp_all add: leave_loop_def Let_def)
  have s1: "tray_ok s1" "rt_listener (fst (ty_system s1)) = None \<or> wo_amid way"
    using finish_run_ok [OF finish assms(2) ok] by simp_all
  have ok': "tray_ok s'" unfolding s' using tray.run_inv assms(2) s1(1) by blast
  have "quit_under_way s1" using finish_run_quit [OF finish] quit by simp
  then have quit': "quit_under_way s'" unfolding s' by (rule quitting.run_inv)
  have "rt_listener (fst (ty_system s')) = None \<or> resumed way"
    using tray_run_unheard [OF assms(2) s1(1), of "wo_late way" hlib exec] s1(2)
    by (auto simp: s' resumed_def list_all_iff list_ex_iff)
  moreover have "sv_processes (ty_supervisor s') = [] \<or> Quit \<in> set (ty_commands s')"
    using ok' quit' by (auto simp: tray_ok_def quit_under_way_def supervisor_ok_def)
  moreover have "r \<in> {Inr (), Inl ShutdownFailed}"
    by (cases r1) (simp_all add: s')
  ultimately show ?thesis using ok' by (auto simp: tray_ok_def)
qed

text \<open>What is left of the service when \<open>run\<close> has returned; \<open>dropped\<close> is whether its drop ran.\<close>

definition left_behind :: "bool \<Rightarrow> tray_op list \<Rightarrow> way_out \<Rightarrow> (run_error, unit) result \<Rightarrow> 'x background \<Rightarrow> bool" where
  "left_behind dropped ops way r p \<longleftrightarrow>
     (case bg_tray p of
        None \<Rightarrow> r \<noteq> Inr () \<and> \<not> bg_supervised p
      | Some s \<Rightarrow>
          daemon_ok (fst (ty_system s))
        \<and> (if \<not> bg_supervised p
           then r \<noteq> Inr ()
             \<and> (dropped \<and> rt_listener (fst (ty_system s)) \<noteq> None \<longrightarrow> AskedListener \<in> set (bg_trace p))
           else r = Inl MessagesFailed
             \<or> r \<in> {Inr (), Inl ShutdownFailed} \<and> told_to_quit ops
               \<and> (rt_listener (fst (ty_system s)) = None \<or> resumed way)
               \<and> (sv_processes (ty_supervisor s) = [] \<or> Quit \<in> set (ty_commands s))))"

lemma give_back_left_behind:
  assumes "left_behind dropped ops way r p"
  shows "left_behind (dropped \<or> x = ServiceHandle) ops way r (give_back x p)"
proof -
  obtain ask where tr: "bg_trace (give_back x p) = bg_trace p @ ask @ [GaveBack x]" using give_back_trace by blast
  have "AskedListener \<in> set (bg_trace (give_back ServiceHandle p))"
    if "bg_tray p = Some s" "\<not> bg_supervised p" "rt_listener (fst (ty_system s)) \<noteq> None" for s
    using that by (simp add: drop_runtime_def)
  then show ?thesis
    using assms tr
    by (cases "x = ServiceHandle") (auto simp: left_behind_def simp del: give_back.simps split: option.splits)
qed

lemma holding_left_behind:
  assumes "holding x body p = (Some r, p')"
    and "\<And>q. body (happened (Took x) p) = (Some r, q) \<Longrightarrow> left_behind dropped ops way r q"
  shows "left_behind (dropped \<or> x = ServiceHandle) ops way r p'"
proof -
  obtain q where "body (happened (Took x) p) = (Some r, q)" "p' = give_back x q"
    using assms(1) by (rule holding_cases)
  then show ?thesis using assms(2) give_back_left_behind by blast
qed

lemma run_loop_left_behind:
  assumes "run_loop lib hlib exec ops way s p = (Some r, p')" and "bg_supervised p"
    and "random_ok lib" and "tray_ok s" and "\<not> ty_left s" and "QuitDaemon \<notin> set (ty_events s)"
  shows "left_behind False ops way r p'"
proof (cases "message_loop lib hlib exec ops s")
  case (Pair res s1)
  then obtain e where res: "res = Some e" using assms(1) by (cases res) (auto simp: run_loop_def)
  have ends: "tray_ok s1" "e = Inr () \<and> quit_under_way s1 \<or> e = Inl MessagesFailed"
    using message_loop_ends [OF _ assms(3,4,5)] Pair res by blast+
  show ?thesis
  proof (cases e)
    case (Inl f)
    then show ?thesis
      using assms(1,2) ends Pair res by (auto simp: run_loop_def returning_def left_behind_def tray_ok_def)
  next
    case (Inr u)
    obtain r2 s2 where leave: "leave_loop lib hlib exec way s1 = (r2, s2)" by fastforce
    have out: "r = r2" "bg_tray p' = Some s2" "bg_supervised p'"
      using assms(1,2) Pair res Inr leave by (auto simp: run_loop_def returning_def)
    have "quit_under_way s1" using ends(2) Inr by auto
    note left = leave_loop_ends [OF leave assms(3) ends(1) this]
    have "message_loop lib hlib exec ops s = (Some (Inr ()), s1)" using Pair res Inr by simp
    from message_loop_told [OF this assms(5)] have "told_to_quit ops" using assms(6) by simp
    then show ?thesis using out left by (auto simp: left_behind_def)
  qed
qed

lemma run_tray_left_behind:
  assumes "run_tray lib hlib exec a ops way s p = (Some r, p')" and "bg_tray p = Some s" and "\<not> bg_supervised p"
    and "random_ok lib" and "tray_ok s" and "\<not> ty_left s" and "QuitDaemon \<notin> set (ty_events s)"
  shows "left_behind False ops way r p'"
proof (cases "fst (create_tray (ra_tray a))")
  case (Inl e)
  then show ?thesis using assms by (auto simp: run_tray_def returning_def left_behind_def tray_ok_def)
next
  case (Inr u)
  let ?body = "\<lambda>p. if \<not> ra_supervisor a then returning (Inl SupervisorFailed) p
      else run_loop lib hlib exec ops way s (p\<lparr>bg_supervised := True\<rparr>)"
  have body: "left_behind False ops way r q" if "?body (happened (Took TrayIcon) p) = (Some r, q)" for q
  proof (cases "ra_supervisor a")
    case True
    then show ?thesis using that run_loop_left_behind [OF _ _ assms(4,5,6,7)] by simp
  next
    case False
    then show ?thesis using that assms by (auto simp: returning_def left_behind_def tray_ok_def)
  qed
  have "holding TrayIcon ?body p = (Some r, p')" using assms(1) by (simp add: run_tray_def Inr)
  from holding_left_behind [OF this body] show ?thesis by simp
qed

lemma run_service_left_behind:
  assumes "run_service lib hlib exec a x ops way p = (Some r, p')" and "bg_tray p = None" and "\<not> bg_supervised p"
    and "random_ok lib"
  shows "left_behind True ops way r p'"
proof (cases "start_daemon lib (ra_base a) (ra_world a) (ra_startup a) (ra_draws a)")
  case (Pair result d)
  show ?thesis
  proof (cases result)
    case (Inl e)
    then show ?thesis using assms Pair by (auto simp: run_service_def returning_def left_behind_def)
  next
    case (Inr startup_error)
    let ?s = "tray_start (d, x)"
    let ?host = "\<lambda>p. case message_host_new (ra_host a) of
        None \<Rightarrow> returning (Inl HostFailed) p
      | Some h \<Rightarrow> holding (HostWindow h) (run_tray lib hlib exec a ops way ?s) p"
    have "daemon_ok d" using start_daemon_outcome Pair Inr assms(4) by blast
    then have ok: "tray_ok ?s" "\<not> ty_left ?s" "QuitDaemon \<notin> set (ty_events ?s)"
      by (simp_all add: tray_ok_def tray_start_def supervisor_start_def supervisor_ok_def)
    let ?p = "happened (Took EnteredRuntime) (happened (Took ServiceHandle) (p\<lparr>bg_tray := Some ?s\<rparr>))"
    have host: "left_behind False ops way r q" if run: "?host ?p = (Some r, q)" for q
    proof (cases "message_host_new (ra_host a)")
      case None
      then show ?thesis using run ok assms(3) by (auto simp: returning_def left_behind_def tray_ok_def)
    next
      case (Some h)
      have "holding (HostWindow h) (run_tray lib hlib exec a ops way ?s) ?p = (Some r, q)" using run Some by simp
      from holding_left_behind [OF this run_tray_left_behind [OF _ _ _ assms(4) ok]] show ?thesis
        using assms(3) by simp
    qed
    have entered: "left_behind False ops way r q"
      if "holding EnteredRuntime ?host (happened (Took ServiceHandle) (p\<lparr>bg_tray := Some ?s\<rparr>)) = (Some r, q)" for q
      using holding_left_behind [OF that host] by simp
    have "holding ServiceHandle (holding EnteredRuntime ?host) (p\<lparr>bg_tray := Some ?s\<rparr>) = (Some r, p')"
      using assms(1) by (simp add: run_service_def Pair Inr)
    from holding_left_behind [OF this entered] show ?thesis by simp
  qed
qed

lemma run_instance_left_behind:
  assumes "run_instance lib hlib exec a x ops way p = (Some r, p')" and "bg_tray p = None" and "\<not> bg_supervised p"
    and "random_ok lib"
  shows "left_behind True ops way r p'"
proof (cases "ra_mta a")
  case False
  then show ?thesis using assms by (auto simp: run_instance_def returning_def left_behind_def)
next
  case True
  let ?async = "\<lambda>p. if \<not> ra_async a then returning (Inl AsyncFailed) p
      else holding AsyncThreads (run_service lib hlib exec a x ops way) p"
  have async: "left_behind True ops way r q" if "?async (happened (Took MtaUsage) p) = (Some r, q)" for q
  proof (cases "ra_async a")
    case False
    then show ?thesis using that assms by (auto simp: returning_def left_behind_def)
  next
    case True
    then have "holding AsyncThreads (run_service lib hlib exec a x ops way) (happened (Took MtaUsage) p) = (Some r, q)"
      using that by simp
    from holding_left_behind [OF this run_service_left_behind [OF _ _ _ assms(4)]] show ?thesis
      using assms(2,3) by simp
  qed
  have "holding MtaUsage ?async p = (Some r, p')" using assms(1) True by (simp add: run_instance_def)
  from holding_left_behind [OF this async] show ?thesis by simp
qed

text \<open>Only a second instance returns without having taken anything, and without an error.\<close>

lemma run_ends:
  assumes "run lib hlib exec a x ops way = (Some r, p)" and "random_ok lib"
  shows "if ra_mutex a \<and> ra_handles a > 0
    then r = Inr () \<and> taken (bg_trace p) = [] \<and> bg_tray p = None
      \<and> (ActivatedInstance \<in> set (bg_trace p) \<longleftrightarrow> True \<in> set (take 40 (ra_found a)))
    else left_behind True ops way r p"
proof (cases "ra_mutex a \<and> ra_handles a = 0")
  case True
  then have "holding InstanceMutex (run_instance lib hlib exec a x ops way) process_start = (Some r, p)"
    using assms(1) by (simp add: run_def acquire_single_instance_def)
  from holding_left_behind [OF this run_instance_left_behind [OF _ _ _ assms(2)]] show ?thesis
    using True by (simp add: process_start_def)
next
  case False
  then show ?thesis using assms(1)
    by (auto simp: run_def acquire_single_instance_def returning_def process_start_def left_behind_def
        activate_existing_iff split: if_splits)
qed
section \<open>The Settings process runs the window\<close>

text \<open>What \<open>run\_settings\_mode\<close> ends with is a run of the window of Daemon\_Settings: what is shown of those
  holds of the process. It reports success exactly when the application exited with zero.\<close>

lemma pump_settings_window:
  "pump_settings from_json pumps w = (r, w') \<Longrightarrow>
     \<exists>ops. w' = foldl (window_step from_json) w ops
       \<and> (r = Some (Inr ()) \<longrightarrow> PumpExit 0 \<in> set pumps)
       \<and> (r = None \<longleftrightarrow> (\<forall>code. PumpExit code \<notin> set pumps))"
proof (induction from_json pumps w rule: pump_settings.induct)
  case (1 from_json w)
  then show ?case by (auto intro: exI [of _ "[]"])
next
  case (2 from_json ops ps w)
  then obtain more where "w' = foldl (window_step from_json) (foldl (window_step from_json) w ops) more"
      "r = Some (Inr ()) \<longrightarrow> PumpExit 0 \<in> set ps" "r = None \<longleftrightarrow> (\<forall>code. PumpExit code \<notin> set ps)"
    by auto
  then show ?case by (auto intro!: exI [of _ "ops @ more"])
next
  case (3 from_json code ps w)
  then show ?case by (auto intro!: exI [of _ "[]"] split: if_splits)
qed

lemma settings_mode_window:
  assumes "run_settings_mode from_json (Inr service) True True now pumps = (Some r, Some w)"
  shows "\<exists>ops. w = drop_window (foldl (window_step from_json) (open_settings service now) ops)
    \<and> (r = Inr () \<longrightarrow> PumpExit 0 \<in> set pumps)"
proof (cases "pump_settings from_json pumps (open_settings service now)")
  case (Pair res w1)
  then have "res = Some r" "w = drop_window w1"
    using assms by (auto simp: run_settings_mode_def split: option.splits)
  then show ?thesis using pump_settings_window [OF Pair] by blast
qed

lemma settings_mode_refused:
  "run_settings_mode from_json connected async events now pumps = (r, None) \<Longrightarrow>
     is_ok connected \<and> async \<and> events \<Longrightarrow> False"
  by (cases connected) (auto simp: run_settings_mode_def split: option.splits prod.splits)

section \<open>Properties\<close>

text \<open>C6: whatever fails and whatever happens in between, the background process gives back what its
  variables held in the reverse order of taking it, so that the apartment outlives the threads and the
  mutex everything. It returns without an error when another instance runs, whose window it then
  tried to bring up, or when the tray's menu or \<open>WM\_QUIT\<close> told it to quit. In that case no Settings
  process is left, unless the wait ended before the supervisor came to its quit, and no listener, unless
  the shutdown fell into the rotation of a running one or one was resumed after it. A start that fails
  after a listener was resumed asks that listener to shut down.\<close>

theorem background_process_ends:
  assumes "run lib hlib exec a x ops way = (Some r, p)" and "random_ok lib"
  shows "in_scope [] (bg_trace p) = Some []
    \<and> (\<exists>n. taken (bg_trace p) = take n
        [InstanceMutex, MtaUsage, AsyncThreads, ServiceHandle, EnteredRuntime, HostWindow (host_window a), TrayIcon])
    \<and> (if ra_mutex a \<and> ra_handles a > 0
       then r = Inr () \<and> taken (bg_trace p) = [] \<and> bg_tray p = None
         \<and> (ActivatedInstance \<in> set (bg_trace p) \<longleftrightarrow> True \<in> set (take 40 (ra_found a)))
       else case bg_tray p of
         None \<Rightarrow> r \<noteq> Inr ()
       | Some s \<Rightarrow>
           daemon_ok (fst (ty_system s))
         \<and> (if bg_supervised p
            then r = Inl MessagesFailed
              \<or> r \<in> {Inr (), Inl ShutdownFailed} \<and> told_to_quit ops
                \<and> (rt_listener (fst (ty_system s)) = None \<or> resumed way)
                \<and> (sv_processes (ty_supervisor s) = [] \<or> Quit \<in> set (ty_commands s))
            else r \<noteq> Inr ()
              \<and> (rt_listener (fst (ty_system s)) = None \<or> AskedListener \<in> set (bg_trace p))))"
  using run_trace [OF assms(1)] run_ends [OF assms]
  by (auto simp: left_behind_def held_by_run_def split: if_splits option.splits)

definition example_run :: run_answers where
  "example_run =
     \<lparr>ra_mutex = True, ra_handles = 0, ra_found = [], ra_mta = True, ra_async = True,
      ra_base = Some ''C:/u'', ra_world = \<lparr>files = Map.empty, answers = []\<rparr>, ra_startup = False, ra_draws = 0,
      ra_host = \<lparr>ha_module = True, ha_class = ClassExists, ha_window = Some 5\<rparr>, ra_tray = [], ra_supervisor = True\<rparr>"

definition example_way :: way_out where
  "example_way = \<lparr>wo_waited = [SupervisorTakes \<lparr>ob_ended = False, ob_ended_later = False, ob_spawned = None\<rparr>],
     wo_amid = False, wo_late = [ToggleReads]\<rparr>"

theorem background_process_ends_witness:
  "\<exists>r p s. run example_lib example_http_lib example_exec example_run 0 [Turn QuitMessage] example_way = (Some r, p)
    \<and> in_scope [] (bg_trace p) = Some [] \<and> bg_tray p = Some s \<and> daemon_ok (fst (ty_system s))
    \<and> (r = Inl MessagesFailed \<or> told_to_quit [Turn QuitMessage] \<and> rt_listener (fst (ty_system s)) = None)"
proof -
  obtain d0 where load: "load_runtime example_lib (Some ''C:/u'') \<lparr>files = Map.empty, answers = []\<rparr> False 0 = (Inr (), d0)"
    using example_load by blast
  have "\<exists>e d. start_daemon example_lib (Some ''C:/u'') \<lparr>files = Map.empty, answers = []\<rparr> False 0 = (Inr e, d)"
    by (cases "set_listener example_lib True d0"; cases "fst (set_listener example_lib True d0)")
      (auto simp: start_daemon_def load)
  then obtain e d where start: "start_daemon example_lib (Some ''C:/u'') \<lparr>files = Map.empty, answers = []\<rparr> False 0 = (Inr e, d)"
    by blast
  let ?run = "run example_lib example_http_lib example_exec example_run 0 [Turn QuitMessage] example_way"
  obtain r p s where run: "?run = (Some r, p)" "bg_tray p = Some s" "bg_supervised p"
    by (simp add: run_def example_run_def acquire_single_instance_def run_instance_def run_service_def run_tray_def
        start holding_def message_host_new_def create_tray_def tray_menu_def tray_icon_def outside_def
        run_loop_def returning_def leave_loop_def tray_start_def loop_turn_frame loop_exit_def Let_def split_def)
  have random: "random_ok example_lib" by (simp add: random_ok_def example_lib_def)
  from background_process_ends [OF run(1) random] run show ?thesis
    by (auto simp: example_run_def resumed_def example_way_def)
qed

end
