(* ===== verification/Daemon_Clicks.thy ===== *)
theory Daemon_Clicks
  imports Daemon_Settings "HOL-Library.Sublist"
begin

text \<open>
  What the user's clicks in the Settings window (daemon/src/adapters/windows\_app.rs) can start: tests
  and the rotation of credentials only behind their dialog, and only valid lists of actions and the
  shown address through the form, the phrase editor and the connection tab.
\<close>

section \<open>What a click may start\<close>

text \<open>The tasks that run or revoke something: they are behind a dialog.\<close>

fun guarded :: "ui_task \<Rightarrow> bool" where
  "guarded (TaskTestAction i) = True"
| "guarded TaskRotate = True"
| "guarded _ = False"

definition discreet :: "settings_window \<Rightarrow> settings_window \<Rightarrow> bool" where
  "discreet w w' \<longleftrightarrow>
     sa_confirm_action (sw_app w') = sa_confirm_action (sw_app w)
   \<and> sa_confirm_rotation (sw_app w') = sa_confirm_rotation (sw_app w)
   \<and> sa_pairing_token (sw_app w') = sa_pairing_token (sw_app w)
   \<and> (\<forall>t \<in> set (sw_tasks w'). t \<in> set (sw_tasks w) \<or> \<not> guarded t)"

lemma discreet_refl [simp]: "discreet w w"
  by (simp add: discreet_def)

lemma discreet_trans: "discreet w w1 \<Longrightarrow> discreet w1 w2 \<Longrightarrow> discreet w w2"
  unfolding discreet_def by auto

named_theorems discreet_rules \<open>operations that neither ask nor start something guarded\<close>

lemma request_listener_discreet [discreet_rules]: "discreet w (request_listener b w)"
  by (simp add: request_listener_def discreet_def window_updates)

lemma ui_save_actions_discreet [discreet_rules]: "discreet w (ui_save_actions actions w)"
  by (simp add: ui_save_actions_def discreet_def window_updates)

lemma ui_apply_voice_discreet [discreet_rules]: "discreet w (ui_apply_voice w)"
  by (simp add: ui_apply_voice_def discreet_def window_updates)

lemma set_startup_discreet [discreet_rules]: "discreet w (set_startup b w)"
  by (simp add: set_startup_def discreet_def window_updates)

lemma with_status_discreet [discreet_rules]: "discreet w (with_status s w)"
  by (simp add: discreet_def window_updates)

lemma save_phrases_discreet [discreet_rules]: "discreet w (save_phrases w)"
  unfolding save_phrases_def Let_def by (simp add: discreet_rules)

lemma add_action_discreet [discreet_rules]: "discreet w (add_action from_json w)"
proof -
  let ?clear = "on_app (\<lambda>a. a\<lparr>sa_action_id := [], sa_action_name := [], sa_action_phrase := [],
                         sa_action_path := [], sa_action_run_as_admin := False\<rparr>)"
  have "discreet w (?clear w)" by (simp add: discreet_def on_app_def)
  then have "discreet w (ui_save_actions actions (?clear w))" for actions
    by (rule discreet_trans) (rule ui_save_actions_discreet)
  then show ?thesis
    unfolding add_action_def Let_def by (simp add: with_status_discreet split: sum.split option.split)
qed

lemma change_actions_discreet [discreet_rules]: "discreet w (change_actions f w)"
  unfolding change_actions_def by (rule ui_save_actions_discreet)

lemma apply_address_discreet [discreet_rules]: "discreet w (apply_address w)"
  unfolding apply_address_def by (simp add: discreet_def window_updates split: option.split)

lemma touch_drafts_discreet [discreet_rules]: "discreet w (touch_drafts w)"
  by (simp add: touch_drafts_def discreet_def window_updates)

lemma refresh_due_discreet [discreet_rules]: "discreet w (refresh_due now w)"
  by (simp add: refresh_due_def discreet_def window_updates)

lemma edit_path_discreet:
  "discreet w (edit_field input sa_action_path (\<lambda>p a. a\<lparr>sa_action_path := p\<rparr>) w)"
  "discreet w (edit_field input sa_interpreter_path (\<lambda>p a. a\<lparr>sa_interpreter_path := p\<rparr>) w)"
  by (simp_all add: edit_field_def discreet_def window_updates split: prod.split option.split)

lemma overview_input_discreet: "discreet w (overview_input input w)"
  by (cases input) (simp_all add: request_listener_def set_startup_def discreet_def window_updates Let_def)

lemma form_input_discreet: "discreet w (form_input from_json input w)"
proof -
  have "discreet w (on_app f w)" if "\<And>a. sa_confirm_action (f a) = sa_confirm_action a"
    "\<And>a. sa_confirm_rotation (f a) = sa_confirm_rotation a" "\<And>a. sa_pairing_token (f a) = sa_pairing_token a" for f
    using that by (simp add: discreet_def on_app_def)
  then show ?thesis by (cases input) (simp_all add: edit_path_discreet add_action_discreet)
qed

lemma listed_input_discreet:
  "input \<noteq> ClickTest i \<Longrightarrow> listed_id input = Some i \<Longrightarrow> discreet w (listed_input input action w)"
  by (cases input) (simp_all add: change_actions_discreet split: configured_action.split, simp add: discreet_def on_app_def)

lemma actions_input_discreet:
  "(\<And>i. input \<noteq> ClickTest i) \<Longrightarrow> discreet w (actions_input from_json input w)"
  unfolding actions_input_def
  by (simp add: discreet_rules form_input_discreet listed_input_discreet split: option.split)

lemma connection_input_discreet: "input \<noteq> ClickRotate \<Longrightarrow> discreet w (connection_input input w)"
  by (cases input) (simp_all add: apply_address_discreet, simp_all add: discreet_def window_updates)

lemma user_input_discreet:
  assumes "\<And>i. input \<noteq> ClickTest i" "input \<noteq> ClickRotate" "\<not> is_dialog_input input"
  shows "discreet w (user_input from_json input w)"
proof (cases "\<exists>t. input = SelectTab t")
  case True
  then obtain t where t: "input = SelectTab t" by blast
  have "discreet w (on_app (\<lambda>a. a\<lparr>sa_tab := t\<rparr>) w)" by (simp add: discreet_def on_app_def)
  then show ?thesis using discreet_trans touch_drafts_discreet t by simp
next
  case False
  show ?thesis
  proof (cases "input = ClickClose")
    case True
    then show ?thesis by (simp add: discreet_def send_close_def)
  next
    case other: False
    then have "user_input from_json input w =
        (case sa_tab (sw_app w) of
            Overview \<Rightarrow> overview_input input w
          | Actions \<Rightarrow> actions_input from_json input w
          | Connection \<Rightarrow> connection_input input w)"
      using False assms(3) by (cases input; hypsubst; simp)
    then show ?thesis
      using overview_input_discreet actions_input_discreet [OF assms(1)] connection_input_discreet [OF assms(2)]
      by (simp split: settings_tab.split)
  qed
qed

text \<open>The asking inputs, and the dialogs' buttons.\<close>

lemma ask_test:
  "\<exists>s. let w' = user_input from_json (ClickTest i) w in
     sw_tasks w' = sw_tasks w \<and> sa_confirm_rotation (sw_app w') = sa_confirm_rotation (sw_app w)
   \<and> sa_pairing_token (sw_app w') = sa_pairing_token (sw_app w)
   \<and> sa_confirm_action (sw_app w') \<in> {sa_confirm_action (sw_app w), Some (action_id_str i)}"
  by (simp add: is_dialog_input_def actions_input_def on_app_def split: settings_tab.split option.split)

lemma ask_rotation:
  "let w' = user_input from_json ClickRotate w in
     sw_tasks w' = sw_tasks w \<and> sa_confirm_action (sw_app w') = sa_confirm_action (sw_app w)
   \<and> sa_pairing_token (sw_app w') = sa_pairing_token (sw_app w)"
  by (simp add: is_dialog_input_def actions_input_def on_app_def split: settings_tab.split option.split)

lemma run_test:
  "user_input from_json ClickRunTest w =
     (case sa_confirm_action (sw_app w) of
        None \<Rightarrow> w
      | Some s \<Rightarrow>
          let w1 = on_app (\<lambda>a. a\<lparr>sa_confirm_action := None\<rparr>) w in
            (case parse_action_id s of Inl e \<Rightarrow> w1 | Inr i \<Rightarrow> spawn_task (TaskTestAction i) w1))"
  by (simp add: is_dialog_input_def)

lemma answer_dialogs:
  "user_input from_json ClickCancelTest w = on_app (\<lambda>a. a\<lparr>sa_confirm_action := None\<rparr>) w"
  "user_input from_json ClickCancelRotation w = on_app (\<lambda>a. a\<lparr>sa_confirm_rotation := False\<rparr>) w"
  "user_input from_json ClickConfirmRotation w =
     (if sa_confirm_rotation (sw_app w)
      then spawn_task TaskRotate (on_app (\<lambda>a. a\<lparr>sa_confirm_rotation := False\<rparr>) w) else w)"
  by (simp_all add: is_dialog_input_def)

text \<open>What the clicks seen so far allow.\<close>

definition consented :: "ui_input list \<Rightarrow> settings_window \<Rightarrow> bool" where
  "consented seen w \<longleftrightarrow>
     (\<forall>s. sa_confirm_action (sw_app w) = Some s \<longrightarrow> (\<exists>i. s = action_id_str i \<and> ClickTest i \<in> set seen))
   \<and> (\<forall>i. TaskTestAction i \<in> set (sw_tasks w) \<longrightarrow> subseq [ClickTest i, ClickRunTest] seen)
   \<and> (sa_confirm_rotation (sw_app w) \<longrightarrow> ClickRotate \<in> set seen)
   \<and> (TaskRotate \<in> set (sw_tasks w) \<longrightarrow> subseq [ClickRotate, ClickConfirmRotation] seen)"

lemma subseq_then: "subseq xs ys \<Longrightarrow> subseq xs (ys @ zs)"
  by (rule list_emb_prefix)

lemma subseq_pair: "a \<in> set ys \<Longrightarrow> subseq [a, b] (ys @ [b])"
  using list_emb_append_mono [of "(=)" "[a]" ys "[b]" "[b]"] by (simp add: subseq_singleton_left)

lemma consented_more: "consented seen w \<Longrightarrow> consented (seen @ extra) w"
  unfolding consented_def by (auto intro: subseq_then)

lemma consented_discreet:
  assumes "discreet w w'" and "consented seen w"
  shows "consented seen w'"
proof -
  have "t \<in> set (sw_tasks w)" if "t \<in> set (sw_tasks w')" "guarded t" for t
    using assms(1) that by (auto simp: discreet_def)
  then have "TaskTestAction i \<in> set (sw_tasks w') \<Longrightarrow> TaskTestAction i \<in> set (sw_tasks w)"
    "TaskRotate \<in> set (sw_tasks w') \<Longrightarrow> TaskRotate \<in> set (sw_tasks w)" for i
    by simp_all
  then show ?thesis using assms unfolding consented_def discreet_def by metis
qed

lemma action_id_str_inject: "action_id_str i = action_id_str j \<longleftrightarrow> i = j"
  by (cases i; cases j) simp

lemma consented_run_test:
  assumes "consented seen w"
  shows "consented (seen @ [ClickRunTest]) (user_input from_json ClickRunTest w)"
proof (cases "sa_confirm_action (sw_app w)")
  case None
  then show ?thesis using consented_more [OF assms] by (simp add: run_test del: user_input.simps)
next
  case (Some s)
  obtain i where i: "s = action_id_str i" "ClickTest i \<in> set seen"
    using assms Some by (auto simp: consented_def)
  have more: "consented (seen @ [ClickRunTest]) (on_app (\<lambda>a. a\<lparr>sa_confirm_action := None\<rparr>) w)"
    using consented_more [OF assms, of "[ClickRunTest]"] by (auto simp: consented_def on_app_def)
  show ?thesis
  proof (cases "parse_action_id s")
    case (Inl e)
    then show ?thesis using Some more by (simp add: run_test Let_def del: user_input.simps)
  next
    case (Inr j)
    then have "j = i" using i by (simp add: parse_action_id_Inr action_id_str_inject)
    then have "consented (seen @ [ClickRunTest])
        (spawn_task (TaskTestAction j) (on_app (\<lambda>a. a\<lparr>sa_confirm_action := None\<rparr>) w))"
      using more subseq_pair [OF i(2)] by (simp add: consented_def spawn_task_def)
    then show ?thesis using Some Inr by (simp add: run_test Let_def del: user_input.simps)
  qed
qed

lemma consented_input:
  assumes "consented seen w"
  shows "consented (seen @ [input]) (user_input from_json input w)"
proof -
  note more = consented_more [OF assms, of "[input]"]
  consider (test) i where "input = ClickTest i" | (rotate) "input = ClickRotate" | (run) "input = ClickRunTest"
    | (cancel) "input = ClickCancelTest \<or> input = ClickCancelRotation" | (confirm) "input = ClickConfirmRotation"
    | (other) "\<forall>i. input \<noteq> ClickTest i" "input \<noteq> ClickRotate" "\<not> is_dialog_input input"
    by (auto simp: is_dialog_input_def)
  then show ?thesis
  proof cases
    case test
    then show ?thesis using more ask_test [of from_json i w] by (auto simp: consented_def Let_def)
  next
    case rotate
    then show ?thesis using more ask_rotation [of from_json w] by (auto simp: consented_def Let_def)
  next
    case run
    then show ?thesis using consented_run_test [OF assms] by simp
  next
    case cancel
    then show ?thesis using more by (auto simp: answer_dialogs consented_def on_app_def simp del: user_input.simps)
  next
    case confirm
    show ?thesis
    proof (cases "sa_confirm_rotation (sw_app w)")
      case True
      then have "ClickRotate \<in> set seen" using assms by (simp add: consented_def)
      then show ?thesis using more True subseq_pair confirm
        by (auto simp: answer_dialogs consented_def on_app_def spawn_task_def simp del: user_input.simps)
    next
      case False
      then show ?thesis using more confirm by (simp add: answer_dialogs del: user_input.simps)
    qed
  next
    case other
    then show ?thesis using consented_discreet [OF user_input_discreet more] by blast
  qed
qed

lemma consented_inputs: "consented seen w \<Longrightarrow> consented (seen @ inputs) (fold (user_input from_json) inputs w)"
proof (induction inputs arbitrary: seen w)
  case (Cons input inputs)
  then show ?case using Cons.IH [OF consented_input [OF Cons.prems]] by simp
qed simp

lemma handle_event_confirm [simp]:
  "sa_confirm_action (sw_app (handle_event e w)) = sa_confirm_action (sw_app w)"
  "sa_confirm_rotation (sw_app (handle_event e w)) = sa_confirm_rotation (sw_app w)"
  by (cases e; simp add: window_updates send_close_def Let_def)+

lemma handle_event_consented: "consented seen (handle_event e w) = consented seen w"
  unfolding consented_def by (simp del: handle_event.simps)

lemma drain_consented: "consented seen (drain_events w) = consented seen w"
proof -
  have "consented seen (fold handle_event es w') = consented seen w'" for es w'
    by (induction es arbitrary: w') (simp_all add: handle_event_consented del: handle_event.simps)
  then show ?thesis by (simp add: drain_events_def consented_def)
qed

lemma task_consented:
  "consented seen w \<Longrightarrow> consented seen (task_returns channel k w)"
  "consented seen w \<Longrightarrow> consented seen (task_wakes k w)"
  by (auto simp: task_returns_def task_wakes_def consented_def wake_def split: prod.split dest: in_without)

fun op_inputs :: "window_op \<Rightarrow> ui_input list" where
  "op_inputs (Frame now inputs) = inputs"
| "op_inputs (TaskReturns channel k) = []"
| "op_inputs (TaskWakes k) = []"

lemma consented_step:
  assumes "consented seen w"
  shows "consented (seen @ op_inputs operation) (window_step from_json w operation)"
proof (cases operation)
  case (Frame now inputs)
  have "consented seen (refresh_due now w)" by (rule consented_discreet [OF refresh_due_discreet assms])
  then have "consented seen (touch_drafts (drain_events (refresh_due now w)))"
    using consented_discreet [OF touch_drafts_discreet] drain_consented by blast
  then show ?thesis using Frame by (simp add: update_frame_def consented_inputs)
qed (use assms in \<open>simp_all add: task_consented\<close>)

lemma consented_run:
  "consented (concat (map op_inputs operations)) (foldl (window_step from_json) (open_settings service now) operations)"
proof (induction operations rule: rev_induct)
  case Nil
  then show ?case by (simp add: consented_def open_settings_def settings_app_new_def Let_def)
next
  case (snoc operation operations)
  then show ?case using consented_step [OF snoc.IH] by simp
qed

section \<open>What the form and the phrases submit\<close>

lemma spawned_once: "sw_tasks w @ [t] = sw_tasks w @ ts \<longleftrightarrow> ts = [t]"
  by auto

lemma add_action_cases:
  obtains (rejected) e where "add_action from_json w = with_status e w"
  | (submitted) i args f where
      "action_id_str i = trim (sa_action_id (sw_app w))" "from_json (sa_action_args_json (sw_app w)) = Some args"
      "config_ok ((client_config (sw_service w))\<lparr>ac_actions :=
          ac_actions (client_config (sw_service w)) @ [new_action (sw_app w) i args]\<rparr>)"
      "add_action from_json w =
         ui_save_actions (ac_actions (client_config (sw_service w)) @ [new_action (sw_app w) i args]) (on_app f w)"
      "sa_actions_pending (f (sw_app w)) = sa_actions_pending (sw_app w)"
proof (cases "parse_action_id (trim (sa_action_id (sw_app w)))")
  case (Inl e)
  then show ?thesis by (intro rejected) (simp add: add_action_def Let_def)
next
  case (Inr i)
  show ?thesis
  proof (cases "from_json (sa_action_args_json (sw_app w))")
    case None
    then show ?thesis using Inr by (intro rejected) (simp add: add_action_def Let_def)
  next
    case (Some args)
    let ?candidate = "(client_config (sw_service w))\<lparr>ac_actions :=
        ac_actions (client_config (sw_service w)) @ [new_action (sw_app w) i args]\<rparr>"
    have id: "action_id_str i = trim (sa_action_id (sw_app w))" using Inr by (simp add: parse_action_id_Inr)
    show ?thesis
    proof (cases "config_ok ?candidate")
      case True
      show ?thesis
        by (rule submitted [OF id Some True, where f = "\<lambda>a. a\<lparr>sa_action_id := [], sa_action_name := [],
            sa_action_phrase := [], sa_action_path := [], sa_action_run_as_admin := False\<rparr>"])
          (use True in \<open>simp_all add: add_action_def Let_def validate_ok Inr Some\<close>)
    next
      case False
      then show ?thesis
        using Inr Some by (intro rejected) (simp add: add_action_def Let_def validate_ok)
    qed
  qed
qed

definition drafted :: "settings_window \<Rightarrow> custom_action list" where
  "drafted w = map (\<lambda>a. a\<lparr>ca_phrase := draft_phrase (sa_phrase_drafts (sw_app w)) a\<rparr>)
     (ac_actions (client_config (sw_service w)))"

lemma save_phrases_cases:
  obtains (rejected) "sw_tasks (save_phrases w) = sw_tasks w"
  | (submitted) "config_ok ((client_config (sw_service w))\<lparr>ac_actions := drafted w\<rparr>)"
      "save_phrases w = ui_save_actions (drafted w) w"
proof (cases "\<not> sa_actions_pending (sw_app w) \<and> config_ok ((client_config (sw_service w))\<lparr>ac_actions := drafted w\<rparr>)")
  case True
  then show ?thesis by (intro submitted) (simp_all add: save_phrases_def Let_def validate_ok drafted_def)
next
  case False
  then show ?thesis
    by (intro rejected) (auto simp: save_phrases_def Let_def validate_ok drafted_def window_updates)
qed

lemma ui_save_actions_tasks:
  "sw_tasks (ui_save_actions actions w) =
     (if sa_actions_pending (sw_app w) then sw_tasks w else sw_tasks w @ [TaskSaveActions actions])"
  by (simp add: ui_save_actions_def window_updates)

section \<open>Properties\<close>

text \<open>The clicks that stand behind a task.\<close>

fun asked_by :: "ui_task \<Rightarrow> ui_input list" where
  "asked_by (TaskTestAction i) = [ClickTest i, ClickRunTest]"
| "asked_by TaskRotate = [ClickRotate, ClickConfirmRotation]"
| "asked_by _ = []"

text \<open>C14: nothing that runs an action or revokes the credentials is started by a single click: for each
  such task the user first asked for it and then confirmed it in the dialog, whatever else happened
  before, between or after.\<close>

theorem tests_need_two_clicks:
  "list_all (\<lambda>t. subseq (asked_by t) (concat (map op_inputs operations)))
     (sw_tasks (foldl (window_step from_json) (open_settings service now) operations))"
proof -
  have "subseq (asked_by t) (concat (map op_inputs operations))"
    if "t \<in> set (sw_tasks (foldl (window_step from_json) (open_settings service now) operations))" for t
    using consented_run [of operations from_json service now] that by (cases t) (auto simp: consented_def)
  then show ?thesis by (simp add: list_all_iff)
qed

lemma apply_printed:
  assumes "sa_bind_address (sw_app w) = ip_to_string (V4 a b c d)" and "sa_port (sw_app w) = show_nat (unat p)"
  shows "apply_address w = spawn_task (TaskReconfigure (V4 a b c d) p) w"
proof -
  have "unat p \<le> 65535" using unsigned_less [of p, where ?'a = nat] by simp
  then show ?thesis
    using assms by (simp add: apply_address_def parse_printed_ipv4 parse_unsigned_show_nat del: ip_to_string.simps)
qed

text \<open>On the connection tab of a window over a valid configuration with a paused listener, applying
  what is shown asks for exactly the configured address and port, and applying what is typed asks for
  exactly the typed ones.\<close>

theorem shown_address_round_trip:
  assumes "config_ok (client_config service)" and "\<not> ac_listener_enabled (client_config service)"
  shows "sw_tasks (fold (user_input from_json) [SelectTab Connection, ClickApplyAddress] (open_settings service now)) =
      [TaskReconfigure (ac_bind_address (client_config service)) (ac_port (client_config service))]
    \<and> sw_tasks (fold (user_input from_json)
        [SelectTab Connection, EditAddress (ip_to_string (V4 a b c d)), EditPort (show_nat (unat p)), ClickApplyAddress]
        (open_settings service now)) = [TaskReconfigure (V4 a b c d) p]"
proof -
  obtain e f g h where v4: "ac_bind_address (client_config service) = V4 e f g h"
    using assms(1) by (cases "ac_bind_address (client_config service)") (auto simp: config_ok_def bind_allowed_def)
  let ?w = "on_app (\<lambda>a. a\<lparr>sa_tab := Connection\<rparr>) (open_settings service now)"
  let ?typed = "on_app (\<lambda>x. x\<lparr>sa_port := show_nat (unat p)\<rparr>) (on_app (\<lambda>x. x\<lparr>sa_bind_address := ip_to_string (V4 a b c d)\<rparr>) ?w)"
  have opened: "user_input from_json (SelectTab Connection) (open_settings service now) = ?w"
    by (simp add: touch_drafts_def on_app_def)
  have shown: "apply_address ?w = spawn_task (TaskReconfigure (V4 e f g h) (ac_port (client_config service))) ?w"
    by (rule apply_printed) (simp_all add: on_app_def open_settings_def settings_app_new_def Let_def v4)
  have typed: "apply_address ?typed = spawn_task (TaskReconfigure (V4 a b c d) p) ?typed"
    by (rule apply_printed) (simp_all add: on_app_def)
  have "sw_tasks (user_input from_json ClickApplyAddress ?w) = [TaskReconfigure (V4 e f g h) (ac_port (client_config service))]"
    using shown assms(2)
    by (simp add: is_dialog_input_def on_app_def open_settings_def settings_app_new_def Let_def spawn_task_def)
  moreover have "user_input from_json (EditPort (show_nat (unat p)))
      (user_input from_json (EditAddress (ip_to_string (V4 a b c d))) ?w) = ?typed"
    using assms(2) by (simp add: is_dialog_input_def on_app_def open_settings_def settings_app_new_def Let_def)
  moreover have "sw_tasks (user_input from_json ClickApplyAddress ?typed) = [TaskReconfigure (V4 a b c d) p]"
    using typed assms(2)
    by (simp add: is_dialog_input_def on_app_def open_settings_def settings_app_new_def Let_def spawn_task_def)
  ultimately show ?thesis using opened v4 by simp
qed

theorem shown_address_round_trip_witness:
  "sw_tasks (fold (user_input (\<lambda>text. None)) [SelectTab Connection, ClickApplyAddress] (open_settings initial_client 0)) =
     [TaskReconfigure (V4 127 0 0 1) 8443]"
proof -
  have config: "client_config initial_client = default_config" by (simp add: client_config_def initial_client_def)
  then have "config_ok (client_config initial_client)" "\<not> ac_listener_enabled (client_config initial_client)"
    using default_config_ok by (simp_all add: default_config_def)
  from shown_address_round_trip [OF this] show ?thesis by (simp only: config) (simp add: default_config_def)
qed

text \<open>C38: the lists of actions that the form and the phrase editor submit are valid configurations. The
  form appends one enabled action to the listed ones, with the id, name and phrase as typed, trimmed, and
  the typed arguments: a launch of the typed path with the typed choice of elevation, a batch script, or a
  PowerShell script under the typed interpreter, as the chosen kind says. The phrase editor changes nothing
  but phrases, each to its trimmed draft, none if that is empty. Nothing is submitted while a save is
  pending.\<close>

theorem submitted_actions_valid:
  assumes "TaskSaveActions actions \<in> set (sw_tasks w') - set (sw_tasks w)"
    and "w' \<in> {add_action from_json w, save_phrases w}"
  shows "config_ok ((client_config (sw_service w))\<lparr>ac_actions := actions\<rparr>)
    \<and> \<not> sa_actions_pending (sw_app w) \<and> sw_tasks w' = sw_tasks w @ [TaskSaveActions actions]
    \<and> ((\<exists>a args. actions = ac_actions (client_config (sw_service w)) @ [a]
          \<and> action_id_str (ca_id a) = trim (sa_action_id (sw_app w))
          \<and> ca_name a = trim (sa_action_name (sw_app w)) \<and> ca_enabled a
          \<and> ca_phrase a = (if trim (sa_action_phrase (sw_app w)) = [] then None
              else Some (trim (sa_action_phrase (sw_app w))))
          \<and> from_json (sa_action_args_json (sw_app w)) = Some args
          \<and> ca_action a = (case sa_action_kind (sw_app w) of
                0 \<Rightarrow> Launch (sa_action_path (sw_app w)) args None (sa_action_run_as_admin (sw_app w))
              | Suc 0 \<Rightarrow> Batch (sa_action_path (sw_app w)) args None
              | _ \<Rightarrow> PowerShell (sa_interpreter_path (sw_app w)) (sa_action_path (sw_app w)) args None))
      \<or> actions = map (\<lambda>a. a\<lparr>ca_phrase := (case sa_phrase_drafts (sw_app w) (action_id_str (ca_id a)) of
              None \<Rightarrow> None
            | Some draft \<Rightarrow> if trim draft = [] then None else Some (trim draft))\<rparr>)
          (ac_actions (client_config (sw_service w))))"
proof (cases "w' = add_action from_json w")
  case True
  then show ?thesis
  proof (cases rule: add_action_cases [of from_json w])
    case (rejected e)
    then show ?thesis using True assms(1) by (simp add: window_updates)
  next
    case (submitted i args f)
    have typed: "ca_action (new_action (sw_app w) i args) = (case sa_action_kind (sw_app w) of
                0 \<Rightarrow> Launch (sa_action_path (sw_app w)) args None (sa_action_run_as_admin (sw_app w))
              | Suc 0 \<Rightarrow> Batch (sa_action_path (sw_app w)) args None
              | _ \<Rightarrow> PowerShell (sa_interpreter_path (sw_app w)) (sa_action_path (sw_app w)) args None)"
      by (simp add: new_action_def entered_action_def split: nat.split)
    from submitted show ?thesis
      using True assms(1) typed
      by (auto simp: ui_save_actions_tasks window_updates new_action_def split: if_splits)
  qed
next
  case False
  then have w': "w' = save_phrases w" using assms(2) by simp
  show ?thesis
  proof (cases rule: save_phrases_cases [of w])
    case rejected
    then show ?thesis using w' assms(1) by simp
  next
    case submitted
    then have new: "actions = drafted w" "\<not> sa_actions_pending (sw_app w)"
      using w' assms(1) by (auto simp: ui_save_actions_tasks split: if_splits)
    have "draft_phrase drafts a = (case drafts (action_id_str (ca_id a)) of None \<Rightarrow> None
        | Some draft \<Rightarrow> if trim draft = [] then None else Some (trim draft))" for drafts a
      by (simp add: draft_phrase_def split: option.split)
    then show ?thesis using submitted new w' by (simp add: ui_save_actions_tasks drafted_def)
  qed
qed

definition example_form :: settings_window where
  "example_form = on_app (\<lambda>a. a\<lparr>sa_action_id := ''notes'', sa_action_name := ''Notes'', sa_action_phrase := ''open notes'',
     sa_action_path := ''C:'' @ [CHR 0x5C] @ ''notes.exe''\<rparr>) (open_settings initial_client 0)"

lemma example_form_action:
  "parse_action_id (trim (sa_action_id (sw_app example_form))) = Inr example_id"
  "new_action (sw_app example_form) example_id [] = example_action"
proof -
  have trims: "trim ''notes'' = ''notes''" "trim ''Notes'' = ''Notes''" "trim ''open notes'' = ''open notes''"
    "parse_action_id ''notes'' = Inr example_id"
    by code_simp+
  then show "parse_action_id (trim (sa_action_id (sw_app example_form))) = Inr example_id"
    by (simp add: example_form_def on_app_def)
  show "new_action (sw_app example_form) example_id [] = example_action"
    using trims
    by (simp add: new_action_def example_form_def on_app_def open_settings_def settings_app_new_def Let_def
        entered_action_def example_action_def)
qed

lemma example_form_valid: "config_ok (default_config\<lparr>ac_actions := [example_action]\<rparr>)"
proof -
  have "validate (default_config\<lparr>ac_actions := [example_action]\<rparr>) = Inr ()" by code_simp
  then show ?thesis by (simp add: validate_iff)
qed

theorem submitted_actions_valid_witness:
  "\<not> sa_actions_pending (sw_app example_form)
    \<and> sw_tasks (add_action (\<lambda>text. Some []) example_form) = [TaskSaveActions [example_action]]"
proof -
  have config: "client_config (sw_service example_form) = default_config"
    by (simp add: client_config_def initial_client_def example_form_def on_app_def open_settings_def)
  have empty: "sw_tasks example_form = []" "\<not> sa_actions_pending (sw_app example_form)"
    by (simp_all add: example_form_def on_app_def open_settings_def settings_app_new_def Let_def)
  have "sw_tasks (add_action (\<lambda>text. Some []) example_form) = [TaskSaveActions [example_action]]"
    unfolding add_action_def Let_def config example_form_action
    using empty example_form_valid
    by (simp add: default_config_def validate_ok ui_save_actions_tasks on_app_def example_form_action)
  then have "TaskSaveActions [example_action]
      \<in> set (sw_tasks (add_action (\<lambda>text. Some []) example_form)) - set (sw_tasks example_form)"
    using empty by simp
  from submitted_actions_valid [OF this, of "\<lambda>text. Some []"] empty show ?thesis by simp
qed

lemma confirmed_test_runs:
  assumes "sa_tab (sw_app w) = Actions" and "\<not> sa_actions_pending (sw_app w)"
    and "shown_action i w = Some a" and "ca_enabled a" and "wf_action_id i"
  shows "sw_tasks (fold (user_input from_json) [ClickTest i, ClickRunTest] w) = sw_tasks w @ [TaskTestAction i]"
proof -
  have "parse_action_id (action_id_str i) = Inr i" using assms(5) by (simp add: parse_action_id_Inr)
  then show ?thesis
    using assms by (simp add: is_dialog_input_def actions_input_def on_app_def spawn_task_def Let_def)
qed

end
