(* ===== verification/Daemon_Session.thy ===== *)
theory Daemon_Session
  imports Daemon_Clicks Daemon_Calls
begin

text \<open>
  The Settings window on the running daemon: the window of Daemon\_Settings whose calls the server of
  Daemon\_Management answers, while the device's requests and the tray
  (daemon/src/adapters/windows\_app.rs) go on using the same daemon. A task's call is answered, the call
  returns in the task, and the task wakes the window: three steps, and those of the tasks interleave
  in any order.
\<close>

section \<open>Steps\<close>

text \<open>The request a task sends.\<close>

fun task_request :: "ui_task \<Rightarrow> request" where
  "task_request (TaskSetListener enabled) = ReqSetListener enabled"
| "task_request (TaskSaveActions actions) = ReqSaveActions actions"
| "task_request TaskApplyVoice = ReqApplyVoiceConfig"
| "task_request (TaskSetStartup enabled) = ReqSetStartup enabled"
| "task_request (TaskReconfigure a p) = ReqReconfigure a p"
| "task_request (TaskTestAction i) = ReqTestAction i"
| "task_request TaskToken = ReqRevealPairingToken"
| "task_request TaskExportCa = ReqExportCa"
| "task_request TaskRotate = ReqRotateCredentials"
| "task_request TaskRefresh = ReqSnapshot"

text \<open>
  \<open>ss\_answered\<close> are the tasks whose request the daemon has answered and whose call has not returned,
  each with the answer. \<open>ss\_unseen\_rotation\<close> is history: a rotation answered an error or was not
  answered to this window, was made elsewhere, or came while the answer to a task that asked for the
  token was on its way.
\<close>

record 'x session =
  ss_window :: settings_window
  ss_manager :: "'x manager"
  ss_answered :: "(ui_task \<times> response) list"
  ss_unseen_rotation :: bool

fun is_token_event :: "ui_event \<Rightarrow> bool" where
  "is_token_event (PairingToken r) = True"
| "is_token_event _ = False"

fun is_rotation_event :: "ui_event \<Rightarrow> bool" where
  "is_rotation_event (CredentialsRotated r) = True"
| "is_rotation_event _ = False"

definition token_under_way :: "'x session \<Rightarrow> bool" where
  "token_under_way s \<longleftrightarrow> list_ex (\<lambda>(t, a). t = TaskToken) (ss_answered s)
     \<or> list_ex is_token_event (sw_returned (ss_window s))"

definition rotation_under_way :: "'x session \<Rightarrow> bool" where
  "rotation_under_way s \<longleftrightarrow> list_ex (\<lambda>(t, a). t = TaskRotate) (ss_answered s)
     \<or> list_ex is_rotation_event (sw_returned (ss_window s))"

text \<open>Tasks that ask the same are the same; one of them waits when fewer are answered than run.\<close>

definition waits :: "ui_task \<Rightarrow> 'x session \<Rightarrow> bool" where
  "waits t s \<longleftrightarrow> count_list (map fst (ss_answered s)) t < count_list (sw_tasks (ss_window s)) t"

text \<open>The channel of a call that returns with \<open>response\<close>: the answer carries the id of its request.\<close>

definition reply_channel :: "response \<Rightarrow> channel" where
  "reply_channel response request = Replied (Inr (envelope_new (en_id request) response))"

text \<open>
  A call may also fail: the queue is full, the background process is gone, or the time is over. A
  request of its own may then have been answered, and the answer is lost (\<open>Some j\<close>), or be performed
  later, which is a step made elsewhere.
\<close>

datatype session_op =
    Draw nat "ui_input list"
  | Serve nat bool bool
  | Returns nat nat
  | Fails nat channel_answer "nat option"
  | Wakes nat
  | Elsewhere system_op

fun session_step ::
  "runtime_lib \<Rightarrow> http_lib \<Rightarrow> 'x executor \<Rightarrow> (string \<Rightarrow> string list option) \<Rightarrow> 'x session \<Rightarrow> session_op \<Rightarrow> 'x session" where
  "session_step lib hlib exec from_json s (Draw now inputs) =
     s\<lparr>ss_window := window_step from_json (ss_window s) (Frame now inputs)\<rparr>"
| "session_step lib hlib exec from_json s (Serve k free lfree) =
     (let t = sw_tasks (ss_window s) ! k in
        if k \<ge> length (sw_tasks (ss_window s)) \<or> \<not> waits t s then s
        else
          let (answer, m) = serve_envelope lib exec free lfree
                (envelope_new (cl_next_id (sw_service (ss_window s))) (task_request t)) (ss_manager s)
          in s\<lparr>ss_manager := m, ss_answered := ss_answered s @ [(t, en_payload answer)],
               ss_unseen_rotation := (ss_unseen_rotation s
                 \<or> t = TaskRotate \<and> (response_state (en_payload answer) = None \<or> token_under_way s))\<rparr>)"
| "session_step lib hlib exec from_json s (Returns k j) =
     (if k \<ge> length (sw_tasks (ss_window s)) \<or> j \<ge> length (ss_answered s)
         \<or> fst (ss_answered s ! j) \<noteq> sw_tasks (ss_window s) ! k then s
      else s\<lparr>ss_window := window_step from_json (ss_window s) (TaskReturns (reply_channel (snd (ss_answered s ! j))) k),
             ss_answered := without j (ss_answered s)\<rparr>)"
| "session_step lib hlib exec from_json s (Fails k failure lost) =
     (let t = sw_tasks (ss_window s) ! k in
        if k \<ge> length (sw_tasks (ss_window s)) \<or> is_ok (call_worker failure)
          \<or> (case lost of None \<Rightarrow> \<not> waits t s
              | Some j \<Rightarrow> j \<ge> length (ss_answered s) \<or> fst (ss_answered s ! j) \<noteq> t) then s
        else s\<lparr>ss_window := window_step from_json (ss_window s) (TaskReturns (\<lambda>_. failure) k),
               ss_answered := (case lost of None \<Rightarrow> ss_answered s | Some j \<Rightarrow> without j (ss_answered s)),
               ss_unseen_rotation := (ss_unseen_rotation s \<or> t = TaskRotate)\<rparr>)"
| "session_step lib hlib exec from_json s (Wakes k) =
     s\<lparr>ss_window := window_step from_json (ss_window s) (TaskWakes k)\<rparr>"
| "session_step lib hlib exec from_json s (Elsewhere operation) =
     s\<lparr>ss_manager := (ss_manager s)\<lparr>mg_system := system_step lib hlib exec (mg_system (ss_manager s)) operation\<rparr>,
       ss_unseen_rotation := (ss_unseen_rotation s \<or> operation = Rotate)\<rparr>"

definition session_start :: "settings_client \<Rightarrow> nat \<Rightarrow> 'x manager \<Rightarrow> 'x session" where
  "session_start service now m =
     \<lparr>ss_window = open_settings service now, ss_manager = m, ss_answered = [], ss_unseen_rotation = False\<rparr>"

section \<open>The token the window will show\<close>

definition shown_token :: "settings_window \<Rightarrow> string option" where
  "shown_token w = sa_pairing_token (sw_app (drain_events w))"

definition daemon_token :: "daemon \<Rightarrow> string option" where
  "daemon_token d = map_option se_token (locked (rt_secrets d))"

fun token_after :: "ui_event \<Rightarrow> string option \<Rightarrow> string option" where
  "token_after (PairingToken r) t = result_ok r"
| "token_after (CredentialsRotated r) t = (if is_ok r then None else t)"
| "token_after _ t = t"

lemma handle_event_token:
  "sa_pairing_token (sw_app (handle_event e w)) = token_after e (sa_pairing_token (sw_app w))"
  by (cases e) (simp_all add: window_updates send_close_def Let_def)

lemma shown_token_fold: "shown_token w = fold token_after (sw_events w) (sa_pairing_token (sw_app w))"
proof -
  have "sa_pairing_token (sw_app (fold handle_event es w')) = fold token_after es (sa_pairing_token (sw_app w'))" for es w'
    by (induction es arbitrary: w') (simp_all add: handle_event_token del: handle_event.simps)
  then show ?thesis by (simp add: shown_token_def drain_events_def)
qed

lemma user_input_token: "sa_pairing_token (sw_app (user_input from_json input w)) = sa_pairing_token (sw_app w)"
proof -
  consider (test) i where "input = ClickTest i" | (rotate) "input = ClickRotate" | (run) "input = ClickRunTest"
    | (cancel) "input = ClickCancelTest \<or> input = ClickCancelRotation" | (confirm) "input = ClickConfirmRotation"
    | (other) "\<forall>i. input \<noteq> ClickTest i" "input \<noteq> ClickRotate" "\<not> is_dialog_input input"
    by (auto simp: is_dialog_input_def)
  then show ?thesis
  proof cases
    case test
    then show ?thesis using ask_test [of from_json _ w] by (auto simp: Let_def)
  next
    case rotate
    then show ?thesis using ask_rotation [of from_json w] by (auto simp: Let_def)
  next
    case run
    then show ?thesis
      by (simp add: run_test Let_def window_updates del: user_input.simps split: option.split sum.split)
  next
    case other
    then show ?thesis using user_input_discreet [of input] by (auto simp: discreet_def)
  qed (auto simp: answer_dialogs window_updates simp del: user_input.simps)
qed

lemma user_input_events: "sw_events (user_input from_json input w) = sw_events w"
  using user_input_effect [of w from_json input] by (auto simp: user_effect_def calm_def submits_def)

lemma inputs_token:
  "sa_pairing_token (sw_app (fold (user_input from_json) inputs w)) = sa_pairing_token (sw_app w)
   \<and> sw_events (fold (user_input from_json) inputs w) = sw_events w"
  by (induction inputs arbitrary: w) (simp_all add: user_input_token user_input_events del: user_input.simps)

lemma refresh_due_token: "shown_token (refresh_due now w) = shown_token w"
  by (simp add: shown_token_fold refresh_due_def window_updates)

lemma update_frame_token: "shown_token (update_frame from_json now inputs w) = shown_token w"
proof -
  let ?w = "drain_events (refresh_due now w)"
  have "sa_pairing_token (sw_app (touch_drafts ?w)) = sa_pairing_token (sw_app ?w)" "sw_events (touch_drafts ?w) = []"
    using touch_drafts_discreet [of ?w] touch_drafts_calm [of ?w] drained
    by (simp_all add: discreet_def calm_def)
  then have "shown_token (update_frame from_json now inputs w) = sa_pairing_token (sw_app ?w)"
    by (simp add: shown_token_fold update_frame_def inputs_token)
  then show ?thesis using refresh_due_token [of now w] by (simp add: shown_token_def)
qed

lemma task_returns_token: "shown_token (task_returns channel k w) = shown_token w"
  by (simp add: shown_token_fold task_returns_def split: prod.split)

lemma task_wakes_token:
  assumes "k < length (sw_returned w)"
  shows "shown_token (task_wakes k w) = token_after (sw_returned w ! k) (shown_token w)"
  using assms by (simp add: shown_token_fold task_wakes_def wake_def)

lemma open_settings_token: "shown_token (open_settings service now) = None"
  by (simp add: shown_token_fold open_settings_def settings_app_new_def Let_def)

section \<open>Requests are operations of the system\<close>

fun request_op :: "bool \<Rightarrow> bool \<Rightarrow> request \<Rightarrow> system_op option" where
  "request_op free lfree (ReqTestAction i) = Some (TestAction i free)"
| "request_op free lfree (ReqSetListener b) = Some (SetListener b)"
| "request_op free lfree (ReqSaveActions actions) = Some (SaveActions actions)"
| "request_op free lfree ReqApplyVoiceConfig = Some ApplyVoice"
| "request_op free lfree (ReqSetStartup b) = Some (SetStartup b)"
| "request_op free lfree (ReqReconfigure a p) = Some (Reconfigure a p lfree)"
| "request_op free lfree ReqExportCa = Some ExportCa"
| "request_op free lfree ReqRotateCredentials = Some Rotate"
| "request_op free lfree ReqSnapshot = None"
| "request_op free lfree ReqRevealPairingToken = None"

lemma answer_operation_system:
  "mg_system (snd (answer_operation request operation m)) = (snd (operation (mg_daemon m)), snd (mg_system m))"
  by (cases "operation (mg_daemon m)") (simp add: answer_operation_def Let_def split: sum.split)

lemma dispatch_request_system:
  "mg_system (snd (dispatch_request lib exec free lfree request m)) =
     (case request_op free lfree request of
        None \<Rightarrow> mg_system m
      | Some operation \<Rightarrow> system_step lib hlib exec (mg_system m) operation)"
proof -
  obtain d x where s: "mg_system m = (d, x)" by fastforce
  show ?thesis by (cases request) (simp_all add: answer_operation_system s Let_def split: prod.split)
qed

section \<open>Only a rotation changes the token\<close>

abbreviation keeps_secrets :: "daemon \<Rightarrow> 'r \<times> daemon \<Rightarrow> bool" where
  "keeps_secrets \<equiv> keeps_field rt_secrets"

lemma keeps_save: "rt_secrets d1 = rt_secrets d \<Longrightarrow> keeps_secrets d (save_config lib c d1)"
  by (rule keeps_core_secrets [OF save_config_core])

lemma keeps_start: "rt_secrets d1 = rt_secrets d \<Longrightarrow> keeps_secrets d (start_listener c d1)"
  by (rule keeps_core_secrets [OF start_listener_core])

lemma keeps_stop: "keeps_secrets d (take_and_stop d)"
  using take_and_stop_core [of d "fst (take_and_stop d)" "snd (take_and_stop d)"]
  by (auto simp: keeps_field_def core_def)

lemma set_listener_secrets: "rt_secrets (snd (set_listener lib b d)) = rt_secrets d"
proof -
  have cancelled: "keeps_secrets d (Inl e, snd (call_os d1))" if "rt_secrets d1 = rt_secrets d" for e :: runtime_error and d1
    using core_fields(4) [OF call_os_core [of d1]] that by (simp add: keeps_field_def)
  have enable: "keeps_secrets d (st_match (start_listener c d) (\<lambda>_ d. failed (store_config lib c' d))
      (\<lambda>listener d. st_match (save_config lib c d) (\<lambda>e d. (Inl e, snd (call_os d)))
         (\<lambda>_ d. commit_config c (d\<lparr>rt_listener := Some listener\<rparr>))))" for c c'
    by (intro keeps_st_match keeps_failed store_keeps keeps_start keeps_save cancelled commit_keeps)
      simp_all
  have disable: "keeps_secrets d (st_then (take_and_stop d) (\<lambda>_ d. store_config lib c d))" for c
    by (intro keeps_st_then keeps_stop store_keeps)
  have "keeps_secrets d (set_listener lib b d)"
    unfolding set_listener_def Let_def using enable disable by (simp add: keeps_field_def)
  then show ?thesis by (simp add: keeps_field_def)
qed

lemma daemon_inv_token: "daemon_inv c s d \<Longrightarrow> daemon_token d = Some (se_token s)"
  by (simp add: daemon_token_def daemon_invD(2))

lemma all_or_nothing_token: "all_or_nothing lib c new s d (r, d') \<Longrightarrow> daemon_token d' = Some (se_token s)"
  by (auto simp: all_or_nothing_def daemon_inv_token split: if_splits option.splits)

lemma reconfigure_token:
  assumes "daemon_inv c s d"
  shows "daemon_token (snd (reconfigure lib a p free d)) = Some (se_token s)"
proof (cases "free \<and> rt_listener d = None")
  case False
  then have "reconfigure lib a p free d = (Inl RuntimeError, d)" by (intro reconfigure_refused) auto
  then show ?thesis using daemon_inv_token [OF assms] by simp
next
  case True
  then have "idle c s d" using assms by (simp add: idle_def)
  from reconfigure_idle [OF this, of lib a p]
  have "\<exists>c' s'. daemon_inv c' s' (snd (reconfigure lib a p True d)) \<and> se_token s' = se_token s"
    using daemon_inv_core [of "snd (reconfigure lib a p True d)" d c s] assms
    by (auto simp: reconfigure_outcome_def idle_def split: prod.splits if_splits)
  then show ?thesis using True daemon_inv_token by fastforce
qed

lemma put_http_secrets: "rt_secrets (put_http_state state d) = rt_secrets d"
  by (simp add: put_http_state_def)

lemma system_step_token:
  assumes "daemon_ok (fst s)" and "operation \<noteq> Rotate"
  shows "daemon_token (fst (system_step lib hlib exec s operation)) = daemon_token (fst s)"
proof -
  obtain d x where s: "s = (d, x)" by fastforce
  obtain c se where inv: "daemon_inv c se d" using assms(1) daemon_ok_inv by (auto simp: s)
  note token = daemon_inv_token [OF inv]
  have outcome: "daemon_token (snd rs) = Some (se_token se)" if "all_or_nothing lib c new se d rs" for new rs
    using that all_or_nothing_token [of lib c new se d "fst rs" "snd rs"] by simp
  show ?thesis
  proof (cases operation)
    case (SaveActions actions)
    then show ?thesis using outcome [OF save_actions_outcome [OF inv]] token by (simp add: s)
  next
    case ApplyVoice
    then show ?thesis using outcome [OF apply_voice_outcome [OF inv]] token by (simp add: s)
  next
    case (SetStartup b)
    then show ?thesis using outcome [OF start_after_login_outcome [OF inv]] token by (simp add: s)
  next
    case (SetListener b)
    then show ?thesis by (simp add: s daemon_token_def set_listener_secrets)
  next
    case (Reconfigure a p free)
    then show ?thesis using reconfigure_token [OF inv] token by (simp add: s)
  next
    case ExportCa
    then show ?thesis using daemon_inv_token [OF export_ca_ends [OF inv]] token by (simp add: s)
  next
    case Shutdown
    have "daemon_inv c se (snd (shutdown d))" using shutdown_ends [OF inv] by (simp add: idle_def)
    then show ?thesis using daemon_inv_token token Shutdown by (simp add: s)
  next
    case (TestAction i free)
    then show ?thesis using daemon_inv_token [OF serve_dispatch_ok(3) [OF inv]] token by (simp add: s)
  next
    case (HttpMedia free clock headers body)
    then show ?thesis using daemon_inv_token [OF serve_dispatch_ok(1) [OF inv]] token by (simp add: s)
  next
    case (HttpCustom free clock headers body)
    then show ?thesis using daemon_inv_token [OF serve_dispatch_ok(2) [OF inv]] token by (simp add: s)
  next
    case (HttpAck headers body)
    then show ?thesis
      by (simp add: s serve_ack_def daemon_token_def put_http_secrets split: option.split prod.split)
  qed (use assms(2) in simp)
qed

section \<open>The invariant of a session\<close>

text \<open>A task is one call of the client, its request is the one above.\<close>

lemma snd_st_then: "(\<And>a s. snd (f a s) = s) \<Longrightarrow> snd (st_then rs f) = snd rs"
  by (cases rs; cases "fst rs") auto

lemma snd_st_match: "(\<And>a s. snd (f a s) = s) \<Longrightarrow> (\<And>e s. snd (g e s) = s) \<Longrightarrow> snd (st_match rs g f) = snd rs"
  by (cases rs; cases "fst rs") auto

lemma client_call_snd: "snd (client_call channel request c) = snd (call_raw channel request c)"
  unfolding client_call_def by (rule snd_st_then) simp

lemma applied_snd: "snd (applied channel request c) = snd (call_raw channel request c)"
  unfolding applied_def by (subst snd_st_then) (simp_all add: client_call_snd)

lemma run_task_client: "snd (run_task channel t c) = snd (call_raw channel (task_request t) c)"
  by (cases t)
    (simp_all add: client_set_listener_def client_save_actions_def client_apply_voice_config_def
      client_set_start_after_login_def client_reconfigure_def client_rotate_credentials_def
      client_test_action_def client_token_def client_export_ca_def refresh_def applied_snd client_call_snd
      snd_st_then snd_st_match split_def Let_def)

lemma call_raw_reply:
  assumes "cl_state c = Sound old"
  shows "call_raw (reply_channel response) request c =
    (Inr response, c\<lparr>cl_next_id := cl_next_id c + 1,
       cl_state := Sound (case response_state response of None \<Rightarrow> old | Some state \<Rightarrow> state)\<rparr>)"
  using assms
  by (cases "response_state response")
    (simp_all add: call_raw_def next_request_def reply_channel_def call_worker_def check_envelope_def replace_state_def)

lemma call_raw_fails:
  assumes "\<not> is_ok (call_worker failure)"
  shows "\<exists>e. call_raw (\<lambda>_. failure) request c = (Inl e, c\<lparr>cl_next_id := cl_next_id c + 1\<rparr>)"
  using assms by (cases "call_worker failure") (simp_all add: call_raw_def next_request_def)

lemma run_task_sound:
  assumes "cl_state c = Sound old"
  shows "\<exists>state. cl_state (snd (run_task (reply_channel response) t c)) = Sound state"
    and "\<not> is_ok (call_worker failure) \<Longrightarrow> \<exists>state. cl_state (snd (run_task (\<lambda>_. failure) t c)) = Sound state"
  using call_raw_reply [OF assms, of response "task_request t"] call_raw_fails [of failure "task_request t" c] assms
  by (auto simp: run_task_client)

text \<open>The events of the two tasks that bear on the token, and of the others.\<close>

fun response_token :: "response \<Rightarrow> string option" where
  "response_token (RespPairingToken t) = Some t"
| "response_token _ = None"

lemma run_task_token:
  assumes "cl_state c = Sound old"
  shows "\<exists>r. fst (run_task (reply_channel response) TaskToken c) = PairingToken r \<and> result_ok r = response_token response"
    and "\<not> is_ok (call_worker failure) \<Longrightarrow> \<exists>e. fst (run_task (\<lambda>_. failure) TaskToken c) = PairingToken (Inl e)"
  using call_raw_reply [OF assms, of response ReqRevealPairingToken] call_raw_fails [of failure ReqRevealPairingToken c]
  by (cases response; auto simp: client_token_def client_call_def)+

lemma run_task_rotate:
  assumes "cl_state c = Sound old"
  shows "fst (run_task (reply_channel (RespApplied state)) TaskRotate c) = CredentialsRotated (Inr ())"
  using call_raw_reply [OF assms, of "RespApplied state" ReqRotateCredentials]
  by (simp add: client_rotate_credentials_def applied_def client_call_def)

lemma run_task_rotation: "is_rotation_event (fst (run_task channel TaskRotate c))"
  by (simp split: prod.split)

lemma run_task_other:
  assumes "t \<noteq> TaskToken" and "t \<noteq> TaskRotate"
  shows "\<not> is_token_event (fst (run_task channel t c)) \<and> \<not> is_rotation_event (fst (run_task channel t c))"
  using assms by (cases t) (simp_all split: prod.split)

section \<open>The invariant of a session\<close>

text \<open>Unless a rotation went unseen: what is on its way to the window agrees with the token \<open>tok\<close>.\<close>

definition answer_ok :: "string option \<Rightarrow> ui_task \<times> response \<Rightarrow> bool" where
  "answer_ok tok = (\<lambda>(t, a).
     (t = TaskToken \<longrightarrow> response_token a \<in> {None, tok}) \<and> (t = TaskRotate \<longrightarrow> (\<exists>state. a = RespApplied state)))"

fun event_ok :: "string option \<Rightarrow> ui_event \<Rightarrow> bool" where
  "event_ok tok (PairingToken r) = (result_ok r \<in> {None, tok})"
| "event_ok tok (CredentialsRotated r) = is_ok r"
| "event_ok tok _ = True"

lemma event_ok_other: "\<not> is_token_event e \<Longrightarrow> \<not> is_rotation_event e \<Longrightarrow> event_ok tok e"
  by (cases e) simp_all

lemma event_ok_unless_token: "event_ok tok e \<Longrightarrow> \<not> is_token_event e \<Longrightarrow> event_ok tok' e"
  by (cases e) simp_all

definition tokens_ok :: "'x session \<Rightarrow> bool" where
  "tokens_ok s \<longleftrightarrow>
     (let tok = daemon_token (mg_daemon (ss_manager s)) in
        list_all (answer_ok tok) (ss_answered s)
      \<and> list_all (event_ok tok) (sw_returned (ss_window s))
      \<and> (rotation_under_way s \<or> shown_token (ss_window s) \<in> {None, tok}))"

definition session_ok :: "'x session \<Rightarrow> bool" where
  "session_ok s \<longleftrightarrow>
     daemon_ok (mg_daemon (ss_manager s))
   \<and> slots_ok (ss_window s)
   \<and> (\<exists>state. cl_state (sw_service (ss_window s)) = Sound state)
   \<and> (ss_unseen_rotation s \<or> tokens_ok s)"

lemma update_frame_service:
  "sw_service (update_frame from_json now inputs w) = sw_service w"
  "sw_returned (update_frame from_json now inputs w) = sw_returned w"
proof -
  have user: "user_effect w w' \<Longrightarrow> sw_service w' = sw_service w \<and> sw_returned w' = sw_returned w" for w w'
    by (auto simp: user_effect_def calm_def submits_def)
  have inputs: "sw_service (fold (user_input from_json) inputs w) = sw_service w
      \<and> sw_returned (fold (user_input from_json) inputs w) = sw_returned w" for w
    by (induction inputs arbitrary: w) (simp_all add: user [OF user_input_effect] del: user_input.simps)
  have "sw_service (fold handle_event es w) = sw_service w \<and> sw_returned (fold handle_event es w) = sw_returned w" for es w
    by (induction es arbitrary: w) (simp_all del: handle_event.simps)
  then show "sw_service (update_frame from_json now inputs w) = sw_service w"
    "sw_returned (update_frame from_json now inputs w) = sw_returned w"
    by (simp_all add: update_frame_def inputs user [OF calm_effect [OF touch_drafts_calm]] drain_events_def
        user [OF refresh_due_effect])
qed

lemma list_ex_without:
  "list_ex P xs \<Longrightarrow> \<not> P (xs ! k) \<Longrightarrow> list_ex P (without k xs)"
proof -
  assume "list_ex P xs" and no: "\<not> P (xs ! k)"
  then obtain i where i: "i < length xs" "P (xs ! i)" by (auto simp: list_ex_iff in_set_conv_nth)
  show ?thesis
  proof (cases "k < length xs")
    case True
    have "xs ! i \<in> set (take k xs @ xs ! k # drop (Suc k) xs)"
      using i(1) id_take_nth_drop [OF True] nth_mem by metis
    then show ?thesis using i no by (auto simp: list_ex_iff without_def)
  qed (use i in \<open>auto simp: list_ex_iff without_def\<close>)
qed

lemma list_all_without: "list_all P xs \<Longrightarrow> list_all P (without k xs)"
  by (auto simp: list_all_iff dest: in_without)

lemma session_serve:
  assumes "random_ok lib" and "session_ok s"
  shows "session_ok (session_step lib hlib exec from_json s (Serve k free lfree))"
proof -
  define t where "t = sw_tasks (ss_window s) ! k"
  define m where "m = ss_manager s"
  define tok where "tok = daemon_token (mg_daemon m)"
  obtain response m' where op: "dispatch_request lib exec free lfree (task_request t) m = (response, m')" by fastforce
  define s' where "s' = s\<lparr>ss_manager := m', ss_answered := ss_answered s @ [(t, response)],
      ss_unseen_rotation := (ss_unseen_rotation s \<or> t = TaskRotate \<and> (response_state response = None \<or> token_under_way s))\<rparr>"
  have ok: "daemon_ok (mg_daemon m)" using assms(2) by (simp add: session_ok_def m_def)
  have daemon: "daemon_ok (mg_daemon m')" by (rule dispatch_request_ok [OF op ok assms(1)])
  have system: "mg_system m' = (case request_op free lfree (task_request t) of
        None \<Rightarrow> mg_system m | Some operation \<Rightarrow> system_step lib undefined exec (mg_system m) operation)"
    using dispatch_request_system [of lib exec free lfree "task_request t" m undefined] op by simp
  have "ss_unseen_rotation s' \<or> tokens_ok s'"
  proof (cases "ss_unseen_rotation s'")
    case quiet: False
    then have toks: "list_all (answer_ok tok) (ss_answered s)" "list_all (event_ok tok) (sw_returned (ss_window s))"
      "rotation_under_way s \<or> shown_token (ss_window s) \<in> {None, tok}"
      using assms(2) by (auto simp: session_ok_def s'_def tokens_ok_def tok_def m_def Let_def)
    show ?thesis
    proof (cases "t = TaskRotate")
      case True
      then obtain state where state: "response = RespApplied state"
        using quiet op answer_operation_cases [of ReqRotateCredentials "rotate_credentials lib" m response m']
        by (auto simp: s'_def split: if_splits)
      have none: "list_all (\<lambda>(t, a). t \<noteq> TaskToken) (ss_answered s)"
        "list_all (\<lambda>e. \<not> is_token_event e) (sw_returned (ss_window s))"
        using quiet True by (auto simp: s'_def token_under_way_def list_all_iff list_ex_iff)
      have "answer_ok tok' a" if "a \<in> set (ss_answered s)" for a tok'
        using that toks(1) none(1) by (auto simp: list_all_iff answer_ok_def split_def)
      moreover have "event_ok tok' e" if "e \<in> set (sw_returned (ss_window s))" for e tok'
        using that toks(2) none(2) event_ok_unless_token by (auto simp: list_all_iff)
      ultimately show ?thesis
        by (auto simp: tokens_ok_def s'_def list_all_iff True state answer_ok_def rotation_under_way_def Let_def)
    next
      case other: False
      have same: "daemon_token (mg_daemon m') = tok"
        using system_step_token [of "mg_system m" _ lib undefined exec] ok other
        by (cases t) (simp_all add: system tok_def del: system_step.simps)
      have "response_token response \<in> {None, tok}" if "t = TaskToken"
        using op that by (auto simp: token_for_pairing_def tok_def daemon_token_def ok_or_def split: option.splits)
      then have "answer_ok tok (t, response)" using other by (simp add: answer_ok_def)
      then show ?thesis using toks same other
        by (auto simp: tokens_ok_def s'_def rotation_under_way_def Let_def)
    qed
  qed simp
  then have "session_ok s'" using assms(2) daemon by (simp add: session_ok_def s'_def)
  then show ?thesis using assms(2) op
    by (simp add: serve_envelope_current Let_def s'_def t_def m_def)
qed

text \<open>A call returns: the event is what the channel makes of the task.\<close>

lemma session_returns:
  assumes "session_ok s" and k: "k < length (sw_tasks (ss_window s))" "t = sw_tasks (ss_window s) ! k"
    and run: "run_task channel t (sw_service (ss_window s)) = (e, c)" and c: "\<exists>state. cl_state c = Sound state"
    and event: "\<not> unseen \<Longrightarrow> tokens_ok s \<Longrightarrow> event_ok (daemon_token (mg_daemon (ss_manager s))) e"
    and answered: "\<And>P. list_all P (ss_answered s) \<Longrightarrow> list_all P as"
      "list_ex (\<lambda>(t, a). t = TaskRotate) (ss_answered s) \<Longrightarrow> t \<noteq> TaskRotate \<Longrightarrow> list_ex (\<lambda>(t, a). t = TaskRotate) as"
    and unseen: "ss_unseen_rotation s \<Longrightarrow> unseen"
  shows "session_ok (s\<lparr>ss_window := task_returns channel k (ss_window s), ss_answered := as, ss_unseen_rotation := unseen\<rparr>)"
    (is "session_ok ?s")
proof -
  have w: "sw_returned (ss_window ?s) = sw_returned (ss_window s) @ [e]" "sw_service (ss_window ?s) = c"
    using k run by (simp_all add: task_returns_def)
  have rotation: "is_rotation_event e" if "t = TaskRotate"
    using run_task_rotation [of channel "sw_service (ss_window s)"] run that by (simp del: run_task.simps)
  have "tokens_ok ?s" if "\<not> unseen"
  proof -
    have toks: "tokens_ok s" using assms(1) unseen that by (auto simp: session_ok_def)
    have "rotation_under_way s \<Longrightarrow> rotation_under_way ?s"
      using answered(2) rotation w(1) by (cases "t = TaskRotate") (auto simp: rotation_under_way_def)
    then show ?thesis
      using toks event [OF that toks] answered(1) w(1) unfolding tokens_ok_def
      by (auto simp: task_returns_token Let_def)
  qed
  then have "unseen \<or> tokens_ok ?s" by blast
  then show ?thesis using assms(1) c w(2)
    unfolding session_ok_def by (simp add: task_returns_slots)
qed

lemma session_wakes:
  assumes "session_ok s"
  shows "session_ok (s\<lparr>ss_window := task_wakes k (ss_window s)\<rparr>)" (is "session_ok ?s")
proof (cases "k < length (sw_returned (ss_window s))")
  case True
  define e where "e = sw_returned (ss_window s) ! k"
  have w: "sw_returned (ss_window ?s) = without k (sw_returned (ss_window s))" "sw_service (ss_window ?s) = sw_service (ss_window s)"
    using True by (simp_all add: task_wakes_def wake_def)
  have "tokens_ok ?s" if toks: "tokens_ok s"
  proof -
    have event: "event_ok (daemon_token (mg_daemon (ss_manager s))) e"
      using toks True by (auto simp: tokens_ok_def list_all_length e_def Let_def)
    have shown: "shown_token (ss_window ?s) = token_after e (shown_token (ss_window s))"
      using task_wakes_token [OF True] by (simp add: e_def)
    have "rotation_under_way ?s" if "rotation_under_way s" "\<not> is_rotation_event e"
      using that w(1) list_ex_without [of is_rotation_event "sw_returned (ss_window s)" k]
      by (auto simp: rotation_under_way_def e_def)
    then have "rotation_under_way ?s \<or> shown_token (ss_window ?s) \<in> {None, daemon_token (mg_daemon (ss_manager s))}"
      using toks event unfolding shown by (cases e) (auto simp: tokens_ok_def Let_def)
    then show ?thesis using toks list_all_without w(1) by (auto simp: tokens_ok_def Let_def)
  qed
  then show ?thesis using assms w(2) by (auto simp: session_ok_def task_wakes_slots)
qed (use assms in \<open>simp add: task_wakes_def\<close>)

lemma session_step_ok:
  assumes "random_ok lib" and ok: "session_ok s"
  shows "session_ok (session_step lib hlib exec from_json s operation)"
proof (cases operation)
  case (Draw now inputs)
  then show ?thesis
    using ok by (auto simp: session_ok_def update_frame_slots update_frame_service update_frame_token tokens_ok_def
        rotation_under_way_def Let_def)
next
  case (Serve k free lfree)
  then show ?thesis using session_serve [OF assms] by simp
next
  case (Returns k j)
  define t where "t = sw_tasks (ss_window s) ! k"
  define a where "a = snd (ss_answered s ! j)"
  obtain old where old: "cl_state (sw_service (ss_window s)) = Sound old" using ok by (auto simp: session_ok_def)
  obtain e c where run: "run_task (reply_channel a) t (sw_service (ss_window s)) = (e, c)" by fastforce
  show ?thesis
  proof (cases "k < length (sw_tasks (ss_window s)) \<and> j < length (ss_answered s) \<and> fst (ss_answered s ! j) = t")
    case True
    then have answer: "ss_answered s ! j = (t, a)" "(t, a) \<in> set (ss_answered s)"
      using nth_mem [of j "ss_answered s"] by (auto simp: a_def prod_eq_iff)
    have event: "event_ok (daemon_token (mg_daemon (ss_manager s))) e" if "tokens_ok s"
    proof -
      have "answer_ok (daemon_token (mg_daemon (ss_manager s))) (t, a)"
        using that answer(2) by (auto simp: tokens_ok_def list_all_iff Let_def)
      moreover have e: "e = fst (run_task (reply_channel a) t (sw_service (ss_window s)))" using run by simp
      ultimately show ?thesis
        using run_task_token(1) [OF old, of a] run_task_rotate [OF old] event_ok_other [OF run_task_other [THEN conjunct1] run_task_other [THEN conjunct2]]
        by (cases "t = TaskToken"; cases "t = TaskRotate") (auto simp: answer_ok_def simp del: run_task.simps)
    qed
    have "session_ok (s\<lparr>ss_window := task_returns (reply_channel a) k (ss_window s),
        ss_answered := without j (ss_answered s), ss_unseen_rotation := ss_unseen_rotation s\<rparr>)"
      using True answer(1) run_task_sound(1) [OF old, of a t] run list_ex_without [of _ "ss_answered s" j]
      by (intro session_returns [OF ok _ t_def run]) (auto simp: event list_all_without)
    then show ?thesis using True Returns by (simp add: t_def a_def)
  next
    case False
    then have "session_step lib hlib exec from_json s operation = s" using Returns by (auto simp: t_def)
    then show ?thesis using ok by simp
  qed
next
  case (Fails k failure lost)
  define t where "t = sw_tasks (ss_window s) ! k"
  define as where "as = (case lost of None \<Rightarrow> ss_answered s | Some j \<Rightarrow> without j (ss_answered s))"
  obtain old where old: "cl_state (sw_service (ss_window s)) = Sound old" using ok by (auto simp: session_ok_def)
  obtain e c where run: "run_task (\<lambda>_. failure) t (sw_service (ss_window s)) = (e, c)" by fastforce
  define blocked where "blocked \<longleftrightarrow> k \<ge> length (sw_tasks (ss_window s)) \<or> is_ok (call_worker failure)
          \<or> (case lost of None \<Rightarrow> \<not> waits t s
              | Some j \<Rightarrow> j \<ge> length (ss_answered s) \<or> fst (ss_answered s ! j) \<noteq> t)"
  show ?thesis
  proof (cases blocked)
    case True
    then have "session_step lib hlib exec from_json s operation = s" using Fails
      by (simp only: session_step.simps Let_def blocked_def t_def if_True)
    then show ?thesis using ok by simp
  next
    case False
    then have fails: "k < length (sw_tasks (ss_window s))" "\<not> is_ok (call_worker failure)"
      by (auto simp: blocked_def)
    have event: "event_ok (daemon_token (mg_daemon (ss_manager s))) e" if "t \<noteq> TaskRotate"
      using that run run_task_token(2) [OF old fails(2)] run_task_other [of t "\<lambda>_. failure" "sw_service (ss_window s)"]
        event_ok_other [of e]
      by (cases "t = TaskToken") (auto simp del: run_task.simps)
    have "list_ex (\<lambda>(t, a). t = TaskRotate) as"
      if "list_ex (\<lambda>(t, a). t = TaskRotate) (ss_answered s)" "t \<noteq> TaskRotate"
    proof (cases lost)
      case (Some j)
      then show ?thesis using that False list_ex_without [OF that(1), of j]
        by (auto simp: as_def blocked_def split_def)
    qed (use that in \<open>simp add: as_def\<close>)
    moreover have "list_all P as" if "list_all P (ss_answered s)" for P
      using that by (auto simp: as_def list_all_without split: option.split)
    ultimately have "session_ok (s\<lparr>ss_window := task_returns (\<lambda>_. failure) k (ss_window s), ss_answered := as,
        ss_unseen_rotation := (ss_unseen_rotation s \<or> t = TaskRotate)\<rparr>)"
      using run_task_sound(2) [OF old fails(2), of t] run
      by (intro session_returns [OF ok fails(1) t_def run]) (auto simp: event)
    moreover have "session_step lib hlib exec from_json s operation =
        s\<lparr>ss_window := task_returns (\<lambda>_. failure) k (ss_window s), ss_answered := as,
          ss_unseen_rotation := (ss_unseen_rotation s \<or> t = TaskRotate)\<rparr>"
      using False Fails by (simp only: session_step.simps Let_def blocked_def t_def as_def if_False window_step.simps)
    ultimately show ?thesis by simp
  qed
next
  case (Wakes k)
  then show ?thesis using session_wakes [OF ok] by simp
next
  case (Elsewhere op)
  have daemon: "daemon_ok (mg_daemon (ss_manager s))" using ok by (simp add: session_ok_def)
  then have "daemon_ok (fst (system_step lib hlib exec (mg_system (ss_manager s)) op))"
    by (rule system_step_ok [OF assms(1)])
  moreover have "op \<noteq> Rotate \<Longrightarrow> daemon_token (fst (system_step lib hlib exec (mg_system (ss_manager s)) op)) =
      daemon_token (mg_daemon (ss_manager s))"
    by (rule system_step_token [OF daemon])
  ultimately show ?thesis using ok Elsewhere
    by (cases "op = Rotate") (auto simp: session_ok_def tokens_ok_def rotation_under_way_def Let_def
        simp del: system_step.simps)
qed

interpretation session: stepper "session_step lib hlib exec from_json" "\<lambda>s. random_ok lib \<longrightarrow> session_ok s"
  for lib hlib from_json and exec :: "'x executor"
  by unfold_locales (auto intro: session_step_ok)

section \<open>A rotation that fails after it has replaced the token\<close>

text \<open>
  A listener runs, the new secrets are stored, and the listener cannot be started again: the answer is
  an error although the token is a new one. The window goes on showing the old token, which nobody
  accepts any more.
\<close>

definition cannot_restart :: "listener_task \<Rightarrow> io_kind \<Rightarrow> daemon" where
  "cannot_restart l k = example_daemon\<lparr>rt_listener := Some l,
      os_world := \<lparr>files = Map.empty, answers = [None, None, None, None, None, Some k]\<rparr>\<rparr>"

lemma failed_rotation_shows_stale_token:
  "isl (fst (rotate_credentials example_lib (cannot_restart l k)))
    \<and> daemon_token (cannot_restart l k) = Some (se_token example_secrets)
    \<and> daemon_token (snd (rotate_credentials example_lib (cannot_restart l k))) = Some (token_bytes (generate (replicate 32 0)))
    \<and> token_bytes (generate (replicate 32 0)) \<noteq> se_token example_secrets
    \<and> sa_pairing_token (sw_app (handle_event (CredentialsRotated (Inl e)) w)) = sa_pairing_token (sw_app w)"
proof -
  define d where "d = cannot_restart l k"
  have crypt: "protect (\<lambda>encrypt text. Some text) ''s'' = Some ''s''"
    by (simp add: protect_def transform_def u32_max_def)
  have token: "parse_token (token_bytes (generate (replicate 32 0))) \<noteq> None"
    "token_bytes (generate (replicate 32 0)) \<noteq> replicate 64 CHR ''a''"
    by code_simp+
  obtain tk where tk: "parse_token (token_bytes (generate (replicate 32 0))) = Some tk" using token(1) by blast
  define q where "q = (\<lambda>xs. \<lparr>files = Map.empty, answers = xs\<rparr> :: world)"
  define s' where "s' = \<lparr>se_token = token_bytes (generate (replicate 32 0)), se_host = ip_to_string (ac_bind_address example_published),
      se_certificate_pem = ''cert'', se_server_key_pem = ''key'', se_ca_certificate_pem = ''ca'', se_ca_key_pem = ''cakey''\<rparr>"
  have stop: "take_and_stop d = (Inr True, example_daemon\<lparr>os_world := q [None, None, None, None, Some k]\<rparr>)"
    by (simp add: d_def cannot_restart_def take_and_stop_def example_daemon_def on_world_def io_step_def ask_def q_def)
  have fresh: "new_secrets example_lib example_published (example_daemon\<lparr>os_world := x\<rparr>) =
      (Inr s', example_daemon\<lparr>os_world := x, os_draws := 2\<rparr>)" for x
    by (simp add: new_secrets_def provision_def draw_token_def example_lib_def s'_def example_daemon_def)
  have saved: "save_secrets example_lib (example_daemon\<lparr>os_world := q [None, None, None, None, Some k], os_draws := 2, rt_secrets := Sound s'\<rparr>) =
      (Inr (), example_daemon\<lparr>os_world := \<lparr>files = [secrets_path example_daemon \<mapsto> ''s''], answers = [Some k]\<rparr>, os_draws := 2, rt_secrets := Sound s'\<rparr>)"
    using example_paths crypt
    by (simp add: save_secrets_def example_lib_def on_world_def atomic_write_def io_step_def ask_def q_def example_daemon_def)
  have start: "start_listener example_published (example_daemon\<lparr>os_world := \<lparr>files = f, answers = [Some k]\<rparr>, os_draws := 2, rt_secrets := Sound s'\<rparr>) =
      (Inl RuntimeError, example_daemon\<lparr>os_world := \<lparr>files = f, answers = []\<rparr>, os_draws := 2, rt_secrets := Sound s'\<rparr>)" for f
    using tk by (simp add: start_listener_def on_world_def io_step_def ask_def s'_def example_daemon_def)
  define d1 where "d1 = example_daemon\<lparr>os_world := \<lparr>files = [secrets_path example_daemon \<mapsto> ''s''], answers = []\<rparr>,
      os_draws := 2, rt_secrets := Sound s'\<rparr>"
  have config: "config_of d = example_published" by (simp add: config_of_def d_def cannot_restart_def example_daemon_def)
  have swap: "set_secrets s' (example_daemon\<lparr>os_world := x, os_draws := 2\<rparr>) =
      (Inr (), example_daemon\<lparr>os_world := x, os_draws := 2, rt_secrets := Sound s'\<rparr>)" for x
    by (simp add: set_secrets_def example_daemon_def)
  have sound: "locked (rt_secrets example_daemon) = Some example_secrets"
    by (simp add: example_daemon_def)
  have rotate: "rotate_credentials example_lib d =
      failed (store_config example_lib (example_published\<lparr>ac_listener_enabled := False\<rparr>) d1)"
    unfolding rotate_credentials_def config Let_def stop d1_def
    by (simp add: fresh swap sound saved start)
  have "keeps_secrets d1 (rotate_credentials example_lib d)"
    unfolding rotate by (rule keeps_failed [OF store_keeps(2)]) simp
  then have "rt_secrets (snd (rotate_credentials example_lib d)) = Sound s'" by (simp add: keeps_field_def d1_def)
  moreover have "isl (fst (failed rs))" for rs :: "(runtime_error, unit) result \<times> daemon"
    by (cases rs; cases "fst rs") (auto simp: failed_def)
  moreover have "daemon_token d = Some (se_token example_secrets)"
    by (simp add: daemon_token_def d_def cannot_restart_def example_daemon_def)
  ultimately show ?thesis
    using token(2) by (simp add: rotate flip: d_def) (simp add: daemon_token_def s'_def example_secrets_def window_updates)
qed

section \<open>A rotation that overtakes the token\<close>

text \<open>
  The user shows the token and then rotates the credentials. The daemon answers the two tasks in this
  order, but the rotation's task goes on first: it clears the shown token, and then the other task
  brings the old one, although both calls succeeded.
\<close>

definition overtaken_token :: "session_op list" where
  "overtaken_token =
     [Draw 0 [SelectTab Connection, ClickShowToken, ClickRotate, ClickConfirmRotation],
      Serve 0 True True, Serve 1 True True, Returns 1 1, Wakes 0, Returns 0 0, Wakes 0]"

lemma example_rotate_dispatch:
  obtains m' :: "nat manager" where
    "dispatch_request example_lib example_exec True True ReqRotateCredentials example_manager = (RespApplied (mg_snapshot m'), m')"
    "daemon_token (mg_daemon m') = Some (token_bytes (generate (replicate 32 0)))"
proof -
  obtain d where d: "rotate_credentials example_lib example_daemon = (Inr (), d)" using example_rotation by blast
  then obtain m' :: "nat manager" where op: "dispatch_request example_lib example_exec True True ReqRotateCredentials example_manager =
      (RespApplied (mg_snapshot m'), m')" "mg_daemon m' = d"
    by (simp add: answer_operation_def example_manager_def)
  have "daemon_token d = Some (token_bytes (generate (replicate 32 0)))"
    using rotate_credentials_installs [OF example_daemon_inv _ d] by (auto simp: example_lib_def daemon_inv_token)
  then show thesis using that op by blast
qed

lemma overtaken_token_run:
  "let s = foldl (session_step example_lib example_http_lib example_exec from_json)
     (session_start initial_client 0 example_manager) overtaken_token in
     shown_token (ss_window s) = Some (se_token example_secrets)
   \<and> daemon_token (mg_daemon (ss_manager s)) = Some (token_bytes (generate (replicate 32 0)))
   \<and> sw_tasks (ss_window s) = [] \<and> ss_answered s = [] \<and> sw_returned (ss_window s) = []"
proof -
  let ?w = "on_app (\<lambda>a. a\<lparr>sa_tab := Connection, sa_confirm_rotation := False\<rparr>) (open_settings initial_client 0)"
  let ?step = "session_step example_lib example_http_lib example_exec from_json"
  define w where "w = ?w\<lparr>sw_tasks := [TaskToken, TaskRotate]\<rparr>"
  have draw: "update_frame from_json 0 [SelectTab Connection, ClickShowToken, ClickRotate, ClickConfirmRotation]
      (open_settings initial_client 0) = w"
    by (simp add: update_frame_def refresh_due_def drain_events_def touch_drafts_def open_settings_def on_app_def
        settings_app_new_def Let_def is_dialog_input_def w_def spawn_task_def)
  have reveal: "dispatch_request example_lib example_exec True True ReqRevealPairingToken example_manager =
      (RespPairingToken (se_token example_secrets), example_manager)"
    by (simp add: example_manager_def token_for_pairing_def example_daemon_def ok_or_def)
  obtain m' :: "nat manager" where rotate:
      "dispatch_request example_lib example_exec True True ReqRotateCredentials example_manager = (RespApplied (mg_snapshot m'), m')"
      "daemon_token (mg_daemon m') = Some (token_bytes (generate (replicate 32 0)))"
    by (rule example_rotate_dispatch)
  obtain old where old: "cl_state initial_client = Sound old" by (simp add: initial_client_def)
  obtain c where first: "run_task (reply_channel (RespApplied (mg_snapshot m'))) TaskRotate initial_client = (CredentialsRotated (Inr ()), c)"
    using run_task_rotate [OF old, of "mg_snapshot m'"] by (metis prod.collapse)
  obtain new where new: "cl_state c = Sound new"
    using run_task_sound(1) [OF old, of "RespApplied (mg_snapshot m')" TaskRotate] first by (auto simp del: run_task.simps)
  obtain r c' where second: "run_task (reply_channel (RespPairingToken (se_token example_secrets))) TaskToken c = (PairingToken r, c')"
    "result_ok r = Some (se_token example_secrets)"
    using run_task_token(1) [OF new, of "RespPairingToken (se_token example_secrets)"]
    by (metis prod.collapse response_token.simps(1))
  have w: "sw_tasks w = [TaskToken, TaskRotate]" "sw_returned w = []" "sw_events w = []" "sw_service w = initial_client"
    by (simp_all add: w_def open_settings_def on_app_def)
  define s where "s = \<lparr>ss_window = w, ss_manager = example_manager, ss_answered = [], ss_unseen_rotation = False\<rparr>"
  define s' where "s' = \<lparr>ss_window = w, ss_manager = m',
      ss_answered = [(TaskToken, RespPairingToken (se_token example_secrets)), (TaskRotate, RespApplied (mg_snapshot m'))],
      ss_unseen_rotation = True\<rparr>"
  have asked: "?step (session_start initial_client 0 example_manager)
      (Draw 0 [SelectTab Connection, ClickShowToken, ClickRotate, ClickConfirmRotation]) = s"
    by (simp add: session_start_def draw s_def)
  have answered: "?step (?step s (Serve 0 True True)) (Serve 1 True True) = s'"
    by (simp add: s_def s'_def w waits_def serve_envelope_current reveal [simplified] rotate(1) [simplified]
        token_under_way_def Let_def)
  define w1 where "w1 = w\<lparr>sw_service := c, sw_tasks := [TaskToken], sw_events := [CredentialsRotated (Inr ())]\<rparr>"
  define w2 where "w2 = w1\<lparr>sw_service := c', sw_tasks := [], sw_events := [CredentialsRotated (Inr ()), PairingToken r]\<rparr>"
  have rotated: "task_wakes 0 (task_returns (reply_channel (RespApplied (mg_snapshot m'))) 1 w) = w1"
    by (simp add: task_returns_def task_wakes_def wake_def without_def w first w1_def del: run_task.simps)
  have told: "task_wakes 0 (task_returns (reply_channel (RespPairingToken (se_token example_secrets))) 0 w1) = w2"
    by (simp add: task_returns_def task_wakes_def wake_def without_def w second w1_def w2_def del: run_task.simps)
  have one: "?step (?step s' (Returns 1 1)) (Wakes 0) = s'\<lparr>ss_window := w1, ss_answered := [hd (ss_answered s')]\<rparr>"
    by (simp add: s'_def w rotated [unfolded One_nat_def] without_def)
  have two: "?step (?step (s'\<lparr>ss_window := w1, ss_answered := [hd (ss_answered s')]\<rparr>) (Returns 0 0)) (Wakes 0) =
      s'\<lparr>ss_window := w2, ss_answered := []\<rparr>"
    by (simp add: s'_def w1_def) (simp add: told [unfolded w1_def] without_def)
  have "foldl ?step (session_start initial_client 0 example_manager) overtaken_token = s'\<lparr>ss_window := w2, ss_answered := []\<rparr>"
    by (simp only: overtaken_token_def foldl.simps asked answered one two)
  then show ?thesis
    by (simp add: Let_def s'_def rotate(2)) (simp add: w2_def w1_def w second shown_token_fold)
qed

section \<open>Recent activity\<close>

text \<open>The list of the overview: the newest ten outcomes the window knows of, newest first; each is the
  lines of its group, and a single note stands for an empty list.\<close>

definition client_diagnostics :: "settings_client \<Rightarrow> diagnostic_snapshot list" where
  "client_diagnostics c = (case locked (cl_state c) of None \<Rightarrow> [] | Some state \<Rightarrow> sn_diagnostics state)"

definition activity_lines :: "diagnostic_snapshot \<Rightarrow> string list" where
  "activity_lines event =
     [ds_category event]
   @ (case ds_request_id event of None \<Rightarrow> [] | Some i \<Rightarrow> [''Request: '' @ i])
   @ (case ds_action_id event of None \<Rightarrow> [] | Some i \<Rightarrow> [''Action: '' @ i])
   @ (case ds_reason event of None \<Rightarrow> [] | Some r \<Rightarrow> [''Reason: '' @ r])"

definition recent_activity :: "settings_client \<Rightarrow> string list list" where
  "recent_activity c =
     (let events = client_diagnostics c in
        (if events = [] then [[''No commands received yet.'']] else [])
      @ map activity_lines (take 10 (rev events)))"

text \<open>An outcome the daemon records is at the top of the list once the window has its state, above the
  nine that were newest before.\<close>

lemma take_rev_push:
  "length events \<le> 128 \<Longrightarrow> take 10 (rev (push_event e events)) = e # take 9 (rev events)"
  by (cases events) (auto simp: push_event_def)

lemma newest_outcome_on_top:
  assumes "locked (cl_state c) = Some (snapshot d startup_error)"
    and "rt_dispatcher d = record_event i a category r p"
    and "dp_diagnostics p = Sound events" and "length events \<le> 128"
  shows "recent_activity c =
      activity_lines \<lparr>ds_request_id = i, ds_action_id = a, ds_category = category, ds_reason = r\<rparr>
      # map (activity_lines \<circ> diagnostic_snapshot_of) (take 9 (rev events))"
proof -
  define e where "e = \<lparr>de_request_id = i, de_action_id = a, de_category = category, de_reason = r\<rparr>"
  have "diagnostics (rt_dispatcher d) = push_event e events"
    by (simp add: assms(2,3) diagnostics_def record_event_def e_def)
  then have "client_diagnostics c = map diagnostic_snapshot_of (push_event e events)"
    by (simp add: client_diagnostics_def assms(1) snapshot_def)
  moreover have "push_event e events \<noteq> []" by (simp add: push_event_def)
  moreover have "take 10 (rev (map diagnostic_snapshot_of (push_event e events))) =
      diagnostic_snapshot_of e # map diagnostic_snapshot_of (take 9 (rev events))"
    using take_rev_push [OF assms(4), of e] by (simp only: rev_map take_map list.map)
  ultimately show ?thesis
    by (simp add: recent_activity_def Let_def diagnostic_snapshot_of_def e_def)
qed

section \<open>Properties\<close>

text \<open>C7: however the frames of the Settings window, the answers to its tasks, their returns and wakings,
  the requests of the device and the tray interleave, and whatever calls fail, the daemon stays
  consistent, no widget is stuck, and the pairing token the window is about to show is the daemon's
  current one, unless a rotation's answer is on its way to the window, or a rotation answered this
  window an error or nothing, was made elsewhere, or overtook the answer to a task that asked for the
  token.\<close>

theorem window_and_daemon_agree:
  assumes "random_ok lib" and "daemon_ok (mg_daemon m)" and "cl_state service = Sound state"
  shows "let s = foldl (session_step lib hlib exec from_json) (session_start service now m) operations in
      daemon_ok (mg_daemon (ss_manager s)) \<and> slots_ok (ss_window s)
    \<and> (ss_unseen_rotation s \<or> rotation_under_way s
       \<or> shown_token (ss_window s) \<in> {None, daemon_token (mg_daemon (ss_manager s))})"
proof -
  have "session_ok (session_start service now m)"
    using assms(2,3) open_settings_slots [of service now] open_settings_token [of service now]
    by (simp add: session_ok_def session_start_def tokens_ok_def) (simp add: open_settings_def)
  then have "session_ok (foldl (session_step lib hlib exec from_json) (session_start service now m) operations)"
    using session.run_inv [of lib "session_start service now m" hlib exec from_json operations] assms(1) by blast
  then show ?thesis by (auto simp: session_ok_def tokens_ok_def Let_def)
qed

text \<open>A window that asked for the token, was answered and woken.\<close>

definition example_session :: "session_op list" where
  "example_session = [Draw 0 [SelectTab Connection, ClickShowToken], Serve 0 True True, Returns 0 0, Wakes 0]"

definition example_window :: "ui_task list \<Rightarrow> settings_window" where
  "example_window ts = (on_app (\<lambda>a. a\<lparr>sa_tab := Connection\<rparr>) (open_settings initial_client 0))\<lparr>sw_tasks := ts\<rparr>"

lemma example_session_token:
  "let s = foldl (session_step example_lib example_http_lib example_exec from_json)
     (session_start initial_client 0 example_manager) example_session in
     shown_token (ss_window s) = Some (se_token example_secrets) \<and> \<not> ss_unseen_rotation s \<and> \<not> rotation_under_way s"
proof -
  let ?w = "example_window [TaskToken]"
  have draw: "update_frame from_json 0 [SelectTab Connection, ClickShowToken] (open_settings initial_client 0) = ?w"
    by (simp add: update_frame_def refresh_due_def drain_events_def touch_drafts_def open_settings_def on_app_def
        settings_app_new_def Let_def is_dialog_input_def example_window_def spawn_task_def)
  have reveal: "dispatch_request example_lib example_exec True True ReqRevealPairingToken example_manager =
      (RespPairingToken (se_token example_secrets), example_manager)"
    by (simp add: example_manager_def token_for_pairing_def example_daemon_def ok_or_def)
  obtain old where old: "cl_state initial_client = Sound old" by (simp add: initial_client_def)
  obtain r c where run: "run_task (reply_channel (RespPairingToken (se_token example_secrets))) TaskToken initial_client = (PairingToken r, c)"
    "result_ok r = Some (se_token example_secrets)"
    using run_task_token(1) [OF old, of "RespPairingToken (se_token example_secrets)"]
    by (metis prod.collapse response_token.simps(1))
  have w: "sw_tasks ?w = [TaskToken]" "sw_returned ?w = []" "sw_events ?w = []" "sw_service ?w = initial_client"
    by (simp_all add: example_window_def open_settings_def on_app_def)
  define s where "s = \<lparr>ss_window = ?w, ss_manager = example_manager, ss_answered = [], ss_unseen_rotation = False\<rparr>"
  have asked: "session_step example_lib example_http_lib example_exec from_json
      (session_start initial_client 0 example_manager) (Draw 0 [SelectTab Connection, ClickShowToken]) = s"
    by (simp add: session_start_def draw s_def)
  have answered: "session_step example_lib example_http_lib example_exec from_json s (Serve 0 True True) =
      s\<lparr>ss_answered := [(TaskToken, RespPairingToken (se_token example_secrets))]\<rparr>"
    by (simp add: s_def w waits_def serve_envelope_current reveal [simplified] Let_def)
  show ?thesis
    by (simp add: example_session_def asked answered del: session_step.simps)
      (simp add: s_def w task_returns_def task_wakes_def wake_def without_def shown_token_fold rotation_under_way_def
        run del: run_task.simps)
qed

theorem window_and_daemon_agree_witness:
  "let s = foldl (session_step example_lib example_http_lib example_exec (\<lambda>text. None))
       (session_start initial_client 0 example_manager) example_session in
     daemon_ok (mg_daemon (ss_manager s)) \<and> \<not> ss_unseen_rotation s \<and> \<not> rotation_under_way s
   \<and> shown_token (ss_window s) = Some (se_token example_secrets)"
proof -
  have random: "random_ok example_lib" by (simp add: random_ok_def example_lib_def)
  obtain state where state: "cl_state initial_client = Sound state" by (simp add: initial_client_def)
  show ?thesis
    using window_and_daemon_agree [OF random example_manager_ok state, of example_http_lib example_exec "\<lambda>text. None" 0 example_session]
      example_session_token [of "\<lambda>text. None"] by (simp add: Let_def)
qed

text \<open>C36: the window's copy of the daemon's state is the answer stored last, not the answer given last. A
  refresh that was answered before a save of no actions, and whose task goes on after it, puts the old
  actions back, although both calls succeeded and nothing else happened. A click on the checkbox of an
  action that is still listed then submits a save in which the removed action exists again.\<close>

theorem overtaken_answer_wins:
  "\<exists>s. s = foldl (call_step example_lib example_http_lib example_exec)
          (calls_start initial_client example_manager) overtaking
    \<and> list_all (\<lambda>(c, r). is_ok r) (ca_returned s) \<and> ca_sending s = [] \<and> ca_awaiting s = []
    \<and> ac_actions (config_of (mg_daemon (ca_manager s))) = []
    \<and> (\<exists>state. cl_state (ca_client s) = Sound state \<and> sn_config state = config_of (mg_daemon example_manager)
       \<and> sw_tasks (user_input from_json (ToggleEnabledBox (ca_id example_action))
             (user_input from_json (SelectTab Actions) (open_settings (ca_client s) now))) =
           [TaskSaveActions [example_action\<lparr>ca_enabled := \<not> ca_enabled example_action\<rparr>]])"
proof -
  obtain m' :: "nat manager" where op:
      "dispatch_request example_lib example_exec True True (ReqSaveActions []) example_manager = (RespApplied (mg_snapshot m'), m')"
      "ac_actions (sn_config (mg_snapshot m')) = []"
    by (rule example_save_dispatch)
  obtain old where old: "cl_state initial_client = Sound old" by (simp add: initial_client_def)
  define s where "s = foldl (call_step example_lib example_http_lib example_exec)
      (calls_start initial_client example_manager) overtaking"
  note run = overtaking_run [OF op(1) old, of example_http_lib, folded s_def, unfolded Let_def]
  have state: "cl_state (ca_client s) = Sound (mg_snapshot example_manager)" by (simp add: run)
  have config: "config_of (mg_daemon example_manager) = example_published"
    using daemon_invD(3) [OF example_daemon_inv] by (simp add: example_manager_def)
  then have "client_config (ca_client s) = example_published"
    by (simp add: client_config_def state snapshot_def)
  then have "sw_tasks (user_input from_json (ToggleEnabledBox (ca_id example_action))
        (user_input from_json (SelectTab Actions) (open_settings (ca_client s) now))) =
      [TaskSaveActions [example_action\<lparr>ca_enabled := \<not> ca_enabled example_action\<rparr>]]"
    by (simp add: open_settings_def settings_app_new_def on_app_def touch_drafts_def is_dialog_input_def actions_input_def
        shown_action_def change_actions_def ui_save_actions_def spawn_task_def example_published_def example_config_def)
  then show ?thesis
    using run op(2) state config
    by (intro exI [of _ s] exI [of _ "mg_snapshot example_manager"]) (simp add: s_def [symmetric] snapshot_def)
qed

end
