(* ===== verification/Spec2Isabelle.thy ===== *)
theory Spec2Isabelle
  imports Daemon_Checks_Windows Daemon_Connections Daemon_Restart Daemon_Run Daemon_Session
begin

text \<open>
  A verification library for the daemon of the ESP32 PC remote: the Rust program under
  src/daemon/src that runs on a Windows PC, takes signed-in commands from an ESP32 over HTTPS,
  carries them out, and is configured from a Settings window that runs as a process of its own.
  The firmware, the dashboard and the other directories of the repository are not part of it.

  \<^bold>\<open>The program's parts and the theories that model them\<close>

  \<^item> Daemon\_Base: the prelude, with nothing of the program: \<open>Result\<close> as a sum with \<open>and_then\<close> and
    \<open>st_then\<close>, 64-bit checked arithmetic, locks that may be poisoned, a file store whose calls succeed
    or fail as a list of answers says, and the locales shared by several components: \<open>stepper\<close> (an
    operation keeps an invariant, so every run does), \<open>permit_pool\<close> (a semaphore), \<open>bounded_log\<close>.
  \<^item> Daemon\_Text, Daemon\_Path, Daemon\_Address: what the program uses of the standard library: strings as
    UTF-8 bytes, trimming, decimal numbers, Windows paths, and reading back the text of IP addresses.
  \<^item> Daemon\_Domain (domain.rs): identifiers, actions, voice commands and every validator.
  \<^item> Daemon\_Config (config.rs): the configuration, its validation, publication of the voice table, load
    and save.
  \<^item> Daemon\_Token and Daemon\_Dispatch (application.rs): the pairing token; the cache of request ids, the
    diagnostics, and each operation of the dispatcher as its admission and its completion, the two
    atomic parts its await point separates. Daemon\_Async runs these parts concurrently, as an inductive
    step relation with the read-write lifecycle lock.
  \<^item> Daemon\_Http (http.rs): the checks on a request, the four handlers, the replies, the connection limit.
  \<^item> Daemon\_Ipc (management.rs): frames and messages on a byte stream with faults.
  \<^item> Daemon\_Runtime, Daemon\_Lifecycle (windows\_runtime.rs, secret\_store.rs): the struct \<open>WindowsRuntime\<close>
    with the machine it reaches, loading, every operation and every failure inside it.
  \<^item> Daemon\_Executor (windows\_executor.rs): semaphores, command lines, the supervision of scripts.
  \<^item> Daemon\_System: runtime, executor and HTTPS interface together, one step for each operation.
  \<^item> Daemon\_Server (\<open>router\<close>, \<open>ListenerTask\<close>, \<open>serve_listener\<close> in http.rs): the routes, the body limit,
    the timeout at every await of a handler, the start of a listener and the way it is told to stop.
  \<^item> Daemon\_Disk, Daemon\_Restart (windows\_runtime.rs, secret\_store.rs, config.rs): what a start would
    find on the disk beside what is in memory, and the daemon over any number of lives, with crashes,
    starts that are cut off and restarts, as the inductive predicates \<open>carries_on\<close> and \<open>lived\<close>.
  \<^item> Daemon\_Connections (\<open>serve_listener\<close>): the accepted connections with their permits.
  \<^item> Daemon\_Management (windows\_management.rs): the channel's server and client and the supervisor of the
    Settings process.
  \<^item> Daemon\_Calls (there): the calls of the Settings window as they run at the same time, with the queue,
    the thread on the pipe, replies, time limits and a pipe that breaks.
  \<^item> Daemon\_Spawn (\<open>spawn_settings\<close> and the job object there): the start of the Settings process with
    every failure on the way.
  \<^item> Daemon\_Security (security.rs): the parameters of the certificates and the order of rcgen's calls.
  \<^item> Daemon\_Settings, Daemon\_Clicks (windows\_app.rs): the Settings window, its widgets as inputs with the
    guards under which they react, the tasks it spawns, the events they send, one frame of \<open>update\<close>.
  \<^item> Daemon\_Session: the Settings window on the running daemon: a task's call is answered, returns, and
    the task wakes the window, three steps that interleave with everything else; and the list of recent
    activity.
  \<^item> Daemon\_Tray (\<open>run\<close> in windows\_app.rs, windows\_host.rs, the instance mutex): start-up, the tray's
    signals, the message loop, the toggles it spawns, the supervisor's queue and the way out.
  \<^item> Daemon\_Host (main.rs, windows\_host.rs, windows\_file\_picker.rs): the mode of a process, the host's
    window and messages, the search for the Settings window, the file dialog with every failure.
  \<^item> Daemon\_Run (\<open>run\<close>, \<open>run_settings_mode\<close>, \<open>create_tray\<close> in windows\_app.rs): both processes from their
    first call to their last, with every early return and what leaving the scopes drops.
  \<^item> Daemon\_Checks, Daemon\_Checks\_Windows: the repository's own unit tests, as definitions with the
    tests' names, evaluated on the model.

  A record is the struct of the same name in snake case, with a two-letter prefix on its fields; an
  operation has the name of the Rust function, with a suffix where HOL has a constant of that name or
  where one function has parts. State is passed explicitly; an early return, \<open>?\<close> or poisoned lock is a
  branch of the result.

  \<^bold>\<open>What the lemmas show\<close>

  \<^item> Requests: a custom action answered with success carried the current token, named the published
    revision and an action of the published table, and that action was executed as configured; an id is
    not admitted again before it expires, in any interleaving;
    the caches stay within their bounds; nothing changes without the token; the header check accepts
    exactly the token; the time check has no wrap-around. A request that the timeout drops is not carried
    out again while it lives, and what a dropped acknowledgment leaves behind is stated exactly.
  \<^item> Configuration: validation decides a declarative specification, publication and acknowledgment
    change what they should and nothing else, and memory, dispatcher and disk agree afterwards.
  \<^item> Runtime: one invariant, \<open>daemon_ok\<close>, relates configuration, dispatcher, secrets and the running
    listener; it holds after loading and after every operation with every failure of the machine.
    The listener fails closed; a change of the address that fails leaves memory as it was, and the files
    but for the secrets; a rotation replaces token, certificate, key and authority. The certificates form
    a chain that passes the path validation of RFC 5280.
  \<^item> Restarts: memory and disk stay together through every operation and request with every failure
    (\<open>synced\<close>), so after a crash at any point the next start without failures succeeds with the same
    pairing token and configuration, up to an acknowledgment, and only a rotation changes the token. Starts in which a single call
    fails before both files are read are left out of the history: one that fails to
    read the secrets replaces them, and one after an interrupted change of the address renews the
    certificate authority; both are proved as they are.
  \<^item> Executor: of scripts, media commands and elevated launches no two of a kind overlap; a success means
    that all effects of the action were made; the command line of an elevated
    launch splits back into the arguments, and that of a batch script holds them as literals.
  \<^item> Channel: messages round trip, frames are read exactly, every request is answered once and in order,
    and a successful save is what daemon, disk and window hold. Concurrent calls get the answers to their
    own requests and are performed at most once; their answers may be stored in the wrong order.
  \<^item> Settings window: a pending flag stands for exactly one piece of work under way, disables its widgets
    and becomes free again; nothing is run or revoked without a request and a confirmation; what the form
    submits is valid and as typed; the pairing token about to be shown is the current one, but for a
    rotation that failed, was lost, was made elsewhere, is on its way or overtook the token's answer.
  \<^item> Background process: the invariants above in every interleaving with the tray and the supervisor;
    whatever fails, what was taken is given back in reverse order; an orderly end leaves no Settings
    process unless the supervisor was not waited for, and no listener unless the shutdown fell into a
    rotation or a toggle came after it, which is shown to happen; the file dialog gives back all it took.
  \<^item> Connections: at most eight, and the end of any makes room for the next.
  \<^item> Unit tests: what the repository asserts of the program holds of the model, which checks the model.

  The locales are interpreted on the model: \<open>replay_guard\<close>, \<open>bounded_log\<close> and \<open>stepper\<close> on the cache,
  the ring and every state machine, \<open>permit_pool\<close> on the executor's semaphores and the connection
  limit, \<open>frame_codec\<close> on the frames; the properties use the facts of these interpretations.

  \<^bold>\<open>Parameters and bounds\<close>

  The JSON codecs, the constant-time comparison, DPAPI, rcgen, the random source and the executor of a
  request and axum's routing are arguments; where a result needs something of them it is a named hypothesis (a draw has 32
  bytes; a message, a stored configuration and stored secrets decode to what was encoded, and new
  certificates can be made and stored: \<open>durable_libs\<close>, with the instance \<open>plain_lib\<close>). Windows and file calls answer from lists, an exhausted
  list meaning success. No definition uses fuel: every loop is structural or has a measure; the only
  counter is the forty attempts of \<open>activate_existing_instance\<close>, as in the code. Revisions, times and
  ports are words of their width.

  \<^bold>\<open>Not modelled\<close>

  TLS, HTTP parsing, the matching of routes, the accept loop and the time limits of handshake and headers
  (axum, rustls, hyper); the delegating
  stream around the connection permit; serde's derived codecs and rcgen's certificates as bytes; layout
  and icons of the window, which only draw; what Windows shows, and what it does
  with dialogs, pipes, jobs and processes beyond success, failure and the end of a process with its job;
  unit tests that run the JSON library, start processes or read images.
  In Daemon\_Server the timeout is per request, given with the await at which its time runs out. An
  operation under the lifecycle lock is one step beside the others that take the lock; that the shutdown
  takes only the listener's is modelled by the one order that differs, inside a rotation. What
  still runs when the process ends is cut off there, and its files are those of a crash. The ids of
  calls are matched in Daemon\_Calls; in Daemon\_Session an answer carries the id of its call. A crash is
  the operation with answers that are errors from some call on, which changes the files as far as it came;
  what a file system does with a write under way beyond the atomic replacement is left out. Of the
  round trip of addresses only version 4 is shown, the only version a valid configuration holds.
\<close>

end
